(* ===== verification/Ftrace_Prelude.thy ===== *)
theory Ftrace_Prelude
  imports Main "HOL-Library.Word"
begin

text \<open>
  Shared vocabulary of the development: the C integer types as words, the little-endian
  byte view of a 64-bit cell, byte copies into a fixed-size buffer, the collections of
  facts the component proofs share, and the interface locales that lift facts about one
  step of a machine to whole runs.
\<close>

section \<open>Machine types\<close>

type_synonym u8 = "8 word"
type_synonym u16 = "16 word"
type_synonym u32 = "32 word"
type_synonym u64 = "64 word"

text \<open>A C \<open>long\<close> (the return code of a kernel helper) and a C \<open>int\<close>.\<close>

type_synonym c_long = "64 word"
type_synonym c_int = "32 word"

named_theorems shape_simps \<open>lengths and field values kept by the operations\<close>
named_theorems frame_simps \<open>what an operation leaves unchanged\<close>

section \<open>Bytes\<close>

text \<open>The bytes of a 64-bit cell in x86-64 memory order, and the cell read back.\<close>

definition bytes64 :: "u64 \<Rightarrow> u8 list" where
  "bytes64 w = map (\<lambda>i. ucast (drop_bit (8 * i) w)) [0..<8]"

definition le64 :: "u8 list \<Rightarrow> u64" where
  "le64 bs = foldr (\<lambda>b acc. or (ucast b) (push_bit 8 acc)) bs 0"

text \<open>
  Copying \<open>bs\<close> to the start of a buffer: the bytes behind the copied ones stay.
\<close>

definition overlay :: "'a list \<Rightarrow> 'a list \<Rightarrow> 'a list" where
  "overlay bs dst = bs @ drop (length bs) dst"

lemma length_bytes64 [simp, shape_simps]: "length (bytes64 w) = 8"
  by (simp add: bytes64_def)

lemma length_overlay [shape_simps]:
  "length bs \<le> length dst \<Longrightarrow> length (overlay bs dst) = length dst"
  by (simp add: overlay_def)

lemma overlay_id [simp]: "overlay [] dst = dst"
  by (simp add: overlay_def)

lemma take_overlay: "length bs = n \<Longrightarrow> take n (overlay bs dst) = bs"
  by (simp add: overlay_def)

lemma drop_overlay: "length bs = n \<Longrightarrow> drop n (overlay bs dst) = drop n dst"
  by (simp add: overlay_def)

lemma overlay_whole: "length bs = length dst \<Longrightarrow> overlay bs dst = bs"
  by (simp add: overlay_def)

lemma le64_Cons: "le64 (b # bs) = or (ucast b) (push_bit 8 (le64 bs))"
  by (simp add: le64_def)

lemma le64_Nil [simp]: "le64 [] = 0"
  by (simp add: le64_def)

lemma bytes64_unfold:
  "bytes64 w =
     [ucast w, ucast (drop_bit 8 w), ucast (drop_bit 16 w), ucast (drop_bit 24 w),
      ucast (drop_bit 32 w), ucast (drop_bit 40 w), ucast (drop_bit 48 w),
      ucast (drop_bit 56 w)]"
  by (simp add: bytes64_def upt_rec)

lemma low_byte_split:
  "or (ucast (ucast (w :: u64) :: u8)) (push_bit 8 (drop_bit 8 w)) = w"
proof (rule bit_word_eqI)
  fix n assume n: "n < LENGTH(64)"
  show "bit (or (ucast (ucast w :: u8)) (push_bit 8 (drop_bit 8 w))) n = bit w n"
    using n by (cases "n < 8") (auto simp: bit_simps)
qed

lemma byte_step:
  "or (ucast (ucast (drop_bit n (w :: u64)) :: u8)) (push_bit 8 (drop_bit (n + 8) w))
     = drop_bit n w"
proof -
  have "drop_bit (n + 8) w = drop_bit 8 (drop_bit n w)"
    by (simp add: drop_bit_drop_bit add.commute)
  then show ?thesis using low_byte_split [of "drop_bit n w"] by simp
qed

lemma last_byte: "or (ucast (ucast (drop_bit 56 (w :: u64)) :: u8)) (push_bit 8 0) = drop_bit 56 w"
proof -
  have "drop_bit 64 w = 0"
    by (rule bit_word_eqI) (simp add: bit_simps)
  then show ?thesis using byte_step [of 56 w] by simp
qed

lemma le64_bytes64 [simp]: "le64 (bytes64 w) = w"
  using byte_step [of 48 w] byte_step [of 40 w] byte_step [of 32 w] byte_step [of 24 w]
    byte_step [of 16 w] byte_step [of 8 w] byte_step [of 0 w]
  by (simp add: bytes64_unfold le64_Cons last_byte [simplified])

lemma le64_zeros [simp]: "le64 (replicate n 0) = 0"
  by (induction n) (simp_all add: le64_Cons)

lemma bytes64_zero: "bytes64 0 = replicate 8 0"
  by (simp add: bytes64_unfold numeral_eq_Suc)

section \<open>Fixed-size arrays\<close>

lemma nth_list_update_other [frame_simps]: "i \<noteq> j \<Longrightarrow> (xs[j := v]) ! i = xs ! i"
  by simp

lemma list_all_update:
  "list_all P xs \<Longrightarrow> P v \<Longrightarrow> list_all P (xs[i := v])"
  by (auto simp: list_all_iff dest: set_update_subset_insert [THEN subsetD])

lemma list_all_nth: "list_all P xs \<Longrightarrow> i < length xs \<Longrightarrow> P (xs ! i)"
  by (simp add: list_all_iff)

section \<open>Machines\<close>

text \<open>
  A machine whose every step keeps an invariant keeps it over a whole run. The client
  proves the one-step law for its own step function.
\<close>

locale invariant_machine =
  fixes step :: "'e \<Rightarrow> 's \<Rightarrow> 's"
    and ok :: "'e \<Rightarrow> bool"
    and inv :: "'s \<Rightarrow> bool"
  assumes inv_step: "ok e \<Longrightarrow> inv s \<Longrightarrow> inv (step e s)"
begin

lemma inv_run: "list_all ok es \<Longrightarrow> inv s \<Longrightarrow> inv (fold step es s)"
  by (induction es arbitrary: s) (simp_all add: inv_step)

end

text \<open>
  A machine that makes progress: as long as the goal is not reached, a step keeps the
  invariant and lowers a measure; steps do not leave the goal.
\<close>

locale progress_machine = invariant_machine step ok inv
  for step :: "'e \<Rightarrow> 's \<Rightarrow> 's" and ok :: "'e \<Rightarrow> bool" and inv :: "'s \<Rightarrow> bool" +
  fixes goal :: "'s \<Rightarrow> bool"
    and distance :: "'s \<Rightarrow> nat"
  assumes goal_step: "ok e \<Longrightarrow> inv s \<Longrightarrow> goal s \<Longrightarrow> goal (step e s)"
    and distance_step: "ok e \<Longrightarrow> inv s \<Longrightarrow> \<not> goal s \<Longrightarrow> distance (step e s) < distance s"
begin

lemma goal_run: "list_all ok es \<Longrightarrow> inv s \<Longrightarrow> goal s \<Longrightarrow> goal (fold step es s)"
  by (induction es arbitrary: s) (simp_all add: inv_step goal_step)

lemma goal_reached:
  "list_all ok es \<Longrightarrow> inv s \<Longrightarrow> distance s < length es \<Longrightarrow> goal (fold step es s)"
proof (induction es arbitrary: s)
  case (Cons e es)
  show ?case
  proof (cases "goal s")
    case True
    then show ?thesis using Cons.prems goal_run [of es "step e s"] by (simp add: inv_step goal_step)
  next
    case False
    then have "distance (step e s) < length es"
      using Cons.prems distance_step [of e s] by simp
    then show ?thesis using Cons by (simp add: inv_step)
  qed
qed simp

end

text \<open>
  A machine over a table of cells in which one step only touches the cell its event names,
  and computes the new contents of that cell from the old contents and a part of the state
  no step changes. Then the cells evolve independently: in any interleaving, a cell ends
  up where its own events alone would have brought it.
\<close>

locale keyed_machine =
  fixes step :: "'e \<Rightarrow> 's \<Rightarrow> 's"
    and key :: "'e \<Rightarrow> 'k"
    and view :: "'s \<Rightarrow> 'k \<Rightarrow> 'v"
    and static :: "'s \<Rightarrow> 'c"
    and cell :: "'c \<Rightarrow> 'e \<Rightarrow> 'v \<Rightarrow> 'v"
  assumes view_other: "key e \<noteq> k \<Longrightarrow> view (step e s) k = view s k"
    and view_own: "view (step e s) (key e) = cell (static s) e (view s (key e))"
    and static_step: "static (step e s) = static s"
begin

lemma static_run: "static (fold step es s) = static s"
  by (induction es arbitrary: s) (simp_all add: static_step)

lemma view_step: "view (step e s) k = (if key e = k then cell (static s) e (view s k) else view s k)"
  using view_other view_own by auto

lemma run_other: "k \<notin> key ` set es \<Longrightarrow> view (fold step es s) k = view s k"
  by (induction es arbitrary: s) (auto simp: view_other)

lemma run_projection:
  "view (fold step es s) k = fold (cell (static s)) (filter (\<lambda>e. key e = k) es) (view s k)"
  by (induction es arbitrary: s) (simp_all add: view_step static_step)

end

text \<open>
  A machine with a 64-bit counter: if one step adds its \<open>delta\<close> to the counter, a run adds
  the sum, modulo the width of the counter.
\<close>

fun total :: "('e \<Rightarrow> 's \<Rightarrow> 's) \<Rightarrow> ('e \<Rightarrow> 's \<Rightarrow> nat) \<Rightarrow> 'e list \<Rightarrow> 's \<Rightarrow> nat" where
  "total step delta [] s = 0"
| "total step delta (e # es) s = delta e s + total step delta es (step e s)"

locale counting_machine =
  fixes step :: "'e \<Rightarrow> 's \<Rightarrow> 's"
    and ok :: "'e \<Rightarrow> bool"
    and live :: "'s \<Rightarrow> bool"
    and counter :: "'s \<Rightarrow> u64"
    and delta :: "'e \<Rightarrow> 's \<Rightarrow> nat"
  assumes live_step: "live s \<Longrightarrow> live (step e s)"
    and counter_step: "ok e \<Longrightarrow> live s \<Longrightarrow> counter (step e s) = counter s + of_nat (delta e s)"
begin

lemma counter_run:
  "list_all ok es \<Longrightarrow> live s \<Longrightarrow>
     counter (fold step es s) = counter s + of_nat (total step delta es s)"
  by (induction es arbitrary: s) (simp_all add: counter_step live_step)

end

end
