(* ===== verification/Ftrace_Types.thy ===== *)
theory Ftrace_Types
  imports Ftrace_Prelude
begin

text \<open>
  The data of \<open>src/internal/bpf/ftrace.c\<close>: its constants, its structs as records (one
  field per member, padding members included, each at its C width), the register file the
  probes receive, the maps the program shares with userspace as the state record, and what
  it means for a value to have the shape of its C type (array members of the declared
  length).
\<close>

section \<open>Constants\<close>

definition MAX_DATA_SIZE :: u32 where
  "MAX_DATA_SIZE = 64"

definition ENTPOINT :: u8 where
  "ENTPOINT = 0"

definition RETPOINT :: u8 where
  "RETPOINT = 1"

definition GOROUTINE_EXIT :: u8 where
  "GOROUTINE_EXIT = 2"

definition TRACE_START :: u8 where
  "TRACE_START = 1"

definition TRACE_END :: u8 where
  "TRACE_END = 2"

definition TRACE_ABORT :: u8 where
  "TRACE_ABORT = 4"

definition MAX_SAMPLE_EVENTS :: u32 where
  "MAX_SAMPLE_EVENTS = 4096"

definition ARG_RULE_REG :: u8 where
  "ARG_RULE_REG = 0"

definition ARG_RULE_MEMORY :: u8 where
  "ARG_RULE_MEMORY = 1"

lemmas location_defs = ENTPOINT_def RETPOINT_def GOROUTINE_EXIT_def
lemmas flag_defs = TRACE_START_def TRACE_END_def TRACE_ABORT_def
lemmas rule_type_defs = ARG_RULE_REG_def ARG_RULE_MEMORY_def

section \<open>Structs\<close>

record config =
  cfg_goid_offset :: u64
  cfg_g_offset :: u64
  cfg_pidns_dev :: u64
  cfg_pidns_ino :: u64
  cfg_fetch_args :: bool
  cfg_adaptive_sampling :: bool
  cfg_padding :: "u8 list"

record arg_data =
  ad_data :: "u8 list"
  ad_is_nil :: u8
  ad_read_error :: u8
  ad_padding :: "u8 list"

record event =
  ev_goid :: u64
  ev_ip :: u64
  ev_bp :: u64
  ev_caller_ip :: u64
  ev_caller_bp :: u64
  ev_time_ns :: u64
  ev_pid :: u32
  ev_sample_denominator :: u32
  ev_location :: u8
  ev_arg_count :: u8
  ev_trace_flags :: u8
  ev_padding :: u8
  ev_args :: "arg_data list"

record arg_rule =
  ar_type :: u8
  ar_reg :: u8
  ar_size :: u8
  ar_length :: u8
  ar_offsets :: "16 word list"
  ar_dereference :: "u8 list"
  ar_nil_check :: u8
  ar_iface_data :: u8
  ar_type_idx :: u8

record rel_rule =
  rr_size :: u8
  rr_length :: u8
  rr_nil_check :: u8
  rr_pad :: u8
  rr_offsets :: "16 word list"
  rr_dereference :: "u8 list"

record type_recipe =
  tr_length :: u8
  tr_pad :: "u8 list"
  tr_rules :: "rel_rule list"

record arg_rules =
  ars_length :: u8
  ars_rules :: "arg_rule list"

record goid_key =
  gk_pid :: u32
  gk_pad :: u32
  gk_goid :: u64

record sample_config =
  sc_denominator :: u32
  sc_pad :: u32

record runtime_stats =
  rs_wanted_roots :: u64
  rs_admitted_roots :: u64
  rs_sampled_out_roots :: u64
  rs_emitted_events :: u64
  rs_dropped_events :: u64
  rs_aborted_roots :: u64
  rs_state_insert_failures :: u64

record trace_state =
  ts_root_ip :: u64
  ts_last_ip :: u64
  ts_last_bp :: u64
  ts_root_depth :: u32
  ts_event_count :: u32
  ts_sample_denominator :: u32
  ts_pad :: u32

text \<open>
  The values the program builds with \<open>__builtin_memset(\<dots>, 0, sizeof(\<dots>))\<close>.
\<close>

definition zero_arg_data :: arg_data where
  "zero_arg_data =
     \<lparr>ad_data = replicate 64 0, ad_is_nil = 0, ad_read_error = 0, ad_padding = replicate 6 0\<rparr>"

definition zero_event :: event where
  "zero_event =
     \<lparr>ev_goid = 0, ev_ip = 0, ev_bp = 0, ev_caller_ip = 0, ev_caller_bp = 0, ev_time_ns = 0,
      ev_pid = 0, ev_sample_denominator = 0, ev_location = 0, ev_arg_count = 0,
      ev_trace_flags = 0, ev_padding = 0, ev_args = replicate 8 zero_arg_data\<rparr>"

section \<open>The register file\<close>

text \<open>
  \<open>struct pt_regs\<close> of \<open>headers/vmlinux.h\<close>: the registers at the probe point.
\<close>

record pt_regs =
  ctx_r15 :: u64
  ctx_r14 :: u64
  ctx_r13 :: u64
  ctx_r12 :: u64
  ctx_bp :: u64
  ctx_bx :: u64
  ctx_r11 :: u64
  ctx_r10 :: u64
  ctx_r9 :: u64
  ctx_r8 :: u64
  ctx_ax :: u64
  ctx_cx :: u64
  ctx_dx :: u64
  ctx_si :: u64
  ctx_di :: u64
  ctx_orig_ax :: u64
  ctx_ip :: u64
  ctx_cs :: u64
  ctx_flags :: u64
  ctx_sp :: u64
  ctx_ss :: u64

section \<open>Maps\<close>

text \<open>
  The BPF maps of the program. A hash map is a partial function from keys to values; the
  per-CPU arrays hold their single entry (key 0) per CPU; the queue lists its elements,
  oldest first.
\<close>

record bpf_state =
  arg_rules_map :: "u64 \<rightharpoonup> arg_rules"
  type_recipes_map :: "u64 \<rightharpoonup> type_recipe"
  event_queue :: "event list"
  event_buffer :: "nat \<rightharpoonup> event"
  sample_config_map :: "u32 \<rightharpoonup> sample_config"
  runtime_stats_map :: "nat \<rightharpoonup> runtime_stats"
  should_trace_goid :: "goid_key \<rightharpoonup> trace_state"
  should_trace_rip :: "u64 \<rightharpoonup> bool"
  should_trace_ret :: "u64 \<rightharpoonup> u64"

section \<open>Shapes\<close>

definition arg_data_shape :: "arg_data \<Rightarrow> bool" where
  "arg_data_shape d \<longleftrightarrow> length (ad_data d) = 64 \<and> length (ad_padding d) = 6"

definition event_shape :: "event \<Rightarrow> bool" where
  "event_shape e \<longleftrightarrow> length (ev_args e) = 8 \<and> list_all arg_data_shape (ev_args e)"

definition arg_rule_shape :: "arg_rule \<Rightarrow> bool" where
  "arg_rule_shape r \<longleftrightarrow> length (ar_offsets r) = 8 \<and> length (ar_dereference r) = 8"

definition rel_rule_shape :: "rel_rule \<Rightarrow> bool" where
  "rel_rule_shape r \<longleftrightarrow> length (rr_offsets r) = 8 \<and> length (rr_dereference r) = 8"

definition arg_rules_shape :: "arg_rules \<Rightarrow> bool" where
  "arg_rules_shape rs \<longleftrightarrow> length (ars_rules rs) = 8 \<and> list_all arg_rule_shape (ars_rules rs)"

definition type_recipe_shape :: "type_recipe \<Rightarrow> bool" where
  "type_recipe_shape rec \<longleftrightarrow>
     length (tr_rules rec) = 4 \<and> length (tr_pad rec) = 7 \<and> list_all rel_rule_shape (tr_rules rec)"

lemma zero_arg_data_shape [simp, shape_simps]: "arg_data_shape zero_arg_data"
  by (simp add: arg_data_shape_def zero_arg_data_def)

lemma zero_event_shape [simp, shape_simps]: "event_shape zero_event"
  by (simp add: event_shape_def zero_event_def list_all_iff)

lemma event_shape_args:
  "event_shape e \<Longrightarrow> arg_data_shape d \<Longrightarrow> event_shape (e\<lparr>ev_args := (ev_args e)[i := d]\<rparr>)"
  by (simp add: event_shape_def list_all_update)

lemma event_shape_nth: "event_shape e \<Longrightarrow> i < 8 \<Longrightarrow> arg_data_shape (ev_args e ! i)"
  by (simp add: event_shape_def list_all_nth)

lemma event_shape_cong: "ev_args e = ev_args e' \<Longrightarrow> event_shape e = event_shape e'"
  by (simp add: event_shape_def)

lemma type_recipe_shape_nth: "type_recipe_shape rec \<Longrightarrow> j < 4 \<Longrightarrow> rel_rule_shape (tr_rules rec ! j)"
  by (simp add: type_recipe_shape_def list_all_nth)

lemma arg_rules_shape_nth: "arg_rules_shape rs \<Longrightarrow> i < 8 \<Longrightarrow> arg_rule_shape (ars_rules rs ! i)"
  by (simp add: arg_rules_shape_def list_all_nth)

end
