(* ===== verification/C_Layout.thy ===== *)
theory C_Layout
  imports Ftrace_Prelude
begin

text \<open>
  How the C compiler lays a struct out in memory on the targets of the program (x86-64 and
  BPF share these rules): natural alignment of scalars, members in order at the next
  multiple of their alignment, bit-fields packed into units of their declared type, the
  size of a struct rounded up to its alignment. \<open>c_size\<close> is \<open>sizeof\<close>, \<open>c_align\<close> is
  \<open>_Alignof\<close> and \<open>c_offsetof\<close> is the macro \<open>offsetof\<close> of \<open>headers/bpf_helpers.h\<close>.
  The lemmas of the last section hold for every type: members are aligned, lie inside
  their struct and do not overlap.
\<close>

section \<open>Types and their layout\<close>

text \<open>
  \<open>Scalar n\<close> is an integer, enumeration or pointer of \<open>n\<close> bytes. \<open>Bits nm s w\<close> is a
  bit-field of \<open>w\<close> bits declared with a type of \<open>s\<close> bytes; its name is empty when it
  only pads, and then it does not count for the alignment of the struct.
\<close>

datatype ctype =
    Scalar nat
  | Arr nat ctype
  | Struct "cmember list"
  | Union "cmember list"
and cmember =
    Member string ctype
  | Bits string nat nat

definition round_up :: "nat \<Rightarrow> nat \<Rightarrow> nat" where
  "round_up n a = (n + a - 1) div a * a"

text \<open>The first bit of a bit-field: it may not straddle two units of its declared type.\<close>

definition bits_start :: "nat \<Rightarrow> nat \<Rightarrow> nat \<Rightarrow> nat" where
  "bits_start off s w =
     (if w = 0 \<or> off div (8 * s) \<noteq> (off + w - 1) div (8 * s) then round_up off (8 * s) else off)"

fun c_align :: "ctype \<Rightarrow> nat" and member_align :: "cmember \<Rightarrow> nat" and
    members_align :: "cmember list \<Rightarrow> nat" where
  "c_align (Scalar n) = n"
| "c_align (Arr n t) = c_align t"
| "c_align (Struct ms) = members_align ms"
| "c_align (Union ms) = members_align ms"
| "member_align (Member nm t) = c_align t"
| "member_align (Bits nm s w) = (if nm = [] then 1 else s)"
| "members_align [] = 1"
| "members_align (m # ms) = max (member_align m) (members_align ms)"

fun c_size :: "ctype \<Rightarrow> nat" and member_start :: "nat \<Rightarrow> cmember \<Rightarrow> nat" and
    member_bits :: "cmember \<Rightarrow> nat" and struct_bits :: "nat \<Rightarrow> cmember list \<Rightarrow> nat" and
    union_bits :: "cmember list \<Rightarrow> nat" where
  "c_size (Scalar n) = n"
| "c_size (Arr n t) = n * c_size t"
| "c_size (Struct ms) = round_up (struct_bits 0 ms) (8 * members_align ms) div 8"
| "c_size (Union ms) = round_up (union_bits ms) (8 * members_align ms) div 8"
| "member_start off (Member nm t) = round_up off (8 * c_align t)"
| "member_start off (Bits nm s w) = bits_start off s w"
| "member_bits (Member nm t) = 8 * c_size t"
| "member_bits (Bits nm s w) = w"
| "struct_bits off [] = off"
| "struct_bits off (m # ms) = struct_bits (member_start off m + member_bits m) ms"
| "union_bits [] = 0"
| "union_bits (m # ms) = max (member_bits m) (union_bits ms)"

fun member_name :: "cmember \<Rightarrow> string" where
  "member_name (Member nm t) = nm"
| "member_name (Bits nm s w) = nm"

text \<open>The bit offsets of all members, in order.\<close>

fun member_offsets :: "nat \<Rightarrow> cmember list \<Rightarrow> (cmember \<times> nat) list" where
  "member_offsets off [] = []"
| "member_offsets off (m # ms) =
     (m, member_start off m) # member_offsets (member_start off m + member_bits m) ms"

fun bit_offset :: "string \<Rightarrow> nat \<Rightarrow> cmember list \<Rightarrow> nat option" where
  "bit_offset nm off [] = None"
| "bit_offset nm off (m # ms) =
     (if member_name m = nm then Some (member_start off m)
      else bit_offset nm (member_start off m + member_bits m) ms)"

text \<open>\<open>offsetof(struct, member)\<close>, in bytes; \<open>None\<close> for a member the struct has not.\<close>

fun c_offsetof :: "ctype \<Rightarrow> string \<Rightarrow> nat option" where
  "c_offsetof (Struct ms) nm = map_option (\<lambda>b. b div 8) (bit_offset nm 0 ms)"
| "c_offsetof (Union ms) nm = (if nm \<in> set (map member_name ms) then Some 0 else None)"
| "c_offsetof _ nm = None"

text \<open>The byte offsets of the named members of a struct that are not bit-fields.\<close>

fun byte_offsets :: "ctype \<Rightarrow> (string \<times> nat) list" where
  "byte_offsets (Struct ms) =
     map (\<lambda>(m, b). (member_name m, b div 8)) (member_offsets 0 ms)"
| "byte_offsets _ = []"

section \<open>Laws of the layout\<close>

named_theorems layout \<open>sizes and alignments of the structs of the development\<close>

text \<open>A type is proper when its scalars have a size and no array element is improper.\<close>

fun proper :: "ctype \<Rightarrow> bool" and proper_member :: "cmember \<Rightarrow> bool" where
  "proper (Scalar n) = (0 < n)"
| "proper (Arr n t) = proper t"
| "proper (Struct ms) = list_all proper_member ms"
| "proper (Union ms) = list_all proper_member ms"
| "proper_member (Member nm t) = proper t"
| "proper_member (Bits nm s w) = (0 < s)"

lemma round_up_ge: "0 < a \<Longrightarrow> n \<le> round_up n a"
proof -
  assume a: "0 < a"
  have "(n + a - 1) mod a < a" using a by simp
  moreover have "round_up n a + (n + a - 1) mod a = n + a - 1"
    by (simp add: round_up_def)
  ultimately show ?thesis by linarith
qed

lemma round_up_dvd: "a dvd round_up n a"
  by (simp add: round_up_def)

lemma round_up_fixed: "0 < a \<Longrightarrow> a dvd n \<Longrightarrow> round_up n a = n"
proof -
  assume a: "0 < a" and "a dvd n"
  then obtain k where n: "n = k * a" by (metis dvdE mult.commute)
  have "((a - 1) + k * a) div a = k + (a - 1) div a" using a by (intro div_mult_self1) simp
  then have "(k * a + a - 1) div a = k" using a by (simp add: add.commute)
  then show ?thesis using n by (simp add: round_up_def)
qed

lemma bits_start_ge: "0 < s \<Longrightarrow> off \<le> bits_start off s w"
  by (simp add: bits_start_def round_up_ge)

lemma member_align_le: "m \<in> set ms \<Longrightarrow> member_align m \<le> members_align ms"
  by (induction ms) auto

lemma members_align_pos: "0 < members_align ms"
  by (induction ms) auto

lemma align_pos: "proper t \<Longrightarrow> 0 < c_align t"
  and member_align_pos: "proper_member m \<Longrightarrow> 0 < member_align m"
  by (induction t and m) (auto simp: members_align_pos)

lemma member_start_ge: "proper_member m \<Longrightarrow> off \<le> member_start off m"
  by (cases m) (simp_all add: round_up_ge bits_start_ge align_pos)

lemma round_up_bits: "round_up n (8 * a) div 8 = (n + 8 * a - 1) div (8 * a) * a"
  by (simp add: round_up_def mult.assoc [symmetric] mult.commute [of _ 8])

text \<open>The size of a type is a multiple of its alignment, so arrays of it stay aligned.\<close>

lemma align_dvd_size: "c_align t dvd c_size t"
  and align_dvd_bits: "m = Member nm t' \<Longrightarrow> 8 * c_align t' dvd member_bits m"
  by (induction t and m) (simp_all add: round_up_bits)

lemma struct_bits_ge: "list_all proper_member ms \<Longrightarrow> off \<le> struct_bits off ms"
proof (induction ms arbitrary: off)
  case (Cons m ms)
  have "off \<le> member_start off m" using Cons.prems by (simp add: member_start_ge)
  also have "\<dots> \<le> member_start off m + member_bits m" by simp
  also have "\<dots> \<le> struct_bits off (m # ms)" using Cons by simp
  finally show ?case .
qed simp

lemma member_offsets_ge:
  "list_all proper_member ms \<Longrightarrow> (m, b) \<in> set (member_offsets off ms) \<Longrightarrow> off \<le> b"
proof (induction ms arbitrary: off)
  case (Cons m' ms)
  then have "off \<le> member_start off m'" by (simp add: member_start_ge)
  with Cons show ?case by fastforce
qed simp

lemma member_offsets_aligned:
  "(Member nm t, b) \<in> set (member_offsets off ms) \<Longrightarrow> 8 * c_align t dvd b"
  by (induction ms arbitrary: off) (auto simp: round_up_dvd)

lemma member_offsets_end:
  "list_all proper_member ms \<Longrightarrow> (m, b) \<in> set (member_offsets off ms) \<Longrightarrow>
     b + member_bits m \<le> struct_bits off ms"
  by (induction ms arbitrary: off) (auto simp: struct_bits_ge)

lemma member_offsets_disjoint:
  "list_all proper_member ms \<Longrightarrow>
     sorted_wrt (\<lambda>(m, b) (m', b'). b + member_bits m \<le> b') (member_offsets off ms)"
proof (induction ms arbitrary: off)
  case (Cons m ms)
  then show ?case by (auto dest: member_offsets_ge [rotated])
qed simp

lemma bit_offset_member:
  "bit_offset nm off ms = Some b \<Longrightarrow> \<exists>m. (m, b) \<in> set (member_offsets off ms) \<and> member_name m = nm"
  by (induction ms arbitrary: off) (auto split: if_splits)

lemma struct_size_covers:
  "list_all proper_member ms \<Longrightarrow> struct_bits 0 ms \<le> 8 * c_size (Struct ms)"
proof -
  have "8 dvd round_up (struct_bits 0 ms) (8 * members_align ms)"
    by (rule dvd_trans [OF dvd_triv_left round_up_dvd])
  then have "8 * c_size (Struct ms) = round_up (struct_bits 0 ms) (8 * members_align ms)"
    by simp
  then show ?thesis by (simp add: round_up_ge members_align_pos)
qed

end
