(* ===== verification/Vmlinux_Layout.thy ===== *)
theory Vmlinux_Layout
  imports C_Layout
begin

text \<open>
  The structs of \<open>src/internal/bpf/headers/vmlinux.h\<close> whose layout the program depends
  on: \<open>struct task_struct\<close>, in which \<open>get_goid\<close> reads the thread's TLS base, with every
  struct and union it holds by value, and \<open>struct pt_regs\<close>. Each definition lists the
  members of the header's declaration in order (typedefs expanded, pointers as
  \<open>t_ptr\<close>, unnamed padding bit-fields with an empty name); each lemma gives the size and
  the alignment the layout rules of \<open>C_Layout\<close> assign to it. The last definition is the
  macro \<open>fsbase_off\<close> of \<open>src/internal/bpf/ftrace.c\<close>.
\<close>

section \<open>Scalars\<close>

abbreviation t_ptr :: ctype where "t_ptr \<equiv> Scalar 8"
abbreviation t_long :: ctype where "t_long \<equiv> Scalar 8"
abbreviation t_int :: ctype where "t_int \<equiv> Scalar 4"
abbreviation t_short :: ctype where "t_short \<equiv> Scalar 2"
abbreviation t_char :: ctype where "t_char \<equiv> Scalar 1"
abbreviation t_bool :: ctype where "t_bool \<equiv> Scalar 1"

lemmas layout_rules = round_up_def bits_start_def

section \<open>Structs\<close>

definition c_thread_info :: ctype where
  "c_thread_info = Struct
    [Member ''flags'' t_long, Member ''syscall_work'' t_long, Member ''status'' t_int]"

lemma layout_thread_info [layout]: "c_size c_thread_info = 24" "c_align c_thread_info = 8"
  by (simp_all add: c_thread_info_def layout layout_rules)

definition c_refcount_struct :: ctype where
  "c_refcount_struct = Struct
    [Member ''refs'' (Struct [Member ''counter'' t_int])]"

lemma layout_refcount_struct [layout]: "c_size c_refcount_struct = 4" "c_align c_refcount_struct = 4"
  by (simp_all add: c_refcount_struct_def layout layout_rules)

definition c_llist_node :: ctype where
  "c_llist_node = Struct
    [Member ''next'' t_ptr]"

lemma layout_llist_node [layout]: "c_size c_llist_node = 8" "c_align c_llist_node = 8"
  by (simp_all add: c_llist_node_def layout layout_rules)

definition c__call_single_node :: ctype where
  "c__call_single_node = Struct
    [Member ''llist'' c_llist_node,
     Member '''' (Union [Member ''u_flags'' t_int, Member ''a_flags'' (Struct [Member ''counter'' t_int])]),
     Member ''src'' t_short, Member ''dst'' t_short]"

lemma layout_call_single_node [layout]: "c_size c__call_single_node = 16" "c_align c__call_single_node = 8"
  by (simp_all add: c__call_single_node_def layout layout_rules)

definition c_load_weight :: ctype where
  "c_load_weight = Struct
    [Member ''weight'' t_long, Member ''inv_weight'' t_int]"

lemma layout_load_weight [layout]: "c_size c_load_weight = 16" "c_align c_load_weight = 8"
  by (simp_all add: c_load_weight_def layout layout_rules)

definition c_rb_node :: ctype where
  "c_rb_node = Struct
    [Member ''__rb_parent_color'' t_long, Member ''rb_right'' t_ptr, Member ''rb_left'' t_ptr]"

lemma layout_rb_node [layout]: "c_size c_rb_node = 24" "c_align c_rb_node = 8"
  by (simp_all add: c_rb_node_def layout layout_rules)

definition c_list_head :: ctype where
  "c_list_head = Struct
    [Member ''next'' t_ptr, Member ''prev'' t_ptr]"

lemma layout_list_head [layout]: "c_size c_list_head = 16" "c_align c_list_head = 8"
  by (simp_all add: c_list_head_def layout layout_rules)

definition c_sched_statistics :: ctype where
  "c_sched_statistics = Struct
    [Member ''wait_start'' t_long, Member ''wait_max'' t_long, Member ''wait_count'' t_long,
     Member ''wait_sum'' t_long, Member ''iowait_count'' t_long, Member ''iowait_sum'' t_long,
     Member ''sleep_start'' t_long, Member ''sleep_max'' t_long,
     Member ''sum_sleep_runtime'' t_long, Member ''block_start'' t_long,
     Member ''block_max'' t_long, Member ''exec_max'' t_long, Member ''slice_max'' t_long,
     Member ''nr_migrations_cold'' t_long, Member ''nr_failed_migrations_affine'' t_long,
     Member ''nr_failed_migrations_running'' t_long,
     Member ''nr_failed_migrations_hot'' t_long, Member ''nr_forced_migrations'' t_long,
     Member ''nr_wakeups'' t_long, Member ''nr_wakeups_sync'' t_long,
     Member ''nr_wakeups_migrate'' t_long, Member ''nr_wakeups_local'' t_long,
     Member ''nr_wakeups_remote'' t_long, Member ''nr_wakeups_affine'' t_long,
     Member ''nr_wakeups_affine_attempts'' t_long, Member ''nr_wakeups_passive'' t_long,
     Member ''nr_wakeups_idle'' t_long]"

lemma layout_sched_statistics [layout]: "c_size c_sched_statistics = 216" "c_align c_sched_statistics = 8"
  by (simp_all add: c_sched_statistics_def layout layout_rules)

definition c_util_est :: ctype where
  "c_util_est = Struct
    [Member ''enqueued'' t_int, Member ''ewma'' t_int]"

lemma layout_util_est [layout]: "c_size c_util_est = 8" "c_align c_util_est = 4"
  by (simp_all add: c_util_est_def layout layout_rules)

definition c_sched_avg :: ctype where
  "c_sched_avg = Struct
    [Member ''last_update_time'' t_long, Member ''load_sum'' t_long,
     Member ''runnable_sum'' t_long, Member ''util_sum'' t_int,
     Member ''period_contrib'' t_int, Member ''load_avg'' t_long,
     Member ''runnable_avg'' t_long, Member ''util_avg'' t_long,
     Member ''util_est'' c_util_est]"

lemma layout_sched_avg [layout]: "c_size c_sched_avg = 64" "c_align c_sched_avg = 8"
  by (simp_all add: c_sched_avg_def layout layout_rules)

definition c_sched_entity :: ctype where
  "c_sched_entity = Struct
    [Member ''load'' c_load_weight, Member ''run_node'' c_rb_node,
     Member ''group_node'' c_list_head, Member ''on_rq'' t_int, Member ''exec_start'' t_long,
     Member ''sum_exec_runtime'' t_long, Member ''vruntime'' t_long,
     Member ''prev_sum_exec_runtime'' t_long, Member ''nr_migrations'' t_long,
     Member ''statistics'' c_sched_statistics, Member ''depth'' t_int, Member ''parent'' t_ptr,
     Member ''cfs_rq'' t_ptr, Member ''my_q'' t_ptr, Member ''runnable_weight'' t_long,
     Bits '''' 8 64, Bits '''' 8 64, Bits '''' 8 64, Member ''avg'' c_sched_avg]"

lemma layout_sched_entity [layout]: "c_size c_sched_entity = 448" "c_align c_sched_entity = 8"
  by (simp_all add: c_sched_entity_def layout layout_rules)

definition c_sched_rt_entity :: ctype where
  "c_sched_rt_entity = Struct
    [Member ''run_list'' c_list_head, Member ''timeout'' t_long,
     Member ''watchdog_stamp'' t_long, Member ''time_slice'' t_int, Member ''on_rq'' t_short,
     Member ''on_list'' t_short, Member ''back'' t_ptr]"

lemma layout_sched_rt_entity [layout]: "c_size c_sched_rt_entity = 48" "c_align c_sched_rt_entity = 8"
  by (simp_all add: c_sched_rt_entity_def layout layout_rules)

definition c_timerqueue_node :: ctype where
  "c_timerqueue_node = Struct
    [Member ''node'' c_rb_node, Member ''expires'' t_long]"

lemma layout_timerqueue_node [layout]: "c_size c_timerqueue_node = 32" "c_align c_timerqueue_node = 8"
  by (simp_all add: c_timerqueue_node_def layout layout_rules)

definition c_hrtimer :: ctype where
  "c_hrtimer = Struct
    [Member ''node'' c_timerqueue_node, Member ''_softexpires'' t_long,
     Member ''function'' t_ptr, Member ''base'' t_ptr, Member ''state'' t_char,
     Member ''is_rel'' t_char, Member ''is_soft'' t_char, Member ''is_hard'' t_char]"

lemma layout_hrtimer [layout]: "c_size c_hrtimer = 64" "c_align c_hrtimer = 8"
  by (simp_all add: c_hrtimer_def layout layout_rules)

definition c_sched_dl_entity :: ctype where
  "c_sched_dl_entity = Struct
    [Member ''rb_node'' c_rb_node, Member ''dl_runtime'' t_long, Member ''dl_deadline'' t_long,
     Member ''dl_period'' t_long, Member ''dl_bw'' t_long, Member ''dl_density'' t_long,
     Member ''runtime'' t_long, Member ''deadline'' t_long, Member ''flags'' t_int,
     Bits ''dl_throttled'' 4 1, Bits ''dl_yielded'' 4 1, Bits ''dl_non_contending'' 4 1,
     Bits ''dl_overrun'' 4 1, Member ''dl_timer'' c_hrtimer,
     Member ''inactive_timer'' c_hrtimer, Member ''pi_se'' t_ptr]"

lemma layout_sched_dl_entity [layout]: "c_size c_sched_dl_entity = 224" "c_align c_sched_dl_entity = 8"
  by (simp_all add: c_sched_dl_entity_def layout layout_rules)

definition c_uclamp_se :: ctype where
  "c_uclamp_se = Struct
    [Bits ''value'' 4 11, Bits ''bucket_id'' 4 3, Bits ''active'' 4 1,
     Bits ''user_defined'' 4 1]"

lemma layout_uclamp_se [layout]: "c_size c_uclamp_se = 4" "c_align c_uclamp_se = 4"
  by (simp_all add: c_uclamp_se_def layout layout_rules)

definition c_hlist_head :: ctype where
  "c_hlist_head = Struct
    [Member ''first'' t_ptr]"

lemma layout_hlist_head [layout]: "c_size c_hlist_head = 8" "c_align c_hlist_head = 8"
  by (simp_all add: c_hlist_head_def layout layout_rules)

definition c_cpumask :: ctype where
  "c_cpumask = Struct
    [Member ''bits'' (Arr 128 t_long)]"

lemma layout_cpumask [layout]: "c_size c_cpumask = 1024" "c_align c_cpumask = 8"
  by (simp_all add: c_cpumask_def layout layout_rules)

definition c_rcu_special :: ctype where
  "c_rcu_special = Union
    [
     Member ''b'' (Struct [Member ''blocked'' t_char, Member ''need_qs'' t_char, Member ''exp_hint'' t_char, Member ''need_mb'' t_char]),
     Member ''s'' t_int]"

lemma layout_rcu_special [layout]: "c_size c_rcu_special = 4" "c_align c_rcu_special = 4"
  by (simp_all add: c_rcu_special_def layout layout_rules)

definition c_sched_info :: ctype where
  "c_sched_info = Struct
    [Member ''pcount'' t_long, Member ''run_delay'' t_long, Member ''last_arrival'' t_long,
     Member ''last_queued'' t_long]"

lemma layout_sched_info [layout]: "c_size c_sched_info = 32" "c_align c_sched_info = 8"
  by (simp_all add: c_sched_info_def layout layout_rules)

definition c_plist_node :: ctype where
  "c_plist_node = Struct
    [Member ''prio'' t_int, Member ''prio_list'' c_list_head, Member ''node_list'' c_list_head]"

lemma layout_plist_node [layout]: "c_size c_plist_node = 40" "c_align c_plist_node = 8"
  by (simp_all add: c_plist_node_def layout layout_rules)

definition c_vmacache :: ctype where
  "c_vmacache = Struct
    [Member ''seqnum'' t_long, Member ''vmas'' (Arr 4 t_ptr)]"

lemma layout_vmacache [layout]: "c_size c_vmacache = 40" "c_align c_vmacache = 8"
  by (simp_all add: c_vmacache_def layout layout_rules)

definition c_task_rss_stat :: ctype where
  "c_task_rss_stat = Struct
    [Member ''events'' t_int, Member ''count'' (Arr 4 t_int)]"

lemma layout_task_rss_stat [layout]: "c_size c_task_rss_stat = 20" "c_align c_task_rss_stat = 4"
  by (simp_all add: c_task_rss_stat_def layout layout_rules)

definition c_restart_block :: ctype where
  "c_restart_block = Struct
    [Member ''arch_data'' t_long, Member ''fn'' t_ptr,
     Member '''' (Union [Member ''futex'' (Struct [Member ''uaddr'' t_ptr, Member ''val'' t_int, Member ''flags'' t_int, Member ''bitset'' t_int, Member ''time'' t_long, Member ''uaddr2'' t_ptr]), Member ''nanosleep'' (Struct [Member ''clockid'' t_int, Member ''type'' t_int, Member '''' (Union [Member ''rmtp'' t_ptr, Member ''compat_rmtp'' t_ptr]), Member ''expires'' t_long]), Member ''poll'' (Struct [Member ''ufds'' t_ptr, Member ''nfds'' t_int, Member ''has_timeout'' t_int, Member ''tv_sec'' t_long, Member ''tv_nsec'' t_long])])]"

lemma layout_restart_block [layout]: "c_size c_restart_block = 56" "c_align c_restart_block = 8"
  by (simp_all add: c_restart_block_def layout layout_rules)

definition c_hlist_node :: ctype where
  "c_hlist_node = Struct
    [Member ''next'' t_ptr, Member ''pprev'' t_ptr]"

lemma layout_hlist_node [layout]: "c_size c_hlist_node = 16" "c_align c_hlist_node = 8"
  by (simp_all add: c_hlist_node_def layout layout_rules)

definition c_qspinlock :: ctype where
  "c_qspinlock = Struct
    [
     Member '''' (Union [Member ''val'' (Struct [Member ''counter'' t_int]), Member '''' (Struct [Member ''locked'' t_char, Member ''pending'' t_char]), Member '''' (Struct [Member ''locked_pending'' t_short, Member ''tail'' t_short])])]"

lemma layout_qspinlock [layout]: "c_size c_qspinlock = 4" "c_align c_qspinlock = 4"
  by (simp_all add: c_qspinlock_def layout layout_rules)

definition c_raw_spinlock :: ctype where
  "c_raw_spinlock = Struct
    [Member ''raw_lock'' c_qspinlock]"

lemma layout_raw_spinlock [layout]: "c_size c_raw_spinlock = 4" "c_align c_raw_spinlock = 4"
  by (simp_all add: c_raw_spinlock_def layout layout_rules)

definition c_prev_cputime :: ctype where
  "c_prev_cputime = Struct
    [Member ''utime'' t_long, Member ''stime'' t_long, Member ''lock'' c_raw_spinlock]"

lemma layout_prev_cputime [layout]: "c_size c_prev_cputime = 24" "c_align c_prev_cputime = 8"
  by (simp_all add: c_prev_cputime_def layout layout_rules)

definition c_rb_root :: ctype where
  "c_rb_root = Struct
    [Member ''rb_node'' t_ptr]"

lemma layout_rb_root [layout]: "c_size c_rb_root = 8" "c_align c_rb_root = 8"
  by (simp_all add: c_rb_root_def layout layout_rules)

definition c_rb_root_cached :: ctype where
  "c_rb_root_cached = Struct
    [Member ''rb_root'' c_rb_root, Member ''rb_leftmost'' t_ptr]"

lemma layout_rb_root_cached [layout]: "c_size c_rb_root_cached = 16" "c_align c_rb_root_cached = 8"
  by (simp_all add: c_rb_root_cached_def layout layout_rules)

definition c_timerqueue_head :: ctype where
  "c_timerqueue_head = Struct
    [Member ''rb_root'' c_rb_root_cached]"

lemma layout_timerqueue_head [layout]: "c_size c_timerqueue_head = 16" "c_align c_timerqueue_head = 8"
  by (simp_all add: c_timerqueue_head_def layout layout_rules)

definition c_posix_cputimer_base :: ctype where
  "c_posix_cputimer_base = Struct
    [Member ''nextevt'' t_long, Member ''tqhead'' c_timerqueue_head]"

lemma layout_posix_cputimer_base [layout]: "c_size c_posix_cputimer_base = 24" "c_align c_posix_cputimer_base = 8"
  by (simp_all add: c_posix_cputimer_base_def layout layout_rules)

definition c_posix_cputimers :: ctype where
  "c_posix_cputimers = Struct
    [Member ''bases'' (Arr 3 c_posix_cputimer_base), Member ''timers_active'' t_int,
     Member ''expiry_active'' t_int]"

lemma layout_posix_cputimers [layout]: "c_size c_posix_cputimers = 80" "c_align c_posix_cputimers = 8"
  by (simp_all add: c_posix_cputimers_def layout layout_rules)

definition c_callback_head :: ctype where
  "c_callback_head = Struct
    [Member ''next'' t_ptr, Member ''func'' t_ptr]"

lemma layout_callback_head [layout]: "c_size c_callback_head = 16" "c_align c_callback_head = 8"
  by (simp_all add: c_callback_head_def layout layout_rules)

definition c_posix_cputimers_work :: ctype where
  "c_posix_cputimers_work = Struct
    [Member ''work'' c_callback_head, Member ''scheduled'' t_int]"

lemma layout_posix_cputimers_work [layout]: "c_size c_posix_cputimers_work = 24" "c_align c_posix_cputimers_work = 8"
  by (simp_all add: c_posix_cputimers_work_def layout layout_rules)

definition c_sysv_sem :: ctype where
  "c_sysv_sem = Struct
    [Member ''undo_list'' t_ptr]"

lemma layout_sysv_sem [layout]: "c_size c_sysv_sem = 8" "c_align c_sysv_sem = 8"
  by (simp_all add: c_sysv_sem_def layout layout_rules)

definition c_sysv_shm :: ctype where
  "c_sysv_shm = Struct
    [Member ''shm_clist'' c_list_head]"

lemma layout_sysv_shm [layout]: "c_size c_sysv_shm = 16" "c_align c_sysv_shm = 8"
  by (simp_all add: c_sysv_shm_def layout layout_rules)

definition c_sigpending :: ctype where
  "c_sigpending = Struct
    [Member ''list'' c_list_head, Member ''signal'' (Struct [Member ''sig'' (Arr 1 t_long)])]"

lemma layout_sigpending [layout]: "c_size c_sigpending = 24" "c_align c_sigpending = 8"
  by (simp_all add: c_sigpending_def layout layout_rules)

definition c_seccomp :: ctype where
  "c_seccomp = Struct
    [Member ''mode'' t_int, Member ''filter_count'' (Struct [Member ''counter'' t_int]),
     Member ''filter'' t_ptr]"

lemma layout_seccomp [layout]: "c_size c_seccomp = 16" "c_align c_seccomp = 8"
  by (simp_all add: c_seccomp_def layout layout_rules)

definition c_syscall_user_dispatch :: ctype where
  "c_syscall_user_dispatch = Struct
    [Member ''selector'' t_ptr, Member ''offset'' t_long, Member ''len'' t_long,
     Member ''on_dispatch'' t_bool]"

lemma layout_syscall_user_dispatch [layout]: "c_size c_syscall_user_dispatch = 32" "c_align c_syscall_user_dispatch = 8"
  by (simp_all add: c_syscall_user_dispatch_def layout layout_rules)

definition c_spinlock :: ctype where
  "c_spinlock = Struct
    [Member '''' (Union [Member ''rlock'' c_raw_spinlock])]"

lemma layout_spinlock [layout]: "c_size c_spinlock = 4" "c_align c_spinlock = 4"
  by (simp_all add: c_spinlock_def layout layout_rules)

definition c_wake_q_node :: ctype where
  "c_wake_q_node = Struct
    [Member ''next'' t_ptr]"

lemma layout_wake_q_node [layout]: "c_size c_wake_q_node = 8" "c_align c_wake_q_node = 8"
  by (simp_all add: c_wake_q_node_def layout layout_rules)

definition c_task_io_accounting :: ctype where
  "c_task_io_accounting = Struct
    [Member ''rchar'' t_long, Member ''wchar'' t_long, Member ''syscr'' t_long,
     Member ''syscw'' t_long, Member ''read_bytes'' t_long, Member ''write_bytes'' t_long,
     Member ''cancelled_write_bytes'' t_long]"

lemma layout_task_io_accounting [layout]: "c_size c_task_io_accounting = 56" "c_align c_task_io_accounting = 8"
  by (simp_all add: c_task_io_accounting_def layout layout_rules)

definition c_seqcount :: ctype where
  "c_seqcount = Struct
    [Member ''sequence'' t_int]"

lemma layout_seqcount [layout]: "c_size c_seqcount = 4" "c_align c_seqcount = 4"
  by (simp_all add: c_seqcount_def layout layout_rules)

definition c_seqcount_spinlock :: ctype where
  "c_seqcount_spinlock = Struct
    [Member ''seqcount'' c_seqcount]"

lemma layout_seqcount_spinlock [layout]: "c_size c_seqcount_spinlock = 4" "c_align c_seqcount_spinlock = 4"
  by (simp_all add: c_seqcount_spinlock_def layout layout_rules)

definition c_optimistic_spin_queue :: ctype where
  "c_optimistic_spin_queue = Struct
    [Member ''tail'' (Struct [Member ''counter'' t_int])]"

lemma layout_optimistic_spin_queue [layout]: "c_size c_optimistic_spin_queue = 4" "c_align c_optimistic_spin_queue = 4"
  by (simp_all add: c_optimistic_spin_queue_def layout layout_rules)

definition c_mutex :: ctype where
  "c_mutex = Struct
    [Member ''owner'' (Struct [Member ''counter'' t_long]),
     Member ''wait_lock'' c_raw_spinlock, Member ''osq'' c_optimistic_spin_queue,
     Member ''wait_list'' c_list_head]"

lemma layout_mutex [layout]: "c_size c_mutex = 32" "c_align c_mutex = 8"
  by (simp_all add: c_mutex_def layout layout_rules)

definition c_arch_tlbflush_unmap_batch :: ctype where
  "c_arch_tlbflush_unmap_batch = Struct
    [Member ''cpumask'' c_cpumask]"

lemma layout_arch_tlbflush_unmap_batch [layout]: "c_size c_arch_tlbflush_unmap_batch = 1024" "c_align c_arch_tlbflush_unmap_batch = 8"
  by (simp_all add: c_arch_tlbflush_unmap_batch_def layout layout_rules)

definition c_tlbflush_unmap_batch :: ctype where
  "c_tlbflush_unmap_batch = Struct
    [Member ''arch'' c_arch_tlbflush_unmap_batch, Member ''flush_required'' t_bool,
     Member ''writable'' t_bool]"

lemma layout_tlbflush_unmap_batch [layout]: "c_size c_tlbflush_unmap_batch = 1032" "c_align c_tlbflush_unmap_batch = 8"
  by (simp_all add: c_tlbflush_unmap_batch_def layout layout_rules)

definition c_page_frag :: ctype where
  "c_page_frag = Struct
    [Member ''page'' t_ptr, Member ''offset'' t_int, Member ''size'' t_int]"

lemma layout_page_frag [layout]: "c_size c_page_frag = 16" "c_align c_page_frag = 8"
  by (simp_all add: c_page_frag_def layout layout_rules)

definition c_kmap_ctrl :: ctype where
  "c_kmap_ctrl = Struct
    []"

lemma layout_kmap_ctrl [layout]: "c_size c_kmap_ctrl = 0" "c_align c_kmap_ctrl = 1"
  by (simp_all add: c_kmap_ctrl_def layout layout_rules)

definition c_timer_list :: ctype where
  "c_timer_list = Struct
    [Member ''entry'' c_hlist_node, Member ''expires'' t_long, Member ''function'' t_ptr,
     Member ''flags'' t_int]"

lemma layout_timer_list [layout]: "c_size c_timer_list = 40" "c_align c_timer_list = 8"
  by (simp_all add: c_timer_list_def layout layout_rules)

definition c_llist_head :: ctype where
  "c_llist_head = Struct
    [Member ''first'' t_ptr]"

lemma layout_llist_head [layout]: "c_size c_llist_head = 8" "c_align c_llist_head = 8"
  by (simp_all add: c_llist_head_def layout layout_rules)

definition c_desc_struct :: ctype where
  "c_desc_struct = Struct
    [Member ''limit0'' t_short, Member ''base0'' t_short, Bits ''base1'' 2 8,
     Bits ''type'' 2 4, Bits ''s'' 2 1, Bits ''dpl'' 2 2, Bits ''p'' 2 1, Bits ''limit1'' 2 4,
     Bits ''avl'' 2 1, Bits ''l'' 2 1, Bits ''d'' 2 1, Bits ''g'' 2 1, Bits ''base2'' 2 8]"

lemma layout_desc_struct [layout]: "c_size c_desc_struct = 8" "c_align c_desc_struct = 2"
  by (simp_all add: c_desc_struct_def layout layout_rules)

definition c_fpu_state_perm :: ctype where
  "c_fpu_state_perm = Struct
    [Member ''__state_perm'' t_long, Member ''__state_size'' t_int,
     Member ''__user_state_size'' t_int]"

lemma layout_fpu_state_perm [layout]: "c_size c_fpu_state_perm = 16" "c_align c_fpu_state_perm = 8"
  by (simp_all add: c_fpu_state_perm_def layout layout_rules)

definition c_fregs_state :: ctype where
  "c_fregs_state = Struct
    [Member ''cwd'' t_int, Member ''swd'' t_int, Member ''twd'' t_int, Member ''fip'' t_int,
     Member ''fcs'' t_int, Member ''foo'' t_int, Member ''fos'' t_int,
     Member ''st_space'' (Arr 20 t_int), Member ''status'' t_int]"

lemma layout_fregs_state [layout]: "c_size c_fregs_state = 112" "c_align c_fregs_state = 4"
  by (simp_all add: c_fregs_state_def layout layout_rules)

definition c_fxregs_state :: ctype where
  "c_fxregs_state = Struct
    [Member ''cwd'' t_short, Member ''swd'' t_short, Member ''twd'' t_short,
     Member ''fop'' t_short,
     Member '''' (Union [Member '''' (Struct [Member ''rip'' t_long, Member ''rdp'' t_long]), Member '''' (Struct [Member ''fip'' t_int, Member ''fcs'' t_int, Member ''foo'' t_int, Member ''fos'' t_int])]),
     Member ''mxcsr'' t_int, Member ''mxcsr_mask'' t_int, Member ''st_space'' (Arr 32 t_int),
     Member ''xmm_space'' (Arr 64 t_int), Member ''padding'' (Arr 12 t_int),
     Member '''' (Union [Member ''padding1'' (Arr 12 t_int), Member ''sw_reserved'' (Arr 12 t_int)])]"

lemma layout_fxregs_state [layout]: "c_size c_fxregs_state = 512" "c_align c_fxregs_state = 8"
  by (simp_all add: c_fxregs_state_def layout layout_rules)

definition c_swregs_state :: ctype where
  "c_swregs_state = Struct
    [Member ''cwd'' t_int, Member ''swd'' t_int, Member ''twd'' t_int, Member ''fip'' t_int,
     Member ''fcs'' t_int, Member ''foo'' t_int, Member ''fos'' t_int,
     Member ''st_space'' (Arr 20 t_int), Member ''ftop'' t_char, Member ''changed'' t_char,
     Member ''lookahead'' t_char, Member ''no_update'' t_char, Member ''rm'' t_char,
     Member ''alimit'' t_char, Member ''info'' t_ptr, Member ''entry_eip'' t_int]"

lemma layout_swregs_state [layout]: "c_size c_swregs_state = 136" "c_align c_swregs_state = 8"
  by (simp_all add: c_swregs_state_def layout layout_rules)

definition c_xstate_header :: ctype where
  "c_xstate_header = Struct
    [Member ''xfeatures'' t_long, Member ''xcomp_bv'' t_long,
     Member ''reserved'' (Arr 6 t_long)]"

lemma layout_xstate_header [layout]: "c_size c_xstate_header = 64" "c_align c_xstate_header = 8"
  by (simp_all add: c_xstate_header_def layout layout_rules)

definition c_xregs_state :: ctype where
  "c_xregs_state = Struct
    [Member ''i387'' c_fxregs_state, Member ''header'' c_xstate_header,
     Member ''extended_state_area'' (Arr 0 t_char)]"

lemma layout_xregs_state [layout]: "c_size c_xregs_state = 576" "c_align c_xregs_state = 8"
  by (simp_all add: c_xregs_state_def layout layout_rules)

definition c_fpregs_state :: ctype where
  "c_fpregs_state = Union
    [Member ''fsave'' c_fregs_state, Member ''fxsave'' c_fxregs_state,
     Member ''soft'' c_swregs_state, Member ''xsave'' c_xregs_state,
     Member ''__padding'' (Arr 4096 t_char)]"

lemma layout_fpregs_state [layout]: "c_size c_fpregs_state = 4096" "c_align c_fpregs_state = 8"
  by (simp_all add: c_fpregs_state_def layout layout_rules)

definition c_fpstate :: ctype where
  "c_fpstate = Struct
    [Member ''size'' t_int, Member ''user_size'' t_int, Member ''xfeatures'' t_long,
     Member ''user_xfeatures'' t_long, Member ''xfd'' t_long, Bits ''is_valloc'' 4 1,
     Bits ''is_guest'' 4 1, Bits ''is_confidential'' 4 1, Bits ''in_use'' 4 1, Bits '''' 8 60,
     Bits '''' 8 64, Bits '''' 8 64, Bits '''' 8 64, Member ''regs'' c_fpregs_state]"

lemma layout_fpstate [layout]: "c_size c_fpstate = 4160" "c_align c_fpstate = 8"
  by (simp_all add: c_fpstate_def layout layout_rules)

definition c_fpu :: ctype where
  "c_fpu = Struct
    [Member ''last_cpu'' t_int, Member ''avx512_timestamp'' t_long, Member ''fpstate'' t_ptr,
     Member ''__task_fpstate'' t_ptr, Member ''perm'' c_fpu_state_perm, Bits '''' 8 64,
     Bits '''' 8 64, Member ''__fpstate'' c_fpstate]"

lemma layout_fpu [layout]: "c_size c_fpu = 4224" "c_align c_fpu = 8"
  by (simp_all add: c_fpu_def layout layout_rules)

definition c_thread_struct :: ctype where
  "c_thread_struct = Struct
    [Member ''tls_array'' (Arr 3 c_desc_struct), Member ''sp'' t_long, Member ''es'' t_short,
     Member ''ds'' t_short, Member ''fsindex'' t_short, Member ''gsindex'' t_short,
     Member ''fsbase'' t_long, Member ''gsbase'' t_long, Member ''ptrace_bps'' (Arr 4 t_ptr),
     Member ''virtual_dr6'' t_long, Member ''ptrace_dr7'' t_long, Member ''cr2'' t_long,
     Member ''trap_nr'' t_long, Member ''error_code'' t_long, Member ''io_bitmap'' t_ptr,
     Member ''iopl_emul'' t_long, Bits ''iopl_warn'' 4 1, Bits ''sig_on_uaccess_err'' 4 1,
     Member ''pkru'' t_int, Bits '''' 8 64, Bits '''' 8 64, Bits '''' 8 64, Bits '''' 8 64,
     Bits '''' 8 64, Member ''fpu'' c_fpu]"

lemma layout_thread_struct [layout]: "c_size c_thread_struct = 4416" "c_align c_thread_struct = 8"
  by (simp_all add: c_thread_struct_def layout layout_rules)

definition task_struct_head :: "cmember list" where
  "task_struct_head =
    [Member ''thread_info'' c_thread_info, Member ''__state'' t_int, Member ''stack'' t_ptr,
     Member ''usage'' c_refcount_struct, Member ''flags'' t_int, Member ''ptrace'' t_int,
     Member ''on_cpu'' t_int, Member ''wake_entry'' c__call_single_node, Member ''cpu'' t_int,
     Member ''wakee_flips'' t_int, Member ''wakee_flip_decay_ts'' t_long,
     Member ''last_wakee'' t_ptr, Member ''recent_used_cpu'' t_int, Member ''wake_cpu'' t_int,
     Member ''on_rq'' t_int, Member ''prio'' t_int, Member ''static_prio'' t_int,
     Member ''normal_prio'' t_int, Member ''rt_priority'' t_int, Member ''sched_class'' t_ptr,
     Bits '''' 8 64, Bits '''' 8 64, Bits '''' 8 64, Bits '''' 8 64, Bits '''' 8 64,
     Bits '''' 8 64, Bits '''' 8 64, Member ''se'' c_sched_entity,
     Member ''rt'' c_sched_rt_entity, Member ''dl'' c_sched_dl_entity,
     Member ''core_node'' c_rb_node, Member ''core_cookie'' t_long,
     Member ''core_occupation'' t_int, Member ''sched_task_group'' t_ptr,
     Member ''uclamp_req'' (Arr 2 c_uclamp_se), Member ''uclamp'' (Arr 2 c_uclamp_se),
     Member ''preempt_notifiers'' c_hlist_head, Member ''btrace_seq'' t_int,
     Member ''policy'' t_int, Member ''nr_cpus_allowed'' t_int, Member ''cpus_ptr'' t_ptr,
     Member ''user_cpus_ptr'' t_ptr, Member ''cpus_mask'' c_cpumask,
     Member ''migration_pending'' t_ptr, Member ''migration_disabled'' t_short,
     Member ''migration_flags'' t_short, Member ''trc_reader_nesting'' t_int,
     Member ''trc_ipi_to_cpu'' t_int, Member ''trc_reader_special'' c_rcu_special,
     Member ''trc_reader_checked'' t_bool, Member ''trc_holdout_list'' c_list_head,
     Member ''sched_info'' c_sched_info, Member ''tasks'' c_list_head,
     Member ''pushable_tasks'' c_plist_node, Member ''pushable_dl_tasks'' c_rb_node,
     Member ''mm'' t_ptr, Member ''active_mm'' t_ptr, Member ''vmacache'' c_vmacache,
     Member ''rss_stat'' c_task_rss_stat, Member ''exit_state'' t_int,
     Member ''exit_code'' t_int, Member ''exit_signal'' t_int, Member ''pdeath_signal'' t_int,
     Member ''jobctl'' t_long, Member ''personality'' t_int, Bits ''sched_reset_on_fork'' 4 1,
     Bits ''sched_contributes_to_load'' 4 1, Bits ''sched_migrated'' 4 1,
     Bits ''sched_psi_wake_requeue'' 4 1, Bits '''' 4 28, Bits ''sched_remote_wakeup'' 4 1,
     Bits ''in_execve'' 4 1, Bits ''in_iowait'' 4 1, Bits ''restore_sigmask'' 4 1,
     Bits ''in_user_fault'' 4 1, Bits ''no_cgroup_migration'' 4 1, Bits ''frozen'' 4 1,
     Bits ''use_memdelay'' 4 1, Bits ''in_memstall'' 4 1, Bits ''in_eventfd'' 4 1,
     Member ''atomic_flags'' t_long, Member ''restart_block'' c_restart_block,
     Member ''pid'' t_int, Member ''tgid'' t_int, Member ''stack_canary'' t_long,
     Member ''real_parent'' t_ptr, Member ''parent'' t_ptr, Member ''children'' c_list_head,
     Member ''sibling'' c_list_head, Member ''group_leader'' t_ptr,
     Member ''ptraced'' c_list_head, Member ''ptrace_entry'' c_list_head,
     Member ''thread_pid'' t_ptr, Member ''pid_links'' (Arr 4 c_hlist_node),
     Member ''thread_group'' c_list_head, Member ''thread_node'' c_list_head,
     Member ''vfork_done'' t_ptr, Member ''set_child_tid'' t_ptr,
     Member ''clear_child_tid'' t_ptr, Member ''pf_io_worker'' t_ptr, Member ''utime'' t_long,
     Member ''stime'' t_long, Member ''gtime'' t_long, Member ''prev_cputime'' c_prev_cputime,
     Member ''nvcsw'' t_long, Member ''nivcsw'' t_long, Member ''start_time'' t_long,
     Member ''start_boottime'' t_long, Member ''min_flt'' t_long, Member ''maj_flt'' t_long,
     Member ''posix_cputimers'' c_posix_cputimers,
     Member ''posix_cputimers_work'' c_posix_cputimers_work, Member ''ptracer_cred'' t_ptr,
     Member ''real_cred'' t_ptr, Member ''cred'' t_ptr, Member ''cached_requested_key'' t_ptr,
     Member ''comm'' (Arr 16 t_char), Member ''nameidata'' t_ptr,
     Member ''sysvsem'' c_sysv_sem, Member ''sysvshm'' c_sysv_shm,
     Member ''last_switch_count'' t_long, Member ''last_switch_time'' t_long,
     Member ''fs'' t_ptr, Member ''files'' t_ptr, Member ''io_uring'' t_ptr,
     Member ''nsproxy'' t_ptr]"

definition task_struct_tail :: "cmember list" where
  "task_struct_tail =
    [Member ''signal'' t_ptr, Member ''sighand'' t_ptr,
     Member ''blocked'' (Struct [Member ''sig'' (Arr 1 t_long)]),
     Member ''real_blocked'' (Struct [Member ''sig'' (Arr 1 t_long)]),
     Member ''saved_sigmask'' (Struct [Member ''sig'' (Arr 1 t_long)]),
     Member ''pending'' c_sigpending, Member ''sas_ss_sp'' t_long,
     Member ''sas_ss_size'' t_long, Member ''sas_ss_flags'' t_int, Member ''task_works'' t_ptr,
     Member ''audit_context'' t_ptr, Member ''loginuid'' (Struct [Member ''val'' t_int]),
     Member ''sessionid'' t_int, Member ''seccomp'' c_seccomp,
     Member ''syscall_dispatch'' c_syscall_user_dispatch, Member ''parent_exec_id'' t_long,
     Member ''self_exec_id'' t_long, Member ''alloc_lock'' c_spinlock,
     Member ''pi_lock'' c_raw_spinlock, Member ''wake_q'' c_wake_q_node,
     Member ''pi_waiters'' c_rb_root_cached, Member ''pi_top_task'' t_ptr,
     Member ''pi_blocked_on'' t_ptr, Member ''in_ubsan'' t_int, Member ''journal_info'' t_ptr,
     Member ''bio_list'' t_ptr, Member ''plug'' t_ptr, Member ''reclaim_state'' t_ptr,
     Member ''backing_dev_info'' t_ptr, Member ''io_context'' t_ptr,
     Member ''capture_control'' t_ptr, Member ''ptrace_message'' t_long,
     Member ''last_siginfo'' t_ptr, Member ''ioac'' c_task_io_accounting,
     Member ''psi_flags'' t_int, Member ''acct_rss_mem1'' t_long,
     Member ''acct_vm_mem1'' t_long, Member ''acct_timexpd'' t_long,
     Member ''mems_allowed'' (Struct [Member ''bits'' (Arr 16 t_long)]),
     Member ''mems_allowed_seq'' c_seqcount_spinlock, Member ''cpuset_mem_spread_rotor'' t_int,
     Member ''cpuset_slab_spread_rotor'' t_int, Member ''cgroups'' t_ptr,
     Member ''cg_list'' c_list_head, Member ''closid'' t_int, Member ''rmid'' t_int,
     Member ''robust_list'' t_ptr, Member ''compat_robust_list'' t_ptr,
     Member ''pi_state_list'' c_list_head, Member ''pi_state_cache'' t_ptr,
     Member ''futex_exit_mutex'' c_mutex, Member ''futex_state'' t_int,
     Member ''perf_event_ctxp'' (Arr 2 t_ptr), Member ''perf_event_mutex'' c_mutex,
     Member ''perf_event_list'' c_list_head, Member ''mempolicy'' t_ptr,
     Member ''il_prev'' t_short, Member ''pref_node_fork'' t_short,
     Member ''numa_scan_seq'' t_int, Member ''numa_scan_period'' t_int,
     Member ''numa_scan_period_max'' t_int, Member ''numa_preferred_nid'' t_int,
     Member ''numa_migrate_retry'' t_long, Member ''node_stamp'' t_long,
     Member ''last_task_numa_placement'' t_long, Member ''last_sum_exec_runtime'' t_long,
     Member ''numa_work'' c_callback_head, Member ''numa_group'' t_ptr,
     Member ''numa_faults'' t_ptr, Member ''total_numa_faults'' t_long,
     Member ''numa_faults_locality'' (Arr 3 t_long), Member ''numa_pages_migrated'' t_long,
     Member ''rseq'' t_ptr, Member ''rseq_sig'' t_int, Member ''rseq_event_mask'' t_long,
     Member ''tlb_ubc'' c_tlbflush_unmap_batch,
     Member '''' (Union [Member ''rcu_users'' c_refcount_struct, Member ''rcu'' c_callback_head]),
     Member ''splice_pipe'' t_ptr, Member ''task_frag'' c_page_frag, Member ''delays'' t_ptr,
     Member ''nr_dirtied'' t_int, Member ''nr_dirtied_pause'' t_int,
     Member ''dirty_paused_when'' t_long, Member ''timer_slack_ns'' t_long,
     Member ''default_timer_slack_ns'' t_long, Member ''curr_ret_stack'' t_int,
     Member ''curr_ret_depth'' t_int, Member ''ret_stack'' t_ptr,
     Member ''ftrace_timestamp'' t_long,
     Member ''trace_overrun'' (Struct [Member ''counter'' t_int]),
     Member ''tracing_graph_pause'' (Struct [Member ''counter'' t_int]),
     Member ''trace'' t_long, Member ''trace_recursion'' t_long, Member ''memcg_in_oom'' t_ptr,
     Member ''memcg_oom_gfp_mask'' t_int, Member ''memcg_oom_order'' t_int,
     Member ''memcg_nr_pages_over_high'' t_int, Member ''active_memcg'' t_ptr,
     Member ''throttle_queue'' t_ptr, Member ''utask'' t_ptr, Member ''sequential_io'' t_int,
     Member ''sequential_io_avg'' t_int, Member ''kmap_ctrl'' c_kmap_ctrl,
     Member ''pagefault_disabled'' t_int, Member ''oom_reaper_list'' t_ptr,
     Member ''oom_reaper_timer'' c_timer_list, Member ''stack_vm_area'' t_ptr,
     Member ''stack_refcount'' c_refcount_struct, Member ''patch_state'' t_int,
     Member ''security'' t_ptr, Member ''bpf_storage'' t_ptr, Member ''bpf_ctx'' t_ptr,
     Member ''mce_vaddr'' t_ptr, Member ''mce_kflags'' t_long, Member ''mce_addr'' t_long,
     Bits ''mce_ripv'' 8 1, Bits ''mce_whole_page'' 8 1, Bits ''__mce_reserved'' 8 62,
     Member ''mce_kill_me'' c_callback_head, Member ''mce_count'' t_int,
     Member ''kretprobe_instances'' c_llist_head, Member ''l1d_flush_kill'' c_callback_head,
     Bits '''' 8 64, Bits '''' 8 64, Bits '''' 8 64, Bits '''' 8 64,
     Member ''thread'' c_thread_struct]"

definition c_task_struct :: ctype where
  "c_task_struct = Struct (task_struct_head @ task_struct_tail)"

definition c_pt_regs :: ctype where
  "c_pt_regs = Struct
    [Member ''r15'' t_long, Member ''r14'' t_long, Member ''r13'' t_long,
     Member ''r12'' t_long, Member ''bp'' t_long, Member ''bx'' t_long, Member ''r11'' t_long,
     Member ''r10'' t_long, Member ''r9'' t_long, Member ''r8'' t_long, Member ''ax'' t_long,
     Member ''cx'' t_long, Member ''dx'' t_long, Member ''si'' t_long, Member ''di'' t_long,
     Member ''orig_ax'' t_long, Member ''ip'' t_long, Member ''cs'' t_long,
     Member ''flags'' t_long, Member ''sp'' t_long, Member ''ss'' t_long]"

lemma layout_pt_regs [layout]: "c_size c_pt_regs = 168" "c_align c_pt_regs = 8"
  by (simp_all add: c_pt_regs_def layout layout_rules)

section \<open>The offset of the TLS base\<close>

text \<open>
  \<open>fsbase_off\<close>: the offset of \<open>thread.fsbase\<close> in \<open>struct task_struct\<close>. Both members
  exist, so the \<open>None\<close> branches are not reached (see \<open>fsbase_off_value\<close>).
\<close>

definition fsbase_off :: nat where
  "fsbase_off =
     (case (c_offsetof c_task_struct ''thread'', c_offsetof c_thread_struct ''fsbase'') of
        (Some a, Some b) \<Rightarrow> a + b
      | _ \<Rightarrow> 0)"

lemma offsetof_fsbase: "c_offsetof c_thread_struct ''fsbase'' = Some 40"
  by (simp add: c_thread_struct_def layout layout_rules)

lemma offsetof_thread: "c_offsetof c_task_struct ''thread'' = Some 5248"
  by (simp add: c_task_struct_def task_struct_head_def task_struct_tail_def layout layout_rules)

lemma fsbase_off_value: "fsbase_off = 5288"
  by (simp add: fsbase_off_def offsetof_fsbase offsetof_thread)

end
