(* ===== verification/Ftrace_Kernel.thy ===== *)
theory Ftrace_Kernel
  imports Ftrace_Types Vmlinux_Layout
begin

text \<open>
  What the running kernel answers to the helper calls of one probe hit. The kernel is not
  part of the repository, so its answers are a parameter of the model, the record
  \<open>kenv\<close>, with one field per helper of \<open>headers/bpf_helper_defs.h\<close> the program calls.
  A read helper answers with its return code and the byte it leaves at each position of the
  destination; nothing is assumed of either unless a theorem names the assumption.
  The second half holds the accesses of \<open>src/internal/bpf/ftrace.c\<close> that go straight to
  a helper: \<open>get_goid\<close> and \<open>get_pid\<close>.
\<close>

section \<open>Answers of the helpers\<close>

record bpf_pidns_info =
  nsi_pid :: u32
  nsi_tgid :: u32

text \<open>
  \<^item> \<open>k_cpu\<close>: the CPU the hit runs on, which selects the entry of a per-CPU map;
  \<^item> \<open>k_current_task\<close>: \<open>bpf_get_current_task\<close>;
  \<^item> \<open>k_read_kernel a n\<close>: \<open>bpf_probe_read_kernel\<close> of \<open>n\<close> bytes at address \<open>a\<close>;
  \<^item> \<open>k_read_object bs\<close>: \<open>bpf_probe_read_kernel\<close> from an object of the program (a
    member of the context or of the event scratch value) whose bytes are \<open>bs\<close>;
  \<^item> \<open>k_read_user a n\<close>: \<open>bpf_probe_read_user\<close> of \<open>n\<close> bytes at address \<open>a\<close>;
  \<^item> \<open>k_ns_pid_tgid dev ino\<close>: \<open>bpf_get_ns_current_pid_tgid\<close>;
  \<^item> \<open>k_pid_tgid\<close>: \<open>bpf_get_current_pid_tgid\<close>;
  \<^item> \<open>k_prandom\<close>: \<open>bpf_get_prandom_u32\<close>; \<open>k_ktime\<close>: \<open>bpf_ktime_get_ns\<close>;
  \<^item> \<open>k_update_rc\<close>, \<open>k_push_rc\<close>, \<open>k_delete_rc\<close>: the return codes of the one
    \<open>bpf_map_update_elem\<close>, \<open>bpf_map_push_elem\<close> and \<open>bpf_map_delete_elem\<close> a hit
    makes; a map changes only when the code is 0.
\<close>

record kenv =
  k_cpu :: nat
  k_current_task :: u64
  k_read_kernel :: "u64 \<Rightarrow> nat \<Rightarrow> c_long \<times> (nat \<Rightarrow> u8)"
  k_read_object :: "u8 list \<Rightarrow> c_long \<times> (nat \<Rightarrow> u8)"
  k_read_user :: "u64 \<Rightarrow> nat \<Rightarrow> c_long \<times> (nat \<Rightarrow> u8)"
  k_ns_pid_tgid :: "u64 \<Rightarrow> u64 \<Rightarrow> c_long \<times> bpf_pidns_info"
  k_pid_tgid :: u64
  k_prandom :: u32
  k_ktime :: u64
  k_update_rc :: c_long
  k_push_rc :: c_long
  k_delete_rc :: c_long

text \<open>The bytes a read helper leaves in the \<open>n\<close> bytes it was given.\<close>

definition left_bytes :: "nat \<Rightarrow> c_long \<times> (nat \<Rightarrow> u8) \<Rightarrow> u8 list" where
  "left_bytes n ans = map (snd ans) [0..<n]"

lemma length_left_bytes [simp, shape_simps]: "length (left_bytes n ans) = n"
  by (simp add: left_bytes_def)

text \<open>
  The documented behaviour of \<open>bpf_probe_read_kernel\<close> on an object the program holds:
  it succeeds and copies the object.
\<close>

definition reads_objects :: "kenv \<Rightarrow> bool" where
  "reads_objects env \<longleftrightarrow>
     (\<forall>bs. fst (k_read_object env bs) = 0 \<and> left_bytes (length bs) (k_read_object env bs) = bs)"

lemma reads_objects_bytes64:
  "reads_objects env \<Longrightarrow> left_bytes 8 (k_read_object env (bytes64 w)) = bytes64 w"
  unfolding reads_objects_def by (metis length_bytes64)

lemma reads_objects_take:
  "reads_objects env \<Longrightarrow> length bs = n \<Longrightarrow> left_bytes n (k_read_object env bs) = bs"
  unfolding reads_objects_def by metis

section \<open>Who hit the probe\<close>

text \<open>
  The three reads that lead from the current task to the goroutine id: TLS base, address
  of the running \<open>runtime.g\<close>, its \<open>goid\<close>. The code ignores the return codes, so the
  result is whatever the reads left.
\<close>

definition get_goid :: "config \<Rightarrow> kenv \<Rightarrow> u64" where
  "get_goid cfg env =
     (let task = k_current_task env;
          tls_base = le64 (left_bytes 8 (k_read_kernel env (task + of_nat fsbase_off) 8));
          g_addr = le64 (left_bytes 8 (k_read_user env (tls_base + cfg_g_offset cfg) 8));
          goid = le64 (left_bytes 8 (k_read_user env (g_addr + cfg_goid_offset cfg) 8))
      in goid)"

definition get_pid :: "config \<Rightarrow> kenv \<Rightarrow> u32" where
  "get_pid cfg env =
     (if cfg_pidns_dev cfg \<noteq> 0 \<and> cfg_pidns_ino cfg \<noteq> 0 \<and>
         (case k_ns_pid_tgid env (cfg_pidns_dev cfg) (cfg_pidns_ino cfg) of
            (rc, ns) \<Rightarrow> rc = 0 \<and> nsi_tgid ns \<noteq> 0)
      then nsi_tgid (snd (k_ns_pid_tgid env (cfg_pidns_dev cfg) (cfg_pidns_ino cfg)))
      else ucast (drop_bit 32 (k_pid_tgid env)))"

text \<open>
  The key of the goroutine's entry in \<open>should_trace_goid\<close>; the padding member is zero
  because the initializer leaves it out.
\<close>

definition hit_key :: "config \<Rightarrow> kenv \<Rightarrow> goid_key" where
  "hit_key cfg env = \<lparr>gk_pid = get_pid cfg env, gk_pad = 0, gk_goid = get_goid cfg env\<rparr>"

text \<open>
  When the namespaced helper reports failure (on kernels without it the loader replaces
  the call by \<open>r0 = -1\<close>) the id is the one of the initial namespace.
\<close>

lemma get_pid_fallback:
  "fst (k_ns_pid_tgid env (cfg_pidns_dev cfg) (cfg_pidns_ino cfg)) \<noteq> 0 \<Longrightarrow>
     get_pid cfg env = ucast (drop_bit 32 (k_pid_tgid env))"
  by (simp add: get_pid_def case_prod_beta)

lemma get_pid_no_namespace:
  "cfg_pidns_dev cfg = 0 \<or> cfg_pidns_ino cfg = 0 \<Longrightarrow>
     get_pid cfg env = ucast (drop_bit 32 (k_pid_tgid env))"
  by (auto simp: get_pid_def)

end
