(* ===== verification/Ftrace_Fetch.thy ===== *)
theory Ftrace_Fetch
  imports Ftrace_Kernel
begin

text \<open>
  The argument fetching of \<open>src/internal/bpf/ftrace.c\<close>: reading a register, walking a
  chain of offsets and dereferences from it, storing the leaves into the event and the
  per-type recipes that append more leaves for an interface value. One definition per C
  function; the two address loops keep their counter.
\<close>

section \<open>Registers\<close>

text \<open>
  \<open>read_reg\<close> copies the register into the 8-byte cell \<open>regval\<close>; a number above 15
  leaves the cell as it was.
\<close>

definition reg_field :: "u8 \<Rightarrow> (pt_regs \<Rightarrow> u64) option" where
  "reg_field reg =
     (if reg = 0 then Some ctx_ax
      else if reg = 1 then Some ctx_dx
      else if reg = 2 then Some ctx_cx
      else if reg = 3 then Some ctx_bx
      else if reg = 4 then Some ctx_si
      else if reg = 5 then Some ctx_di
      else if reg = 6 then Some ctx_bp
      else if reg = 7 then Some ctx_sp
      else if reg = 8 then Some ctx_r8
      else if reg = 9 then Some ctx_r9
      else if reg = 10 then Some ctx_r10
      else if reg = 11 then Some ctx_r11
      else if reg = 12 then Some ctx_r12
      else if reg = 13 then Some ctx_r13
      else if reg = 14 then Some ctx_r14
      else if reg = 15 then Some ctx_r15
      else None)"

definition read_reg :: "kenv \<Rightarrow> pt_regs \<Rightarrow> u8 \<Rightarrow> u8 list \<Rightarrow> u8 list" where
  "read_reg env ctx reg regval =
     (case reg_field reg of
        Some f \<Rightarrow> left_bytes 8 (k_read_object env (bytes64 (f ctx)))
      | None \<Rightarrow> regval)"

definition fetch_args_from_reg :: "kenv \<Rightarrow> pt_regs \<Rightarrow> arg_data \<Rightarrow> arg_rule \<Rightarrow> arg_data" where
  "fetch_args_from_reg env ctx d rule =
     d\<lparr>ad_data := overlay (read_reg env ctx (ar_reg rule) (take 8 (ad_data d))) (ad_data d)\<rparr>"

section \<open>Argument slots\<close>

definition load_arg_word :: "kenv \<Rightarrow> event \<Rightarrow> u8 \<Rightarrow> u64" where
  "load_arg_word env e idx =
     (let word = (\<lambda>i. le64 (left_bytes 8 (k_read_object env (take 8 (ad_data (ev_args e ! i))))))
      in if idx = 0 then word 0
         else if idx = 1 then word 1
         else if idx = 2 then word 2
         else if idx = 3 then word 3
         else if idx = 4 then word 4
         else if idx = 5 then word 5
         else if idx = 6 then word 6
         else if idx = 7 then word 7
         else 0)"

definition store_arg :: "event \<Rightarrow> u8 \<Rightarrow> arg_data \<Rightarrow> event" where
  "store_arg e idx src =
     (let put = (\<lambda>i. e\<lparr>ev_args := (ev_args e)[i := src]\<rparr>)
      in if idx = 0 then put 0
         else if idx = 1 then put 1
         else if idx = 2 then put 2
         else if idx = 3 then put 3
         else if idx = 4 then put 4
         else if idx = 5 then put 5
         else if idx = 6 then put 6
         else if idx = 7 then put 7
         else e)"

section \<open>Address chains\<close>

text \<open>
  The loop of \<open>fetch_args_from_memory\<close> from counter \<open>i\<close> on: \<open>None\<close> is the early
  return after a failed dereference. Offsets are signed 16-bit values.
\<close>

function memory_loop :: "kenv \<Rightarrow> arg_rule \<Rightarrow> nat \<Rightarrow> u64 \<Rightarrow> u64 option" where
  "memory_loop env rule i addr =
     (if i \<ge> 8 then Some addr
      else if i \<ge> unat (ar_length rule) then Some addr
      else if ar_dereference rule ! i = 1 then
        (case k_read_user env (addr + scast (ar_offsets rule ! i)) 8 of
           (rc, bs) \<Rightarrow>
             if rc \<noteq> 0 then None
             else memory_loop env rule (Suc i) (le64 (left_bytes 8 (rc, bs))))
      else memory_loop env rule (Suc i) (addr + scast (ar_offsets rule ! i)))"
  by pat_completeness auto
termination
  by (relation "measure (\<lambda>(env, rule, i, addr). 8 - i)") auto

declare memory_loop.simps [simp del]

text \<open>The size of the final read, cut to the payload.\<close>

definition clip_size :: "u8 \<Rightarrow> u32" where
  "clip_size sz = (let size = ucast sz in if size > MAX_DATA_SIZE then MAX_DATA_SIZE else size)"

definition fetch_args_from_memory :: "kenv \<Rightarrow> pt_regs \<Rightarrow> arg_data \<Rightarrow> arg_rule \<Rightarrow> arg_data" where
  "fetch_args_from_memory env ctx d rule =
     (let addr = le64 (read_reg env ctx (ar_reg rule) (bytes64 0))
      in if ar_nil_check rule \<noteq> 0 \<and> addr = 0 then d\<lparr>ad_is_nil := 1\<rparr>
         else case memory_loop env rule 0 addr of
           None \<Rightarrow> d\<lparr>ad_read_error := 1\<rparr>
         | Some addr \<Rightarrow>
             (let size = clip_size (ar_size rule)
              in if size = 0 then d
                 else let ans = k_read_user env addr (unat size);
                          d = d\<lparr>ad_data := overlay (left_bytes (unat size) ans) (ad_data d)\<rparr>
                      in if fst ans \<noteq> 0 then d\<lparr>ad_read_error := 1\<rparr> else d))"

function base_loop :: "kenv \<Rightarrow> rel_rule \<Rightarrow> nat \<Rightarrow> u64 \<Rightarrow> u64 option" where
  "base_loop env rule i addr =
     (if i \<ge> 8 then Some addr
      else if i \<ge> unat (rr_length rule) then Some addr
      else if rr_dereference rule ! i = 1 then
        (case k_read_user env (addr + scast (rr_offsets rule ! i)) 8 of
           (rc, bs) \<Rightarrow>
             if rc \<noteq> 0 then None
             else base_loop env rule (Suc i) (le64 (left_bytes 8 (rc, bs))))
      else base_loop env rule (Suc i) (addr + scast (rr_offsets rule ! i)))"
  by pat_completeness auto
termination
  by (relation "measure (\<lambda>(env, rule, i, addr). 8 - i)") auto

declare base_loop.simps [simp del]

text \<open>
  \<open>fetch_from_base\<close> clears its target first, so the result does not depend on what the
  scratch variable \<open>tmp\<close> held.
\<close>

definition fetch_from_base :: "kenv \<Rightarrow> u64 \<Rightarrow> rel_rule \<Rightarrow> arg_data" where
  "fetch_from_base env addr rule =
     (let d = zero_arg_data
      in if rr_nil_check rule \<noteq> 0 \<and> addr = 0 then d\<lparr>ad_is_nil := 1\<rparr>
         else case base_loop env rule 0 addr of
           None \<Rightarrow> d\<lparr>ad_read_error := 1\<rparr>
         | Some addr \<Rightarrow>
             (let size = clip_size (rr_size rule)
              in if size = 0 then d
                 else let ans = k_read_user env addr (unat size);
                          d = d\<lparr>ad_data := overlay (left_bytes (unat size) ans) (ad_data d)\<rparr>
                      in if fst ans \<noteq> 0 then d\<lparr>ad_read_error := 1\<rparr> else d))"

section \<open>Recipes of concrete interface types\<close>

definition recipe_rule :: "type_recipe \<Rightarrow> nat \<Rightarrow> rel_rule option" where
  "recipe_rule rec j =
     (if j = 0 then Some (tr_rules rec ! 0)
      else if j = 1 then Some (tr_rules rec ! 1)
      else if j = 2 then Some (tr_rules rec ! 2)
      else if j = 3 then Some (tr_rules rec ! 3)
      else None)"

text \<open>The inner loop of \<open>apply_type_recipes\<close> from counter \<open>j\<close> on.\<close>

function recipe_loop :: "kenv \<Rightarrow> type_recipe \<Rightarrow> u64 \<Rightarrow> nat \<Rightarrow> event \<Rightarrow> event" where
  "recipe_loop env rec data_ptr j e =
     (if j \<ge> 4 then e
      else if j \<ge> unat (tr_length rec) then e
      else if ev_arg_count e \<ge> 8 then e
      else case recipe_rule rec j of
        None \<Rightarrow> e
      | Some rr \<Rightarrow>
          (let dst = ev_arg_count e;
               tmp = fetch_from_base env data_ptr rr
           in recipe_loop env rec data_ptr (Suc j)
                ((store_arg e dst tmp)\<lparr>ev_arg_count := dst + 1\<rparr>)))"
  by pat_completeness auto
termination
  by (relation "measure (\<lambda>(env, rec, data_ptr, j, e). 4 - j)") auto

declare recipe_loop.simps [simp del]

text \<open>One round of the outer loop; every \<open>continue\<close> leaves the event as it is.\<close>

definition recipe_round :: "kenv \<Rightarrow> bpf_state \<Rightarrow> arg_rules \<Rightarrow> nat \<Rightarrow> event \<Rightarrow> event" where
  "recipe_round env st rules i e =
     (let rule = ars_rules rules ! i; tidx = ar_type_idx rule
      in if ar_iface_data rule = 0 then e
         else if tidx \<ge> 8 then e
         else let type_addr = load_arg_word env e tidx;
                  data_ptr = load_arg_word env e (of_nat i)
              in if type_addr = 0 then e
                 else case type_recipes_map st type_addr of
                   None \<Rightarrow> e
                 | Some rec \<Rightarrow> recipe_loop env rec data_ptr 0 e)"

function type_recipes_loop :: "kenv \<Rightarrow> bpf_state \<Rightarrow> arg_rules \<Rightarrow> nat \<Rightarrow> event \<Rightarrow> event" where
  "type_recipes_loop env st rules i e =
     (if i \<ge> 8 then e
      else if i \<ge> unat (ars_length rules) then e
      else type_recipes_loop env st rules (Suc i) (recipe_round env st rules i e))"
  by pat_completeness auto
termination
  by (relation "measure (\<lambda>(env, st, rules, i, e). 8 - i)") auto

declare type_recipes_loop.simps [simp del]

definition apply_type_recipes :: "kenv \<Rightarrow> bpf_state \<Rightarrow> arg_rules \<Rightarrow> event \<Rightarrow> event" where
  "apply_type_recipes env st rules e = type_recipes_loop env st rules 0 e"

section \<open>All leaves of an event\<close>

text \<open>One leaf: the slot is cleared, then filled as the type of its rule says.\<close>

definition fetch_leaf :: "kenv \<Rightarrow> pt_regs \<Rightarrow> arg_rule \<Rightarrow> arg_data" where
  "fetch_leaf env ctx rule =
     (if ar_type rule = ARG_RULE_REG then fetch_args_from_reg env ctx zero_arg_data rule
      else if ar_type rule = ARG_RULE_MEMORY then fetch_args_from_memory env ctx zero_arg_data rule
      else zero_arg_data)"

function leaves_loop :: "kenv \<Rightarrow> pt_regs \<Rightarrow> arg_rules \<Rightarrow> nat \<Rightarrow> event \<Rightarrow> event" where
  "leaves_loop env ctx rules i e =
     (if i \<ge> 8 then e
      else if i \<ge> unat (ars_length rules) then e
      else leaves_loop env ctx rules (Suc i)
             (e\<lparr>ev_args := (ev_args e)[i := fetch_leaf env ctx (ars_rules rules ! i)]\<rparr>))"
  by pat_completeness auto
termination
  by (relation "measure (\<lambda>(env, ctx, rules, i, e). 8 - i)") auto

declare leaves_loop.simps [simp del]

definition fetch_args :: "kenv \<Rightarrow> pt_regs \<Rightarrow> bpf_state \<Rightarrow> event \<Rightarrow> event" where
  "fetch_args env ctx st e =
     (case arg_rules_map st (ev_ip e) of
        None \<Rightarrow> e
      | Some rules \<Rightarrow>
          (let e = e\<lparr>ev_arg_count := ars_length rules\<rparr>;
               e = (if ev_arg_count e > 8 then e\<lparr>ev_arg_count := 8\<rparr> else e);
               e = leaves_loop env ctx rules 0 e
           in apply_type_recipes env st rules e))"

end
