(* ===== verification/Ftrace_Fetch_Laws.thy ===== *)
theory Ftrace_Fetch_Laws
  imports Ftrace_Fetch
begin

text \<open>
  What \<open>Ftrace_Fetch\<close> computes, without counters and if-chains: address chains as a walk
  over hops, a fetched leaf as one of three outcomes, the recipe loops as appending a list
  of leaves, and \<open>fetch_args\<close> as filling the event with \<open>expected_leaves\<close>. The last
  section shows what fetching never changes.
\<close>

section \<open>Slots\<close>

text \<open>The if-chains over constant indices are an indexed access that ignores indices from 8 on.\<close>

lemma u8_cases8: "(idx :: u8) < 8 \<Longrightarrow>
    idx = 0 \<or> idx = 1 \<or> idx = 2 \<or> idx = 3 \<or> idx = 4 \<or> idx = 5 \<or> idx = 6 \<or> idx = 7"
  by unat_arith

lemma store_arg_eq:
  "store_arg e idx src = (if idx < 8 then e\<lparr>ev_args := (ev_args e)[unat idx := src]\<rparr> else e)"
proof (cases "idx < 8")
  case True
  then show ?thesis by (auto simp: store_arg_def dest!: u8_cases8)
next
  case False
  then have "idx \<noteq> 0" "idx \<noteq> 1" "idx \<noteq> 2" "idx \<noteq> 3" "idx \<noteq> 4" "idx \<noteq> 5" "idx \<noteq> 6" "idx \<noteq> 7"
    by auto
  with False show ?thesis by (simp add: store_arg_def)
qed

lemma load_arg_word_eq:
  "load_arg_word env e idx =
     (if idx < 8
      then le64 (left_bytes 8 (k_read_object env (take 8 (ad_data (ev_args e ! unat idx)))))
      else 0)"
proof (cases "idx < 8")
  case True
  then show ?thesis by (auto simp: load_arg_word_def dest!: u8_cases8)
next
  case False
  then have "idx \<noteq> 0" "idx \<noteq> 1" "idx \<noteq> 2" "idx \<noteq> 3" "idx \<noteq> 4" "idx \<noteq> 5" "idx \<noteq> 6" "idx \<noteq> 7"
    by auto
  with False show ?thesis by (simp add: load_arg_word_def)
qed

lemma u8_less_8: "(c :: u8) < 8 \<longleftrightarrow> unat c < 8"
  by unat_arith

lemma unat_Suc_u8: "(c :: u8) < 8 \<Longrightarrow> unat (c + 1) = Suc (unat c)"
  by (simp add: u8_less_8 unat_word_ariths)

lemma u8_le_8: "8 \<le> (c :: u8) \<longleftrightarrow> 8 \<le> unat c"
  by unat_arith

section \<open>Address chains\<close>

text \<open>
  What the two address loops compute: the (offset, dereference) pairs of the rule, one hop
  after the other; a hop fails when its read fails.
\<close>

definition hop :: "kenv \<Rightarrow> 16 word \<times> u8 \<Rightarrow> u64 \<Rightarrow> u64 option" where
  "hop env s addr =
     (let a = addr + scast (fst s)
      in if snd s = 1
         then let ans = k_read_user env a 8
              in if fst ans = 0 then Some (le64 (left_bytes 8 ans)) else None
         else Some a)"

fun follow :: "kenv \<Rightarrow> (16 word \<times> u8) list \<Rightarrow> u64 \<Rightarrow> u64 option" where
  "follow env [] addr = Some addr"
| "follow env (s # ss) addr = Option.bind (hop env s addr) (follow env ss)"

definition arg_steps :: "arg_rule \<Rightarrow> (16 word \<times> u8) list" where
  "arg_steps rule = take (unat (ar_length rule)) (zip (ar_offsets rule) (ar_dereference rule))"

definition rel_steps :: "rel_rule \<Rightarrow> (16 word \<times> u8) list" where
  "rel_steps rule = take (unat (rr_length rule)) (zip (rr_offsets rule) (rr_dereference rule))"

lemma drop_steps:
  assumes "i < length xs" "length xs = length ys" "i < n"
  shows "drop i (take n (zip xs ys)) = (xs ! i, ys ! i) # drop (Suc i) (take n (zip xs ys))"
  using assms by (subst Cons_nth_drop_Suc [symmetric]) simp_all

lemma memory_loop_follow:
  assumes "arg_rule_shape rule"
  shows "memory_loop env rule i addr = follow env (drop i (arg_steps rule)) addr"
  using assms
proof (induction env rule i addr rule: memory_loop.induct)
  case (1 env rule i addr)
  note sh = "1.prems" [unfolded arg_rule_shape_def]
  show ?case
  proof (cases "i < 8 \<and> i < unat (ar_length rule)")
    case True
    then have d: "drop i (arg_steps rule) =
        (ar_offsets rule ! i, ar_dereference rule ! i) # drop (Suc i) (arg_steps rule)"
      using sh by (simp add: arg_steps_def drop_steps)
    obtain rc bs where ans: "k_read_user env (addr + scast (ar_offsets rule ! i)) 8 = (rc, bs)"
      by (cases "k_read_user env (addr + scast (ar_offsets rule ! i)) 8")
    show ?thesis
      using True "1.IH"(1) [OF _ _ _ ans [symmetric]] "1.IH"(2) "1.prems" ans
      by (subst memory_loop.simps) (simp add: d hop_def Let_def)
  next
    case False
    then have "drop i (arg_steps rule) = []"
      using sh by (auto simp: arg_steps_def)
    with False show ?thesis by (subst memory_loop.simps) auto
  qed
qed

lemma base_loop_follow:
  assumes "rel_rule_shape rule"
  shows "base_loop env rule i addr = follow env (drop i (rel_steps rule)) addr"
  using assms
proof (induction env rule i addr rule: base_loop.induct)
  case (1 env rule i addr)
  note sh = "1.prems" [unfolded rel_rule_shape_def]
  show ?case
  proof (cases "i < 8 \<and> i < unat (rr_length rule)")
    case True
    then have d: "drop i (rel_steps rule) =
        (rr_offsets rule ! i, rr_dereference rule ! i) # drop (Suc i) (rel_steps rule)"
      using sh by (simp add: rel_steps_def drop_steps)
    obtain rc bs where ans: "k_read_user env (addr + scast (rr_offsets rule ! i)) 8 = (rc, bs)"
      by (cases "k_read_user env (addr + scast (rr_offsets rule ! i)) 8")
    show ?thesis
      using True "1.IH"(1) [OF _ _ _ ans [symmetric]] "1.IH"(2) "1.prems" ans
      by (subst base_loop.simps) (simp add: d hop_def Let_def)
  next
    case False
    then have "drop i (rel_steps rule) = []"
      using sh by (auto simp: rel_steps_def)
    with False show ?thesis by (subst base_loop.simps) auto
  qed
qed

section \<open>Leaves\<close>

text \<open>
  The leaf an address chain delivers: nil when the base is null and the rule checks for it;
  unreadable when a dereference on the way failed; otherwise the bytes at the address
  reached, followed by zeros, unreadable when that last read failed.
\<close>

definition address_leaf :: "kenv \<Rightarrow> bool \<Rightarrow> (16 word \<times> u8) list \<Rightarrow> u8 \<Rightarrow> u64 \<Rightarrow> arg_data" where
  "address_leaf env nil_check steps sz base =
     (if nil_check \<and> base = 0 then zero_arg_data\<lparr>ad_is_nil := 1\<rparr>
      else case follow env steps base of
        None \<Rightarrow> zero_arg_data\<lparr>ad_read_error := 1\<rparr>
      | Some a \<Rightarrow>
          (let n = min 64 (unat sz); ans = k_read_user env a n
           in if n = 0 then zero_arg_data
              else zero_arg_data\<lparr>ad_data := left_bytes n ans @ replicate (64 - n) 0,
                                 ad_read_error := (if fst ans = 0 then 0 else 1)\<rparr>))"

lemma unat_clip_size: "unat (clip_size sz) = min 64 (unat sz)"
proof -
  have "unat sz < 2 ^ 8" using unsigned_less [of sz] by simp
  then have "unat (ucast sz :: u32) = unat sz"
    by (simp add: unsigned_ucast_eq take_bit_nat_eq_self)
  then show ?thesis
    by (simp add: clip_size_def Let_def MAX_DATA_SIZE_def word_less_nat_alt)
qed

lemma clip_size_zero: "clip_size sz = 0 \<longleftrightarrow> min 64 (unat sz) = 0"
  by (metis unat_clip_size unat_eq_zero)

lemma fetch_from_base_leaf:
  assumes "rel_rule_shape rule"
  shows "fetch_from_base env addr rule =
           address_leaf env (rr_nil_check rule \<noteq> 0) (rel_steps rule) (rr_size rule) addr"
  using base_loop_follow [OF assms, of env 0 addr]
  by (auto simp: fetch_from_base_def address_leaf_def Let_def clip_size_zero unat_clip_size
      overlay_def zero_arg_data_def split: option.splits)

lemma fetch_args_from_memory_leaf:
  assumes "arg_rule_shape rule"
  shows "fetch_args_from_memory env ctx zero_arg_data rule =
           address_leaf env (ar_nil_check rule \<noteq> 0) (arg_steps rule) (ar_size rule)
             (le64 (read_reg env ctx (ar_reg rule) (bytes64 0)))"
  using memory_loop_follow [OF assms, of env 0]
  by (auto simp: fetch_args_from_memory_def address_leaf_def Let_def clip_size_zero
      unat_clip_size overlay_def zero_arg_data_def split: option.splits)

lemma address_leaf_shape [shape_simps]: "arg_data_shape (address_leaf env nc steps sz base)"
  by (auto simp: address_leaf_def Let_def arg_data_shape_def zero_arg_data_def split: option.splits)

lemma read_reg_length: "length regval = 8 \<Longrightarrow> length (read_reg env ctx reg regval) = 8"
  by (simp add: read_reg_def split: option.split)

lemma fetch_args_from_reg_shape:
  "arg_data_shape d \<Longrightarrow> arg_data_shape (fetch_args_from_reg env ctx d rule)"
  by (simp add: arg_data_shape_def fetch_args_from_reg_def length_overlay read_reg_length)

lemma fetch_leaf_shape:
  "arg_rule_shape rule \<Longrightarrow> arg_data_shape (fetch_leaf env ctx rule)"
  by (simp add: fetch_leaf_def fetch_args_from_reg_shape fetch_args_from_memory_leaf
      address_leaf_shape)

lemma read_reg_value:
  "reads_objects env \<Longrightarrow> reg_field reg = Some f \<Longrightarrow>
     le64 (read_reg env ctx reg regval) = f ctx"
  by (simp add: read_reg_def reads_objects_bytes64)

lemma reg_field_Some_iff: "(\<exists>f. reg_field reg = Some f) \<longleftrightarrow> reg \<le> 15"
proof -
  have "reg \<le> 15 \<longleftrightarrow> reg = 0 \<or> reg = 1 \<or> reg = 2 \<or> reg = 3 \<or> reg = 4 \<or> reg = 5 \<or> reg = 6 \<or> reg = 7 \<or>
     reg = 8 \<or> reg = 9 \<or> reg = 10 \<or> reg = 11 \<or> reg = 12 \<or> reg = 13 \<or> reg = 14 \<or> reg = 15"
    by unat_arith
  then show ?thesis by (auto simp: reg_field_def)
qed

section \<open>Appending leaves\<close>

text \<open>
  The interface the recipes use: eight slots, a count, and an operation that stores into
  one slot. Appending through it fills the slots behind the count and nothing else.
\<close>

locale slot_store =
  fixes put :: "'e \<Rightarrow> u8 \<Rightarrow> 'd \<Rightarrow> 'e"
    and slots :: "'e \<Rightarrow> 'd list"
    and count :: "'e \<Rightarrow> u8"
    and set_count :: "'e \<Rightarrow> u8 \<Rightarrow> 'e"
  assumes slots_put: "i < 8 \<Longrightarrow> slots (put e i d) = (slots e)[unat i := d]"
    and count_set: "count (set_count e n) = n"
    and slots_set: "slots (set_count e n) = slots e"
begin

lemma append_closed:
  assumes "length (slots e) = 8" "unat (count e) + length ds \<le> 8"
  defines "app \<equiv> \<lambda>d e. set_count (put e (count e) d) (count e + 1)"
  shows "slots (fold app ds e) =
           take (unat (count e)) (slots e) @ ds @ drop (unat (count e) + length ds) (slots e)"
    and "unat (count (fold app ds e)) = unat (count e) + length ds"
proof -
  have "slots (fold app ds e) =
      take (unat (count e)) (slots e) @ ds @ drop (unat (count e) + length ds) (slots e)
    \<and> unat (count (fold app ds e)) = unat (count e) + length ds"
    using assms(1,2)
  proof (induction ds arbitrary: e)
    case Nil
    then show ?case by simp
  next
    case (Cons d ds)
    let ?c = "unat (count e)"
    have c: "count e < 8" "?c < 8" using Cons.prems by (simp_all add: u8_less_8)
    have s: "slots (app d e) = (slots e)[?c := d]" and n: "unat (count (app d e)) = Suc ?c"
      using c by (simp_all add: app_def slots_put slots_set count_set unat_Suc_u8)
    have t: "take (Suc ?c) ((slots e)[?c := d]) = take ?c (slots e) @ [d]"
      using c Cons.prems by (simp add: take_Suc_conv_app_nth)
    show ?case
      using Cons.IH [of "app d e"] Cons.prems by (simp add: s n t)
  qed
  then show "slots (fold app ds e) =
      take (unat (count e)) (slots e) @ ds @ drop (unat (count e) + length ds) (slots e)"
    and "unat (count (fold app ds e)) = unat (count e) + length ds" by simp_all
qed

end

interpretation args: slot_store store_arg ev_args ev_arg_count "\<lambda>e n. e\<lparr>ev_arg_count := n\<rparr>"
  by unfold_locales (simp_all add: store_arg_eq)

text \<open>Appending one leaf to an event, and the leaves a recipe has to offer.\<close>

definition append_leaf :: "arg_data \<Rightarrow> event \<Rightarrow> event" where
  "append_leaf d e = (store_arg e (ev_arg_count e) d)\<lparr>ev_arg_count := ev_arg_count e + 1\<rparr>"

definition recipe_leaves :: "kenv \<Rightarrow> type_recipe \<Rightarrow> u64 \<Rightarrow> arg_data list" where
  "recipe_leaves env rec data_ptr =
     map (fetch_from_base env data_ptr) (take (unat (tr_length rec)) (tr_rules rec))"

lemma append_leaves_closed:
  assumes "length (ev_args e) = 8" "unat (ev_arg_count e) + length ds \<le> 8"
  shows "ev_args (fold append_leaf ds e) =
           take (unat (ev_arg_count e)) (ev_args e) @ ds @
           drop (unat (ev_arg_count e) + length ds) (ev_args e)"
    and "unat (ev_arg_count (fold append_leaf ds e)) = unat (ev_arg_count e) + length ds"
  using args.append_closed [OF assms] by (simp_all add: append_leaf_def [abs_def])

lemma recipe_rule_nth: "recipe_rule rec j = (if j < 4 then Some (tr_rules rec ! j) else None)"
proof -
  have "j < 4 \<longleftrightarrow> j = 0 \<or> j = 1 \<or> j = 2 \<or> j = 3" by auto
  then show ?thesis by (auto simp: recipe_rule_def)
qed

lemma recipe_loop_fold:
  assumes "type_recipe_shape rec" "ev_arg_count e \<le> 8"
  shows "recipe_loop env rec data_ptr j e =
           fold append_leaf (take (8 - unat (ev_arg_count e)) (drop j (recipe_leaves env rec data_ptr))) e"
  using assms
proof (induction env rec data_ptr j e rule: recipe_loop.induct)
  case (1 env rec data_ptr j e)
  let ?ls = "recipe_leaves env rec data_ptr"
  have len: "length ?ls = min 4 (unat (tr_length rec))"
    using "1.prems" by (simp add: recipe_leaves_def type_recipe_shape_def)
  show ?case
  proof (cases "j < 4 \<and> j < unat (tr_length rec) \<and> ev_arg_count e < 8")
    case True
    let ?d = "fetch_from_base env data_ptr (tr_rules rec ! j)"
    have d: "drop j ?ls = ?d # drop (Suc j) ?ls"
      using True len "1.prems"
      by (subst Cons_nth_drop_Suc [symmetric]) (simp_all add: recipe_leaves_def type_recipe_shape_def)
    have n: "unat (ev_arg_count (append_leaf ?d e)) = Suc (unat (ev_arg_count e))"
      using True by (simp add: append_leaf_def unat_Suc_u8)
    have c: "8 - unat (ev_arg_count e) = Suc (8 - Suc (unat (ev_arg_count e)))"
      using True u8_less_8 [of "ev_arg_count e"] by linarith
    have le: "ev_arg_count (append_leaf ?d e) \<le> 8"
      using True n by (simp add: word_le_nat_alt u8_less_8)
    have nle: "\<not> 8 \<le> ev_arg_count e" using True leD by blast
    have "recipe_loop env rec data_ptr j e = recipe_loop env rec data_ptr (Suc j) (append_leaf ?d e)"
      using True nle
      by (subst recipe_loop.simps) (simp add: recipe_rule_nth append_leaf_def Let_def)
    also have "\<dots> = fold append_leaf
        (take (8 - unat (ev_arg_count (append_leaf ?d e))) (drop (Suc j) ?ls)) (append_leaf ?d e)"
      using "1.IH" [OF _ _ _ _ refl refl, of "tr_rules rec ! j", folded append_leaf_def]
        True nle "1.prems" le
      by (simp add: recipe_rule_nth)
    also have "\<dots> = fold append_leaf (take (8 - unat (ev_arg_count e)) (drop j ?ls)) e"
      by (simp add: n d c)
    finally show ?thesis .
  next
    case False
    then have "take (8 - unat (ev_arg_count e)) (drop j ?ls) = []"
      using len by (auto simp: not_less u8_le_8)
    with False show ?thesis by (subst recipe_loop.simps) (auto simp: not_less not_le)
  qed
qed

section \<open>The leaves of an event\<close>

text \<open>The leaves of the rules themselves, in order.\<close>

definition base_leaves :: "kenv \<Rightarrow> pt_regs \<Rightarrow> arg_rules \<Rightarrow> arg_data list" where
  "base_leaves env ctx rules =
     map (fetch_leaf env ctx) (take (unat (ars_length rules)) (ars_rules rules))"

lemma length_base_leaves:
  "arg_rules_shape rules \<Longrightarrow> length (base_leaves env ctx rules) = min 8 (unat (ars_length rules))"
  by (simp add: base_leaves_def arg_rules_shape_def)

lemma base_leaves_shape:
  "arg_rules_shape rules \<Longrightarrow> list_all arg_data_shape (base_leaves env ctx rules)"
  by (auto simp: base_leaves_def arg_rules_shape_def list_all_iff intro: fetch_leaf_shape
      dest: in_set_takeD)

lemma leaves_loop_closed:
  assumes "arg_rules_shape rules" "length (ev_args e) = 8" "i \<le> 8"
  shows "leaves_loop env ctx rules i e =
     e\<lparr>ev_args := take i (ev_args e) @ drop i (base_leaves env ctx rules)
                  @ drop (max i (length (base_leaves env ctx rules))) (ev_args e)\<rparr>"
  using assms
proof (induction env ctx rules i e rule: leaves_loop.induct)
  case (1 env ctx rules i e)
  let ?b = "base_leaves env ctx rules"
  have len: "length ?b = min 8 (unat (ars_length rules))"
    using "1.prems" by (simp add: length_base_leaves)
  show ?case
  proof (cases "i < 8 \<and> i < unat (ars_length rules)")
    case True
    let ?d = "fetch_leaf env ctx (ars_rules rules ! i)"
    have d: "drop i ?b = ?d # drop (Suc i) ?b"
      using True len "1.prems"
      by (subst Cons_nth_drop_Suc [symmetric]) (simp_all add: base_leaves_def arg_rules_shape_def)
    have m: "max i (length ?b) = max (Suc i) (length ?b)" using True len by simp
    have t: "take (Suc i) ((ev_args e)[i := ?d]) = take i (ev_args e) @ [?d]"
      using True "1.prems" by (simp add: take_Suc_conv_app_nth)
    show ?thesis
      using True "1.IH" "1.prems" by (subst leaves_loop.simps) (simp add: d m t)
  next
    case False
    then have "drop i ?b = []" "max i (length ?b) = i"
      using len "1.prems"(3) by auto
    moreover have "leaves_loop env ctx rules i e = e"
      using False by (subst leaves_loop.simps) auto
    ultimately show ?thesis by simp
  qed
qed

text \<open>An event whose slots hold the given leaves, the rest cleared.\<close>

definition filled :: "event \<Rightarrow> arg_data list \<Rightarrow> event" where
  "filled e ds = e\<lparr>ev_args := ds @ replicate (8 - length ds) zero_arg_data,
                   ev_arg_count := of_nat (length ds)\<rparr>"

lemma unat_of_nat_small: "n \<le> 8 \<Longrightarrow> unat (of_nat n :: u8) = n"
  by (simp add: unat_of_nat take_bit_nat_eq_self)

lemma filled_simps [simp]:
  "ev_ip (filled e ds) = ev_ip e"
  "ev_args (filled e ds) = ds @ replicate (8 - length ds) zero_arg_data"
  "length ds \<le> 8 \<Longrightarrow> unat (ev_arg_count (filled e ds)) = length ds"
  by (simp_all add: filled_def unat_of_nat_small)

lemma append_leaf_filled:
  assumes "length ds < 8"
  shows "append_leaf d (filled e ds) = filled e (ds @ [d])"
proof -
  have c: "ev_arg_count (filled e ds) < 8" "unat (ev_arg_count (filled e ds)) = length ds"
    using assms by (simp_all add: u8_less_8)
  have n: "ev_arg_count (filled e ds) + 1 = of_nat (length (ds @ [d]))"
    by (simp add: filled_def)
  have r: "replicate (8 - length ds) zero_arg_data
      = zero_arg_data # replicate (8 - length (ds @ [d])) zero_arg_data"
    using assms by (simp add: Suc_diff_Suc [symmetric])
  show ?thesis
    using c n r by (simp add: append_leaf_def store_arg_eq) (simp add: filled_def)
qed

lemma append_leaves_filled:
  "length ds + length xs \<le> 8 \<Longrightarrow> fold append_leaf xs (filled e ds) = filled e (ds @ xs)"
  by (induction xs arbitrary: ds) (simp_all add: append_leaf_filled)

text \<open>
  The abstract result of \<open>fetch_args\<close>: the base leaves, then for every interface rule the
  leaves of the recipe registered for the type word it points to, cut to eight in all.
\<close>

definition leaf_word :: "arg_data list \<Rightarrow> nat \<Rightarrow> u64" where
  "leaf_word ds i = le64 (take 8 (ad_data (ds ! i)))"

definition extra_leaves :: "kenv \<Rightarrow> bpf_state \<Rightarrow> arg_rules \<Rightarrow> arg_data list \<Rightarrow> nat \<Rightarrow> arg_data list" where
  "extra_leaves env st rules base i =
     (let rule = ars_rules rules ! i; type_addr = leaf_word base (unat (ar_type_idx rule))
      in if ar_iface_data rule = 0 \<or> type_addr = 0 then []
         else case type_recipes_map st type_addr of
           None \<Rightarrow> []
         | Some rec \<Rightarrow> recipe_leaves env rec (leaf_word base i))"

definition expected_leaves :: "kenv \<Rightarrow> pt_regs \<Rightarrow> bpf_state \<Rightarrow> arg_rules \<Rightarrow> arg_data list" where
  "expected_leaves env ctx st rules =
     (let base = base_leaves env ctx rules
      in take 8 (base @ concat (map (extra_leaves env st rules base) [0..<length base])))"

definition recipes_shape :: "bpf_state \<Rightarrow> bool" where
  "recipes_shape st \<longleftrightarrow> (\<forall>a rec. type_recipes_map st a = Some rec \<longrightarrow> type_recipe_shape rec)"

definition type_slots_ok :: "arg_rules \<Rightarrow> bool" where
  "type_slots_ok rules \<longleftrightarrow>
     (\<forall>i < min 8 (unat (ars_length rules)). ar_iface_data (ars_rules rules ! i) \<noteq> 0 \<longrightarrow>
        unat (ar_type_idx (ars_rules rules ! i)) < min 8 (unat (ars_length rules)))"

lemma load_filled:
  assumes "reads_objects env" "list_all arg_data_shape base" "length base \<le> length ds"
    "take (length base) ds = base" "length ds \<le> 8" "idx < length base"
  shows "load_arg_word env (filled e ds) (of_nat idx) = leaf_word base idx"
proof -
  have i: "idx < 8" "unat (of_nat idx :: u8) = idx"
    using assms by (simp_all add: unat_of_nat_small)
  have n: "ds ! idx = base ! idx" using assms by (metis nth_take)
  have "length (take 8 (ad_data (base ! idx))) = 8"
    using assms list_all_nth [OF assms(2), of idx] by (simp add: arg_data_shape_def)
  with i n assms show ?thesis
    by (simp add: load_arg_word_eq u8_less_8 nth_append reads_objects_take leaf_word_def)
qed

lemma recipe_round_filled:
  assumes "reads_objects env" "recipes_shape st" "list_all arg_data_shape base"
    "take (length base) ds = base" "length base \<le> length ds" "length ds \<le> 8" "i < length base"
    "length base = min 8 (unat (ars_length rules))" "type_slots_ok rules"
  shows "recipe_round env st rules i (filled e ds) =
           filled e (take 8 (ds @ extra_leaves env st rules base i))"
proof -
  let ?rule = "ars_rules rules ! i"
  let ?tidx = "ar_type_idx ?rule"
  have none: ?thesis if "extra_leaves env st rules base i = []"
    "recipe_round env st rules i (filled e ds) = filled e ds"
    using that assms by simp
  show ?thesis
  proof (cases "ar_iface_data ?rule = 0")
    case True
    then show ?thesis by (intro none) (simp_all add: extra_leaves_def recipe_round_def Let_def)
  next
    case False
    then have t: "unat ?tidx < length base"
      using assms by (simp add: type_slots_ok_def)
    then have t8: "\<not> 8 \<le> ?tidx" using assms by (simp add: u8_le_8)
    have ty: "load_arg_word env (filled e ds) ?tidx = leaf_word base (unat ?tidx)"
      using load_filled [OF assms(1,3,5,4,6) t, of e] by simp
    have dp: "load_arg_word env (filled e ds) (of_nat i) = leaf_word base i"
      using load_filled [OF assms(1,3,5,4,6,7)] .
    have rr: "recipe_round env st rules i (filled e ds) =
        (if leaf_word base (unat ?tidx) = 0 then filled e ds
         else case type_recipes_map st (leaf_word base (unat ?tidx)) of
           None \<Rightarrow> filled e ds | Some rec \<Rightarrow> recipe_loop env rec (leaf_word base i) 0 (filled e ds))"
      using False t8 by (simp add: recipe_round_def Let_def ty dp)
    show ?thesis
    proof (cases "if leaf_word base (unat ?tidx) = 0 then None
        else type_recipes_map st (leaf_word base (unat ?tidx))")
      case None
      then show ?thesis
        using rr by (intro none) (auto simp: extra_leaves_def Let_def split: if_splits)
    next
      case (Some rec)
      then have ne: "leaf_word base (unat ?tidx) \<noteq> 0"
        and m: "type_recipes_map st (leaf_word base (unat ?tidx)) = Some rec"
        by (auto split: if_splits)
      have sh: "type_recipe_shape rec" using assms(2) m by (auto simp: recipes_shape_def)
      have c: "ev_arg_count (filled e ds) \<le> 8" using assms by (simp add: word_le_nat_alt)
      let ?ls = "recipe_leaves env rec (leaf_word base i)"
      have "recipe_round env st rules i (filled e ds) =
          fold append_leaf (take (8 - length ds) ?ls) (filled e ds)"
        using rr ne m recipe_loop_fold [OF sh c] assms(6) by simp
      also have "\<dots> = filled e (ds @ take (8 - length ds) ?ls)"
        using assms(6) by (intro append_leaves_filled) simp
      also have "ds @ take (8 - length ds) ?ls = take 8 (ds @ ?ls)"
        using assms(6) by simp
      finally show ?thesis using False ne m by (simp add: extra_leaves_def Let_def)
    qed
  qed
qed

lemma take8_absorb: "take 8 (take 8 xs @ ys) = take 8 (xs @ ys)"
  by (cases "length xs \<le> 8") simp_all

lemma type_recipes_loop_filled:
  assumes "reads_objects env" "recipes_shape st" "list_all arg_data_shape base"
    "length base = min 8 (unat (ars_length rules))" "type_slots_ok rules"
    "take (length base) ds = base" "length base \<le> length ds" "length ds \<le> 8"
  shows "type_recipes_loop env st rules i (filled e ds) =
     filled e (take 8 (ds @ concat (map (extra_leaves env st rules base) [i..<length base])))"
  using assms(6-8)
proof (induction "length base - i" arbitrary: i ds)
  case 0
  then have "type_recipes_loop env st rules i (filled e ds) = filled e ds"
    using assms(4) by (subst type_recipes_loop.simps) auto
  with 0 show ?case by simp
next
  case (Suc k)
  let ?x = "extra_leaves env st rules base i"
  let ?ds = "take 8 (ds @ ?x)"
  have i: "i < length base" using Suc.hyps(2) by simp
  have inv: "take (length base) ?ds = base" "length base \<le> length ?ds" "length ?ds \<le> 8"
    using Suc.prems assms(4) by (auto simp: min_def take_append)
  have "type_recipes_loop env st rules i (filled e ds) =
      type_recipes_loop env st rules (Suc i) (recipe_round env st rules i (filled e ds))"
    using i assms(4) by (subst type_recipes_loop.simps) auto
  also have "recipe_round env st rules i (filled e ds) = filled e ?ds"
    by (rule recipe_round_filled [OF assms(1-3) Suc.prems i assms(4,5)])
  also have "type_recipes_loop env st rules (Suc i) (filled e ?ds) =
      filled e (take 8 (?ds @ concat (map (extra_leaves env st rules base) [Suc i..<length base])))"
    using Suc.hyps(1) [OF _ inv] Suc.hyps(2) by simp
  also have "\<dots> = filled e (take 8 (ds @ concat (map (extra_leaves env st rules base) [i..<length base])))"
    using i by (simp only: take8_absorb upt_conv_Cons list.map concat.simps append_assoc)
  finally show ?case .
qed

lemma filled_base:
  assumes "arg_rules_shape rules" "ev_args e = replicate 8 zero_arg_data"
    "e' = (if ars_length rules > 8 then e\<lparr>ev_arg_count := 8\<rparr> else e\<lparr>ev_arg_count := ars_length rules\<rparr>)"
  shows "leaves_loop env ctx rules 0 e' = filled e (base_leaves env ctx rules)"
proof -
  let ?b = "base_leaves env ctx rules"
  have len: "length ?b = min 8 (unat (ars_length rules))"
    by (rule length_base_leaves [OF assms(1)])
  have c: "ev_arg_count e' = of_nat (length ?b)"
    using assms(3) by (auto simp: len min_def word_less_nat_alt word_unat_eq_iff)
  have a: "ev_args e' = replicate 8 zero_arg_data" using assms(2,3) by simp
  have e: "filled e ?b = e'\<lparr>ev_args := ?b @ replicate (8 - length ?b) zero_arg_data\<rparr>"
    using c assms(3) by (auto simp: filled_def)
  show ?thesis
    using leaves_loop_closed [OF assms(1), of e' 0 env ctx] a e by simp
qed

theorem fetch_args_filled:
  assumes "reads_objects env" "recipes_shape st" "arg_rules_map st (ev_ip e) = Some rules"
    "arg_rules_shape rules" "type_slots_ok rules" "ev_args e = replicate 8 zero_arg_data"
  shows "fetch_args env ctx st e = filled e (expected_leaves env ctx st rules)"
proof -
  let ?b = "base_leaves env ctx rules"
  let ?e = "if ars_length rules > 8 then e\<lparr>ev_arg_count := 8\<rparr> else e\<lparr>ev_arg_count := ars_length rules\<rparr>"
  have len: "length ?b = min 8 (unat (ars_length rules))"
    by (rule length_base_leaves [OF assms(4)])
  have "fetch_args env ctx st e = apply_type_recipes env st rules (leaves_loop env ctx rules 0 ?e)"
    using assms(3) by (simp add: fetch_args_def Let_def)
  also have "\<dots> = type_recipes_loop env st rules 0 (filled e ?b)"
    using filled_base [OF assms(4,6) refl] by (simp add: apply_type_recipes_def)
  also have "\<dots> = filled e (expected_leaves env ctx st rules)"
    using type_recipes_loop_filled [OF assms(1,2) base_leaves_shape [OF assms(4)] len assms(5), of ?b] len
    by (simp add: expected_leaves_def Let_def)
  finally show ?thesis .
qed

section \<open>Frame and shape\<close>

text \<open>Fetching touches no member of the event but the leaves and their count.\<close>

definition same_head :: "event \<Rightarrow> event \<Rightarrow> bool" where
  "same_head e e' \<longleftrightarrow>
     ev_goid e' = ev_goid e \<and> ev_ip e' = ev_ip e \<and> ev_bp e' = ev_bp e \<and>
     ev_caller_ip e' = ev_caller_ip e \<and> ev_caller_bp e' = ev_caller_bp e \<and>
     ev_time_ns e' = ev_time_ns e \<and> ev_pid e' = ev_pid e \<and>
     ev_sample_denominator e' = ev_sample_denominator e \<and> ev_location e' = ev_location e \<and>
     ev_trace_flags e' = ev_trace_flags e \<and> ev_padding e' = ev_padding e"

text \<open>Eight well-formed slots, and a count that stays within them.\<close>

definition leaves_ok :: "event \<Rightarrow> bool" where
  "leaves_ok e \<longleftrightarrow> event_shape e \<and> ev_arg_count e \<le> 8"

lemma same_head_refl [simp, intro]: "same_head e e"
  by (simp add: same_head_def)

lemma same_head_trans: "same_head e e' \<Longrightarrow> same_head e' e'' \<Longrightarrow> same_head e e''"
  by (simp add: same_head_def)

lemma same_head_set [simp]:
  "same_head e (e\<lparr>ev_args := a\<rparr>)" "same_head e (e\<lparr>ev_arg_count := c\<rparr>)"
  "same_head e (e\<lparr>ev_args := a, ev_arg_count := c\<rparr>)"
  by (simp_all add: same_head_def)

lemma same_head_append [simp]: "same_head e (append_leaf d e)"
  by (simp add: same_head_def append_leaf_def store_arg_eq)

lemma leaves_ok_append:
  "leaves_ok e \<Longrightarrow> ev_arg_count e < 8 \<Longrightarrow> arg_data_shape d \<Longrightarrow> leaves_ok (append_leaf d e)"
  by (auto simp: leaves_ok_def append_leaf_def store_arg_eq event_shape_def list_all_update
      word_le_nat_alt unat_Suc_u8 u8_less_8)

lemma leaves_ok_args:
  "leaves_ok e \<Longrightarrow> arg_data_shape d \<Longrightarrow> leaves_ok (e\<lparr>ev_args := (ev_args e)[i := d]\<rparr>)"
  by (simp add: leaves_ok_def event_shape_args)

lemma fetch_from_base_shape: "rel_rule_shape rule \<Longrightarrow> arg_data_shape (fetch_from_base env a rule)"
  by (simp add: fetch_from_base_leaf address_leaf_shape)

lemma recipe_loop_head: "same_head e (recipe_loop env rec p j e)"
proof (induction env rec p j e rule: recipe_loop.induct)
  case (1 env rec p j e)
  show ?case
  proof (cases "j \<ge> 4 \<or> j \<ge> unat (tr_length rec) \<or> ev_arg_count e \<ge> 8 \<or> recipe_rule rec j = None")
    case True
    then show ?thesis by (subst recipe_loop.simps) auto
  next
    case False
    then obtain rr where rr: "recipe_rule rec j = Some rr" by auto
    let ?e = "append_leaf (fetch_from_base env p rr) e"
    have "recipe_loop env rec p j e = recipe_loop env rec p (Suc j) ?e"
      using False rr by (subst recipe_loop.simps) (simp add: append_leaf_def Let_def)
    moreover have "same_head ?e (recipe_loop env rec p (Suc j) ?e)"
      using "1.IH" [OF _ _ _ rr refl refl, folded append_leaf_def] False by simp
    ultimately show ?thesis using same_head_trans [OF same_head_append] by simp
  qed
qed

lemma recipe_loop_leaves:
  "type_recipe_shape rec \<Longrightarrow> leaves_ok e \<Longrightarrow> leaves_ok (recipe_loop env rec p j e)"
proof (induction env rec p j e rule: recipe_loop.induct)
  case (1 env rec p j e)
  show ?case
  proof (cases "j \<ge> 4 \<or> j \<ge> unat (tr_length rec) \<or> ev_arg_count e \<ge> 8")
    case True
    then show ?thesis using "1.prems" by (subst recipe_loop.simps) auto
  next
    case False
    then have rr: "recipe_rule rec j = Some (tr_rules rec ! j)" and c: "ev_arg_count e < 8"
      by (simp_all add: recipe_rule_nth not_le)
    let ?e = "append_leaf (fetch_from_base env p (tr_rules rec ! j)) e"
    have "leaves_ok ?e"
      using False "1.prems" c
      by (intro leaves_ok_append fetch_from_base_shape type_recipe_shape_nth) simp_all
    moreover have "recipe_loop env rec p j e = recipe_loop env rec p (Suc j) ?e"
      using False rr by (subst recipe_loop.simps) (simp add: append_leaf_def Let_def)
    ultimately show ?thesis
      using "1.IH" [OF _ _ _ rr refl refl, folded append_leaf_def] False "1.prems"(1) by simp
  qed
qed

lemma recipe_round_head: "same_head e (recipe_round env st rules i e)"
  by (simp add: recipe_round_def Let_def recipe_loop_head split: option.split)

lemma recipe_round_leaves:
  "recipes_shape st \<Longrightarrow> leaves_ok e \<Longrightarrow> leaves_ok (recipe_round env st rules i e)"
  by (auto simp: recipe_round_def Let_def recipes_shape_def split: option.split
      intro: recipe_loop_leaves)

lemma type_recipes_loop_head: "same_head e (type_recipes_loop env st rules i e)"
proof (induction env st rules i e rule: type_recipes_loop.induct)
  case (1 env st rules i e)
  then show ?case
    by (subst type_recipes_loop.simps) (auto intro: same_head_trans [OF recipe_round_head])
qed

lemma type_recipes_loop_leaves:
  "recipes_shape st \<Longrightarrow> leaves_ok e \<Longrightarrow> leaves_ok (type_recipes_loop env st rules i e)"
proof (induction env st rules i e rule: type_recipes_loop.induct)
  case (1 env st rules i e)
  then show ?case
    by (subst type_recipes_loop.simps) (auto intro: recipe_round_leaves)
qed

lemma leaves_loop_head: "same_head e (leaves_loop env ctx rules i e)"
proof (induction env ctx rules i e rule: leaves_loop.induct)
  case (1 env ctx rules i e)
  then show ?case
    by (subst leaves_loop.simps) (auto intro: same_head_trans [OF same_head_set(1)])
qed

lemma leaves_loop_leaves:
  "arg_rules_shape rules \<Longrightarrow> leaves_ok e \<Longrightarrow> leaves_ok (leaves_loop env ctx rules i e)"
proof (induction env ctx rules i e rule: leaves_loop.induct)
  case (1 env ctx rules i e)
  have "i < 8 \<Longrightarrow> leaves_ok (e\<lparr>ev_args := (ev_args e)[i := fetch_leaf env ctx (ars_rules rules ! i)]\<rparr>)"
    using "1.prems" by (intro leaves_ok_args fetch_leaf_shape arg_rules_shape_nth)
  with "1" show ?case
    by (subst leaves_loop.simps) auto
qed

lemma fetch_args_head: "same_head e (fetch_args env ctx st e)"
  unfolding fetch_args_def apply_type_recipes_def Let_def
  by (auto split: option.split intro!: same_head_trans [OF _ type_recipes_loop_head]
      same_head_trans [OF _ leaves_loop_head])

lemma fetch_args_fields [simp]:
  "ev_goid (fetch_args env ctx st e) = ev_goid e"
  "ev_ip (fetch_args env ctx st e) = ev_ip e"
  "ev_bp (fetch_args env ctx st e) = ev_bp e"
  "ev_caller_ip (fetch_args env ctx st e) = ev_caller_ip e"
  "ev_caller_bp (fetch_args env ctx st e) = ev_caller_bp e"
  "ev_time_ns (fetch_args env ctx st e) = ev_time_ns e"
  "ev_pid (fetch_args env ctx st e) = ev_pid e"
  "ev_sample_denominator (fetch_args env ctx st e) = ev_sample_denominator e"
  "ev_location (fetch_args env ctx st e) = ev_location e"
  "ev_trace_flags (fetch_args env ctx st e) = ev_trace_flags e"
  "ev_padding (fetch_args env ctx st e) = ev_padding e"
  using fetch_args_head [of e env ctx st] by (simp_all add: same_head_def)

definition rules_shape :: "bpf_state \<Rightarrow> bool" where
  "rules_shape st \<longleftrightarrow> (\<forall>a rules. arg_rules_map st a = Some rules \<longrightarrow> arg_rules_shape rules)"

lemma fetch_args_leaves:
  assumes "rules_shape st" "recipes_shape st" "leaves_ok e"
  shows "leaves_ok (fetch_args env ctx st e)"
proof (cases "arg_rules_map st (ev_ip e)")
  case None
  then show ?thesis using assms by (simp add: fetch_args_def)
next
  case (Some rules)
  let ?e = "e\<lparr>ev_arg_count := ars_length rules\<rparr>"
  let ?e' = "if ev_arg_count ?e > 8 then ?e\<lparr>ev_arg_count := 8\<rparr> else ?e"
  have "leaves_ok ?e'"
    using assms(3) by (auto simp: leaves_ok_def event_shape_def)
  then show ?thesis
    using assms(1,2) Some
    by (auto simp: fetch_args_def Let_def apply_type_recipes_def rules_shape_def
        intro!: type_recipes_loop_leaves leaves_loop_leaves)
qed

end
