(* ===== verification/Ftrace_Sampling.thy ===== *)
theory Ftrace_Sampling
  imports Ftrace_Types Ftrace_Kernel
begin

text \<open>
  The small helpers of \<open>src/internal/bpf/ftrace.c\<close> around the probes: the per-CPU
  statistics, the sampling decision and the push into the event queue. A pointer returned
  by \<open>get_runtime_stats\<close> is the CPU whose entry it points to.
\<close>

section \<open>Statistics\<close>

definition get_runtime_stats :: "kenv \<Rightarrow> bpf_state \<Rightarrow> runtime_stats option" where
  "get_runtime_stats env st = runtime_stats_map st (k_cpu env)"

text \<open>\<open>if (stats) stats->counter++\<close>, for any of the counters.\<close>

definition bump :: "kenv \<Rightarrow> (runtime_stats \<Rightarrow> runtime_stats) \<Rightarrow> bpf_state \<Rightarrow> bpf_state" where
  "bump env f st =
     (case get_runtime_stats env st of
        None \<Rightarrow> st
      | Some stats \<Rightarrow> st\<lparr>runtime_stats_map := (runtime_stats_map st)(k_cpu env \<mapsto> f stats)\<rparr>)"

definition inc_wanted :: "runtime_stats \<Rightarrow> runtime_stats" where
  "inc_wanted s = s\<lparr>rs_wanted_roots := rs_wanted_roots s + 1\<rparr>"

definition inc_admitted :: "runtime_stats \<Rightarrow> runtime_stats" where
  "inc_admitted s = s\<lparr>rs_admitted_roots := rs_admitted_roots s + 1\<rparr>"

definition inc_sampled_out :: "runtime_stats \<Rightarrow> runtime_stats" where
  "inc_sampled_out s = s\<lparr>rs_sampled_out_roots := rs_sampled_out_roots s + 1\<rparr>"

definition inc_emitted :: "runtime_stats \<Rightarrow> runtime_stats" where
  "inc_emitted s = s\<lparr>rs_emitted_events := rs_emitted_events s + 1\<rparr>"

definition inc_dropped :: "runtime_stats \<Rightarrow> runtime_stats" where
  "inc_dropped s = s\<lparr>rs_dropped_events := rs_dropped_events s + 1\<rparr>"

definition inc_aborted :: "runtime_stats \<Rightarrow> runtime_stats" where
  "inc_aborted s = s\<lparr>rs_aborted_roots := rs_aborted_roots s + 1\<rparr>"

definition inc_insert_failures :: "runtime_stats \<Rightarrow> runtime_stats" where
  "inc_insert_failures s = s\<lparr>rs_state_insert_failures := rs_state_insert_failures s + 1\<rparr>"

lemmas inc_defs = inc_wanted_def inc_admitted_def inc_sampled_out_def inc_emitted_def
  inc_dropped_def inc_aborted_def inc_insert_failures_def

section \<open>Sampling\<close>

definition current_sample_denominator :: "bpf_state \<Rightarrow> u32" where
  "current_sample_denominator st =
     (case sample_config_map st 0 of
        None \<Rightarrow> 1
      | Some cfg \<Rightarrow> if sc_denominator cfg \<le> 1 then 1 else sc_denominator cfg)"

definition should_sample :: "kenv \<Rightarrow> u32 \<Rightarrow> bool" where
  "should_sample env denominator \<longleftrightarrow> denominator \<le> 1 \<or> k_prandom env mod denominator = 0"

section \<open>The event queue\<close>

text \<open>
  \<open>push_event\<close> returns the helper's code as a C \<open>int\<close>. The queue receives a copy of
  the event when the helper succeeds.
\<close>

definition push_event :: "kenv \<Rightarrow> event \<Rightarrow> bpf_state \<Rightarrow> c_int \<times> bpf_state" where
  "push_event env e st =
     (let result = ucast (k_push_rc env) :: c_int;
          st = (if k_push_rc env = 0 then st\<lparr>event_queue := event_queue st @ [e]\<rparr> else st);
          st = (if result = 0 then bump env inc_emitted st else bump env inc_dropped st)
      in (result, st))"

section \<open>Frame\<close>

lemma bump_fields [simp]:
  "arg_rules_map (bump env f st) = arg_rules_map st"
  "type_recipes_map (bump env f st) = type_recipes_map st"
  "event_queue (bump env f st) = event_queue st"
  "event_buffer (bump env f st) = event_buffer st"
  "sample_config_map (bump env f st) = sample_config_map st"
  "should_trace_goid (bump env f st) = should_trace_goid st"
  "should_trace_rip (bump env f st) = should_trace_rip st"
  "should_trace_ret (bump env f st) = should_trace_ret st"
  by (simp_all add: bump_def split: option.split)

lemma bump_stats:
  "runtime_stats_map (bump env f st) =
     (runtime_stats_map st)(k_cpu env := map_option f (runtime_stats_map st (k_cpu env)))"
  by (auto simp: bump_def get_runtime_stats_def fun_eq_iff split: option.split)

lemma push_event_fields [simp]:
  "arg_rules_map (snd (push_event env e st)) = arg_rules_map st"
  "type_recipes_map (snd (push_event env e st)) = type_recipes_map st"
  "event_buffer (snd (push_event env e st)) = event_buffer st"
  "sample_config_map (snd (push_event env e st)) = sample_config_map st"
  "should_trace_goid (snd (push_event env e st)) = should_trace_goid st"
  "should_trace_rip (snd (push_event env e st)) = should_trace_rip st"
  "should_trace_ret (snd (push_event env e st)) = should_trace_ret st"
  by (simp_all add: push_event_def Let_def)

lemma push_event_queue:
  "event_queue (snd (push_event env e st)) =
     event_queue st @ (if k_push_rc env = 0 then [e] else [])"
  by (simp add: push_event_def Let_def)

lemma push_event_stats:
  "runtime_stats_map (snd (push_event env e st)) =
     (runtime_stats_map st)(k_cpu env :=
        map_option (if (ucast (k_push_rc env) :: c_int) = 0 then inc_emitted else inc_dropped)
          (runtime_stats_map st (k_cpu env)))"
  by (simp add: push_event_def Let_def bump_stats)

lemma push_event_result: "fst (push_event env e st) = ucast (k_push_rc env)"
  by (simp add: push_event_def Let_def)

lemma current_sample_denominator_pos: "1 \<le> current_sample_denominator st"
  by (auto simp: current_sample_denominator_def not_le split: option.split)

text \<open>
  Of all values the random helper can return, the share that admits a root call.
\<close>

definition admitting_values :: "u32 \<Rightarrow> u32 set" where
  "admitting_values d = {r. d \<le> 1 \<or> r mod d = 0}"

lemma should_sample_iff: "should_sample env d \<longleftrightarrow> k_prandom env \<in> admitting_values d"
  by (simp add: should_sample_def admitting_values_def)

lemma card_multiples: "0 < d \<Longrightarrow> card {r :: nat. r < n \<and> d dvd r} = (n + d - 1) div d"
proof (induction n)
  case 0
  then show ?case by simp
next
  case (Suc n)
  have fin: "finite {r :: nat. r < n \<and> d dvd r}" by simp
  show ?case
  proof (cases "d dvd n")
    case True
    then have "{r :: nat. r < Suc n \<and> d dvd r} = insert n {r. r < n \<and> d dvd r}"
      by (auto simp: less_Suc_eq)
    then have c: "card {r :: nat. r < Suc n \<and> d dvd r} = Suc ((n + d - 1) div d)"
      using fin Suc by simp
    obtain k where k: "n = d * k" using True by blast
    have "(Suc n + d - 1) div d = Suc k" using Suc.prems k by simp
    moreover have "(n + d - 1) div d = k"
    proof -
      have "(d - 1 + k * d) div d = k + (d - 1) div d" using Suc.prems by (intro div_mult_self1) simp
      then show ?thesis using Suc.prems k by (simp add: mult.commute add.commute)
    qed
    ultimately show ?thesis using c by simp
  next
    case False
    then have e: "{r :: nat. r < Suc n \<and> d dvd r} = {r. r < n \<and> d dvd r}"
      by (auto simp: less_Suc_eq)
    have "(Suc n + d - 1) div d = (n + d - 1) div d"
    proof -
      let ?q = "n div d" and ?r = "n mod d"
      have r: "0 < ?r" "?r < d" using False Suc.prems by (auto simp: dvd_eq_mod_eq_0)
      have n: "n = ?q * d + ?r" by simp
      have "(?r - 1 + (?q + 1) * d) div d = ?q + 1 + (?r - 1) div d"
        using Suc.prems by (intro div_mult_self1) simp
      moreover have "(?r + (?q + 1) * d) div d = ?q + 1 + ?r div d"
        using Suc.prems by (intro div_mult_self1) simp
      moreover have "0 < n" using False by (cases n) auto
      moreover have "n + d - 1 = ?r - 1 + (?q + 1) * d" "Suc n + d - 1 = ?r + (?q + 1) * d"
        using r n Suc.prems add_mult_distrib [of ?q 1 d] by linarith+
      ultimately show ?thesis using r by simp
    qed
    then show ?thesis using Suc e by simp
  qed
qed

lemma card_admitting:
  assumes "1 \<le> d"
  shows "card (admitting_values d) = (2 ^ 32 + unat d - 1) div unat d"
proof -
  have pos: "0 < unat d" using assms by (simp add: word_le_nat_alt)
  have "unat ` admitting_values d = {r. r < 2 ^ 32 \<and> unat d dvd r}"
  proof (intro set_eqI iffI)
    fix r assume "r \<in> unat ` admitting_values d"
    then obtain w where r: "r = unat w" and "w \<in> admitting_values d" by blast
    then have m: "d \<le> 1 \<or> w mod d = 0" by (simp only: admitting_values_def mem_Collect_eq)
    have "unat d dvd unat w"
    proof (cases "d \<le> 1")
      case True
      then have "d = 1" using assms by (rule order_antisym)
      then show ?thesis by simp
    next
      case False
      then have "unat w mod unat d = 0" using False m unat_mod [of w d] by simp
      then show ?thesis by (simp add: dvd_eq_mod_eq_0)
    qed
    then show "r \<in> {r. r < 2 ^ 32 \<and> unat d dvd r}" using r unsigned_less [of w] by simp
  next
    fix r assume "r \<in> {r. r < 2 ^ 32 \<and> unat d dvd r}"
    then have r: "r < 2 ^ 32" "r mod unat d = 0" by auto
    have u: "unat (of_nat r :: u32) = r" using r by (simp add: unat_of_nat take_bit_nat_eq_self)
    then have "(of_nat r :: u32) mod d = 0" using r by (metis unat_mod unat_eq_zero)
    then have "(of_nat r :: u32) \<in> admitting_values d"
      by (simp only: admitting_values_def mem_Collect_eq simp_thms)
    then show "r \<in> unat ` admitting_values d"
      using u by (metis image_eqI)
  qed
  moreover have "inj_on unat (admitting_values d)" by (simp add: inj_on_def word_unat_eq_iff)
  ultimately have "card (admitting_values d) = card {r. r < 2 ^ 32 \<and> unat d dvd r}"
    by (metis card_image)
  then show ?thesis using card_multiples [OF pos] by simp
qed

end
