(* ===== verification/Ftrace_Probes.thy ===== *)
theory Ftrace_Probes
  imports Ftrace_Fetch Ftrace_Sampling
begin

text \<open>
  The three probe programs of \<open>src/internal/bpf/ftrace.c\<close>: \<open>ent\<close> at a function entry,
  \<open>ret\<close> at a RET instruction and \<open>goroutine_exit\<close> at \<open>runtime.goexit1\<close>. Each is a
  function from the configuration, the kernel's answers, the registers and the maps to the
  program's return code and the maps afterwards. A hit is atomic on the maps: the entry of
  a goroutine in \<open>should_trace_goid\<close> is only touched while that goroutine runs, and the
  per-CPU entries only by the CPU's own hits. The blocks of the two longer programs are
  definitions of their own.
\<close>

section \<open>Shared pieces\<close>

text \<open>
  The CPU's scratch event: the program gives up when the lookup fails; otherwise it clears
  the event in place, and whatever the body makes of it stays in the buffer.
\<close>

definition with_event ::
    "kenv \<Rightarrow> bpf_state \<Rightarrow> (event \<Rightarrow> c_int \<times> event \<times> bpf_state) \<Rightarrow> c_int \<times> bpf_state" where
  "with_event env st body =
     (case event_buffer st (k_cpu env) of
        None \<Rightarrow> (0, st)
      | Some _ \<Rightarrow>
          (case body zero_event of
             (rc, e, st') \<Rightarrow> (rc, st'\<lparr>event_buffer := (event_buffer st')(k_cpu env \<mapsto> e)\<rparr>)))"

definition put_state :: "goid_key \<Rightarrow> trace_state \<Rightarrow> bpf_state \<Rightarrow> bpf_state" where
  "put_state gkey s st = st\<lparr>should_trace_goid := (should_trace_goid st)(gkey \<mapsto> s)\<rparr>"

definition delete_state :: "kenv \<Rightarrow> goid_key \<Rightarrow> bpf_state \<Rightarrow> bpf_state" where
  "delete_state env gkey st =
     (if k_delete_rc env = 0 then st\<lparr>should_trace_goid := (should_trace_goid st)(gkey := None)\<rparr>
      else st)"

text \<open>The event counter has passed the limit, which only adaptive sampling enforces.\<close>

definition over_limit :: "config \<Rightarrow> trace_state \<Rightarrow> bool" where
  "over_limit cfg s \<longleftrightarrow> cfg_adaptive_sampling cfg \<and> ts_event_count s > MAX_SAMPLE_EVENTS"

definition fetch_if_configured ::
    "config \<Rightarrow> kenv \<Rightarrow> pt_regs \<Rightarrow> bpf_state \<Rightarrow> event \<Rightarrow> event" where
  "fetch_if_configured cfg env ctx st e =
     (if cfg_fetch_args cfg then fetch_args env ctx st e else e)"

section \<open>Function entry\<close>

definition initial_state :: "event \<Rightarrow> u32 \<Rightarrow> trace_state" where
  "initial_state e denominator =
     \<lparr>ts_root_ip = ev_ip e, ts_last_ip = ev_ip e, ts_last_bp = ev_bp e, ts_root_depth = 1,
      ts_event_count = 1, ts_sample_denominator = denominator, ts_pad = 0\<rparr>"

text \<open>
  No trace state yet: an unwanted function is ignored, a wanted one is a root call that is
  sampled. The flag tells whether the program goes on to emit an event.
\<close>

definition ent_root ::
    "config \<Rightarrow> kenv \<Rightarrow> goid_key \<Rightarrow> event \<Rightarrow> bpf_state \<Rightarrow> bool \<times> event \<times> bpf_state" where
  "ent_root cfg env gkey e st =
     (if should_trace_rip st (ev_ip e) = None then (False, e, st)
      else
        let denominator = current_sample_denominator st;
            st = bump env inc_wanted st
        in if \<not> should_sample env denominator then (False, e, bump env inc_sampled_out st)
           else if k_update_rc env \<noteq> 0 then (False, e, bump env inc_insert_failures st)
           else
             let st = put_state gkey (initial_state e denominator) st;
                 e = e\<lparr>ev_sample_denominator := denominator\<rparr>;
                 st = bump env inc_admitted st;
                 e = (if cfg_adaptive_sampling cfg then e\<lparr>ev_trace_flags := TRACE_START\<rparr> else e)
             in (True, e, st))"

text \<open>
  A trace state exists: what the entry event does to it. \<open>duplicate\<close> recognises the
  second hit of one entry after the runtime moved the goroutine's stack.
\<close>

definition is_duplicate :: "trace_state \<Rightarrow> event \<Rightarrow> bool" where
  "is_duplicate s e \<longleftrightarrow> ts_last_ip s = ev_ip e \<and> ts_last_bp s \<noteq> ev_caller_bp e"

definition ent_update :: "config \<Rightarrow> bool \<Rightarrow> event \<Rightarrow> trace_state \<Rightarrow> trace_state" where
  "ent_update cfg wanted e s =
     (let s1 = s\<lparr>ts_event_count := ts_event_count s + 1\<rparr>;
          trace_abort = over_limit cfg s1;
          duplicate = is_duplicate s1 e;
          s2 = (if \<not> trace_abort \<and> cfg_adaptive_sampling cfg \<and> wanted \<and>
                   ts_root_ip s1 = ev_ip e \<and> \<not> duplicate
                then s1\<lparr>ts_root_depth := ts_root_depth s1 + 1\<rparr> else s1)
      in s2\<lparr>ts_last_ip := ev_ip e, ts_last_bp := ev_bp e\<rparr>)"

definition ent_nested ::
    "config \<Rightarrow> kenv \<Rightarrow> goid_key \<Rightarrow> trace_state \<Rightarrow> event \<Rightarrow> bpf_state \<Rightarrow> bool \<times> event \<times> bpf_state" where
  "ent_nested cfg env gkey s e st =
     (let e = e\<lparr>ev_sample_denominator := ts_sample_denominator s\<rparr>;
          trace_abort = over_limit cfg (s\<lparr>ts_event_count := ts_event_count s + 1\<rparr>);
          e = (if trace_abort then e\<lparr>ev_trace_flags := TRACE_ABORT\<rparr> else e);
          st = (if trace_abort then bump env inc_aborted st else st);
          wanted = (should_trace_rip st (ev_ip e) \<noteq> None);
          st = put_state gkey (ent_update cfg wanted e s) st
      in (trace_abort, e, st))"

text \<open>The common end: time, caller, arguments, push, and the deletion after an abort.\<close>

definition ent_finish ::
    "config \<Rightarrow> kenv \<Rightarrow> pt_regs \<Rightarrow> goid_key \<Rightarrow> bool \<Rightarrow> event \<Rightarrow> bpf_state \<Rightarrow> c_int \<times> event \<times> bpf_state" where
  "ent_finish cfg env ctx gkey trace_abort e st =
     (let e = e\<lparr>ev_location := ENTPOINT, ev_time_ns := k_ktime env\<rparr>;
          ra = ctx_sp ctx;
          e = e\<lparr>ev_caller_ip := le64 (left_bytes 8 (k_read_user env ra 8))\<rparr>;
          e = fetch_if_configured cfg env ctx st e
      in case push_event env e st of
           (push_result, st) \<Rightarrow>
             (push_result, e, if trace_abort then delete_state env gkey st else st))"

definition ent :: "config \<Rightarrow> kenv \<Rightarrow> pt_regs \<Rightarrow> bpf_state \<Rightarrow> c_int \<times> bpf_state" where
  "ent cfg env ctx st =
     with_event env st (\<lambda>e.
       let e = e\<lparr>ev_goid := get_goid cfg env, ev_pid := get_pid cfg env, ev_ip := ctx_ip ctx,
                 ev_bp := ctx_sp ctx - 8, ev_caller_bp := ctx_bp ctx\<rparr>;
           gkey = hit_key cfg env
       in case should_trace_goid st gkey of
            None \<Rightarrow>
              (case ent_root cfg env gkey e st of
                 (go, e, st) \<Rightarrow> if go then ent_finish cfg env ctx gkey False e st else (0, e, st))
          | Some s \<Rightarrow>
              (case ent_nested cfg env gkey s e st of
                 (trace_abort, e, st) \<Rightarrow> ent_finish cfg env ctx gkey trace_abort e st))"

section \<open>Function return\<close>

text \<open>What the return event does to the trace state before the arguments are fetched.\<close>

definition ret_update :: "trace_state \<Rightarrow> trace_state" where
  "ret_update s = s\<lparr>ts_last_ip := 0, ts_event_count := ts_event_count s + 1\<rparr>"

text \<open>Whether the RET belongs to the function whose entry started the sample.\<close>

definition returns_from_root :: "bpf_state \<Rightarrow> u64 \<Rightarrow> trace_state \<Rightarrow> bool" where
  "returns_from_root st ip s \<longleftrightarrow>
     (case should_trace_ret st ip of None \<Rightarrow> False | Some root_ip \<Rightarrow> root_ip = ts_root_ip s)"

definition ret_finish ::
    "config \<Rightarrow> kenv \<Rightarrow> goid_key \<Rightarrow> bool \<Rightarrow> trace_state \<Rightarrow> event \<Rightarrow> bpf_state \<Rightarrow> c_int \<times> event \<times> bpf_state" where
  "ret_finish cfg env gkey trace_abort s e st =
     (let at_root = (\<not> trace_abort \<and> cfg_adaptive_sampling cfg \<and> returns_from_root st (ev_ip e) s);
          trace_end = (at_root \<and> ts_root_depth s \<le> 1);
          st = (if at_root \<and> ts_root_depth s > 1
                then put_state gkey (s\<lparr>ts_root_depth := ts_root_depth s - 1\<rparr>) st else st);
          e = (if trace_end then e\<lparr>ev_trace_flags := TRACE_END\<rparr> else e)
      in case push_event env e st of
           (push_result, st) \<Rightarrow>
             (push_result, e,
              if trace_end \<or> trace_abort then delete_state env gkey st else st))"

definition ret :: "config \<Rightarrow> kenv \<Rightarrow> pt_regs \<Rightarrow> bpf_state \<Rightarrow> c_int \<times> bpf_state" where
  "ret cfg env ctx st =
     with_event env st (\<lambda>e.
       let e = e\<lparr>ev_goid := get_goid cfg env, ev_pid := get_pid cfg env\<rparr>;
           gkey = hit_key cfg env
       in case should_trace_goid st gkey of
            None \<Rightarrow> (0, e, st)
          | Some s \<Rightarrow>
              (let s' = ret_update s;
                   st = put_state gkey s' st;
                   e = e\<lparr>ev_sample_denominator := ts_sample_denominator s, ev_location := RETPOINT,
                         ev_ip := ctx_ip ctx, ev_time_ns := k_ktime env\<rparr>;
                   trace_abort = over_limit cfg s';
                   e = (if trace_abort then e\<lparr>ev_trace_flags := TRACE_ABORT\<rparr> else e);
                   st = (if trace_abort then bump env inc_aborted st else st);
                   e = fetch_if_configured cfg env ctx st e
               in ret_finish cfg env gkey trace_abort s' e st))"

section \<open>Goroutine exit\<close>

definition goroutine_exit :: "config \<Rightarrow> kenv \<Rightarrow> pt_regs \<Rightarrow> bpf_state \<Rightarrow> c_int \<times> bpf_state" where
  "goroutine_exit cfg env ctx st =
     with_event env st (\<lambda>e.
       let e = e\<lparr>ev_goid := get_goid cfg env, ev_pid := get_pid cfg env, ev_location := GOROUTINE_EXIT\<rparr>;
           gkey = hit_key cfg env
       in case should_trace_goid st gkey of
            None \<Rightarrow> (0, e, st)
          | Some s \<Rightarrow>
              (let st = delete_state env gkey st
               in case push_event env e st of (push_result, st) \<Rightarrow> (push_result, e, st)))"

end
