(* ===== verification/Ftrace_Machine.thy ===== *)
theory Ftrace_Machine
  imports Ftrace_Fetch_Laws Ftrace_Probes
begin

text \<open>
  The three probe programs as one machine. The main lemma, \<open>hit_effect\<close>, describes a
  whole hit by two functions of the goroutine's own table entry, and the interpretation
  \<open>goroutines\<close> turns it into the independence of the goroutines of a run.
\<close>

section \<open>Hits\<close>

text \<open>
  One execution of a probe program: which of the three, the kernel's answers to it and the
  registers it was started with. \<open>key_of\<close> is the goroutine's entry of
  \<open>should_trace_goid\<close>.
\<close>

datatype hit = Ent kenv pt_regs | Ret kenv pt_regs | Exit kenv pt_regs

fun hit_env :: "hit \<Rightarrow> kenv" where
  "hit_env (Ent env ctx) = env"
| "hit_env (Ret env ctx) = env"
| "hit_env (Exit env ctx) = env"

fun hit_ctx :: "hit \<Rightarrow> pt_regs" where
  "hit_ctx (Ent env ctx) = ctx"
| "hit_ctx (Ret env ctx) = ctx"
| "hit_ctx (Exit env ctx) = ctx"

fun run_probe :: "config \<Rightarrow> hit \<Rightarrow> bpf_state \<Rightarrow> c_int \<times> bpf_state" where
  "run_probe cfg (Ent env ctx) st = ent cfg env ctx st"
| "run_probe cfg (Ret env ctx) st = ret cfg env ctx st"
| "run_probe cfg (Exit env ctx) st = goroutine_exit cfg env ctx st"

definition hit_step :: "config \<Rightarrow> hit \<Rightarrow> bpf_state \<Rightarrow> bpf_state" where
  "hit_step cfg h st = snd (run_probe cfg h st)"

definition key_of :: "config \<Rightarrow> hit \<Rightarrow> goid_key" where
  "key_of cfg h = hit_key cfg (hit_env h)"

section \<open>What a hit does not change\<close>

text \<open>
  The part of the state that no probe writes: the rule, recipe, sampling and address maps,
  and which CPUs have a scratch event. The queue, the statistics, the goroutine table and
  the contents of the scratch events are blanked.
\<close>

definition fixed_part :: "bpf_state \<Rightarrow> bpf_state" where
  "fixed_part st =
     st\<lparr>event_queue := [], event_buffer := (\<lambda>cpu. map_option (\<lambda>_. zero_event) (event_buffer st cpu)),
        runtime_stats_map := Map.empty, should_trace_goid := Map.empty\<rparr>"

lemma fixed_part_fields [simp]:
  "arg_rules_map (fixed_part st) = arg_rules_map st"
  "type_recipes_map (fixed_part st) = type_recipes_map st"
  "sample_config_map (fixed_part st) = sample_config_map st"
  "should_trace_rip (fixed_part st) = should_trace_rip st"
  "should_trace_ret (fixed_part st) = should_trace_ret st"
  "event_buffer (fixed_part st) cpu = None \<longleftrightarrow> event_buffer st cpu = None"
  by (simp_all add: fixed_part_def)

lemma fixed_part_eqI:
  assumes "arg_rules_map st' = arg_rules_map st" "type_recipes_map st' = type_recipes_map st"
    "sample_config_map st' = sample_config_map st" "should_trace_rip st' = should_trace_rip st"
    "should_trace_ret st' = should_trace_ret st"
    "\<forall>cpu. (event_buffer st' cpu = None) = (event_buffer st cpu = None)"
  shows "fixed_part st' = fixed_part st"
proof -
  have "map_option (\<lambda>_. zero_event) (event_buffer st' cpu) =
        map_option (\<lambda>_. zero_event) (event_buffer st cpu)" for cpu
    using assms(6) [rule_format, of cpu] by (cases "event_buffer st' cpu"; cases "event_buffer st cpu") simp_all
  with assms(1-5) show ?thesis by (simp add: fixed_part_def)
qed

lemma current_sample_denominator_fixed [simp]:
  "current_sample_denominator (fixed_part st) = current_sample_denominator st"
  by (simp add: current_sample_denominator_def)

lemma returns_from_root_fixed [simp]:
  "returns_from_root (fixed_part st) ip s = returns_from_root st ip s"
  by (simp add: returns_from_root_def)

section \<open>The life of one goroutine's entry\<close>

text \<open>
  The three programs seen from one entry of \<open>should_trace_goid\<close>: a \<open>_cell\<close> function
  computes the entry after the hit and an \<open>_event\<close> function the event the hit offers to
  the queue, both from the entry before and the fixed part of the state alone.
\<close>

definition ent_head :: "config \<Rightarrow> kenv \<Rightarrow> pt_regs \<Rightarrow> event" where
  "ent_head cfg env ctx =
     zero_event\<lparr>ev_goid := get_goid cfg env, ev_pid := get_pid cfg env, ev_ip := ctx_ip ctx,
                ev_bp := ctx_sp ctx - 8, ev_caller_bp := ctx_bp ctx\<rparr>"

definition counted :: "trace_state \<Rightarrow> trace_state" where
  "counted s = s\<lparr>ts_event_count := ts_event_count s + 1\<rparr>"

lemma ent_update_event [simp]:
  "ent_update cfg w (e\<lparr>ev_sample_denominator := d\<rparr>) s = ent_update cfg w e s"
  "ent_update cfg w (e\<lparr>ev_trace_flags := f\<rparr>) s = ent_update cfg w e s"
  by (simp_all add: ent_update_def is_duplicate_def)

lemma ent_update_count [simp]: "ts_event_count (ent_update cfg w e s) = ts_event_count s + 1"
  by (simp add: ent_update_def Let_def)

lemma ret_update_count [simp]: "ts_event_count (ret_update s) = ts_event_count s + 1"
  by (simp add: ret_update_def)

lemma over_limit_updates [simp]:
  "over_limit cfg (ent_update cfg w e s) = over_limit cfg (counted s)"
  "over_limit cfg (ret_update s) = over_limit cfg (counted s)"
  by (simp_all add: over_limit_def counted_def)

lemma ret_update_root [simp]:
  "ts_root_depth (ret_update s) = ts_root_depth s"
  "returns_from_root st ip (ret_update s) = returns_from_root st ip s"
  by (simp_all add: ret_update_def returns_from_root_def split: option.split)

definition is_wanted :: "bpf_state \<Rightarrow> u64 \<Rightarrow> bool" where
  "is_wanted c ip \<longleftrightarrow> should_trace_rip c ip \<noteq> None"

definition admits :: "kenv \<Rightarrow> bpf_state \<Rightarrow> u64 \<Rightarrow> bool" where
  "admits env c ip \<longleftrightarrow>
     is_wanted c ip \<and> should_sample env (current_sample_denominator c) \<and> k_update_rc env = 0"

fun ent_cell :: "config \<Rightarrow> bpf_state \<Rightarrow> kenv \<Rightarrow> pt_regs \<Rightarrow> trace_state option \<Rightarrow> trace_state option" where
  "ent_cell cfg c env ctx None =
     (if admits env c (ctx_ip ctx)
      then Some (initial_state (ent_head cfg env ctx) (current_sample_denominator c)) else None)"
| "ent_cell cfg c env ctx (Some s) =
     (let s' = ent_update cfg (is_wanted c (ctx_ip ctx)) (ent_head cfg env ctx) s
      in if over_limit cfg s' \<and> k_delete_rc env = 0 then None else Some s')"

fun ret_cell :: "config \<Rightarrow> bpf_state \<Rightarrow> kenv \<Rightarrow> pt_regs \<Rightarrow> trace_state option \<Rightarrow> trace_state option" where
  "ret_cell cfg c env ctx None = None"
| "ret_cell cfg c env ctx (Some s) =
     (let s' = ret_update s
      in if over_limit cfg s' then (if k_delete_rc env = 0 then None else Some s')
         else if cfg_adaptive_sampling cfg \<and> returns_from_root c (ctx_ip ctx) s'
         then (if ts_root_depth s' > 1 then Some (s'\<lparr>ts_root_depth := ts_root_depth s' - 1\<rparr>)
               else if k_delete_rc env = 0 then None else Some s')
         else Some s')"

fun exit_cell :: "kenv \<Rightarrow> trace_state option \<Rightarrow> trace_state option" where
  "exit_cell env v = (if k_delete_rc env = 0 then None else v)"

fun hit_cell :: "config \<Rightarrow> bpf_state \<Rightarrow> hit \<Rightarrow> trace_state option \<Rightarrow> trace_state option" where
  "hit_cell cfg c h v =
     (if event_buffer c (k_cpu (hit_env h)) = None then v
      else case h of
        Ent env ctx \<Rightarrow> ent_cell cfg c env ctx v
      | Ret env ctx \<Rightarrow> ret_cell cfg c env ctx v
      | Exit env ctx \<Rightarrow> exit_cell env v)"

definition ent_tail :: "config \<Rightarrow> kenv \<Rightarrow> pt_regs \<Rightarrow> bpf_state \<Rightarrow> event \<Rightarrow> event" where
  "ent_tail cfg env ctx c e =
     fetch_if_configured cfg env ctx c
       (e\<lparr>ev_location := ENTPOINT, ev_time_ns := k_ktime env,
          ev_caller_ip := le64 (left_bytes 8 (k_read_user env (ctx_sp ctx) 8))\<rparr>)"

fun ent_event :: "config \<Rightarrow> bpf_state \<Rightarrow> kenv \<Rightarrow> pt_regs \<Rightarrow> trace_state option \<Rightarrow> event option" where
  "ent_event cfg c env ctx None =
     (let e = (ent_head cfg env ctx)\<lparr>ev_sample_denominator := current_sample_denominator c\<rparr>;
          e = (if cfg_adaptive_sampling cfg then e\<lparr>ev_trace_flags := TRACE_START\<rparr> else e)
      in if admits env c (ctx_ip ctx) then Some (ent_tail cfg env ctx c e) else None)"
| "ent_event cfg c env ctx (Some s) =
     (let e = (ent_head cfg env ctx)\<lparr>ev_sample_denominator := ts_sample_denominator s\<rparr>;
          e = (if over_limit cfg (counted s) then e\<lparr>ev_trace_flags := TRACE_ABORT\<rparr> else e)
      in Some (ent_tail cfg env ctx c e))"

definition ends_sample :: "config \<Rightarrow> bpf_state \<Rightarrow> u64 \<Rightarrow> trace_state \<Rightarrow> bool" where
  "ends_sample cfg c ip s' \<longleftrightarrow>
     \<not> over_limit cfg s' \<and> cfg_adaptive_sampling cfg \<and> returns_from_root c ip s' \<and>
     ts_root_depth s' \<le> 1"

fun ret_event :: "config \<Rightarrow> bpf_state \<Rightarrow> kenv \<Rightarrow> pt_regs \<Rightarrow> trace_state option \<Rightarrow> event option" where
  "ret_event cfg c env ctx None = None"
| "ret_event cfg c env ctx (Some s) =
     (let s' = ret_update s;
          e = fetch_if_configured cfg env ctx c
            (let e = zero_event\<lparr>ev_goid := get_goid cfg env, ev_pid := get_pid cfg env,
               ev_sample_denominator := ts_sample_denominator s, ev_location := RETPOINT,
               ev_ip := ctx_ip ctx, ev_time_ns := k_ktime env\<rparr>
             in if over_limit cfg s' then e\<lparr>ev_trace_flags := TRACE_ABORT\<rparr> else e)
      in Some (if ends_sample cfg c (ctx_ip ctx) s' then e\<lparr>ev_trace_flags := TRACE_END\<rparr> else e))"

fun exit_event :: "config \<Rightarrow> kenv \<Rightarrow> trace_state option \<Rightarrow> event option" where
  "exit_event cfg env None = None"
| "exit_event cfg env (Some s) =
     Some (zero_event\<lparr>ev_goid := get_goid cfg env, ev_pid := get_pid cfg env,
             ev_location := GOROUTINE_EXIT\<rparr>)"

fun hit_event :: "config \<Rightarrow> bpf_state \<Rightarrow> hit \<Rightarrow> trace_state option \<Rightarrow> event option" where
  "hit_event cfg c h v =
     (if event_buffer c (k_cpu (hit_env h)) = None then None
      else case h of
        Ent env ctx \<Rightarrow> ent_event cfg c env ctx v
      | Ret env ctx \<Rightarrow> ret_event cfg c env ctx v
      | Exit env ctx \<Rightarrow> exit_event cfg env v)"

lemma fetch_if_configured_cong:
  "arg_rules_map st = arg_rules_map st' \<Longrightarrow> type_recipes_map st = type_recipes_map st' \<Longrightarrow>
     fetch_if_configured cfg env ctx st e = fetch_if_configured cfg env ctx st' e"
proof -
  assume a: "arg_rules_map st = arg_rules_map st'" and t: "type_recipes_map st = type_recipes_map st'"
  have r: "recipe_round env st rules i e = recipe_round env st' rules i e" for rules i e
    unfolding recipe_round_def t by (rule refl)
  have l: "type_recipes_loop env st rules i e = type_recipes_loop env st' rules i e" for rules i e
  proof (induction "8 - i" arbitrary: i e)
    case 0
    then show ?case
      by (simp add: type_recipes_loop.simps [of env st] type_recipes_loop.simps [of env st'])
  next
    case (Suc k)
    then show ?case
      using Suc.hyps(1) [of "Suc i"]
      by (simp add: type_recipes_loop.simps [of env st rules i] type_recipes_loop.simps [of env st' rules i] r)
  qed
  have ap: "apply_type_recipes env st = apply_type_recipes env st'"
    by (intro ext) (simp add: apply_type_recipes_def l)
  show ?thesis
    unfolding fetch_if_configured_def fetch_args_def a ap by (rule refl)
qed


lemma fetch_if_configured_fixed:
  "fetch_if_configured cfg env ctx (fixed_part st) e = fetch_if_configured cfg env ctx st e"
  by (rule fetch_if_configured_cong) simp_all

lemma fetch_if_configured_fields [simp]:
  "ev_goid (fetch_if_configured cfg env ctx st e) = ev_goid e"
  "ev_ip (fetch_if_configured cfg env ctx st e) = ev_ip e"
  "ev_bp (fetch_if_configured cfg env ctx st e) = ev_bp e"
  "ev_caller_ip (fetch_if_configured cfg env ctx st e) = ev_caller_ip e"
  "ev_caller_bp (fetch_if_configured cfg env ctx st e) = ev_caller_bp e"
  "ev_time_ns (fetch_if_configured cfg env ctx st e) = ev_time_ns e"
  "ev_pid (fetch_if_configured cfg env ctx st e) = ev_pid e"
  "ev_sample_denominator (fetch_if_configured cfg env ctx st e) = ev_sample_denominator e"
  "ev_location (fetch_if_configured cfg env ctx st e) = ev_location e"
  "ev_trace_flags (fetch_if_configured cfg env ctx st e) = ev_trace_flags e"
  "ev_padding (fetch_if_configured cfg env ctx st e) = ev_padding e"
  by (simp_all add: fetch_if_configured_def)

section \<open>The programs implement the entry functions\<close>

lemma put_state_fields [simp]:
  "arg_rules_map (put_state k s st) = arg_rules_map st"
  "type_recipes_map (put_state k s st) = type_recipes_map st"
  "event_queue (put_state k s st) = event_queue st"
  "event_buffer (put_state k s st) = event_buffer st"
  "sample_config_map (put_state k s st) = sample_config_map st"
  "runtime_stats_map (put_state k s st) = runtime_stats_map st"
  "should_trace_goid (put_state k s st) = (should_trace_goid st)(k \<mapsto> s)"
  "should_trace_rip (put_state k s st) = should_trace_rip st"
  "should_trace_ret (put_state k s st) = should_trace_ret st"
  by (simp_all add: put_state_def)

lemma delete_state_fields [simp]:
  "arg_rules_map (delete_state env k st) = arg_rules_map st"
  "type_recipes_map (delete_state env k st) = type_recipes_map st"
  "event_queue (delete_state env k st) = event_queue st"
  "event_buffer (delete_state env k st) = event_buffer st"
  "sample_config_map (delete_state env k st) = sample_config_map st"
  "runtime_stats_map (delete_state env k st) = runtime_stats_map st"
  "should_trace_goid (delete_state env k st) =
     (if k_delete_rc env = 0 then (should_trace_goid st)(k := None) else should_trace_goid st)"
  "should_trace_rip (delete_state env k st) = should_trace_rip st"
  "should_trace_ret (delete_state env k st) = should_trace_ret st"
  by (simp_all add: delete_state_def)

text \<open>The effect of a hit on the maps it can change, as one record of facts.\<close>

fun opt_list :: "'a option \<Rightarrow> 'a list" where
  "opt_list None = []"
| "opt_list (Some x) = [x]"

definition effect ::
    "kenv \<Rightarrow> goid_key \<Rightarrow> trace_state option \<Rightarrow> event option \<Rightarrow> bpf_state \<Rightarrow> bpf_state \<Rightarrow> bool" where
  "effect env k cell ev st st' \<longleftrightarrow>
     arg_rules_map st' = arg_rules_map st \<and> type_recipes_map st' = type_recipes_map st \<and>
     sample_config_map st' = sample_config_map st \<and> should_trace_rip st' = should_trace_rip st \<and>
     should_trace_ret st' = should_trace_ret st \<and>
     (\<forall>cpu. (event_buffer st' cpu = None) = (event_buffer st cpu = None)) \<and>
     should_trace_goid st' = (should_trace_goid st)(k := cell) \<and>
     event_queue st' = event_queue st @ (if k_push_rc env = 0 then opt_list ev else [])"


lemma with_event_effect:
  assumes "effect env k cell ev st (snd (snd (body zero_event)))"
    and "event_buffer st (k_cpu env) \<noteq> None"
  shows "effect env k cell ev st (snd (with_event env st body))"
  using assms by (auto simp: with_event_def effect_def case_prod_beta split: if_splits)

lemma fetch_if_configured_updates [simp]:
  "fetch_if_configured cfg env ctx (bump env' f st) e = fetch_if_configured cfg env ctx st e"
  "fetch_if_configured cfg env ctx (put_state k s st) e = fetch_if_configured cfg env ctx st e"
  by (rule fetch_if_configured_cong; simp)+

lemmas entry_defs = ent_root_def ent_nested_def ent_finish_def admits_def is_wanted_def
  ent_tail_def ent_head_def

lemma ent_effect:
  assumes "event_buffer st (k_cpu env) \<noteq> None"
  shows "effect env (hit_key cfg env)
     (ent_cell cfg (fixed_part st) env ctx (should_trace_goid st (hit_key cfg env)))
     (ent_event cfg (fixed_part st) env ctx (should_trace_goid st (hit_key cfg env)))
     st (snd (ent cfg env ctx st))"
  unfolding ent_def
proof (rule with_event_effect [OF _ assms], goal_cases)
  case 1
  let ?k = "hit_key cfg env"
  show ?case
  proof (cases "should_trace_goid st ?k")
    case None
    show ?thesis
    proof (cases "admits env st (ctx_ip ctx)")
      case True
      then obtain w where "should_trace_rip st (ctx_ip ctx) = Some w"
        by (auto simp: admits_def is_wanted_def)
      then show ?thesis
        using True None
        by (cases "k_push_rc env = 0"; cases "cfg_adaptive_sampling cfg")
          (simp_all add: effect_def entry_defs case_prod_beta Let_def push_event_queue
            fetch_if_configured_fixed)
    next
      case False
      then show ?thesis
        using None by (auto simp: effect_def entry_defs case_prod_beta Let_def fun_upd_idem)
    qed
  next
    case (Some s)
    then show ?thesis
      by (cases "over_limit cfg (counted s)"; cases "k_delete_rc env = 0"; cases "k_push_rc env = 0")
        (simp_all add: effect_def entry_defs counted_def [symmetric] case_prod_beta Let_def
          push_event_queue fetch_if_configured_fixed)
  qed
qed

lemma returns_from_root_updates [simp]:
  "returns_from_root (bump env f st) ip s = returns_from_root st ip s"
  "returns_from_root (put_state k s' st) ip s = returns_from_root st ip s"
  by (simp_all add: returns_from_root_def)

lemma ret_finish_effect:
  assumes "effect env k (Some s') None st st1"
    and at_root: "at_root = (\<not> ab \<and> cfg_adaptive_sampling cfg \<and> returns_from_root st (ev_ip e) s')"
  shows "effect env k
     (if ab \<or> (at_root \<and> ts_root_depth s' \<le> 1) then (if k_delete_rc env = 0 then None else Some s')
      else if at_root then Some (s'\<lparr>ts_root_depth := ts_root_depth s' - 1\<rparr>) else Some s')
     (Some (if at_root \<and> ts_root_depth s' \<le> 1 then e\<lparr>ev_trace_flags := TRACE_END\<rparr> else e))
     st (snd (snd (ret_finish cfg env k ab s' e st1)))"
proof -
  have r: "returns_from_root st1 (ev_ip e) s' = returns_from_root st (ev_ip e) s'"
    using assms(1) by (simp add: effect_def returns_from_root_def)
  have le: "ts_root_depth s' \<le> 1 \<longleftrightarrow> \<not> 1 < ts_root_depth s'" by (rule not_less [symmetric])
  show ?thesis
    using assms(1)
    by (cases "cfg_adaptive_sampling cfg"; cases "returns_from_root st (ev_ip e) s'"; cases "1 < ts_root_depth s'"; cases "ab"; cases "k_push_rc env = 0")
      (simp_all add: effect_def ret_finish_def at_root r case_prod_beta Let_def
        push_event_queue le)
qed

lemma ret_effect:
  assumes "event_buffer st (k_cpu env) \<noteq> None"
  shows "effect env (hit_key cfg env)
     (ret_cell cfg (fixed_part st) env ctx (should_trace_goid st (hit_key cfg env)))
     (ret_event cfg (fixed_part st) env ctx (should_trace_goid st (hit_key cfg env)))
     st (snd (ret cfg env ctx st))"
  unfolding ret_def
proof (rule with_event_effect [OF _ assms], goal_cases)
  case 1
  let ?k = "hit_key cfg env"
  show ?case
  proof (cases "should_trace_goid st ?k")
    case None
    then show ?thesis by (simp add: effect_def Let_def fun_upd_idem)
  next
    case (Some s)
    let ?ab = "over_limit cfg (counted s)"
    let ?st = "if ?ab then bump env inc_aborted (put_state ?k (ret_update s) st)
               else put_state ?k (ret_update s) st"
    let ?e0 = "zero_event\<lparr>ev_goid := get_goid cfg env, ev_pid := get_pid cfg env,
      ev_sample_denominator := ts_sample_denominator s, ev_location := RETPOINT,
      ev_ip := ctx_ip ctx, ev_time_ns := k_ktime env\<rparr>"
    let ?e = "fetch_if_configured cfg env ctx st
      (if ?ab then ?e0\<lparr>ev_trace_flags := TRACE_ABORT\<rparr> else ?e0)"
    have le: "ts_root_depth s \<le> 1 \<longleftrightarrow> \<not> 1 < ts_root_depth s" by (rule not_less [symmetric])
    have eff: "effect env ?k (Some (ret_update s)) None st ?st"
      by (simp add: effect_def)
    show ?thesis
      using Some ret_finish_effect [OF eff refl, of ?ab cfg ?e]
      by (cases ?ab; cases "cfg_adaptive_sampling cfg"; cases "returns_from_root st (ctx_ip ctx) s";
          cases "1 < ts_root_depth s"; cases "k_delete_rc env = 0")
        (simp_all add: Let_def fetch_if_configured_fixed ends_sample_def le)
  qed
qed

lemma goroutine_exit_effect:
  assumes "event_buffer st (k_cpu env) \<noteq> None"
  shows "effect env (hit_key cfg env)
     (exit_cell env (should_trace_goid st (hit_key cfg env)))
     (exit_event cfg env (should_trace_goid st (hit_key cfg env)))
     st (snd (goroutine_exit cfg env ctx st))"
  unfolding goroutine_exit_def
  by (rule with_event_effect [OF _ assms])
    (auto simp: effect_def Let_def case_prod_beta push_event_queue fun_upd_idem split: option.splits)

lemma with_event_none: "event_buffer st (k_cpu env) = None \<Longrightarrow> with_event env st body = (0, st)"
  by (simp add: with_event_def)

lemma hit_effect:
  "effect (hit_env h) (key_of cfg h)
     (hit_cell cfg (fixed_part st) h (should_trace_goid st (key_of cfg h)))
     (hit_event cfg (fixed_part st) h (should_trace_goid st (key_of cfg h)))
     st (hit_step cfg h st)"
proof (cases "event_buffer st (k_cpu (hit_env h)) = None")
  case True
  then show ?thesis
    by (cases h) (simp_all add: hit_step_def ent_def ret_def goroutine_exit_def with_event_none
        effect_def fun_upd_idem)
next
  case False
  then obtain b where "event_buffer st (k_cpu (hit_env h)) = Some b" by blast
  then show ?thesis
    using ent_effect [of st "hit_env h" cfg "hit_ctx h"] ret_effect [of st "hit_env h" cfg "hit_ctx h"]
      goroutine_exit_effect [of st "hit_env h" cfg "hit_ctx h"]
    by (cases h) (simp_all add: hit_step_def key_of_def
      del: ent_cell.simps ret_cell.simps exit_cell.simps ent_event.simps ret_event.simps exit_event.simps)
qed

lemma hit_view:
  "should_trace_goid (hit_step cfg h st) =
     (should_trace_goid st)(key_of cfg h :=
        hit_cell cfg (fixed_part st) h (should_trace_goid st (key_of cfg h)))"
  using hit_effect [of h cfg st] by (simp add: effect_def)

lemma hit_queue:
  "event_queue (hit_step cfg h st) =
     event_queue st @ (if k_push_rc (hit_env h) = 0
       then opt_list (hit_event cfg (fixed_part st) h (should_trace_goid st (key_of cfg h))) else [])"
  using hit_effect [of h cfg st] by (simp add: effect_def)

lemma hit_fixed: "fixed_part (hit_step cfg h st) = fixed_part st"
  using hit_effect [of h cfg st] by (intro fixed_part_eqI) (simp_all add: effect_def)

lemma hit_maps:
  "arg_rules_map (hit_step cfg h st) = arg_rules_map st"
  "type_recipes_map (hit_step cfg h st) = type_recipes_map st"
  "sample_config_map (hit_step cfg h st) = sample_config_map st"
  "should_trace_rip (hit_step cfg h st) = should_trace_rip st"
  "should_trace_ret (hit_step cfg h st) = should_trace_ret st"
  using hit_effect [of h cfg st] by (simp_all add: effect_def)

lemma hit_buffers:
  "(event_buffer (hit_step cfg h st) cpu = None) = (event_buffer st cpu = None)"
  using hit_effect [of h cfg st] by (simp add: effect_def)

text \<open>
  The programs are a machine over the goroutine table: each hit touches its goroutine's
  entry only.
\<close>

interpretation goroutines: keyed_machine
  "hit_step cfg" "key_of cfg" should_trace_goid fixed_part "hit_cell cfg" for cfg
  by unfold_locales (simp_all add: hit_view hit_fixed)

definition event_key :: "event \<Rightarrow> goid_key" where
  "event_key e = \<lparr>gk_pid = ev_pid e, gk_pad = 0, gk_goid = ev_goid e\<rparr>"

lemma hit_event_key:
  "hit_event cfg c h v = Some e \<Longrightarrow> event_key e = key_of cfg h"
  by (cases h; cases v)
    (auto simp: event_key_def key_of_def hit_key_def ent_tail_def ent_head_def Let_def
      split: if_splits)

declare hit_event.simps [simp del] hit_cell.simps [simp del]

section \<open>Runs\<close>

text \<open>
  What can happen to the maps while the programs are loaded: a hit, and the three accesses
  of userspace in \<open>src/internal/bpf/bpf.go\<close> (\<open>SetSampleDenominator\<close>,
  \<open>SetTypeRecipe\<close> and the lookup-and-delete of \<open>PollEvents\<close>). A run is a list of
  actions in the order of their effects on the maps.
\<close>

definition set_sample_denominator :: "u32 \<Rightarrow> bpf_state \<Rightarrow> bpf_state" where
  "set_sample_denominator d st =
     (let denominator = (if d = 0 then 1 else d)
      in st\<lparr>sample_config_map :=
              (sample_config_map st)(0 \<mapsto> \<lparr>sc_denominator = denominator, sc_pad = 0\<rparr>)\<rparr>)"

definition install_type_recipe :: "u64 \<Rightarrow> type_recipe \<Rightarrow> bpf_state \<Rightarrow> bpf_state" where
  "install_type_recipe type_addr rec st =
     st\<lparr>type_recipes_map := (type_recipes_map st)(type_addr \<mapsto> rec)\<rparr>"

text \<open>One lookup-and-delete: the oldest event, if there is one, and the queue without it.\<close>

definition poll_event :: "bpf_state \<Rightarrow> event option \<times> bpf_state" where
  "poll_event st =
     (case event_queue st of
        [] \<Rightarrow> (None, st)
      | e # es \<Rightarrow> (Some e, st\<lparr>event_queue := es\<rparr>))"

lemma poll_event_simps [simp]:
  "fst (poll_event st) = (case event_queue st of [] \<Rightarrow> None | e # es \<Rightarrow> Some e)"
  "snd (poll_event st) = st\<lparr>event_queue := drop 1 (event_queue st)\<rparr>"
  by (simp_all add: poll_event_def split: list.split)

datatype action =
    Hit hit
  | Set_denominator u32
  | Install_recipe u64 type_recipe
  | Poll

fun act_step :: "config \<Rightarrow> action \<Rightarrow> bpf_state \<Rightarrow> bpf_state" where
  "act_step cfg (Hit h) st = hit_step cfg h st"
| "act_step cfg (Set_denominator d) st = set_sample_denominator d st"
| "act_step cfg (Install_recipe type_addr rec) st = install_type_recipe type_addr rec st"
| "act_step cfg Poll st = snd (poll_event st)"

lemma userspace_fields [simp]:
  "event_queue (set_sample_denominator d st) = event_queue st"
  "event_buffer (set_sample_denominator d st) = event_buffer st"
  "runtime_stats_map (set_sample_denominator d st) = runtime_stats_map st"
  "should_trace_goid (set_sample_denominator d st) = should_trace_goid st"
  "should_trace_rip (set_sample_denominator d st) = should_trace_rip st"
  "should_trace_ret (set_sample_denominator d st) = should_trace_ret st"
  "arg_rules_map (set_sample_denominator d st) = arg_rules_map st"
  "type_recipes_map (set_sample_denominator d st) = type_recipes_map st"
  "event_queue (install_type_recipe a rec st) = event_queue st"
  "event_buffer (install_type_recipe a rec st) = event_buffer st"
  "runtime_stats_map (install_type_recipe a rec st) = runtime_stats_map st"
  "should_trace_goid (install_type_recipe a rec st) = should_trace_goid st"
  "should_trace_rip (install_type_recipe a rec st) = should_trace_rip st"
  "should_trace_ret (install_type_recipe a rec st) = should_trace_ret st"
  "arg_rules_map (install_type_recipe a rec st) = arg_rules_map st"
  "sample_config_map (install_type_recipe a rec st) = sample_config_map st"
  "type_recipes_map (install_type_recipe a rec st) = (type_recipes_map st)(a \<mapsto> rec)"
  by (simp_all add: set_sample_denominator_def install_type_recipe_def Let_def)

text \<open>The events an action puts into the queue, and those of a whole run.\<close>

fun enqueued :: "config \<Rightarrow> action \<Rightarrow> bpf_state \<Rightarrow> event list" where
  "enqueued cfg (Hit h) st = drop (length (event_queue st)) (event_queue (hit_step cfg h st))"
| "enqueued cfg a st = []"

fun stream :: "config \<Rightarrow> action list \<Rightarrow> bpf_state \<Rightarrow> event list" where
  "stream cfg [] st = []"
| "stream cfg (a # as) st = enqueued cfg a st @ stream cfg as (act_step cfg a st)"

lemma enqueued_hit:
  "enqueued cfg (Hit h) st =
     (if k_push_rc (hit_env h) = 0
      then opt_list (hit_event cfg (fixed_part st) h (should_trace_goid st (key_of cfg h))) else [])"
  by (simp add: hit_queue)

definition stream_of :: "config \<Rightarrow> goid_key \<Rightarrow> action list \<Rightarrow> bpf_state \<Rightarrow> event list" where
  "stream_of cfg k as st = filter (\<lambda>e. event_key e = k) (stream cfg as st)"

fun own_events :: "config \<Rightarrow> bpf_state \<Rightarrow> hit list \<Rightarrow> trace_state option \<Rightarrow> event list" where
  "own_events cfg c [] v = []"
| "own_events cfg c (h # hs) v =
     (if k_push_rc (hit_env h) = 0 then opt_list (hit_event cfg c h v) else [])
     @ own_events cfg c hs (hit_cell cfg c h v)"

lemma filter_opt_list_same: "(\<And>x. y = Some x \<Longrightarrow> P x) \<Longrightarrow> filter P (opt_list y) = opt_list y"
  by (cases y) simp_all

lemma filter_opt_list_other: "(\<And>x. y = Some x \<Longrightarrow> \<not> P x) \<Longrightarrow> filter P (opt_list y) = []"
  by (cases y) simp_all

lemma filter_enqueued_own:
  "key_of cfg h = k \<Longrightarrow> filter (\<lambda>e. event_key e = k) (enqueued cfg (Hit h) st) = enqueued cfg (Hit h) st"
  unfolding enqueued_hit by (auto intro!: filter_opt_list_same dest: hit_event_key)

lemma filter_enqueued_other:
  "key_of cfg h \<noteq> k \<Longrightarrow> filter (\<lambda>e. event_key e = k) (enqueued cfg (Hit h) st) = []"
  unfolding enqueued_hit by (auto intro!: filter_opt_list_other dest: hit_event_key)

lemma stream_projection:
  "stream_of cfg k (map Hit hs) st =
     own_events cfg (fixed_part st) (filter (\<lambda>h. key_of cfg h = k) hs) (should_trace_goid st k)"
proof (induction hs arbitrary: st)
  case Nil
  then show ?case by (simp add: stream_of_def)
next
  case (Cons h hs)
  show ?case
  proof (cases "key_of cfg h = k")
    case True
    then show ?thesis
      using Cons.IH [of "hit_step cfg h st"] filter_enqueued_own [OF True, of st]
      by (simp add: stream_of_def hit_view hit_fixed enqueued_hit del: enqueued.simps)
  next
    case False
    then show ?thesis
      using Cons.IH [of "hit_step cfg h st"] filter_enqueued_other [OF False, of st]
      by (simp add: stream_of_def hit_view hit_fixed del: enqueued.simps)
  qed
qed

end
