(* ===== verification/Ftrace_Examples.thy ===== *)
theory Ftrace_Examples
  imports Ftrace_Machine
begin

text \<open>
  Concrete configurations, kernel answers, registers and maps, at which the other theories
  evaluate their properties.
\<close>

section \<open>Configurations\<close>

definition demo_cfg :: config where
  "demo_cfg =
     \<lparr>cfg_goid_offset = 160, cfg_g_offset = -8, cfg_pidns_dev = 0, cfg_pidns_ino = 0,
      cfg_fetch_args = False, cfg_adaptive_sampling = True, cfg_padding = replicate 6 0\<rparr>"

definition plain_cfg :: config where
  "plain_cfg = demo_cfg\<lparr>cfg_adaptive_sampling := False\<rparr>"

definition fetch_cfg :: config where
  "fetch_cfg = demo_cfg\<lparr>cfg_fetch_args := True\<rparr>"

section \<open>A kernel whose helpers all succeed\<close>

text \<open>
  User memory reads as the low byte of the address of each byte, so different addresses
  give different contents; the goroutine id depends on the task pointer.
\<close>

definition demo_env :: "u64 \<Rightarrow> kenv" where
  "demo_env task =
     \<lparr>k_cpu = 0, k_current_task = task,
      k_read_kernel = (\<lambda>a n. (0, \<lambda>i. if i = 0 then ucast a else 0)),
      k_read_object = (\<lambda>bs. (0, \<lambda>i. bs ! i)),
      k_read_user = (\<lambda>a n. (0, \<lambda>i. if i = 0 then ucast a else 0)),
      k_ns_pid_tgid = (\<lambda>dev ino. (-22, \<lparr>nsi_pid = 0, nsi_tgid = 0\<rparr>)),
      k_pid_tgid = 0x1700000018, k_prandom = 0, k_ktime = 1000,
      k_update_rc = 0, k_push_rc = 0, k_delete_rc = 0\<rparr>"

definition demo_ctx :: "u64 \<Rightarrow> u64 \<Rightarrow> u64 \<Rightarrow> pt_regs" where
  "demo_ctx ip sp bp =
     \<lparr>ctx_r15 = 0, ctx_r14 = 0, ctx_r13 = 0, ctx_r12 = 0, ctx_bp = bp, ctx_bx = 0, ctx_r11 = 0,
      ctx_r10 = 0, ctx_r9 = 0, ctx_r8 = 0, ctx_ax = 0x2000, ctx_cx = 0, ctx_dx = 0, ctx_si = 0,
      ctx_di = 0, ctx_orig_ax = 0, ctx_ip = ip, ctx_cs = 0, ctx_flags = 0, ctx_sp = sp,
      ctx_ss = 0\<rparr>"

section \<open>Maps\<close>

text \<open>
  Two wanted functions, at 100 and 300, with RET instructions at 110 and 310; an unwanted
  one is probed at 200 and 210.
\<close>

definition demo_state :: bpf_state where
  "demo_state =
     \<lparr>arg_rules_map = Map.empty, type_recipes_map = Map.empty, event_queue = [],
      event_buffer = [0 \<mapsto> zero_event],
      sample_config_map = [0 \<mapsto> \<lparr>sc_denominator = 4, sc_pad = 0\<rparr>],
      runtime_stats_map =
        [0 \<mapsto> \<lparr>rs_wanted_roots = 0, rs_admitted_roots = 0, rs_sampled_out_roots = 0,
              rs_emitted_events = 0, rs_dropped_events = 0, rs_aborted_roots = 0,
              rs_state_insert_failures = 0\<rparr>],
      should_trace_goid = Map.empty, should_trace_rip = [100 \<mapsto> True, 300 \<mapsto> True],
      should_trace_ret = [110 \<mapsto> 100, 310 \<mapsto> 300]\<rparr>"

lemma demo_cfg_simps [simp]:
  "cfg_adaptive_sampling demo_cfg" "\<not> cfg_fetch_args demo_cfg"
  "\<not> cfg_adaptive_sampling plain_cfg" "cfg_fetch_args fetch_cfg"
  by (simp_all add: demo_cfg_def plain_cfg_def fetch_cfg_def)

lemma demo_env_simps [simp]:
  "k_cpu (demo_env task) = 0" "k_push_rc (demo_env task) = 0" "k_delete_rc (demo_env task) = 0"
  "k_update_rc (demo_env task) = 0" "k_prandom (demo_env task) = 0"
  "k_ktime (demo_env task) = 1000" "k_current_task (demo_env task) = task"
  by (simp_all add: demo_env_def)

lemma demo_ctx_simps [simp]:
  "ctx_ip (demo_ctx ip sp bp) = ip" "ctx_sp (demo_ctx ip sp bp) = sp" "ctx_bp (demo_ctx ip sp bp) = bp"
  by (simp_all add: demo_ctx_def)

lemma demo_state_simps [simp]:
  "should_trace_goid demo_state = Map.empty" "event_queue demo_state = []"
  "event_buffer demo_state = [0 \<mapsto> zero_event]"
  "should_trace_rip demo_state = [100 \<mapsto> True, 300 \<mapsto> True]"
  "should_trace_ret demo_state = [110 \<mapsto> 100, 310 \<mapsto> 300]"
  "arg_rules_map demo_state = Map.empty" "type_recipes_map demo_state = Map.empty"
  "current_sample_denominator demo_state = 4"
  by (simp_all add: demo_state_def current_sample_denominator_def word_le_nat_alt)

lemma demo_reads_objects [simp]: "reads_objects (demo_env task)"
  by (simp add: reads_objects_def demo_env_def left_bytes_def map_nth)

lemma demo_read [simp]:
  "le64 (left_bytes 8 (k_read_user (demo_env task) a 8)) = ucast (ucast a :: u8)"
  "le64 (left_bytes 8 (k_read_kernel (demo_env task) a 8)) = ucast (ucast a :: u8)"
  by (simp_all add: demo_env_def left_bytes_def upt_rec le64_Cons)

lemma demo_goid:
  "get_goid demo_cfg (demo_env task) =
     ucast (ucast (ucast (ucast (ucast (ucast (task + 5288) :: u8) - 8 :: u64) :: u8) + 160 :: u64) :: u8)"
  by (simp add: get_goid_def Let_def demo_cfg_def fsbase_off_value)

lemma demo_pid: "get_pid demo_cfg (demo_env task) = 23"
  by (simp add: get_pid_no_namespace demo_cfg_def demo_env_def)

lemma demo_key [simp]:
  "hit_key demo_cfg (demo_env 0) = \<lparr>gk_pid = 23, gk_pad = 0, gk_goid = 64\<rparr>"
  "hit_key demo_cfg (demo_env 1) = \<lparr>gk_pid = 23, gk_pad = 0, gk_goid = 65\<rparr>"
  by (simp_all add: hit_key_def demo_goid demo_pid)

end
