(* ===== verification/Ftrace_Protocol.thy ===== *)
theory Ftrace_Protocol
  imports Ftrace_Machine Ftrace_Examples
begin

text \<open>
  The trace protocol: what the stream of one goroutine's events looks like to the consumer
  of the queue. \<open>phase_step\<close> is the specification, an automaton over events; the lemma
  \<open>hit_follows\<close> is the simulation of one probe hit, \<open>run_follows\<close> lifts it to runs with any
  interleaving of other goroutines and of userspace. The bound on the counters of a trace
  state is an invariant of the machine.
\<close>

section \<open>The specification\<close>

datatype phase = Idle | Sampling nat u32 u64

definition phase_step :: "(u64 \<rightharpoonup> u64) \<Rightarrow> phase \<Rightarrow> event \<Rightarrow> phase option" where
  "phase_step rets ph e =
     (case ph of
        Idle \<Rightarrow>
          if ev_location e = ENTPOINT \<and> ev_trace_flags e = TRACE_START
          then Some (Sampling 1 (ev_sample_denominator e) (ev_ip e)) else None
      | Sampling n d root \<Rightarrow>
          if ev_location e = GOROUTINE_EXIT
          then (if ev_trace_flags e = 0 \<and> ev_sample_denominator e = 0 then Some Idle else None)
          else if (ev_location e \<noteq> ENTPOINT \<and> ev_location e \<noteq> RETPOINT) \<or> ev_sample_denominator e \<noteq> d
          then None
          else if n = 4096 then (if ev_trace_flags e = TRACE_ABORT then Some Idle else None)
          else if ev_trace_flags e = 0 then Some (Sampling (Suc n) d root)
          else if ev_trace_flags e = TRACE_END \<and> ev_location e = RETPOINT \<and> rets (ev_ip e) = Some root
          then Some Idle else None)"

fun phase_run :: "(u64 \<rightharpoonup> u64) \<Rightarrow> phase \<Rightarrow> event list \<Rightarrow> phase option" where
  "phase_run rets ph [] = Some ph"
| "phase_run rets ph (e # es) =
     (case phase_step rets ph e of None \<Rightarrow> None | Some ph' \<Rightarrow> phase_run rets ph' es)"

lemma phase_run_append:
  "phase_run rets ph (es @ es') =
     (case phase_run rets ph es of None \<Rightarrow> None | Some ph' \<Rightarrow> phase_run rets ph' es')"
  by (induction es arbitrary: ph) (simp_all split: option.split)

text \<open>The phase a table entry stands for, and the entries that can occur.\<close>

fun phase_of :: "trace_state option \<Rightarrow> phase" where
  "phase_of None = Idle"
| "phase_of (Some s) = Sampling (unat (ts_event_count s)) (ts_sample_denominator s) (ts_root_ip s)"

fun cell_ok :: "trace_state option \<Rightarrow> bool" where
  "cell_ok None \<longleftrightarrow> True"
| "cell_ok (Some s) \<longleftrightarrow>
     1 \<le> ts_event_count s \<and> ts_event_count s \<le> MAX_SAMPLE_EVENTS \<and>
     1 \<le> ts_root_depth s \<and> ts_root_depth s \<le> ts_event_count s"

lemma max_events: "unat MAX_SAMPLE_EVENTS = 4096"
  by (simp add: MAX_SAMPLE_EVENTS_def)

lemma over_limit_counted:
  assumes "cfg_adaptive_sampling cfg" "ts_event_count s \<le> MAX_SAMPLE_EVENTS"
  shows "over_limit cfg (counted s) \<longleftrightarrow> unat (ts_event_count s) = 4096"
    and "unat (ts_event_count s + 1) = Suc (unat (ts_event_count s))"
proof -
  have le: "unat (ts_event_count s) \<le> 4096"
    using assms(2) by (simp add: word_le_nat_alt max_events)
  then show u: "unat (ts_event_count s + 1) = Suc (unat (ts_event_count s))"
    by (simp add: unat_word_ariths)
  show "over_limit cfg (counted s) \<longleftrightarrow> unat (ts_event_count s) = 4096"
    using assms(1) le u by (auto simp: over_limit_def counted_def word_less_nat_alt max_events)
qed

lemma ent_update_fields [simp]:
  "ts_root_ip (ent_update cfg w e s) = ts_root_ip s"
  "ts_sample_denominator (ent_update cfg w e s) = ts_sample_denominator s"
  by (simp_all add: ent_update_def Let_def)

lemma ret_update_fields [simp]:
  "ts_root_ip (ret_update s) = ts_root_ip s"
  "ts_sample_denominator (ret_update s) = ts_sample_denominator s"
  by (simp_all add: ret_update_def)

lemma ent_update_depth:
  "ts_root_depth (ent_update cfg w e s) = ts_root_depth s \<or>
   ts_root_depth (ent_update cfg w e s) = ts_root_depth s + 1"
  by (simp add: ent_update_def Let_def)

lemma count_step:
  assumes "cell_ok (Some s)" "ts_event_count s \<noteq> MAX_SAMPLE_EVENTS"
    and "t = ts_root_depth s \<or> t = ts_root_depth s + 1"
  shows "1 \<le> ts_event_count s + 1 \<and> ts_event_count s + 1 \<le> MAX_SAMPLE_EVENTS \<and>
     1 \<le> t \<and> t \<le> ts_event_count s + 1"
proof -
  have c: "unat (ts_event_count s) < 4096" "1 \<le> unat (ts_root_depth s)"
      "unat (ts_root_depth s) \<le> unat (ts_event_count s)"
    using assms(1,2) by (auto simp: word_le_nat_alt max_events word_unat_eq_iff)
  then have "unat (ts_event_count s + 1) = Suc (unat (ts_event_count s))"
      "unat (ts_root_depth s + 1) = Suc (unat (ts_root_depth s))"
    by (simp_all add: unat_word_ariths)
  with c assms(3) show ?thesis
    by (auto simp: word_le_nat_alt max_events)
qed

lemma at_limit:
  "cell_ok (Some s) \<Longrightarrow> unat (ts_event_count s) = 4096 \<longleftrightarrow> ts_event_count s = MAX_SAMPLE_EVENTS"
  by (simp add: word_unat_eq_iff max_events)

lemma over_limit_ok:
  "cfg_adaptive_sampling cfg \<Longrightarrow> cell_ok (Some s) \<Longrightarrow>
     over_limit cfg (counted s) \<longleftrightarrow> ts_event_count s = MAX_SAMPLE_EVENTS"
  using over_limit_counted(1) at_limit by simp

lemma returns_from_root_ip:
  "returns_from_root c ip s \<longleftrightarrow> should_trace_ret c ip = Some (ts_root_ip s)"
  by (auto simp: returns_from_root_def split: option.split)

lemma ent_cell_ok:
  assumes "cfg_adaptive_sampling cfg" "k_delete_rc env = 0" "cell_ok v"
  shows "cell_ok (ent_cell cfg c env ctx v)"
proof (cases v)
  case None
  then show ?thesis
    using assms by (simp add: initial_state_def MAX_SAMPLE_EVENTS_def)
next
  case (Some s)
  show ?thesis
  proof (cases "ts_event_count s = MAX_SAMPLE_EVENTS")
    case True
    then show ?thesis using assms Some by (simp add: Let_def over_limit_ok)
  next
    case False
    then show ?thesis
      using assms Some count_step [OF _ False ent_update_depth]
      by (simp add: Let_def over_limit_ok)
  qed
qed

lemma depth_pred:
  "1 < (d :: u32) \<Longrightarrow> d \<le> n \<Longrightarrow> 1 \<le> d - 1 \<and> d - 1 \<le> n"
  by unat_arith

lemma ret_cell_ok:
  assumes "cfg_adaptive_sampling cfg" "k_delete_rc env = 0" "cell_ok v"
  shows "cell_ok (ret_cell cfg c env ctx v)"
proof (cases v)
  case None
  then show ?thesis by simp
next
  case (Some s)
  show ?thesis
  proof (cases "ts_event_count s = MAX_SAMPLE_EVENTS")
    case True
    then show ?thesis using assms Some by (simp add: Let_def over_limit_ok)
  next
    case False
    then show ?thesis
      using assms Some count_step [OF _ False, of "ts_root_depth s"]
        depth_pred [of "ts_root_depth s" "ts_event_count s + 1"]
      by (simp add: Let_def over_limit_ok)
  qed
qed

lemma hit_cell_ok:
  assumes "cfg_adaptive_sampling cfg" "k_delete_rc (hit_env h) = 0" "cell_ok v"
  shows "cell_ok (hit_cell cfg c h v)"
  using assms by (cases h) (simp_all add: hit_cell.simps ent_cell_ok ret_cell_ok
    del: ent_cell.simps ret_cell.simps)

text \<open>One hit makes one step of the specification, or none when it emits nothing.\<close>

definition follows :: "(u64 \<rightharpoonup> u64) \<Rightarrow> trace_state option \<Rightarrow> event option \<Rightarrow> trace_state option \<Rightarrow> bool" where
  "follows rets v ev v' \<longleftrightarrow>
     (case ev of None \<Rightarrow> v' = v | Some e \<Rightarrow> phase_step rets (phase_of v) e = Some (phase_of v'))"

lemma ent_follows:
  assumes "cfg_adaptive_sampling cfg" "k_delete_rc env = 0" "cell_ok v"
  shows "follows (should_trace_ret c) v (ent_event cfg c env ctx v) (ent_cell cfg c env ctx v)"
proof (cases v)
  case None
  then show ?thesis
    using assms(1)
    by (simp add: follows_def phase_step_def ent_tail_def ent_head_def initial_state_def)
next
  case (Some s)
  have ok: "cell_ok (Some s)" using assms(3) Some by simp
  then have "ts_event_count s \<le> MAX_SAMPLE_EVENTS" by simp
  note n = over_limit_counted(2) [OF assms(1) this] over_limit_ok [OF assms(1) ok] at_limit [OF ok]
  have "TRACE_ABORT \<noteq> 0" by (simp add: flag_defs)
  then show ?thesis
    using assms Some n
    by (cases "ts_event_count s = MAX_SAMPLE_EVENTS")
      (simp_all add: follows_def phase_step_def ent_tail_def ent_head_def Let_def location_defs
        zero_event_def)
qed

lemma ret_follows:
  assumes "cfg_adaptive_sampling cfg" "k_delete_rc env = 0" "cell_ok v"
  shows "follows (should_trace_ret c) v (ret_event cfg c env ctx v) (ret_cell cfg c env ctx v)"
proof (cases v)
  case None
  then show ?thesis by (simp add: follows_def)
next
  case (Some s)
  have ok: "cell_ok (Some s)" using assms(3) Some by simp
  then have "ts_event_count s \<le> MAX_SAMPLE_EVENTS" by simp
  note n = over_limit_counted(2) [OF assms(1) this] over_limit_ok [OF assms(1) ok] at_limit [OF ok]
  have f: "TRACE_ABORT \<noteq> 0" "TRACE_END \<noteq> 0" by (simp_all add: flag_defs)
  have le: "ts_root_depth s \<le> 1 \<longleftrightarrow> \<not> 1 < ts_root_depth s" by (rule not_less [symmetric])
  show ?thesis
    using assms Some n f
    by (cases "ts_event_count s = MAX_SAMPLE_EVENTS"; cases "1 < ts_root_depth s";
        cases "should_trace_ret c (ctx_ip ctx) = Some (ts_root_ip s)")
      (simp_all add: follows_def phase_step_def Let_def location_defs ends_sample_def le
        zero_event_def returns_from_root_ip)
qed

lemma hit_follows:
  assumes "cfg_adaptive_sampling cfg" "k_delete_rc (hit_env h) = 0" "cell_ok v"
  shows "follows (should_trace_ret c) v (hit_event cfg c h v) (hit_cell cfg c h v)"
proof (cases "event_buffer c (k_cpu (hit_env h)) = None")
  case True
  then show ?thesis by (simp add: hit_event.simps hit_cell.simps follows_def)
next
  case False
  then obtain b where b: "event_buffer c (k_cpu (hit_env h)) = Some b" by blast
  show ?thesis
  proof (cases h)
    case (Exit env ctx)
    then show ?thesis
      using assms b by (cases v) (simp_all add: hit_event.simps hit_cell.simps follows_def phase_step_def
        location_defs zero_event_def)
  qed (use assms b in \<open>simp_all add: hit_event.simps hit_cell.simps ent_follows ret_follows
      del: ent_cell.simps ret_cell.simps ent_event.simps ret_event.simps\<close>)
qed

section \<open>Runs\<close>

text \<open>The actions under which nothing of goroutine \<open>k\<close> is lost.\<close>

fun lossless :: "config \<Rightarrow> goid_key \<Rightarrow> action \<Rightarrow> bool" where
  "lossless cfg k (Hit h) \<longleftrightarrow>
     key_of cfg h = k \<longrightarrow> k_push_rc (hit_env h) = 0 \<and> k_delete_rc (hit_env h) = 0"
| "lossless cfg k a \<longleftrightarrow> True"

lemma act_rets: "should_trace_ret (act_step cfg a st) = should_trace_ret st"
  by (cases a) (simp_all add: hit_maps Let_def)

lemma act_goid_other:
  "(\<forall>h. a = Hit h \<longrightarrow> key_of cfg h \<noteq> k) \<Longrightarrow>
     should_trace_goid (act_step cfg a st) k = should_trace_goid st k"
  by (cases a) (simp_all add: hit_view Let_def)

lemma act_follows:
  assumes "cfg_adaptive_sampling cfg" "lossless cfg k a" "cell_ok (should_trace_goid st k)"
  shows "cell_ok (should_trace_goid (act_step cfg a st) k) \<and>
    phase_run (should_trace_ret st) (phase_of (should_trace_goid st k))
      (filter (\<lambda>e. event_key e = k) (enqueued cfg a st))
    = Some (phase_of (should_trace_goid (act_step cfg a st) k))"
proof (cases "\<exists>h. a = Hit h \<and> key_of cfg h = k")
  case True
  then obtain h where h: "a = Hit h" "key_of cfg h = k" by blast
  let ?v = "should_trace_goid st k"
  have rc: "k_push_rc (hit_env h) = 0" "k_delete_rc (hit_env h) = 0"
    using assms(2) h by simp_all
  have f: "follows (should_trace_ret st) ?v (hit_event cfg (fixed_part st) h ?v)
     (hit_cell cfg (fixed_part st) h ?v)"
    using hit_follows [OF assms(1) rc(2) assms(3), of "fixed_part st"] by simp
  have q: "filter (\<lambda>e. event_key e = k) (enqueued cfg a st)
      = opt_list (hit_event cfg (fixed_part st) h ?v)"
    using filter_enqueued_own [OF h(2), of st] h rc by (simp add: enqueued_hit del: enqueued.simps)
  show ?thesis
    using f h hit_cell_ok [OF assms(1) rc(2) assms(3), of "fixed_part st"]
    unfolding q follows_def
    by (cases "hit_event cfg (fixed_part st) h ?v") (simp_all add: hit_view)
next
  case False
  then have "filter (\<lambda>e. event_key e = k) (enqueued cfg a st) = []"
    by (cases a) (simp_all add: filter_enqueued_other del: enqueued.simps(1))
  with False assms(3) act_goid_other [of a cfg k st] show ?thesis by auto
qed

lemma run_follows:
  assumes "cfg_adaptive_sampling cfg" "list_all (lossless cfg k) as" "cell_ok (should_trace_goid st k)"
  shows "cell_ok (should_trace_goid (fold (act_step cfg) as st) k) \<and>
    phase_run (should_trace_ret st) (phase_of (should_trace_goid st k)) (stream_of cfg k as st)
    = Some (phase_of (should_trace_goid (fold (act_step cfg) as st) k))"
  using assms(2,3)
proof (induction as arbitrary: st)
  case Nil
  then show ?case by (simp add: stream_of_def)
next
  case (Cons a as)
  have a: "lossless cfg k a" and as: "list_all (lossless cfg k) as" using Cons.prems by simp_all
  note step = act_follows [OF assms(1) a Cons.prems(2)]
  note rest = Cons.IH [OF as step [THEN conjunct1]]
  have "stream_of cfg k (a # as) st =
      filter (\<lambda>e. event_key e = k) (enqueued cfg a st) @ stream_of cfg k as (act_step cfg a st)"
    by (simp add: stream_of_def)
  then show ?case using step rest by (simp add: phase_run_append act_rets)
qed

section \<open>All reachable tables\<close>

text \<open>Deleting an entry that exists succeeds; the rest of a hit may fail.\<close>

fun deletes :: "action \<Rightarrow> bool" where
  "deletes (Hit h) \<longleftrightarrow> k_delete_rc (hit_env h) = 0"
| "deletes a \<longleftrightarrow> True"

definition table_ok :: "config \<Rightarrow> bpf_state \<Rightarrow> bool" where
  "table_ok cfg st \<longleftrightarrow> (cfg_adaptive_sampling cfg \<longrightarrow> (\<forall>k. cell_ok (should_trace_goid st k)))"

lemma table_ok_act:
  assumes "deletes a" "table_ok cfg st"
  shows "table_ok cfg (act_step cfg a st)"
proof (cases a)
  case (Hit h)
  then show ?thesis
    using assms hit_cell_ok [of cfg h "should_trace_goid st (key_of cfg h)" "fixed_part st"]
    by (simp add: table_ok_def hit_view)
qed (use assms in \<open>simp_all add: table_ok_def Let_def\<close>)

interpretation table: invariant_machine "act_step cfg" deletes "table_ok cfg" for cfg
  by unfold_locales (rule table_ok_act)

lemma phase_run_subseq_counts:
  assumes "phase_run rets ph es = Some ph'"
  shows "length (filter (\<lambda>e. ev_trace_flags e = TRACE_START) es) + (if ph = Idle then 0 else 1) =
     length (filter (\<lambda>e. ev_trace_flags e = TRACE_END \<or> ev_trace_flags e = TRACE_ABORT \<or>
                        ev_location e = GOROUTINE_EXIT) es) + (if ph' = Idle then 0 else 1)"
  using assms
proof (induction es arbitrary: ph)
  case Nil
  then show ?case by simp
next
  case (Cons e es)
  then obtain ph1 where s: "phase_step rets ph e = Some ph1" and r: "phase_run rets ph1 es = Some ph'"
    by (auto split: option.splits)
  show ?case
    using Cons.IH [OF r] s
    by (cases ph) (auto simp: phase_step_def flag_defs location_defs split: if_splits)
qed

section \<open>Without adaptive sampling\<close>

text \<open>
  A trace state then survives until its goroutine exits, and no event carries a flag.
\<close>

fun is_exit :: "hit \<Rightarrow> bool" where
  "is_exit (Exit env ctx) \<longleftrightarrow> True"
| "is_exit (Ent env ctx) \<longleftrightarrow> False"
| "is_exit (Ret env ctx) \<longleftrightarrow> False"

lemma plain_limit: "\<not> cfg_adaptive_sampling cfg \<Longrightarrow> \<not> over_limit cfg s"
  by (simp add: over_limit_def)

lemma plain_cell:
  "\<not> cfg_adaptive_sampling cfg \<Longrightarrow> \<not> is_exit h \<Longrightarrow> v \<noteq> None \<Longrightarrow> hit_cell cfg c h v \<noteq> None"
  by (cases h) (auto simp: hit_cell.simps Let_def plain_limit)

lemma plain_flags:
  "\<not> cfg_adaptive_sampling cfg \<Longrightarrow> hit_event cfg c h v = Some e \<Longrightarrow> ev_trace_flags e = 0"
  by (cases h; cases v)
    (auto simp: hit_event.simps Let_def plain_limit ends_sample_def ent_tail_def ent_head_def
      zero_event_def split: if_splits)

lemma plain_run:
  assumes "\<not> cfg_adaptive_sampling cfg" "list_all (\<lambda>h. key_of cfg h = k \<longrightarrow> \<not> is_exit h) hs"
    "should_trace_goid st k \<noteq> None"
  shows "should_trace_goid (fold (hit_step cfg) hs st) k \<noteq> None"
  using assms(2,3)
proof (induction hs arbitrary: st)
  case Nil
  then show ?case by simp
next
  case (Cons h hs)
  have "should_trace_goid (hit_step cfg h st) k \<noteq> None"
    using Cons.prems plain_cell [OF assms(1)] by (auto simp: hit_view)
  with Cons show ?case by simp
qed

lemma plain_stream:
  assumes "\<not> cfg_adaptive_sampling cfg"
  shows "\<forall>e \<in> set (stream cfg as st). ev_trace_flags e = 0"
proof (induction as arbitrary: st)
  case Nil
  then show ?case by simp
next
  case (Cons a as)
  have "\<forall>e \<in> set (enqueued cfg a st). ev_trace_flags e = 0"
  proof (cases a)
    case (Hit h)
    then show ?thesis
      using plain_flags [OF assms, of "fixed_part st" h "should_trace_goid st (key_of cfg h)"]
      by (cases "hit_event cfg (fixed_part st) h (should_trace_goid st (key_of cfg h))")
        (simp_all add: hit_queue)
  qed simp_all
  with Cons show ?case by auto
qed

section \<open>Properties\<close>

text \<open>A run over one call of the function at 100 with a call of the one at 200 inside.\<close>

definition demo_run :: "action list" where
  "demo_run =
     [Hit (Ent (demo_env 0) (demo_ctx 100 1008 2000)), Set_denominator 9,
      Hit (Ent (demo_env 0) (demo_ctx 200 908 1000)),
      Hit (Ent (demo_env 1) (demo_ctx 300 5008 6000)),
      Hit (Ret (demo_env 0) (demo_ctx 210 908 900)), Poll,
      Hit (Ret (demo_env 0) (demo_ctx 110 1008 1000))]"

lemma demo_run_ok:
  "list_all (lossless cfg k) demo_run" "list_all deletes demo_run"
  by (simp_all add: demo_run_def)

text \<open>C4: With adaptive sampling, and as long as none of the goroutine's own pushes and
  deletions fails, the events a goroutine gets into the queue follow the trace protocol,
  whatever other goroutines, the sampling controller, recipe installation and the poller do
  in between: each sample opens with exactly one TRACE_START entry event, every further event
  carries the denominator of that admission, an event number 4097 is the TRACE_ABORT that
  closes it, TRACE_END closes it only at a RET of the function that opened it, a goroutine
  exit closes it without flag, and the phase reached is the one the goroutine's entry in
  should_trace_goid stands for.\<close>

theorem goroutine_stream_protocol:
  assumes "cfg_adaptive_sampling cfg" "list_all (lossless cfg k) as" "should_trace_goid st k = None"
  shows "phase_run (should_trace_ret st) Idle (stream_of cfg k as st)
     = Some (phase_of (should_trace_goid (fold (act_step cfg) as st) k))"
  using run_follows [OF assms(1,2), of st] assms(3) by simp

theorem goroutine_stream_protocol_witness:
  "cfg_adaptive_sampling demo_cfg \<and> list_all (lossless demo_cfg (hit_key demo_cfg (demo_env 0))) demo_run \<and>
   should_trace_goid demo_state (hit_key demo_cfg (demo_env 0)) = None \<and>
   phase_run (should_trace_ret demo_state) Idle
       (stream_of demo_cfg (hit_key demo_cfg (demo_env 0)) demo_run demo_state)
     = Some (phase_of (should_trace_goid (fold (act_step demo_cfg) demo_run demo_state)
                (hit_key demo_cfg (demo_env 0))))"
  using goroutine_stream_protocol [of demo_cfg "hit_key demo_cfg (demo_env 0)" demo_run demo_state]
    demo_run_ok(1) [of demo_cfg "hit_key demo_cfg (demo_env 0)"] by simp

text \<open>C28: In every state reachable from an empty goroutine table under adaptive sampling, by
  any interleaving of hits (with failing pushes and insertions), denominator changes, recipe
  installations and polls, every trace state has counted between 1 and MAX_SAMPLE_EVENTS
  events and its root depth lies between 1 and that count, so neither u32 counter can wrap.\<close>

theorem reachable_samples_bounded:
  assumes "cfg_adaptive_sampling cfg" "list_all deletes as" "should_trace_goid st = Map.empty"
    and "should_trace_goid (fold (act_step cfg) as st) k = Some s"
  shows "1 \<le> ts_root_depth s \<and> ts_root_depth s \<le> ts_event_count s \<and>
     ts_event_count s \<le> MAX_SAMPLE_EVENTS"
proof -
  have "table_ok cfg st" using assms(3) by (simp add: table_ok_def)
  then have "table_ok cfg (fold (act_step cfg) as st)" by (rule table.inv_run [OF assms(2)])
  then have "cell_ok (should_trace_goid (fold (act_step cfg) as st) k)"
    using assms(1) by (simp add: table_ok_def)
  with assms(4) show ?thesis by simp
qed

lemma demo_run_state:
  "should_trace_goid (fold (act_step demo_cfg) (take 3 demo_run) demo_state) (hit_key demo_cfg (demo_env 0)) =
     Some \<lparr>ts_root_ip = 100, ts_last_ip = 200, ts_last_bp = 900, ts_root_depth = 1,
           ts_event_count = 2, ts_sample_denominator = 4, ts_pad = 0\<rparr>"
  by (simp add: demo_run_def hit_view hit_cell.simps key_of_def Let_def admits_def is_wanted_def
      should_sample_def initial_state_def ent_head_def ent_update_def over_limit_def
      MAX_SAMPLE_EVENTS_def is_duplicate_def zero_event_def hit_maps hit_buffers ex_bool_eq)

theorem reachable_samples_bounded_witness:
  "let s = \<lparr>ts_root_ip = 100, ts_last_ip = 200, ts_last_bp = 900, ts_root_depth = 1,
           ts_event_count = 2, ts_sample_denominator = 4, ts_pad = 0\<rparr> in
   1 \<le> ts_root_depth s \<and> ts_root_depth s \<le> ts_event_count s \<and> ts_event_count s \<le> MAX_SAMPLE_EVENTS"
  using reachable_samples_bounded [OF demo_cfg_simps(1) _ _ demo_run_state] demo_run_ok(2)
  by (simp add: list_all_iff demo_run_def)

text \<open>A sample that was opened is closed exactly once: in such a run of a goroutine that
  starts without a trace state, the number of TRACE_START events equals the number of closing
  ones (TRACE_END, TRACE_ABORT or goroutine exit), plus one when the goroutine still has a
  trace state at the end.\<close>

lemma starts_match_closings:
  assumes "cfg_adaptive_sampling cfg" "list_all (lossless cfg k) as" "should_trace_goid st k = None"
  shows "length (filter (\<lambda>e. ev_trace_flags e = TRACE_START) (stream_of cfg k as st)) =
     length (filter (\<lambda>e. ev_trace_flags e = TRACE_END \<or> ev_trace_flags e = TRACE_ABORT \<or>
                        ev_location e = GOROUTINE_EXIT) (stream_of cfg k as st))
     + (if should_trace_goid (fold (act_step cfg) as st) k = None then 0 else 1)"
proof -
  have "phase_of v = Idle \<longleftrightarrow> v = None" for v by (cases v) simp_all
  then show ?thesis
    using phase_run_subseq_counts [of "should_trace_ret st" Idle "stream_of cfg k as st"]
      run_follows [OF assms(1,2), of st] assms(3) by simp
qed

lemma starts_match_closings_witness:
  "length (filter (\<lambda>e. ev_trace_flags e = TRACE_START)
      (stream_of demo_cfg (hit_key demo_cfg (demo_env 0)) demo_run demo_state)) =
   length (filter (\<lambda>e. ev_trace_flags e = TRACE_END \<or> ev_trace_flags e = TRACE_ABORT \<or>
                        ev_location e = GOROUTINE_EXIT)
      (stream_of demo_cfg (hit_key demo_cfg (demo_env 0)) demo_run demo_state))
   + (if should_trace_goid (fold (act_step demo_cfg) demo_run demo_state) (hit_key demo_cfg (demo_env 0)) = None
      then 0 else 1)"
  by (rule starts_match_closings)
    (use demo_run_ok(1) [of demo_cfg "hit_key demo_cfg (demo_env 0)"] in simp_all)

text \<open>C25: Goroutines do not disturb each other: in any interleaving of probe hits, what a
  goroutine's trace state becomes and which of its events reach the queue, in which order and
  with which contents, is what its own hits alone would have produced.\<close>

theorem goroutines_isolated:
  "should_trace_goid (fold (hit_step cfg) hs st) k =
     should_trace_goid (fold (hit_step cfg) (filter (\<lambda>h. key_of cfg h = k) hs) st) k \<and>
   stream_of cfg k (map Hit hs) st = stream_of cfg k (map Hit (filter (\<lambda>h. key_of cfg h = k) hs)) st"
  by (simp add: goroutines.run_projection stream_projection)

text \<open>Without adaptive sampling a trace state is only removed by the exit of its goroutine:
  whatever else the goroutine hits, with any return codes of the helpers, the state stays.\<close>

lemma plain_state_kept:
  assumes "\<not> cfg_adaptive_sampling cfg"
    and "list_all (\<lambda>h. key_of cfg h = k \<longrightarrow> \<not> is_exit h) hs"
    and "should_trace_goid st k \<noteq> None"
  shows "should_trace_goid (fold (hit_step cfg) hs st) k \<noteq> None"
  by (rule plain_run [OF assms])

lemma plain_key [simp]: "hit_key plain_cfg env = hit_key demo_cfg env"
  by (simp add: plain_cfg_def hit_key_def get_pid_def get_goid_def)

lemma plain_state_kept_witness:
  "should_trace_goid (fold (hit_step plain_cfg)
      [Ret (demo_env 0) (demo_ctx 110 1008 1000), Exit (demo_env 1) (demo_ctx 500 0 0)]
      (hit_step plain_cfg (Ent (demo_env 0) (demo_ctx 100 1008 2000)) demo_state))
     (hit_key demo_cfg (demo_env 0)) \<noteq> None"
  by (rule plain_state_kept)
    (simp_all add: key_of_def hit_view hit_cell.simps admits_def is_wanted_def ex_bool_eq
      should_sample_def)

text \<open>Without adaptive sampling no event of any goroutine carries a trace flag.\<close>

lemma plain_events_unflagged:
  assumes "\<not> cfg_adaptive_sampling cfg"
  shows "list_all (\<lambda>e. ev_trace_flags e = 0) (stream cfg as st)"
  using plain_stream [OF assms] by (simp add: list_all_iff)

lemma plain_events_unflagged_witness:
  "list_all (\<lambda>e. ev_trace_flags e = 0) (stream plain_cfg demo_run demo_state)"
  by (rule plain_events_unflagged) simp

end
