(* ===== verification/Ftrace_Calls.thy ===== *)
theory Ftrace_Calls
  imports Ftrace_Protocol
begin

text \<open>
  Adaptive samples against the calls of the traced program: a tree of calls is run through
  the probes, and the depth counter of \<open>ent\<close> and \<open>ret\<close> finds the return of the root call.
  The last property is the case the counter gets wrong.
\<close>

section \<open>Calls of a Go program\<close>

text \<open>
  A call of a probed function: its entry address, the RET it leaves by, the address of its
  frame (where its prologue saves the caller's frame pointer, \<open>sp - 8\<close> at the entry), the
  frame and caller frame after the runtime moved the stack and started the function again,
  if it did, and the probed calls it makes. \<open>script\<close> is the sequence of probe points a
  call runs through and \<open>call_ok\<close> what the loader and the runtime guarantee of it: the RET
  is registered for the root function exactly when the call is one of it (no call enters at
  address 0), and a moved stack does not place the caller's frame where the callee's was.
\<close>

datatype call = Call (c_ip: u64) (c_ret: u64) (c_bp: u64) (c_moved: "(u64 \<times> u64) option") (c_calls: "call list")

datatype point = At_entry u64 u64 u64 | At_return u64

definition frame_bp :: "call \<Rightarrow> u64" where
  "frame_bp c = (case c_moved c of None \<Rightarrow> c_bp c | Some (bp, caller_bp) \<Rightarrow> bp)"

fun script :: "u64 \<Rightarrow> call \<Rightarrow> point list" where
  "script caller_bp (Call ip r bp moved calls) =
     [At_entry ip bp caller_bp]
     @ (case moved of None \<Rightarrow> [] | Some (bp', caller_bp') \<Rightarrow> [At_entry ip bp' caller_bp'])
     @ concat (map (script (frame_bp (Call ip r bp moved calls))) calls)
     @ [At_return r]"

fun call_ok :: "(u64 \<rightharpoonup> u64) \<Rightarrow> u64 \<Rightarrow> call \<Rightarrow> bool" where
  "call_ok rets root (Call ip r bp moved calls) \<longleftrightarrow>
     ip \<noteq> 0 \<and> (rets r = Some root \<longleftrightarrow> ip = root) \<and>
     (case moved of None \<Rightarrow> True | Some (bp', caller_bp') \<Rightarrow> caller_bp' \<noteq> bp) \<and>
     list_all (call_ok rets root) calls"

section \<open>The programs on points\<close>

text \<open>
  What a hit does to an existing trace state, as a function of the probe point alone.
\<close>

fun point_event :: "point \<Rightarrow> event" where
  "point_event (At_entry ip bp caller_bp) = zero_event\<lparr>ev_ip := ip, ev_bp := bp, ev_caller_bp := caller_bp\<rparr>"
| "point_event (At_return ip) = zero_event\<lparr>ev_ip := ip\<rparr>"

fun point_next :: "config \<Rightarrow> bpf_state \<Rightarrow> point \<Rightarrow> trace_state \<Rightarrow> trace_state option" where
  "point_next cfg c (At_entry ip bp caller_bp) s =
     (if over_limit cfg (counted s) then None
      else Some (ent_update cfg (is_wanted c ip) (point_event (At_entry ip bp caller_bp)) s))"
| "point_next cfg c (At_return ip) s =
     (if over_limit cfg (counted s) then None
      else if cfg_adaptive_sampling cfg \<and> should_trace_ret c ip = Some (ts_root_ip s)
      then (if ts_root_depth s > 1 then Some ((ret_update s)\<lparr>ts_root_depth := ts_root_depth s - 1\<rparr>) else None)
      else Some (ret_update s))"

fun point_flags :: "config \<Rightarrow> bpf_state \<Rightarrow> point \<Rightarrow> trace_state \<Rightarrow> u8" where
  "point_flags cfg c (At_entry ip bp caller_bp) s =
     (if over_limit cfg (counted s) then TRACE_ABORT else 0)"
| "point_flags cfg c (At_return ip) s =
     (if over_limit cfg (counted s) then TRACE_ABORT
      else if cfg_adaptive_sampling cfg \<and> should_trace_ret c ip = Some (ts_root_ip s) \<and>
              \<not> ts_root_depth s > 1 then TRACE_END else 0)"

fun point_run :: "config \<Rightarrow> bpf_state \<Rightarrow> point list \<Rightarrow> trace_state \<Rightarrow> (trace_state \<times> u8 list) option" where
  "point_run cfg c [] s = Some (s, [])"
| "point_run cfg c (p # ps) s =
     (case point_next cfg c p s of
        None \<Rightarrow> None
      | Some s' \<Rightarrow> map_option (\<lambda>(t, fs). (t, point_flags cfg c p s # fs)) (point_run cfg c ps s'))"

lemma point_run_append:
  "point_run cfg c (ps @ qs) s =
     (case point_run cfg c ps s of
        None \<Rightarrow> None
      | Some (t, fs) \<Rightarrow> map_option (\<lambda>(u, gs). (u, fs @ gs)) (point_run cfg c qs t))"
  by (induction ps arbitrary: s) (simp_all add: map_option_case split: option.splits)

section \<open>A call inside a sample\<close>

text \<open>What running a piece of a script does to a sample that it does not end.\<close>

definition passes :: "config \<Rightarrow> bpf_state \<Rightarrow> point list \<Rightarrow> trace_state \<Rightarrow> trace_state \<Rightarrow> bool" where
  "passes cfg c ps s s' \<longleftrightarrow>
     point_run cfg c ps s = Some (s', replicate (length ps) 0) \<and>
     ts_root_ip s' = ts_root_ip s \<and> ts_sample_denominator s' = ts_sample_denominator s \<and>
     unat (ts_event_count s') = unat (ts_event_count s) + length ps \<and> cell_ok (Some s')"

lemma passes_Nil: "cell_ok (Some s) \<Longrightarrow> passes cfg c [] s s"
  by (simp add: passes_def)

lemma passes_append: "passes cfg c ps s t \<Longrightarrow> passes cfg c qs t u \<Longrightarrow> passes cfg c (ps @ qs) s u"
  by (simp add: passes_def point_run_append replicate_add)

lemma room:
  assumes "cfg_adaptive_sampling cfg" "cell_ok (Some s)" "unat (ts_event_count s) < 4096"
  shows "\<not> over_limit cfg (counted s)" "unat (ts_event_count s + 1) = Suc (unat (ts_event_count s))"
    "ts_event_count s \<noteq> MAX_SAMPLE_EVENTS"
  using over_limit_counted [OF assms(1), of s] assms(2,3) by (auto simp: max_events)

lemma passes_entry:
  fixes c ip bp cbp
  assumes "cfg_adaptive_sampling cfg" "cell_ok (Some s)" "unat (ts_event_count s) < 4096"
  defines "s' \<equiv> ent_update cfg (is_wanted c ip) (point_event (At_entry ip bp cbp)) s"
  shows "passes cfg c [At_entry ip bp cbp] s s'"
  using room [OF assms(1-3)] count_step [OF assms(2) room(3) [OF assms(1-3)] ent_update_depth]
  by (simp add: passes_def s'_def)

lemma entry_fields:
  fixes c ip bp cbp
  assumes "cfg_adaptive_sampling cfg" "cell_ok (Some s)" "unat (ts_event_count s) < 4096"
  defines "s' \<equiv> ent_update cfg (is_wanted c ip) (point_event (At_entry ip bp cbp)) s"
  shows "ts_last_ip s' = ip" "ts_last_bp s' = bp"
    "ts_root_depth s' =
       (if is_wanted c ip \<and> ts_root_ip s = ip \<and> \<not> (ts_last_ip s = ip \<and> ts_last_bp s \<noteq> cbp)
        then ts_root_depth s + 1 else ts_root_depth s)"
  using room(1) [OF assms(1-3)] assms(1)
  by (simp_all add: s'_def ent_update_def is_duplicate_def counted_def Let_def zero_event_def)

lemma passes_return:
  fixes c ip
  assumes "cfg_adaptive_sampling cfg" "cell_ok (Some s)" "unat (ts_event_count s) < 4096"
    and "should_trace_ret c ip = Some (ts_root_ip s) \<Longrightarrow> ts_root_depth s > 1"
  defines "s' \<equiv> (if should_trace_ret c ip = Some (ts_root_ip s)
                 then (ret_update s)\<lparr>ts_root_depth := ts_root_depth s - 1\<rparr> else ret_update s)"
  shows "passes cfg c [At_return ip] s s'"
  using room [OF assms(1-3)] count_step [OF assms(2) room(3) [OF assms(1-3)], of "ts_root_depth s"]
    depth_pred [of "ts_root_depth s" "ts_event_count s + 1"] assms(1,4)
  by (auto simp: passes_def s'_def)

lemma passes_fields:
  assumes "passes cfg c ps s s'"
  shows "ts_root_ip s' = ts_root_ip s" "ts_sample_denominator s' = ts_sample_denominator s"
    "unat (ts_event_count s') = unat (ts_event_count s) + length ps" "cell_ok (Some s')"
  using assms by (simp_all add: passes_def)

lemma length_script_pos: "0 < length (script cbp call)"
  by (cases call) simp

text \<open>Calls one after the other, each of which passes and keeps the depth.\<close>

lemma forest_passes:
  assumes "\<And>call s. call \<in> set calls \<Longrightarrow> ts_root_ip s = root \<Longrightarrow> cell_ok (Some s) \<Longrightarrow>
      unat (ts_event_count s) + length (script cbp call) \<le> 4096 \<Longrightarrow>
      ts_last_ip s = 0 \<or> ts_last_bp s = cbp \<Longrightarrow>
      \<exists>s'. passes cfg c (script cbp call) s s' \<and> ts_root_depth s' = ts_root_depth s \<and> ts_last_ip s' = 0"
    and "ts_root_ip s = root" "cell_ok (Some s)"
    and "unat (ts_event_count s) + length (concat (map (script cbp) calls)) \<le> 4096"
    and "ts_last_ip s = 0 \<or> ts_last_bp s = cbp"
  shows "\<exists>s'. passes cfg c (concat (map (script cbp) calls)) s s' \<and> ts_root_depth s' = ts_root_depth s"
  using assms
proof (induction calls arbitrary: s)
  case Nil
  then show ?case using passes_Nil by fastforce
next
  case (Cons call calls)
  obtain t where t: "passes cfg c (script cbp call) s t" "ts_root_depth t = ts_root_depth s"
      "ts_last_ip t = 0"
    using Cons.prems(1) [of call s] Cons.prems(2-5) by auto
  obtain u where u: "passes cfg c (concat (map (script cbp) calls)) t u" "ts_root_depth u = ts_root_depth t"
    using Cons.IH [of t, OF Cons.prems(1)] passes_fields [OF t(1)] t(3) Cons.prems(2,4) by auto
  show ?case
    using passes_append [OF t(1) u(1)] t(2) u(2) by auto
qed

lemma depth_up_down:
  assumes "cell_ok (Some s)"
  shows "ts_root_depth s + 1 > 1" "ts_root_depth s + 1 - 1 = ts_root_depth s"
proof -
  have "unat (ts_root_depth s) \<le> 4096" "1 \<le> unat (ts_root_depth s)"
    using assms by (auto simp: word_le_nat_alt max_events)
  then have "unat (ts_root_depth s + 1) = Suc (unat (ts_root_depth s))"
    by (simp add: unat_word_ariths)
  with \<open>1 \<le> unat (ts_root_depth s)\<close> show "ts_root_depth s + 1 > 1"
    by (simp add: word_less_nat_alt)
qed simp

definition entries :: "u64 \<Rightarrow> call \<Rightarrow> point list" where
  "entries cbp call =
     At_entry (c_ip call) (c_bp call) cbp #
     (case c_moved call of None \<Rightarrow> [] | Some (bp', cbp') \<Rightarrow> [At_entry (c_ip call) bp' cbp'])"

lemma entries_pass:
  assumes a: "cfg_adaptive_sampling cfg"
    and w: "is_wanted c (ts_root_ip s)"
    and ok: "call_ok (should_trace_ret c) (ts_root_ip s) call" "cell_ok (Some s)"
    and n: "unat (ts_event_count s) + length (entries cbp call) \<le> 4096"
    and l: "ts_last_ip s = 0 \<or> ts_last_bp s = cbp"
  shows "\<exists>s'. passes cfg c (entries cbp call) s s' \<and> ts_last_ip s' = c_ip call \<and> ts_last_bp s' = frame_bp call \<and>
     ts_root_depth s' = (if c_ip call = ts_root_ip s then ts_root_depth s + 1 else ts_root_depth s)"
proof -
  obtain ip r bp moved calls where c: "call = Call ip r bp moved calls" by (cases call)
  let ?s1 = "ent_update cfg (is_wanted c ip) (point_event (At_entry ip bp cbp)) s"
  have ip: "ip \<noteq> 0" using ok(1) c by simp
  have n1: "unat (ts_event_count s) < 4096" using n by (simp add: entries_def)
  note p1 = passes_entry [OF a ok(2) n1, of c ip bp cbp]
  note f1 = entry_fields [OF a ok(2) n1, where c = c and ip = ip and bp = bp and cbp = cbp]
  have d1: "ts_root_depth ?s1 = (if ip = ts_root_ip s then ts_root_depth s + 1 else ts_root_depth s)"
    using f1(3) l ip w by (cases "ip = ts_root_ip s") auto
  show ?thesis
  proof (cases moved)
    case None
    then show ?thesis
      using p1 f1(1,2) d1 c by (intro exI [of _ ?s1]) (simp add: entries_def frame_bp_def)
  next
    case (Some m)
    obtain bp' cbp' where m: "m = (bp', cbp')" by (cases m)
    let ?s2 = "ent_update cfg (is_wanted c ip) (point_event (At_entry ip bp' cbp')) ?s1"
    have ne: "cbp' \<noteq> bp" using ok(1) c Some m by simp
    have n2: "unat (ts_event_count ?s1) < 4096"
      using n passes_fields(3) [OF p1] c Some m by (simp add: entries_def)
    note ok1 = passes_fields(4) [OF p1]
    note p2 = passes_entry [OF a ok1 n2, of c ip bp' cbp']
    note f2 = entry_fields [OF a ok1 n2, where c = c and ip = ip and bp = bp' and cbp = cbp']
    have d2: "ts_root_depth ?s2 = ts_root_depth ?s1" using f2(3) f1(1,2) ne by simp
    show ?thesis
      using passes_append [OF p1 p2] f2(1,2) d1 d2 c Some m
      by (intro exI [of _ ?s2]) (simp add: entries_def frame_bp_def)
  qed
qed

lemma script_split:
  "script cbp call =
     entries cbp call @ (concat (map (script (frame_bp call)) (c_calls call)) @ [At_return (c_ret call)])"
  by (cases call) (simp add: entries_def split: option.split)

lemma call_passes:
  assumes a: "cfg_adaptive_sampling cfg"
  shows "is_wanted c (ts_root_ip s) \<Longrightarrow> call_ok (should_trace_ret c) (ts_root_ip s) call \<Longrightarrow>
    cell_ok (Some s) \<Longrightarrow> unat (ts_event_count s) + length (script cbp call) \<le> 4096 \<Longrightarrow>
    ts_last_ip s = 0 \<or> ts_last_bp s = cbp \<Longrightarrow>
    \<exists>s'. passes cfg c (script cbp call) s s' \<and> ts_root_depth s' = ts_root_depth s \<and> ts_last_ip s' = 0"
proof (induction call arbitrary: s cbp)
  case (Call ip r bp moved calls)
  let ?call = "Call ip r bp moved calls"
  let ?root = "ts_root_ip s"
  let ?d = "if ip = ?root then ts_root_depth s + 1 else ts_root_depth s"
  have calls_ok: "call \<in> set calls \<Longrightarrow> call_ok (should_trace_ret c) ?root call" for call
    using Call.prems(2) by (simp add: list_all_iff)
  note n = Call.prems(4) [unfolded script_split [of cbp ?call] length_append]
  obtain t where t: "passes cfg c (entries cbp ?call) s t"
      "ts_last_bp t = frame_bp ?call" "ts_root_depth t = ?d"
    using entries_pass [OF a Call.prems(1,2,3) _ Call.prems(5)] n by auto
  note ft = passes_fields [OF t(1)]
  have inner: "\<exists>s'. passes cfg c (script (frame_bp ?call) call) u s' \<and>
      ts_root_depth s' = ts_root_depth u \<and> ts_last_ip s' = 0"
    if "call \<in> set calls" "ts_root_ip u = ?root" "cell_ok (Some u)"
      "unat (ts_event_count u) + length (script (frame_bp ?call) call) \<le> 4096"
      "ts_last_ip u = 0 \<or> ts_last_bp u = frame_bp ?call" for call u
    using Call.IH [OF that(1), of u "frame_bp ?call"] that Call.prems(1) calls_ok by simp
  have "\<exists>u. passes cfg c (concat (map (script (frame_bp ?call)) calls)) t u \<and> ts_root_depth u = ts_root_depth t"
    using ft t(2) n by (intro forest_passes [OF inner, of _ ?root]) auto
  then obtain u where u: "passes cfg c (concat (map (script (frame_bp ?call)) calls)) t u"
      "ts_root_depth u = ?d"
    using t(3) by auto
  note fu = passes_fields [OF u(1)]
  let ?v = "if should_trace_ret c r = Some (ts_root_ip u)
            then (ret_update u)\<lparr>ts_root_depth := ts_root_depth u - 1\<rparr> else ret_update u"
  have at_root: "should_trace_ret c r = Some (ts_root_ip u) \<longleftrightarrow> ip = ?root"
    using Call.prems(2) fu(1) ft(1) by simp
  have room: "unat (ts_event_count u) < 4096" using fu(3) ft(3) n by auto
  have deep: "1 < ts_root_depth u" if "should_trace_ret c r = Some (ts_root_ip u)"
    using that at_root u(2) depth_up_down(1) [OF Call.prems(3)] by simp
  have v: "passes cfg c [At_return r] u ?v"
    by (rule passes_return [OF a fu(4) room deep])
  have "ts_root_depth ?v = ts_root_depth s" "ts_last_ip ?v = 0"
    using at_root u(2) depth_up_down(2) [OF Call.prems(3)] by (simp_all add: ret_update_def)
  then show ?case
    using passes_append [OF t(1) passes_append [OF u(1) v]]
    unfolding script_split [of cbp ?call] call.sel by blast
qed

section \<open>Hits that realise points\<close>

fun point_of :: "hit \<Rightarrow> point option" where
  "point_of (Ent env ctx) = Some (At_entry (ctx_ip ctx) (ctx_sp ctx - 8) (ctx_bp ctx))"
| "point_of (Ret env ctx) = Some (At_return (ctx_ip ctx))"
| "point_of (Exit env ctx) = None"

definition reliable :: "bpf_state \<Rightarrow> hit \<Rightarrow> bool" where
  "reliable st h \<longleftrightarrow>
     event_buffer st (k_cpu (hit_env h)) \<noteq> None \<and>
     k_push_rc (hit_env h) = 0 \<and> k_delete_rc (hit_env h) = 0"

fun reports :: "event \<Rightarrow> point \<Rightarrow> bool" where
  "reports e (At_entry ip bp caller_bp) \<longleftrightarrow>
     ev_location e = ENTPOINT \<and> ev_ip e = ip \<and> ev_bp e = bp \<and> ev_caller_bp e = caller_bp"
| "reports e (At_return ip) \<longleftrightarrow>
     ev_location e = RETPOINT \<and> ev_ip e = ip \<and> ev_bp e = 0 \<and> ev_caller_bp e = 0"

lemma reliable_fixed [simp]: "reliable (fixed_part st) h = reliable st h"
  by (simp add: reliable_def)

lemma ent_update_point:
  "ent_update cfg w (ent_head cfg env ctx) s =
     ent_update cfg w (point_event (At_entry (ctx_ip ctx) (ctx_sp ctx - 8) (ctx_bp ctx))) s"
  by (simp add: ent_update_def is_duplicate_def ent_head_def)

lemma hit_point:
  assumes "reliable c h" "point_of h = Some p"
  shows "hit_cell cfg c h (Some s) = point_next cfg c p s"
    and "\<exists>e. hit_event cfg c h (Some s) = Some e \<and> ev_trace_flags e = point_flags cfg c p s \<and>
           ev_sample_denominator e = ts_sample_denominator s \<and> reports e p"
proof -
  obtain b where b: "event_buffer c (k_cpu (hit_env h)) = Some b"
    using assms(1) by (auto simp: reliable_def)
  have rc: "k_delete_rc (hit_env h) = 0" using assms(1) by (simp add: reliable_def)
  have le: "ts_root_depth s \<le> 1 \<longleftrightarrow> \<not> 1 < ts_root_depth s" by (rule not_less [symmetric])
  show "hit_cell cfg c h (Some s) = point_next cfg c p s"
    using assms(2) b rc
    by (cases h) (auto simp: hit_cell.simps Let_def ent_update_point returns_from_root_ip
        simp del: point_event.simps)
  show "\<exists>e. hit_event cfg c h (Some s) = Some e \<and> ev_trace_flags e = point_flags cfg c p s \<and>
           ev_sample_denominator e = ts_sample_denominator s \<and> reports e p"
    using assms(2) b
    by (cases h) (auto simp: hit_event.simps Let_def ent_tail_def ent_head_def ends_sample_def le
        returns_from_root_ip zero_event_def flag_defs)
qed

lemma point_next_denominator:
  "point_next cfg c p s = Some s' \<Longrightarrow> ts_sample_denominator s' = ts_sample_denominator s"
  by (cases p) (auto split: if_splits)

lemma hits_points:
  assumes "list_all (reliable c) hs" "map point_of hs = map Some ps"
    "point_run cfg c ps s = Some (s', fs)"
  shows "fold (hit_cell cfg c) hs (Some s) = Some s'"
    and "map ev_trace_flags (own_events cfg c hs (Some s)) = fs"
    and "\<forall>e \<in> set (own_events cfg c hs (Some s)). ev_sample_denominator e = ts_sample_denominator s"
    and "list_all2 reports (own_events cfg c hs (Some s)) ps"
proof -
  have "fold (hit_cell cfg c) hs (Some s) = Some s' \<and>
    map ev_trace_flags (own_events cfg c hs (Some s)) = fs \<and>
    (\<forall>e \<in> set (own_events cfg c hs (Some s)). ev_sample_denominator e = ts_sample_denominator s) \<and>
    list_all2 reports (own_events cfg c hs (Some s)) ps"
    using assms
  proof (induction hs arbitrary: ps s fs)
    case Nil
    then show ?case by simp
  next
    case (Cons h hs)
    then obtain p qs where ps: "ps = p # qs" by (cases ps) auto
    have h: "reliable c h" "point_of h = Some p" and hs: "list_all (reliable c) hs" "map point_of hs = map Some qs"
      using Cons.prems ps by simp_all
    obtain t gs where t: "point_next cfg c p s = Some t" "point_run cfg c qs t = Some (s', gs)"
        "fs = point_flags cfg c p s # gs"
      using Cons.prems(3) ps by (auto split: option.splits)
    obtain e where e: "hit_event cfg c h (Some s) = Some e" "ev_trace_flags e = point_flags cfg c p s"
        "ev_sample_denominator e = ts_sample_denominator s" "reports e p"
      using hit_point(2) [OF h, of cfg s] by blast
    have "k_push_rc (hit_env h) = 0" using h(1) by (simp add: reliable_def)
    then show ?case
      using Cons.IH [OF hs t(2)] hit_point(1) [OF h, of cfg s] t e ps point_next_denominator [OF t(1)]
      by simp
  qed
  then show "fold (hit_cell cfg c) hs (Some s) = Some s'"
    and "map ev_trace_flags (own_events cfg c hs (Some s)) = fs"
    and "\<forall>e \<in> set (own_events cfg c hs (Some s)). ev_sample_denominator e = ts_sample_denominator s"
    and "list_all2 reports (own_events cfg c hs (Some s)) ps"
    by blast+
qed

section \<open>A root call\<close>

text \<open>The body of the root call: everything between its first entry and its RET.\<close>

definition root_body :: "call \<Rightarrow> point list" where
  "root_body call =
     (case c_moved call of None \<Rightarrow> [] | Some (bp', cbp') \<Rightarrow> [At_entry (c_ip call) bp' cbp'])
     @ concat (map (script (frame_bp call)) (c_calls call))"

lemma script_root:
  "script cbp call =
     At_entry (c_ip call) (c_bp call) cbp # root_body call @ [At_return (c_ret call)]"
  by (simp add: script_split entries_def root_body_def)

lemma root_body_passes:
  assumes a: "cfg_adaptive_sampling cfg" and w: "is_wanted c (c_ip call)"
    and ok: "call_ok (should_trace_ret c) (c_ip call) call"
    and s: "ts_root_ip s = c_ip call" "ts_last_ip s = c_ip call" "ts_last_bp s = c_bp call"
      "ts_root_depth s = 1" "unat (ts_event_count s) = 1"
    and n: "length (root_body call) \<le> 4095"
  shows "\<exists>s'. passes cfg c (root_body call) s s' \<and> ts_root_depth s' = 1"
proof -
  have ok0: "cell_ok (Some s)" using s(4,5) by (simp add: word_le_nat_alt max_events)
  let ?moved = "case c_moved call of None \<Rightarrow> [] | Some (bp', cbp') \<Rightarrow> [At_entry (c_ip call) bp' cbp']"
  obtain t where t: "passes cfg c ?moved s t" "ts_root_depth t = 1" "ts_last_bp t = frame_bp call"
  proof (cases "c_moved call")
    case None
    then show ?thesis using that [of s] passes_Nil [OF ok0] s by (simp add: frame_bp_def)
  next
    case (Some m)
    obtain bp' cbp' where m: "m = (bp', cbp')" by (cases m)
    have lt: "unat (ts_event_count s) < 4096" using s(5) by simp
    have "cbp' \<noteq> c_bp call" using ok Some m by (cases call) simp
    then show ?thesis
      using that passes_entry [OF a ok0 lt, of c "c_ip call" bp' cbp'] Some m s
        entry_fields [OF a ok0 lt, where c = c and ip = "c_ip call" and bp = bp' and cbp = cbp']
      by (simp add: frame_bp_def)
  qed
  note ft = passes_fields [OF t(1)]
  have calls_ok: "call_ok (should_trace_ret c) (c_ip call) sub" if "sub \<in> set (c_calls call)" for sub
    using ok that by (cases call) (simp add: list_all_iff)
  have "\<exists>u. passes cfg c (concat (map (script (frame_bp call)) (c_calls call))) t u \<and>
      ts_root_depth u = ts_root_depth t"
    using n ft s t(3) calls_ok w
    by (intro forest_passes [where root = "c_ip call"] call_passes [OF a])
      (auto simp: root_body_def)
  then show ?thesis
    using passes_append [OF t(1)] t(2) by (auto simp: root_body_def)
qed

lemma root_call_cell:
  assumes a: "cfg_adaptive_sampling cfg"
    and ok: "call_ok (should_trace_ret c) (c_ip call) call"
    and n: "length (script cbp call) \<le> 4096"
    and hs: "list_all (reliable c) (h # hs)" "map point_of (h # hs) = map Some (script cbp call)"
    and adm: "admits (hit_env h) c (c_ip call)"
  shows "fold (hit_cell cfg c) (h # hs) None = None"
    and "map ev_trace_flags (own_events cfg c (h # hs) None) =
      TRACE_START # replicate (length (root_body call)) 0 @ [TRACE_END]"
    and "\<forall>e \<in> set (own_events cfg c (h # hs) None).
      ev_sample_denominator e = current_sample_denominator c"
    and "list_all2 reports (own_events cfg c (h # hs) None) (script cbp call)"
proof -
  obtain env ctx where h: "h = Ent env ctx"
      "ctx_ip ctx = c_ip call" "ctx_sp ctx - 8 = c_bp call" "ctx_bp ctx = cbp"
    using hs(2) by (cases h) (auto simp: script_root)
  obtain b where b: "event_buffer c (k_cpu env) = Some b"
    using hs(1) h(1) by (auto simp: reliable_def)
  let ?s = "initial_state (ent_head cfg env ctx) (current_sample_denominator c)"
  have cell: "hit_cell cfg c h None = Some ?s"
    using b adm h by (simp add: hit_cell.simps)
  obtain e where e: "hit_event cfg c h None = Some e" "ev_trace_flags e = TRACE_START"
      "ev_sample_denominator e = current_sample_denominator c"
      "reports e (At_entry (c_ip call) (c_bp call) cbp)"
    using b adm h a by (simp add: hit_event.simps ent_tail_def ent_head_def zero_event_def)
  have s: "ts_root_ip ?s = c_ip call" "ts_last_ip ?s = c_ip call" "ts_last_bp ?s = c_bp call"
      "ts_root_depth ?s = 1" "unat (ts_event_count ?s) = 1"
      "ts_sample_denominator ?s = current_sample_denominator c"
    using h by (simp_all add: initial_state_def ent_head_def)
  obtain t where t: "passes cfg c (root_body call) ?s t" "ts_root_depth t = 1"
    using root_body_passes [OF a _ ok s(1-5)] adm n by (auto simp: admits_def script_root)
  note ft = passes_fields [OF t(1)]
  have hsp: "map point_of hs = map Some (root_body call @ [At_return (c_ret call)])"
    using hs(2) by (simp add: script_root)
  then obtain hs1 g where g: "hs = hs1 @ [g]" "map point_of hs1 = map Some (root_body call)"
      "point_of g = Some (At_return (c_ret call))"
    by (auto simp: map_eq_append_conv)
  have rel: "list_all (reliable c) hs1" "reliable c g" using hs(1) g(1) by simp_all
  have push: "k_push_rc (hit_env h) = 0" "k_push_rc (hit_env g) = 0"
    using hs(1) rel(2) by (simp_all add: reliable_def)
  have run: "point_run cfg c (root_body call) ?s = Some (t, replicate (length (root_body call)) 0)"
    using t(1) by (simp add: passes_def)
  note body = hits_points [OF rel(1) g(2) run]
  have lt: "unat (ts_event_count t) < 4096" using ft(3) n s(5) by (simp add: script_root)
  have at_root: "should_trace_ret c (c_ret call) = Some (ts_root_ip t)"
    using ok ft(1) s(1) by (cases call) simp
  have last: "point_next cfg c (At_return (c_ret call)) t = None"
      "point_flags cfg c (At_return (c_ret call)) t = TRACE_END"
    using room(1) [OF a ft(4) lt] a at_root t(2) by simp_all
  obtain f where f: "hit_event cfg c g (Some t) = Some f" "ev_trace_flags f = TRACE_END"
      "ev_sample_denominator f = ts_sample_denominator t" "reports f (At_return (c_ret call))"
    using hit_point(2) [OF rel(2) g(3), of cfg t] last(2) by auto
  have own: "own_events cfg c (h # hs) None = e # own_events cfg c hs1 (Some ?s) @ [f]"
  proof -
    have split: "own_events cfg c (xs @ [g]) v = own_events cfg c xs v @
        opt_list (hit_event cfg c g (fold (hit_cell cfg c) xs v))" for xs v
      using push(2) by (induction xs arbitrary: v) simp_all
    show ?thesis
      using push(1) e(1) cell g(1) split body(1) f(1) by simp
  qed
  show "fold (hit_cell cfg c) (h # hs) None = None"
    using cell g(1) body(1) hit_point(1) [OF rel(2) g(3)] last(1) by simp
  show "map ev_trace_flags (own_events cfg c (h # hs) None) =
      TRACE_START # replicate (length (root_body call)) 0 @ [TRACE_END]"
    unfolding own using e(2) body(2) f(2) by simp
  show "\<forall>e \<in> set (own_events cfg c (h # hs) None). ev_sample_denominator e = current_sample_denominator c"
    unfolding own using e(3) body(3) f(3) s(6) ft(2) by auto
  show "list_all2 reports (own_events cfg c (h # hs) None) (script cbp call)"
    unfolding own script_root using e(4) body(4) f(4) by (auto intro: list_all2_appendI)
qed

lemma root_call_stream:
  assumes "cfg_adaptive_sampling cfg"
    and "call_ok (should_trace_ret st) (c_ip call) call"
    and "length (script cbp call) \<le> 4096"
    and "should_trace_goid st k = None"
    and "filter (\<lambda>h. key_of cfg h = k) hs = h # own"
    and "map point_of (h # own) = map Some (script cbp call)"
    and "list_all (reliable st) (h # own)"
    and "should_trace_rip st (c_ip call) \<noteq> None"
    and "should_sample (hit_env h) (current_sample_denominator st)"
    and "k_update_rc (hit_env h) = 0"
  shows "map ev_trace_flags (stream_of cfg k (map Hit hs) st) =
           TRACE_START # replicate (length (script cbp call) - 2) 0 @ [TRACE_END] \<and>
         list_all2 reports (stream_of cfg k (map Hit hs) st) (script cbp call) \<and>
         list_all (\<lambda>e. ev_sample_denominator e = current_sample_denominator st)
           (stream_of cfg k (map Hit hs) st) \<and>
         should_trace_goid (fold (hit_step cfg) hs st) k = None"
proof -
  have adm: "admits (hit_env h) (fixed_part st) (c_ip call)"
    using assms(8-10) by (simp add: admits_def is_wanted_def)
  have rel: "list_all (reliable (fixed_part st)) (h # own)" using assms(7) by (simp add: list_all_iff)
  have ok: "call_ok (should_trace_ret (fixed_part st)) (c_ip call) call" using assms(2) by simp
  note r = root_call_cell [OF assms(1) ok assms(3) rel assms(6) adm]
  have "length (script cbp call) - 2 = length (root_body call)" by (simp add: script_root)
  then show ?thesis
    using r assms(4,5) by (simp add: stream_projection goroutines.run_projection list_all_iff)
qed

section \<open>Properties\<close>

definition demo_call :: call where
  "demo_call =
     Call 100 110 1000 (Some (3000, 4000)) [Call 100 110 2900 None [], Call 200 210 2800 None []]"

definition demo_hits :: "hit list" where
  "demo_hits =
     [Ent (demo_env 1) (demo_ctx 300 5008 6000), Ent (demo_env 0) (demo_ctx 100 1008 2000),
      Ent (demo_env 0) (demo_ctx 100 3008 4000), Ent (demo_env 0) (demo_ctx 100 2908 3000),
      Ret (demo_env 0) (demo_ctx 110 0 0), Ret (demo_env 1) (demo_ctx 310 0 0),
      Ent (demo_env 0) (demo_ctx 200 2808 3000), Ret (demo_env 0) (demo_ctx 210 0 0),
      Ret (demo_env 0) (demo_ctx 110 0 0)]"


lemma demo_own:
  "filter (\<lambda>h. key_of demo_cfg h = hit_key demo_cfg (demo_env 0)) demo_hits =
     Ent (demo_env 0) (demo_ctx 100 1008 2000) #
     [Ent (demo_env 0) (demo_ctx 100 3008 4000), Ent (demo_env 0) (demo_ctx 100 2908 3000),
      Ret (demo_env 0) (demo_ctx 110 0 0), Ent (demo_env 0) (demo_ctx 200 2808 3000),
      Ret (demo_env 0) (demo_ctx 210 0 0), Ret (demo_env 0) (demo_ctx 110 0 0)]"
  by (simp add: demo_hits_def key_of_def)


text \<open>C34: A recursive call of the root function through a frame that is not probed is taken for
  the repeated entry after a stack move: the depth of the sample stays 1 and the return of the
  inner call already ends it, although the outer call is still running.\<close>

theorem indirect_recursion_ends_sample:
  assumes "cfg_adaptive_sampling cfg"
    and "should_trace_goid st k = Some s"
    and "ts_root_ip s = ctx_ip ctx" "ts_last_ip s = ctx_ip ctx" "ts_last_bp s \<noteq> ctx_bp ctx"
    and "ts_root_depth s = 1" "ts_event_count s < 4095"
    and "key_of cfg (Ent env ctx) = k" "key_of cfg (Ret env' ctx') = k"
    and "should_trace_ret st (ctx_ip ctx') = Some (ts_root_ip s)"
    and "reliable st (Ent env ctx)" "reliable st (Ret env' ctx')"
  shows "map ev_trace_flags (stream_of cfg k (map Hit [Ent env ctx, Ret env' ctx']) st) = [0, TRACE_END] \<and>
    should_trace_goid (fold (hit_step cfg) [Ent env ctx, Ret env' ctx'] st) k = None"
proof -
  let ?c = "fixed_part st" and ?p = "At_entry (ctx_ip ctx) (ctx_sp ctx - 8) (ctx_bp ctx)"
  let ?q = "At_return (ctx_ip ctx')"
  let ?t = "ent_update cfg (is_wanted ?c (ctx_ip ctx)) (point_event ?p) s"
  have cnt: "unat (ts_event_count s) < 4095" using assms(7) by (simp add: word_less_nat_alt)
  then have u: "unat (ts_event_count s + 1) = Suc (unat (ts_event_count s))"
      "unat (ts_event_count s + 1 + 1) = Suc (Suc (unat (ts_event_count s)))"
    by (simp_all add: unat_word_ariths)
  have lim: "\<not> over_limit cfg (counted s)" "\<not> over_limit cfg (counted ?t)"
    using u cnt by (simp_all add: over_limit_def counted_def word_less_nat_alt max_events)
  have dup: "ts_root_depth ?t = 1"
    using assms(4-6) by (simp add: ent_update_def is_duplicate_def Let_def)
  have p: "point_next cfg ?c ?p s = Some ?t" "point_flags cfg ?c ?p s = 0"
    using lim by simp_all
  have q: "point_next cfg ?c ?q ?t = None" "point_flags cfg ?c ?q ?t = TRACE_END"
    using lim assms(1,3,10) dup by simp_all
  have e1: "reliable ?c (Ent env ctx)" "point_of (Ent env ctx) = Some ?p"
    and e2: "reliable ?c (Ret env' ctx')" "point_of (Ret env' ctx') = Some ?q"
    using assms(11,12) by simp_all
  obtain e where e: "hit_event cfg ?c (Ent env ctx) (Some s) = Some e" "ev_trace_flags e = 0"
    using hit_point(2) [OF e1, of cfg s] p(2) by auto
  obtain f where f: "hit_event cfg ?c (Ret env' ctx') (Some ?t) = Some f" "ev_trace_flags f = TRACE_END"
    using hit_point(2) [OF e2, of cfg ?t] q(2) by auto
  have push: "k_push_rc env = 0" "k_push_rc env' = 0" using assms(11,12) by (simp_all add: reliable_def)
  note cells = hit_point(1) [OF e1, of cfg s] hit_point(1) [OF e2, of cfg ?t]
  have "should_trace_goid (fold (hit_step cfg) [Ent env ctx, Ret env' ctx'] st) k = None"
    unfolding goroutines.run_projection using assms(2,8,9) cells p(1) q(1) by simp
  moreover have "map ev_trace_flags (stream_of cfg k (map Hit [Ent env ctx, Ret env' ctx']) st) = [0, TRACE_END]"
    unfolding stream_projection using assms(2,8,9) cells p(1) q(1) e f push by simp
  ultimately show ?thesis by blast
qed

text \<open>The function at 100, at depth one, called again from a frame at 900 that is not probed.\<close>

definition demo_sampled :: bpf_state where
  "demo_sampled =
     demo_state\<lparr>should_trace_goid :=
       [hit_key demo_cfg (demo_env 0) \<mapsto>
          \<lparr>ts_root_ip = 100, ts_last_ip = 100, ts_last_bp = 1000, ts_root_depth = 1,
           ts_event_count = 1, ts_sample_denominator = 4, ts_pad = 0\<rparr>]\<rparr>"

theorem indirect_recursion_ends_sample_witness:
  "map ev_trace_flags (stream_of demo_cfg (hit_key demo_cfg (demo_env 0))
     (map Hit [Ent (demo_env 0) (demo_ctx 100 808 900), Ret (demo_env 0) (demo_ctx 110 0 0)]) demo_sampled)
     = [0, TRACE_END] \<and>
   should_trace_goid (fold (hit_step demo_cfg)
     [Ent (demo_env 0) (demo_ctx 100 808 900), Ret (demo_env 0) (demo_ctx 110 0 0)] demo_sampled)
     (hit_key demo_cfg (demo_env 0)) = None"
  by (rule indirect_recursion_ends_sample)
    ((simp_all add: demo_sampled_def key_of_def reliable_def)?, simp_all add: word_less_nat_alt)

end
