(* ===== verification/Ftrace_Stats.thy ===== *)
theory Ftrace_Stats
  imports Ftrace_Machine Ftrace_Examples
begin

text \<open>
  The per-CPU statistics. \<open>hit_stats\<close> describes what one hit adds to the entry of its CPU,
  \<open>hit_result\<close> the return code of the program; the interpretations of \<open>counting_machine\<close>
  and \<open>invariant_machine\<close> make statements about whole runs of them.
\<close>

section \<open>What a hit counts\<close>

text \<open>
  The change a hit makes to its CPU's entry of \<open>runtime_stats_map\<close>, as a function of the
  goroutine's table entry.
\<close>

definition push_count :: "kenv \<Rightarrow> runtime_stats \<Rightarrow> runtime_stats" where
  "push_count env = (if (ucast (k_push_rc env) :: c_int) = 0 then inc_emitted else inc_dropped)"

fun ent_count :: "config \<Rightarrow> bpf_state \<Rightarrow> kenv \<Rightarrow> pt_regs \<Rightarrow> trace_state option \<Rightarrow> runtime_stats \<Rightarrow> runtime_stats" where
  "ent_count cfg c env ctx None n =
     (if \<not> is_wanted c (ctx_ip ctx) then n
      else if \<not> should_sample env (current_sample_denominator c) then inc_sampled_out (inc_wanted n)
      else if k_update_rc env \<noteq> 0 then inc_insert_failures (inc_wanted n)
      else push_count env (inc_admitted (inc_wanted n)))"
| "ent_count cfg c env ctx (Some s) n =
     push_count env (if over_limit cfg (counted s) then inc_aborted n else n)"

fun ret_count :: "config \<Rightarrow> kenv \<Rightarrow> trace_state option \<Rightarrow> runtime_stats \<Rightarrow> runtime_stats" where
  "ret_count cfg env None n = n"
| "ret_count cfg env (Some s) n = push_count env (if over_limit cfg (counted s) then inc_aborted n else n)"

fun exit_count :: "kenv \<Rightarrow> trace_state option \<Rightarrow> runtime_stats \<Rightarrow> runtime_stats" where
  "exit_count env None n = n"
| "exit_count env (Some s) n = push_count env n"

fun hit_count :: "config \<Rightarrow> bpf_state \<Rightarrow> hit \<Rightarrow> trace_state option \<Rightarrow> runtime_stats \<Rightarrow> runtime_stats" where
  "hit_count cfg c h v n =
     (if event_buffer c (k_cpu (hit_env h)) = None then n
      else case h of
        Ent env ctx \<Rightarrow> ent_count cfg c env ctx v n
      | Ret env ctx \<Rightarrow> ret_count cfg env v n
      | Exit env ctx \<Rightarrow> exit_count env v n)"

definition counts :: "kenv \<Rightarrow> (runtime_stats \<Rightarrow> runtime_stats) \<Rightarrow> bpf_state \<Rightarrow> bpf_state \<Rightarrow> bool" where
  "counts env f st st' \<longleftrightarrow>
     runtime_stats_map st' =
       (runtime_stats_map st)(k_cpu env := map_option f (runtime_stats_map st (k_cpu env)))"

lemma map_stats_upd:
  "map_option f (map_option g x) = map_option (\<lambda>y. f (g y)) x"
  by (simp add: option.map_comp comp_def)

lemma with_event_counts:
  assumes "counts env f st (snd (snd (body zero_event)))" "event_buffer st (k_cpu env) \<noteq> None"
  shows "counts env f st (snd (with_event env st body))"
  using assms by (auto simp: counts_def with_event_def case_prod_beta split: option.split)

lemma push_event_counts:
  "runtime_stats_map (snd (push_event env e st)) =
     (runtime_stats_map st)(k_cpu env := map_option (push_count env) (runtime_stats_map st (k_cpu env)))"
  by (simp add: push_event_stats push_count_def)

lemma idle_count: "(\<And>n. f n = n) \<Longrightarrow> m(k := map_option f (m k)) = m"
  by (cases "m k") (simp_all add: fun_upd_idem)

lemma counts_idle:
  "(\<And>n. f n = n) \<Longrightarrow> runtime_stats_map st' = runtime_stats_map st \<Longrightarrow> counts env f st st'"
  by (simp add: counts_def idle_count)

lemma ent_counts:
  assumes "event_buffer st (k_cpu env) \<noteq> None"
  shows "counts env (ent_count cfg (fixed_part st) env ctx (should_trace_goid st (hit_key cfg env)))
    st (snd (ent cfg env ctx st))"
  unfolding ent_def
proof (rule with_event_counts [OF _ assms], goal_cases)
  case 1
  let ?k = "hit_key cfg env"
  show ?case
  proof (cases "should_trace_goid st ?k")
    case None
    show ?thesis
    proof (cases "should_trace_rip st (ctx_ip ctx)")
      case None
      then show ?thesis
        using \<open>should_trace_goid st ?k = None\<close>
        by (intro counts_idle) (simp_all add: ent_root_def Let_def is_wanted_def)
    next
      case (Some w)
      then show ?thesis
        using None
        by (cases "runtime_stats_map st (k_cpu env)";
            cases "should_sample env (current_sample_denominator st)"; cases "k_update_rc env = 0")
          (simp_all add: ent_root_def ent_finish_def Let_def is_wanted_def counts_def bump_stats
            push_event_counts map_stats_upd case_prod_beta)
    qed
  next
    case (Some s)
    then show ?thesis
      by (cases "runtime_stats_map st (k_cpu env)"; cases "over_limit cfg (counted s)")
        (simp_all add: ent_nested_def ent_finish_def counted_def [symmetric] Let_def counts_def
          bump_stats push_event_counts map_stats_upd case_prod_beta)
  qed
qed

lemma ret_finish_stats:
  "runtime_stats_map (snd (snd (ret_finish cfg env k ab s e st))) =
     (runtime_stats_map st)(k_cpu env := map_option (push_count env) (runtime_stats_map st (k_cpu env)))"
  by (simp add: ret_finish_def Let_def case_prod_beta push_event_counts)

lemma ret_counts:
  assumes "event_buffer st (k_cpu env) \<noteq> None"
  shows "counts env (ret_count cfg env (should_trace_goid st (hit_key cfg env)))
    st (snd (ret cfg env ctx st))"
  unfolding ret_def
proof (rule with_event_counts [OF _ assms], goal_cases)
  case 1
  show ?case
  proof (cases "should_trace_goid st (hit_key cfg env)")
    case None
    then show ?thesis by (intro counts_idle) (simp_all add: Let_def)
  next
    case (Some s)
    then show ?thesis
      by (cases "runtime_stats_map st (k_cpu env)"; cases "over_limit cfg (counted s)")
        (simp_all add: counts_def Let_def ret_finish_stats bump_stats map_stats_upd)
  qed
qed

lemma goroutine_exit_counts:
  assumes "event_buffer st (k_cpu env) \<noteq> None"
  shows "counts env (exit_count env (should_trace_goid st (hit_key cfg env)))
    st (snd (goroutine_exit cfg env ctx st))"
  unfolding goroutine_exit_def
proof (rule with_event_counts [OF _ assms], goal_cases)
  case 1
  show ?case
  proof (cases "should_trace_goid st (hit_key cfg env)")
    case None
    then show ?thesis by (intro counts_idle) (simp_all add: Let_def)
  next
    case (Some s)
    then show ?thesis
      by (cases "runtime_stats_map st (k_cpu env)")
        (simp_all add: counts_def Let_def case_prod_beta push_event_counts)
  qed
qed

lemma hit_stats:
  "runtime_stats_map (hit_step cfg h st) =
     (runtime_stats_map st)(k_cpu (hit_env h) :=
        map_option (hit_count cfg (fixed_part st) h (should_trace_goid st (key_of cfg h)))
          (runtime_stats_map st (k_cpu (hit_env h))))"
proof (cases "event_buffer st (k_cpu (hit_env h)) = None")
  case True
  then show ?thesis
    by (cases "runtime_stats_map st (k_cpu (hit_env h))"; cases h)
      (simp_all add: hit_step_def ent_def ret_def goroutine_exit_def with_event_none fun_upd_idem)
next
  case False
  then obtain b where "event_buffer st (k_cpu (hit_env h)) = Some b" by blast
  then show ?thesis
    using ent_counts [of st "hit_env h" cfg "hit_ctx h"] ret_counts [of st "hit_env h" cfg "hit_ctx h"]
      goroutine_exit_counts [of st "hit_env h" cfg "hit_ctx h"]
    by (cases "runtime_stats_map st (k_cpu (hit_env h))"; cases h)
      (simp_all add: hit_step_def key_of_def counts_def
      del: ent_count.simps ret_count.simps exit_count.simps)
qed

declare hit_count.simps [simp del]

section \<open>The programs' return codes\<close>

lemma with_event_result:
  "event_buffer st (k_cpu env) \<noteq> None \<Longrightarrow> fst (with_event env st body) = fst (body zero_event)"
  by (auto simp: with_event_def case_prod_beta split: option.split)

lemma ret_finish_result: "fst (ret_finish cfg env k ab s e st) = ucast (k_push_rc env)"
  by (simp add: ret_finish_def Let_def case_prod_beta push_event_result)

lemma hit_result:
  "fst (run_probe cfg h st) =
     (if hit_event cfg (fixed_part st) h (should_trace_goid st (key_of cfg h)) = None then 0
      else ucast (k_push_rc (hit_env h)))"
proof (cases "event_buffer st (k_cpu (hit_env h)) = None")
  case True
  then show ?thesis
    by (cases h) (simp_all add: hit_event.simps ent_def ret_def goroutine_exit_def with_event_none)
next
  case False
  then obtain b where b: "event_buffer st (k_cpu (hit_env h)) = Some b" by blast
  show ?thesis
  proof (cases h)
    case (Ent env ctx)
    then show ?thesis
      using b by (cases "should_trace_goid st (hit_key cfg env)"; cases "should_trace_rip st (ctx_ip ctx)")
        (auto simp: ent_def with_event_result hit_event.simps key_of_def ent_root_def ent_nested_def
          ent_finish_def Let_def case_prod_beta push_event_result admits_def is_wanted_def)
  next
    case (Ret env ctx)
    then show ?thesis
      using b by (cases "should_trace_goid st (hit_key cfg env)")
        (simp_all add: ret_def with_event_result hit_event.simps key_of_def Let_def ret_finish_result)
  next
    case (Exit env ctx)
    then show ?thesis
      using b by (cases "should_trace_goid st (hit_key cfg env)")
        (simp_all add: goroutine_exit_def with_event_result hit_event.simps key_of_def Let_def
          case_prod_beta push_event_result)
  qed
qed

section \<open>Counters over a run\<close>

fun on_cpu :: "nat \<Rightarrow> (hit \<Rightarrow> bpf_state \<Rightarrow> nat) \<Rightarrow> action \<Rightarrow> bpf_state \<Rightarrow> nat" where
  "on_cpu cpu f (Hit h) st = (if k_cpu (hit_env h) = cpu then f h st else 0)"
| "on_cpu cpu f a st = 0"

definition events_queued :: "config \<Rightarrow> hit \<Rightarrow> bpf_state \<Rightarrow> nat" where
  "events_queued cfg h st = length (enqueued cfg (Hit h) st)"

definition pushes_failed :: "config \<Rightarrow> hit \<Rightarrow> bpf_state \<Rightarrow> nat" where
  "pushes_failed cfg h st = (if fst (run_probe cfg h st) = 0 then 0 else 1)"

definition states_created :: "config \<Rightarrow> hit \<Rightarrow> bpf_state \<Rightarrow> nat" where
  "states_created cfg h st =
     (if should_trace_goid st (key_of cfg h) = None \<and>
         should_trace_goid (hit_step cfg h st) (key_of cfg h) \<noteq> None then 1 else 0)"

definition stats_of :: "nat \<Rightarrow> (runtime_stats \<Rightarrow> u64) \<Rightarrow> bpf_state \<Rightarrow> u64" where
  "stats_of cpu f st = (case runtime_stats_map st cpu of None \<Rightarrow> 0 | Some n \<Rightarrow> f n)"

text \<open>The helper's code fits an \<open>int\<close>: its truncation is zero only for success.\<close>

fun int_result :: "action \<Rightarrow> bool" where
  "int_result (Hit h) \<longleftrightarrow>
     k_push_rc (hit_env h) = 0 \<or> (ucast (k_push_rc (hit_env h)) :: c_int) \<noteq> 0"
| "int_result a \<longleftrightarrow> True"

definition has_stats :: "nat \<Rightarrow> bpf_state \<Rightarrow> bool" where
  "has_stats cpu st \<longleftrightarrow> runtime_stats_map st cpu \<noteq> None"

lemma act_live: "has_stats cpu st \<Longrightarrow> has_stats cpu (act_step cfg a st)"
  by (cases a) (auto simp: has_stats_def hit_stats Let_def)

lemma hit_counter:
  assumes "has_stats cpu st"
    and "k_cpu (hit_env h) = cpu \<Longrightarrow> (\<And>n. f (hit_count cfg (fixed_part st) h (should_trace_goid st (key_of cfg h)) n)
       = f n + of_nat (d h st))"
  shows "stats_of cpu f (act_step cfg (Hit h) st) = stats_of cpu f st + of_nat (on_cpu cpu d (Hit h) st)"
  using assms by (auto simp: has_stats_def stats_of_def hit_stats split: option.split)

lemma act_counter:
  assumes "has_stats cpu st"
    and "\<And>h n. a = Hit h \<Longrightarrow> f (hit_count cfg (fixed_part st) h (should_trace_goid st (key_of cfg h)) n)
       = f n + of_nat (d h st)"
  shows "stats_of cpu f (act_step cfg a st) = stats_of cpu f st + of_nat (on_cpu cpu d a st)"
proof (cases a)
  case (Hit h)
  then show ?thesis using hit_counter [OF assms(1), of h f cfg d] assms(2) by blast
qed (simp_all add: stats_of_def Let_def)

lemma push_count_fields [simp]:
  "rs_emitted_events (push_count env n) =
     rs_emitted_events n + (if (ucast (k_push_rc env) :: c_int) = 0 then 1 else 0)"
  "rs_dropped_events (push_count env n) =
     rs_dropped_events n + (if (ucast (k_push_rc env) :: c_int) = 0 then 0 else 1)"
  "rs_wanted_roots (push_count env n) = rs_wanted_roots n"
  "rs_admitted_roots (push_count env n) = rs_admitted_roots n"
  "rs_sampled_out_roots (push_count env n) = rs_sampled_out_roots n"
  "rs_aborted_roots (push_count env n) = rs_aborted_roots n"
  "rs_state_insert_failures (push_count env n) = rs_state_insert_failures n"
  by (simp_all add: push_count_def inc_defs)

lemma hit_count_pushes:
  "rs_emitted_events (hit_count cfg c h v n) = rs_emitted_events n +
     (if hit_event cfg c h v \<noteq> None \<and> (ucast (k_push_rc (hit_env h)) :: c_int) = 0 then 1 else 0)"
  "rs_dropped_events (hit_count cfg c h v n) = rs_dropped_events n +
     (if hit_event cfg c h v \<noteq> None \<and> (ucast (k_push_rc (hit_env h)) :: c_int) \<noteq> 0 then 1 else 0)"
  by (cases h; cases v; simp add: hit_count.simps hit_event.simps admits_def inc_defs Let_def)+

lemma hit_count_admitted:
  "rs_admitted_roots (hit_count cfg c h v n) = rs_admitted_roots n +
     (if v = None \<and> hit_cell cfg c h v \<noteq> None then 1 else 0)"
  by (cases h; cases v; simp add: hit_count.simps hit_cell.simps admits_def inc_defs Let_def)

lemma hit_count_balance:
  "rs_wanted_roots n = rs_admitted_roots n + rs_sampled_out_roots n + rs_state_insert_failures n \<Longrightarrow>
   rs_wanted_roots (hit_count cfg c h v n) =
     rs_admitted_roots (hit_count cfg c h v n) + rs_sampled_out_roots (hit_count cfg c h v n) +
     rs_state_insert_failures (hit_count cfg c h v n)"
  by (cases h; cases v; simp add: hit_count.simps inc_defs)

lemma events_queued_eq:
  "events_queued cfg h st =
     (if k_push_rc (hit_env h) = 0 \<and>
         hit_event cfg (fixed_part st) h (should_trace_goid st (key_of cfg h)) \<noteq> None then 1 else 0)"
  unfolding events_queued_def enqueued_hit
  by (cases "hit_event cfg (fixed_part st) h (should_trace_goid st (key_of cfg h))") simp_all

interpretation emitted: counting_machine "act_step cfg" int_result
  "has_stats cpu" "stats_of cpu rs_emitted_events"
  "on_cpu cpu (events_queued cfg)" for cfg cpu
  by unfold_locales (auto intro!: act_live act_counter simp: hit_count_pushes events_queued_eq)

interpretation dropped: counting_machine "act_step cfg" int_result
  "has_stats cpu" "stats_of cpu rs_dropped_events"
  "on_cpu cpu (pushes_failed cfg)" for cfg cpu
  by unfold_locales (auto intro!: act_live act_counter simp: hit_count_pushes pushes_failed_def hit_result)

interpretation admitted: counting_machine "act_step cfg" "\<lambda>a. True"
  "has_stats cpu" "stats_of cpu rs_admitted_roots"
  "on_cpu cpu (states_created cfg)" for cfg cpu
  by unfold_locales (auto intro!: act_live act_counter simp: hit_count_admitted states_created_def hit_view)

definition roots_balance :: "bpf_state \<Rightarrow> bool" where
  "roots_balance st \<longleftrightarrow>
     (\<forall>cpu n. runtime_stats_map st cpu = Some n \<longrightarrow>
        rs_wanted_roots n = rs_admitted_roots n + rs_sampled_out_roots n + rs_state_insert_failures n)"

lemma roots_balance_act: "roots_balance st \<Longrightarrow> roots_balance (act_step cfg a st)"
  by (cases a) (auto simp: roots_balance_def hit_stats hit_count_balance Let_def)

interpretation balance: invariant_machine "act_step cfg" "\<lambda>a. True" roots_balance for cfg
  by unfold_locales (rule roots_balance_act)

section \<open>Properties\<close>

text \<open>C22: Every detected root call is accounted for, on every CPU, after any run: the statistics
  satisfy wanted = admitted + sampled out + insertion failures (as u64) whenever they did at
  the start, whatever the helpers return.\<close>

theorem roots_accounted:
  assumes "roots_balance st"
    and "runtime_stats_map (fold (act_step cfg) as st) cpu = Some n"
  shows "rs_wanted_roots n =
    rs_admitted_roots n + rs_sampled_out_roots n + rs_state_insert_failures n"
  using balance.inv_run [of as st cfg] assms by (simp add: roots_balance_def list_all_iff)

text \<open>C23: The event statistics are exact: over any run a CPU's emitted_events grows by the
  number of events its hits put into the queue, and dropped_events by the number of its hits
  whose program returned a non-zero code, modulo 2^64, when the push helper's code fits an
  int.\<close>

theorem pushes_accounted:
  assumes "has_stats cpu st" "list_all int_result as"
  shows "stats_of cpu rs_emitted_events (fold (act_step cfg) as st) =
           stats_of cpu rs_emitted_events st
           + of_nat (total (act_step cfg) (on_cpu cpu (events_queued cfg)) as st) \<and>
         stats_of cpu rs_dropped_events (fold (act_step cfg) as st) =
           stats_of cpu rs_dropped_events st
           + of_nat (total (act_step cfg) (on_cpu cpu (pushes_failed cfg)) as st)"
  using emitted.counter_run [OF assms(2,1)] dropped.counter_run [OF assms(2,1)] by blast

text \<open>admitted_roots of a CPU grows over any run by exactly the number of its hits that
  gave their goroutine a trace state.\<close>

lemma admissions_accounted:
  assumes "has_stats cpu st"
  shows "stats_of cpu rs_admitted_roots (fold (act_step cfg) as st) =
    stats_of cpu rs_admitted_roots st
    + of_nat (total (act_step cfg) (on_cpu cpu (states_created cfg)) as st)"
  using admitted.counter_run [of as cpu st cfg] assms by (simp add: list_all_iff)

text \<open>One hit of the run that is dropped: the queue is full.\<close>

definition full_env :: "u64 \<Rightarrow> kenv" where
  "full_env task = (demo_env task)\<lparr>k_push_rc := -7\<rparr>"

definition demo_traffic :: "action list" where
  "demo_traffic =
     [Hit (Ent (demo_env 0) (demo_ctx 100 1008 2000)), Hit (Ent (full_env 0) (demo_ctx 200 908 1000)),
      Hit (Ret (demo_env 0) (demo_ctx 210 0 0))]"

lemma demo_has_stats [simp]: "has_stats 0 demo_state"
  by (simp add: has_stats_def demo_state_def)

lemma demo_balance: "roots_balance demo_state"
  by (simp add: roots_balance_def demo_state_def)

lemma full_env_simps [simp]:
  "k_cpu (full_env task) = 0" "k_push_rc (full_env task) = -7"
  "hit_key demo_cfg (full_env task) = hit_key demo_cfg (demo_env task)"
  by (simp_all add: full_env_def hit_key_def get_pid_def get_goid_def)

lemma demo_traffic_ok: "list_all int_result demo_traffic"
  by (simp add: demo_traffic_def)

lemma demo_traffic_stats:
  "runtime_stats_map (fold (act_step demo_cfg) demo_traffic demo_state) 0 =
     Some \<lparr>rs_wanted_roots = 1, rs_admitted_roots = 1, rs_sampled_out_roots = 0,
           rs_emitted_events = 2, rs_dropped_events = 1, rs_aborted_roots = 0,
           rs_state_insert_failures = 0\<rparr>"
  by (simp add: demo_traffic_def hit_stats hit_view hit_cell.simps hit_count.simps key_of_def
      Let_def admits_def is_wanted_def should_sample_def initial_state_def ent_head_def
      ent_update_def over_limit_def MAX_SAMPLE_EVENTS_def is_duplicate_def zero_event_def hit_maps
      hit_buffers ex_bool_eq counted_def inc_defs push_count_def demo_state_def)

theorem roots_accounted_witness:
  "let n = \<lparr>rs_wanted_roots = 1, rs_admitted_roots = 1, rs_sampled_out_roots = 0,
           rs_emitted_events = 2, rs_dropped_events = 1, rs_aborted_roots = 0,
           rs_state_insert_failures = 0\<rparr>
   in rs_wanted_roots n = rs_admitted_roots n + rs_sampled_out_roots n + rs_state_insert_failures n"
  using roots_accounted [OF demo_balance demo_traffic_stats] by simp

theorem pushes_accounted_witness:
  "stats_of 0 rs_emitted_events (fold (act_step demo_cfg) demo_traffic demo_state) =
     stats_of 0 rs_emitted_events demo_state
     + of_nat (total (act_step demo_cfg) (on_cpu 0 (events_queued demo_cfg)) demo_traffic demo_state) \<and>
   stats_of 0 rs_dropped_events (fold (act_step demo_cfg) demo_traffic demo_state) =
     stats_of 0 rs_dropped_events demo_state
     + of_nat (total (act_step demo_cfg) (on_cpu 0 (pushes_failed demo_cfg)) demo_traffic demo_state)"
  by (rule pushes_accounted [OF demo_has_stats demo_traffic_ok])

lemma admissions_accounted_witness:
  "stats_of 0 rs_admitted_roots (fold (act_step demo_cfg) demo_traffic demo_state) =
    stats_of 0 rs_admitted_roots demo_state
    + of_nat (total (act_step demo_cfg) (on_cpu 0 (states_created demo_cfg)) demo_traffic demo_state)"
  by (rule admissions_accounted [OF demo_has_stats])

end
