(* ===== verification/Ftrace_Events.thy ===== *)
theory Ftrace_Events
  imports Ftrace_Calls Ftrace_Stats
begin

text \<open>
  What the consumer of the queue receives: the type invariant of the queue and of the maps
  behind it, the properties of argument fetching at the level of whole events and leaves,
  and the refinement of the probe programs as a whole.
\<close>

section \<open>Every event in the queue is well formed\<close>

definition event_wf :: "event \<Rightarrow> bool" where
  "event_wf e \<longleftrightarrow>
     leaves_ok e \<and> ev_padding e = 0 \<and>
     ev_location e \<in> {ENTPOINT, RETPOINT, GOROUTINE_EXIT} \<and>
     ev_trace_flags e \<in> {0, TRACE_START, TRACE_END, TRACE_ABORT} \<and>
     (ev_trace_flags e = TRACE_START \<longrightarrow> ev_location e = ENTPOINT) \<and>
     (ev_trace_flags e = TRACE_END \<longrightarrow> ev_location e = RETPOINT) \<and>
     (ev_location e = GOROUTINE_EXIT \<longrightarrow> ev_trace_flags e = 0 \<and> ev_arg_count e = 0)"

definition maps_typed :: "bpf_state \<Rightarrow> bool" where
  "maps_typed st \<longleftrightarrow> rules_shape st \<and> recipes_shape st"

definition well_typed :: "bpf_state \<Rightarrow> bool" where
  "well_typed st \<longleftrightarrow> maps_typed st \<and> list_all event_wf (event_queue st)"

fun installs_shaped :: "action \<Rightarrow> bool" where
  "installs_shaped (Install_recipe a rec) \<longleftrightarrow> type_recipe_shape rec"
| "installs_shaped a \<longleftrightarrow> True"

lemma fetch_if_configured_leaves:
  "maps_typed c \<Longrightarrow> leaves_ok e \<Longrightarrow> leaves_ok (fetch_if_configured cfg env ctx c e)"
  by (simp add: fetch_if_configured_def maps_typed_def fetch_args_leaves)

lemma leaves_ok_cong:
  "ev_args e' = ev_args e \<Longrightarrow> ev_arg_count e' = ev_arg_count e \<Longrightarrow> leaves_ok e' = leaves_ok e"
  by (simp add: leaves_ok_def event_shape_def)

lemma zero_event_leaves: "leaves_ok zero_event"
  by (simp add: leaves_ok_def) (simp add: zero_event_def)

lemma leaves_ok_fields [simp]:
  "leaves_ok (e\<lparr>ev_goid := a\<rparr>) = leaves_ok e" "leaves_ok (e\<lparr>ev_ip := a\<rparr>) = leaves_ok e"
  "leaves_ok (e\<lparr>ev_bp := a\<rparr>) = leaves_ok e" "leaves_ok (e\<lparr>ev_caller_ip := a\<rparr>) = leaves_ok e"
  "leaves_ok (e\<lparr>ev_caller_bp := a\<rparr>) = leaves_ok e" "leaves_ok (e\<lparr>ev_time_ns := a\<rparr>) = leaves_ok e"
  "leaves_ok (e\<lparr>ev_pid := n\<rparr>) = leaves_ok e" "leaves_ok (e\<lparr>ev_sample_denominator := n\<rparr>) = leaves_ok e"
  "leaves_ok (e\<lparr>ev_location := b\<rparr>) = leaves_ok e" "leaves_ok (e\<lparr>ev_trace_flags := b\<rparr>) = leaves_ok e"
  by (rule leaves_ok_cong; simp)+

lemma hit_event_wf:
  assumes "maps_typed c" "hit_event cfg c h v = Some e"
  shows "event_wf e"
proof -
  have z: "ev_padding zero_event = 0" "ev_trace_flags zero_event = 0" "ev_arg_count zero_event = 0"
    by (simp_all add: zero_event_def)
  have f: "ENTPOINT \<noteq> GOROUTINE_EXIT" "RETPOINT \<noteq> GOROUTINE_EXIT" "TRACE_START \<noteq> TRACE_END"
      "TRACE_ABORT \<noteq> TRACE_END" "TRACE_ABORT \<noteq> TRACE_START" "0 \<noteq> TRACE_START" "0 \<noteq> TRACE_END"
    by (simp_all add: flag_defs location_defs)
  note f = f f [symmetric]
  show ?thesis
    using assms
    by (cases h; cases v)
      (auto simp: hit_event.simps event_wf_def ent_tail_def ent_head_def Let_def z f
        zero_event_leaves intro!: fetch_if_configured_leaves split: if_splits)
qed

lemma maps_typed_act: "installs_shaped a \<Longrightarrow> maps_typed st \<Longrightarrow> maps_typed (act_step cfg a st)"
  by (cases a) (auto simp: maps_typed_def rules_shape_def recipes_shape_def hit_maps Let_def)

lemma well_typed_act:
  assumes "installs_shaped a" "well_typed st"
  shows "well_typed (act_step cfg a st)"
proof -
  have m: "maps_typed (act_step cfg a st)"
    using maps_typed_act [OF assms(1)] assms(2) by (simp add: well_typed_def)
  have fixed: "maps_typed (fixed_part st)"
    using assms(2) by (simp add: well_typed_def maps_typed_def rules_shape_def recipes_shape_def)
  have "list_all event_wf (event_queue (act_step cfg a st))"
  proof (cases a)
    case (Hit h)
    then show ?thesis
      using assms(2) hit_event_wf [OF fixed, of cfg h "should_trace_goid st (key_of cfg h)"]
      by (cases "hit_event cfg (fixed_part st) h (should_trace_goid st (key_of cfg h))")
        (simp_all add: hit_queue well_typed_def)
  next
    case Poll
    then show ?thesis
      using assms(2) by (auto simp: well_typed_def list_all_iff dest: in_set_dropD)
  qed (use assms in \<open>simp_all add: well_typed_def Let_def\<close>)
  with m show ?thesis by (simp add: well_typed_def)
qed

interpretation typed: invariant_machine "act_step cfg" installs_shaped well_typed for cfg
  by unfold_locales (rule well_typed_act)

section \<open>The poller\<close>

text \<open>The events the polls of a run take out of the queue, oldest first.\<close>

fun polled :: "config \<Rightarrow> action list \<Rightarrow> bpf_state \<Rightarrow> event list" where
  "polled cfg [] st = []"
| "polled cfg (a # as) st =
     (if a = Poll then opt_list (fst (poll_event st)) else []) @ polled cfg as (act_step cfg a st)"

lemma queue_act:
  "event_queue st @ enqueued cfg a st =
     (if a = Poll then opt_list (fst (poll_event st)) else []) @ event_queue (act_step cfg a st)"
  by (cases a) (auto simp: hit_queue split: list.split)

lemma polled_stream:
  "polled cfg as st @ event_queue (fold (act_step cfg) as st) = event_queue st @ stream cfg as st"
proof (induction as arbitrary: st)
  case Nil
  then show ?case by simp
next
  case (Cons a as)
  have "event_queue st @ stream cfg (a # as) st =
      (event_queue st @ enqueued cfg a st) @ stream cfg as (act_step cfg a st)"
    by simp
  also have "\<dots> = (if a = Poll then opt_list (fst (poll_event st)) else []) @
      (event_queue (act_step cfg a st) @ stream cfg as (act_step cfg a st))"
    by (simp only: queue_act append_assoc)
  also have "\<dots> = polled cfg (a # as) st @ event_queue (fold (act_step cfg) (a # as) st)"
    by (simp only: Cons.IH [symmetric] polled.simps append_assoc fold_simps comp_apply)
  finally show ?case by (rule sym)
qed

section \<open>Properties\<close>


text \<open>C21: Everything the consumer of the queue ever sees is well formed: with argument rules and
  recipes of the declared shapes in their maps, in every state reachable by any run each
  queued event has eight argument slots of the declared size, an argument count of at most
  eight, a location among the three, a single trace flag or none, TRACE_START only on
  entries, TRACE_END only on returns, and no flag and no arguments on a goroutine exit.\<close>

theorem queue_well_formed:
  assumes "well_typed st" "list_all installs_shaped as"
  shows "well_typed (fold (act_step cfg) as st)"
  by (rule typed.inv_run [OF assms(2,1)])

text \<open>A rule for the function at 100: eight bytes at the address register 0 holds.\<close>

definition demo_rule :: arg_rule where
  "demo_rule =
     \<lparr>ar_type = ARG_RULE_MEMORY, ar_reg = 0, ar_size = 16, ar_length = 2,
      ar_offsets = [8, -4, 0, 0, 0, 0, 0, 0], ar_dereference = [1, 0, 0, 0, 0, 0, 0, 0],
      ar_nil_check = 1, ar_iface_data = 0, ar_type_idx = 0\<rparr>"

definition demo_iface_rule :: arg_rule where
  "demo_iface_rule = demo_rule\<lparr>ar_type := ARG_RULE_REG, ar_length := 0, ar_iface_data := 1\<rparr>"

definition demo_rules :: arg_rules where
  "demo_rules =
     \<lparr>ars_length = 2, ars_rules = [demo_rule, demo_iface_rule] @ replicate 6 demo_rule\<rparr>"

definition demo_rel :: rel_rule where
  "demo_rel =
     \<lparr>rr_size = 16, rr_length = 2, rr_nil_check = 1, rr_pad = 0,
      rr_offsets = [8, -4, 0, 0, 0, 0, 0, 0], rr_dereference = [1, 0, 0, 0, 0, 0, 0, 0]\<rparr>"

definition demo_recipe :: type_recipe where
  "demo_recipe = \<lparr>tr_length = 1, tr_pad = replicate 7 0, tr_rules = replicate 4 demo_rel\<rparr>"

definition fetch_state :: bpf_state where
  "fetch_state =
     demo_state\<lparr>arg_rules_map := [100 \<mapsto> demo_rules], type_recipes_map := [4 \<mapsto> demo_recipe]\<rparr>"

lemma demo_shapes [simp]:
  "arg_rule_shape demo_rule" "arg_rule_shape demo_iface_rule" "rel_rule_shape demo_rel"
  "arg_rules_shape demo_rules" "type_recipe_shape demo_recipe"
  by (simp_all add: arg_rule_shape_def demo_rule_def demo_iface_rule_def rel_rule_shape_def
      demo_rel_def arg_rules_shape_def demo_rules_def type_recipe_shape_def demo_recipe_def list_all_iff)

lemma fetch_state_typed: "well_typed fetch_state"
  by (simp add: well_typed_def maps_typed_def rules_shape_def recipes_shape_def fetch_state_def)

theorem queue_well_formed_witness:
  "well_typed (fold (act_step fetch_cfg) (Install_recipe 7 demo_recipe # demo_run) fetch_state)"
  by (rule queue_well_formed [OF fetch_state_typed]) (simp add: demo_run_def)

text \<open>C14: Argument fetching implements its specification: for a hit at an address with rules,
  the event ends up with exactly the base leaves, one per rule and in rule order, followed by
  the leaves the recipes of the interface values' dynamic types add, in slot order, cut at
  eight; unused slots stay zero, the count is the number of leaves and nothing else of the
  event changes. The helper is assumed to copy the program's own objects, and every
  interface rule to name one of the base slots as its type word.\<close>

theorem fetch_args_refines:
  assumes "reads_objects env" "recipes_shape st" "arg_rules_map st (ev_ip e) = Some rules"
    "arg_rules_shape rules" "type_slots_ok rules" "ev_args e = replicate 8 zero_arg_data"
  shows "fetch_args env ctx st e = filled e (expected_leaves env ctx st rules)"
  by (rule fetch_args_filled [OF assms])

lemma demo_slots: "type_slots_ok demo_rules"
proof -
  have n: "min 8 (unat (ars_length demo_rules)) = 2" by (simp add: demo_rules_def)
  show ?thesis
    unfolding type_slots_ok_def n
    by (simp add: less_2_cases_iff demo_rules_def demo_iface_rule_def demo_rule_def)
qed

theorem fetch_args_refines_witness:
  "fetch_args (demo_env 0) (demo_ctx 100 1008 2000) fetch_state (zero_event\<lparr>ev_ip := 100\<rparr>) =
     filled (zero_event\<lparr>ev_ip := 100\<rparr>)
       (expected_leaves (demo_env 0) (demo_ctx 100 1008 2000) fetch_state demo_rules)"
  by (rule fetch_args_refines)
    (simp_all add: demo_slots fetch_state_def recipes_shape_def zero_event_def)

text \<open>The relative rule with the chain, size and nil check of an argument rule.\<close>

definition as_rel :: "arg_rule \<Rightarrow> rel_rule" where
  "as_rel r =
     \<lparr>rr_size = ar_size r, rr_length = ar_length r, rr_nil_check = ar_nil_check r, rr_pad = 0,
      rr_offsets = ar_offsets r, rr_dereference = ar_dereference r\<rparr>"

text \<open>The two address walks agree: a memory rule delivers the same leaf as the relative rule
  with the same steps, size and nil check started from the register's value, including nil
  bases, failed dereferences, unreadable targets and sizes above the payload.\<close>

lemma memory_rule_is_base_rule:
  assumes "arg_rule_shape r"
  shows "fetch_args_from_memory env ctx zero_arg_data r =
    fetch_from_base env (le64 (read_reg env ctx (ar_reg r) (bytes64 0))) (as_rel r)"
proof -
  have "rel_rule_shape (as_rel r)" "rel_steps (as_rel r) = arg_steps r"
    using assms by (simp_all add: as_rel_def arg_rule_shape_def rel_rule_shape_def rel_steps_def arg_steps_def)
  then show ?thesis
    using fetch_args_from_memory_leaf [OF assms, of env ctx] fetch_from_base_leaf [of "as_rel r" env]
    by (simp add: as_rel_def)
qed

lemma memory_rule_is_base_rule_witness:
  "fetch_args_from_memory (demo_env 0) (demo_ctx 100 1008 2000) zero_arg_data demo_rule =
   fetch_from_base (demo_env 0)
     (le64 (read_reg (demo_env 0) (demo_ctx 100 1008 2000) (ar_reg demo_rule) (bytes64 0))) (as_rel demo_rule)"
  by (rule memory_rule_is_base_rule) simp

lemma address_leaf_cases:
  "ad_is_nil (address_leaf env nc steps sz base) = (if nc \<and> base = 0 then 1 else 0)"
  "ad_read_error (address_leaf env nc steps sz base) =
     (if nc \<and> base = 0 then 0
      else case follow env steps base of
        None \<Rightarrow> 1
      | Some a \<Rightarrow> if sz = 0 \<or> fst (k_read_user env a (min 64 (unat sz))) = 0 then 0 else 1)"
  "ad_padding (address_leaf env nc steps sz base) = replicate 6 0"
  "drop (min 64 (unat sz)) (ad_data (address_leaf env nc steps sz base)) = replicate (64 - min 64 (unat sz)) 0"
proof -
  have z: "sz = 0 \<longleftrightarrow> min 64 (unat sz) = 0" unfolding min_def by (auto simp: unat_eq_zero)
  show "ad_is_nil (address_leaf env nc steps sz base) = (if nc \<and> base = 0 then 1 else 0)"
    by (auto simp: address_leaf_def zero_arg_data_def Let_def split: option.split)
  show "ad_read_error (address_leaf env nc steps sz base) =
     (if nc \<and> base = 0 then 0
      else case follow env steps base of
        None \<Rightarrow> 1
      | Some a \<Rightarrow> if sz = 0 \<or> fst (k_read_user env a (min 64 (unat sz))) = 0 then 0 else 1)"
    unfolding z by (auto simp: address_leaf_def zero_arg_data_def Let_def split: option.split)
  show "ad_padding (address_leaf env nc steps sz base) = replicate 6 0"
    by (auto simp: address_leaf_def zero_arg_data_def Let_def split: option.split)
  show "drop (min 64 (unat sz)) (ad_data (address_leaf env nc steps sz base)) =
      replicate (64 - min 64 (unat sz)) 0"
    by (auto simp: address_leaf_def zero_arg_data_def Let_def split: option.split)
qed

text \<open>What a consumer can rely on for every leaf of a memory rule: it is nil exactly when the
  rule checks for it and the register is null, and then all zero and not unreadable; it is
  unreadable exactly when a dereference of the chain or the final read of a non-empty leaf
  failed; its padding is zero and so is every byte behind the rule's size.\<close>

lemma memory_leaf_cases:
  assumes "arg_rule_shape r" "ar_type r = ARG_RULE_MEMORY"
  shows "let leaf = fetch_leaf env ctx r;
             base = le64 (read_reg env ctx (ar_reg r) (bytes64 0));
             n = min 64 (unat (ar_size r))
    in ad_is_nil leaf = (if ar_nil_check r \<noteq> 0 \<and> base = 0 then 1 else 0) \<and>
       ad_read_error leaf =
         (if ar_nil_check r \<noteq> 0 \<and> base = 0 then 0
          else case follow env (arg_steps r) base of
            None \<Rightarrow> 1
          | Some a \<Rightarrow> if ar_size r = 0 \<or> fst (k_read_user env a n) = 0 then 0 else 1) \<and>
       ad_padding leaf = replicate 6 0 \<and>
       drop n (ad_data leaf) = replicate (64 - n) 0"
proof -
  have "ARG_RULE_MEMORY \<noteq> ARG_RULE_REG" by (simp add: rule_type_defs)
  then have "fetch_leaf env ctx r =
      address_leaf env (ar_nil_check r \<noteq> 0) (arg_steps r) (ar_size r)
        (le64 (read_reg env ctx (ar_reg r) (bytes64 0)))"
    using assms by (simp add: fetch_leaf_def fetch_args_from_memory_leaf)
  then show ?thesis by (simp add: address_leaf_cases Let_def)
qed

lemma demo_rule_fields [simp]:
  "ar_type demo_rule = ARG_RULE_MEMORY" "ar_size demo_rule = 16"
  by (simp_all add: demo_rule_def)

lemma memory_leaf_cases_witness:
  "ad_padding (fetch_leaf (demo_env 0) (demo_ctx 100 1008 2000) demo_rule) = replicate 6 0 \<and>
   drop 16 (ad_data (fetch_leaf (demo_env 0) (demo_ctx 100 1008 2000) demo_rule)) = replicate 48 0"
  using memory_leaf_cases [of demo_rule "demo_env 0" "demo_ctx 100 1008 2000"]
  by (simp add: Let_def)

definition dwarf_regs :: "pt_regs \<Rightarrow> u64 list" where
  "dwarf_regs ctx =
     [ctx_ax ctx, ctx_dx ctx, ctx_cx ctx, ctx_bx ctx, ctx_si ctx, ctx_di ctx, ctx_bp ctx, ctx_sp ctx,
      ctx_r8 ctx, ctx_r9 ctx, ctx_r10 ctx, ctx_r11 ctx, ctx_r12 ctx, ctx_r13 ctx, ctx_r14 ctx, ctx_r15 ctx]"

lemma reg_cases:
  "(reg :: u8) = 0 \<or> reg = 1 \<or> reg = 2 \<or> reg = 3 \<or> reg = 4 \<or> reg = 5 \<or> reg = 6 \<or> reg = 7 \<or> reg = 8 \<or>
   reg = 9 \<or> reg = 10 \<or> reg = 11 \<or> reg = 12 \<or> reg = 13 \<or> reg = 14 \<or> reg = 15 \<or> 16 \<le> unat reg"
  by unat_arith

lemma reg_field_dwarf:
  "reg_field reg = (if unat reg < 16 then Some (\<lambda>ctx. dwarf_regs ctx ! unat reg) else None)"
proof (cases "16 \<le> unat reg")
  case True
  then have "reg \<noteq> k" if "unat k < 16" for k using that by auto
  then show ?thesis using True by (simp add: reg_field_def)
next
  case False
  then show ?thesis using reg_cases [of reg] by (auto simp: reg_field_def dwarf_regs_def)
qed

text \<open>Registers are read by their DWARF number: for each of the sixteen numbers of the x86-64
  ABI the eight bytes of that register, and no change of the destination for any other
  number.\<close>

lemma read_reg_dwarf:
  assumes "reads_objects env"
  shows "read_reg env ctx reg dst =
    (if unat reg < 16 then bytes64 (dwarf_regs ctx ! unat reg) else dst)"
  using assms by (simp add: read_reg_def reg_field_dwarf reads_objects_bytes64)

lemma read_reg_dwarf_witness:
  "read_reg (demo_env 0) (demo_ctx 100 1008 2000) 7 [] =
    (if unat (7 :: u8) < 16 then bytes64 (dwarf_regs (demo_ctx 100 1008 2000) ! unat (7 :: u8)) else [])"
  by (rule read_reg_dwarf) simp

text \<open>C13: Each probe program, on every branch and for every answer of the kernel, does to the maps
  exactly what its entry functions say: only the entry of the goroutine that hit it changes
  in should_trace_goid, the queue grows by the event of the hit if there is one and the push
  succeeded, only the statistics of the executing CPU change, the return code is 0 or the
  truncated code of the push, and no other map changes.\<close>

theorem hit_refines_entry:
  "let c = fixed_part st; v = should_trace_goid st (key_of cfg h); env = hit_env h;
       ev = hit_event cfg c h v
   in should_trace_goid (hit_step cfg h st) = (should_trace_goid st)(key_of cfg h := hit_cell cfg c h v) \<and>
      event_queue (hit_step cfg h st) =
        event_queue st @ (if k_push_rc env = 0 then opt_list ev else []) \<and>
      runtime_stats_map (hit_step cfg h st) =
        (runtime_stats_map st)(k_cpu env :=
           map_option (hit_count cfg c h v) (runtime_stats_map st (k_cpu env))) \<and>
      fst (run_probe cfg h st) = (if ev = None then 0 else ucast (k_push_rc env)) \<and>
      fixed_part (hit_step cfg h st) = c"
  by (simp add: Let_def hit_view hit_queue hit_stats hit_result hit_fixed)

text \<open>The sampling decision admits its share of the random values: of the 2^32 values of the
  random helper, the number that admits a root call is 2^32 divided by the current
  denominator, rounded up, which is never zero, and all of them when the entry is missing,
  zero or one.\<close>

lemma sampling_share:
  "card {r. should_sample (env\<lparr>k_prandom := r\<rparr>) (current_sample_denominator st)} =
     (2 ^ 32 + unat (current_sample_denominator st) - 1) div unat (current_sample_denominator st)"
proof -
  have "{r. should_sample (env\<lparr>k_prandom := r\<rparr>) (current_sample_denominator st)} =
      admitting_values (current_sample_denominator st)"
    by (simp only: should_sample_iff) simp
  then show ?thesis using card_admitting [OF current_sample_denominator_pos, of st] by simp
qed

end
