(* ===== verification/Ftrace_Layout.thy ===== *)
theory Ftrace_Layout
  imports Ftrace_Events
begin

text \<open>
  The memory layout of what \<open>src/internal/bpf/ftrace.c\<close> shares: its structs as C types (the
  layout rules are those of \<open>C_Layout\<close>), its map definitions, the Go mirror of the structs
  in \<open>src/internal/bpf/goftrace_bpfel_x86.go\<close>, and the bytes of goroutine keys and queue
  elements.
\<close>

section \<open>The structs of the program\<close>

abbreviation u8_t :: ctype where "u8_t \<equiv> Scalar 1"
abbreviation u16_t :: ctype where "u16_t \<equiv> Scalar 2"
abbreviation u32_t :: ctype where "u32_t \<equiv> Scalar 4"
abbreviation u64_t :: ctype where "u64_t \<equiv> Scalar 8"

definition c_config :: ctype where
  "c_config = Struct
    [Member ''goid_offset'' u64_t, Member ''g_offset'' u64_t, Member ''pidns_dev'' u64_t,
     Member ''pidns_ino'' u64_t, Member ''fetch_args'' t_bool, Member ''adaptive_sampling'' t_bool,
     Member ''padding'' (Arr 6 u8_t)]"

definition c_arg_data :: ctype where
  "c_arg_data = Struct
    [Member ''data'' (Arr (unat MAX_DATA_SIZE) u8_t), Member ''is_nil'' u8_t,
     Member ''read_error'' u8_t, Member ''padding'' (Arr 6 u8_t)]"

definition c_event :: ctype where
  "c_event = Struct
    [Member ''goid'' u64_t, Member ''ip'' u64_t, Member ''bp'' u64_t, Member ''caller_ip'' u64_t,
     Member ''caller_bp'' u64_t, Member ''time_ns'' u64_t, Member ''pid'' u32_t,
     Member ''sample_denominator'' u32_t, Member ''location'' u8_t, Member ''arg_count'' u8_t,
     Member ''trace_flags'' u8_t, Member ''padding'' u8_t, Member ''args'' (Arr 8 c_arg_data)]"

definition c_arg_rule :: ctype where
  "c_arg_rule = Struct
    [Member ''type'' u8_t, Member ''reg'' u8_t, Member ''size'' u8_t, Member ''length'' u8_t,
     Member ''offsets'' (Arr 8 u16_t), Member ''dereference'' (Arr 8 u8_t),
     Member ''nil_check'' u8_t, Member ''iface_data'' u8_t, Member ''type_idx'' u8_t]"

definition c_rel_rule :: ctype where
  "c_rel_rule = Struct
    [Member ''size'' u8_t, Member ''length'' u8_t, Member ''nil_check'' u8_t, Member ''_pad'' u8_t,
     Member ''offsets'' (Arr 8 u16_t), Member ''dereference'' (Arr 8 u8_t)]"

definition c_type_recipe :: ctype where
  "c_type_recipe = Struct
    [Member ''length'' u8_t, Member ''_pad'' (Arr 7 u8_t), Member ''rules'' (Arr 4 c_rel_rule)]"

definition c_arg_rules :: ctype where
  "c_arg_rules = Struct [Member ''length'' u8_t, Member ''rules'' (Arr 8 c_arg_rule)]"

definition c_goid_key :: ctype where
  "c_goid_key = Struct [Member ''pid'' u32_t, Member ''_pad'' u32_t, Member ''goid'' u64_t]"

definition c_sample_config :: ctype where
  "c_sample_config = Struct [Member ''denominator'' u32_t, Member ''_pad'' u32_t]"

definition c_runtime_stats :: ctype where
  "c_runtime_stats = Struct
    [Member ''wanted_roots'' u64_t, Member ''admitted_roots'' u64_t,
     Member ''sampled_out_roots'' u64_t, Member ''emitted_events'' u64_t,
     Member ''dropped_events'' u64_t, Member ''aborted_roots'' u64_t,
     Member ''state_insert_failures'' u64_t]"

definition c_trace_state :: ctype where
  "c_trace_state = Struct
    [Member ''root_ip'' u64_t, Member ''last_ip'' u64_t, Member ''last_bp'' u64_t,
     Member ''root_depth'' u32_t, Member ''event_count'' u32_t,
     Member ''sample_denominator'' u32_t, Member ''_pad'' u32_t]"

lemma max_data_size [simp]: "unat MAX_DATA_SIZE = 64"
  by (simp add: MAX_DATA_SIZE_def)

lemma layout_arg_data [layout]: "c_size c_arg_data = 72" "c_align c_arg_data = 1"
  by (simp_all add: c_arg_data_def layout_rules)

lemma layout_event [layout]: "c_size c_event = 640" "c_align c_event = 8"
  by (simp_all add: c_event_def layout layout_rules)

lemma layout_arg_rule [layout]: "c_size c_arg_rule = 32" "c_align c_arg_rule = 2"
  by (simp_all add: c_arg_rule_def layout_rules)

lemma layout_rel_rule [layout]: "c_size c_rel_rule = 28" "c_align c_rel_rule = 2"
  by (simp_all add: c_rel_rule_def layout_rules)

lemma layout_type_recipe [layout]: "c_size c_type_recipe = 120" "c_align c_type_recipe = 2"
  by (simp_all add: c_type_recipe_def layout layout_rules)

lemma layout_arg_rules [layout]: "c_size c_arg_rules = 258" "c_align c_arg_rules = 2"
  by (simp_all add: c_arg_rules_def layout layout_rules)

lemma layout_goid_key [layout]: "c_size c_goid_key = 16" "c_align c_goid_key = 8"
  by (simp_all add: c_goid_key_def layout_rules)

lemma layout_trace_state [layout]: "c_size c_trace_state = 40" "c_align c_trace_state = 8"
  by (simp_all add: c_trace_state_def layout_rules)

lemma layout_small [layout]:
  "c_size c_config = 40" "c_align c_config = 8" "c_size c_sample_config = 8"
  "c_align c_sample_config = 4" "c_size c_runtime_stats = 56" "c_align c_runtime_stats = 8"
  by (simp_all add: c_config_def c_sample_config_def c_runtime_stats_def layout_rules)

section \<open>Map definitions\<close>

text \<open>\<open>struct bpf_map_def\<close> of \<open>headers/bpf_helpers.h\<close>; \<open>enum bpf_map_type\<close> of
  \<open>headers/vmlinux.h\<close>, whose constructors are numbered in order.\<close>

datatype bpf_map_type =
    BPF_MAP_TYPE_UNSPEC | BPF_MAP_TYPE_HASH | BPF_MAP_TYPE_ARRAY | BPF_MAP_TYPE_PROG_ARRAY
  | BPF_MAP_TYPE_PERF_EVENT_ARRAY | BPF_MAP_TYPE_PERCPU_HASH | BPF_MAP_TYPE_PERCPU_ARRAY
  | BPF_MAP_TYPE_STACK_TRACE | BPF_MAP_TYPE_CGROUP_ARRAY | BPF_MAP_TYPE_LRU_HASH
  | BPF_MAP_TYPE_LRU_PERCPU_HASH | BPF_MAP_TYPE_LPM_TRIE | BPF_MAP_TYPE_ARRAY_OF_MAPS
  | BPF_MAP_TYPE_HASH_OF_MAPS | BPF_MAP_TYPE_DEVMAP | BPF_MAP_TYPE_SOCKMAP | BPF_MAP_TYPE_CPUMAP
  | BPF_MAP_TYPE_XSKMAP | BPF_MAP_TYPE_SOCKHASH | BPF_MAP_TYPE_CGROUP_STORAGE
  | BPF_MAP_TYPE_REUSEPORT_SOCKARRAY | BPF_MAP_TYPE_PERCPU_CGROUP_STORAGE | BPF_MAP_TYPE_QUEUE
  | BPF_MAP_TYPE_STACK | BPF_MAP_TYPE_SK_STORAGE | BPF_MAP_TYPE_DEVMAP_HASH
  | BPF_MAP_TYPE_STRUCT_OPS | BPF_MAP_TYPE_RINGBUF | BPF_MAP_TYPE_INODE_STORAGE
  | BPF_MAP_TYPE_TASK_STORAGE

record bpf_map_def =
  md_type :: bpf_map_type
  md_key_size :: nat
  md_value_size :: nat
  md_max_entries :: nat
  md_map_flags :: nat

definition map_def :: "bpf_map_type \<Rightarrow> nat \<Rightarrow> nat \<Rightarrow> nat \<Rightarrow> bpf_map_def" where
  "map_def t k v n =
     \<lparr>md_type = t, md_key_size = k, md_value_size = v, md_max_entries = n, md_map_flags = 0\<rparr>"

definition def_arg_rules_map :: bpf_map_def where
  "def_arg_rules_map = map_def BPF_MAP_TYPE_HASH (c_size u64_t) (c_size c_arg_rules) 100"

definition def_type_recipes_map :: bpf_map_def where
  "def_type_recipes_map = map_def BPF_MAP_TYPE_HASH (c_size u64_t) (c_size c_type_recipe) 256"

definition def_event_queue :: bpf_map_def where
  "def_event_queue = map_def BPF_MAP_TYPE_QUEUE 0 (c_size c_event) 10000"

definition def_event_buffer :: bpf_map_def where
  "def_event_buffer = map_def BPF_MAP_TYPE_PERCPU_ARRAY (c_size u32_t) (c_size c_event) 1"

definition def_sample_config_map :: bpf_map_def where
  "def_sample_config_map = map_def BPF_MAP_TYPE_ARRAY (c_size u32_t) (c_size c_sample_config) 1"

definition def_runtime_stats_map :: bpf_map_def where
  "def_runtime_stats_map = map_def BPF_MAP_TYPE_PERCPU_ARRAY (c_size u32_t) (c_size c_runtime_stats) 1"

definition def_should_trace_goid :: bpf_map_def where
  "def_should_trace_goid = map_def BPF_MAP_TYPE_HASH (c_size c_goid_key) (c_size c_trace_state) 10000"

definition def_should_trace_rip :: bpf_map_def where
  "def_should_trace_rip = map_def BPF_MAP_TYPE_HASH (c_size u64_t) (c_size t_bool) 10000"

definition def_should_trace_ret :: bpf_map_def where
  "def_should_trace_ret = map_def BPF_MAP_TYPE_HASH (c_size u64_t) (c_size u64_t) 10000"

definition map_defs :: "bpf_map_def list" where
  "map_defs =
     [def_arg_rules_map, def_type_recipes_map, def_event_queue, def_event_buffer,
      def_sample_config_map, def_runtime_stats_map, def_should_trace_goid, def_should_trace_rip,
      def_should_trace_ret]"

text \<open>Sizes the kernel accepts for each kind of map the program uses.\<close>

fun map_def_ok :: "bpf_map_def \<Rightarrow> bool" where
  "map_def_ok d \<longleftrightarrow>
     0 < md_max_entries d \<and> 0 < md_value_size d \<and>
     (case md_type d of
        BPF_MAP_TYPE_QUEUE \<Rightarrow> md_key_size d = 0
      | BPF_MAP_TYPE_ARRAY \<Rightarrow> md_key_size d = 4
      | BPF_MAP_TYPE_PERCPU_ARRAY \<Rightarrow> md_key_size d = 4
      | BPF_MAP_TYPE_HASH \<Rightarrow> 0 < md_key_size d
      | _ \<Rightarrow> False)"

lemma map_defs_ok: "list_all map_def_ok map_defs"
  by (simp add: map_defs_def map_def_def def_arg_rules_map_def def_type_recipes_map_def
      def_event_queue_def def_event_buffer_def def_sample_config_map_def def_runtime_stats_map_def
      def_should_trace_goid_def def_should_trace_rip_def def_should_trace_ret_def layout)

section \<open>The mirror structs of userspace\<close>

text \<open>
  The Go declarations generated from the program's type information
  (\<open>internal/bpf/goftrace_bpfel_x86.go\<close>) and the struct \<open>BpfConfig\<close> builds. The compiler
  lays out Go structs of these member types by the same rules on amd64.
\<close>

definition go_config :: ctype where
  "go_config = Struct
    [Member ''GoidOffset'' u64_t, Member ''GOffset'' u64_t, Member ''PidnsDev'' u64_t,
     Member ''PidnsIno'' u64_t, Member ''FetchArgs'' u8_t, Member ''AdaptiveSampling'' u8_t,
     Member ''Padding'' (Arr 6 u8_t)]"

definition go_arg_data :: ctype where
  "go_arg_data = Struct
    [Member ''Data'' (Arr 64 u8_t), Member ''IsNil'' u8_t, Member ''ReadError'' u8_t,
     Member ''Padding'' (Arr 6 u8_t)]"

definition go_arg_rule :: ctype where
  "go_arg_rule = Struct
    [Member ''Type'' u8_t, Member ''Reg'' u8_t, Member ''Size'' u8_t, Member ''Length'' u8_t,
     Member ''Offsets'' (Arr 8 u16_t), Member ''Dereference'' (Arr 8 u8_t),
     Member ''NilCheck'' u8_t, Member ''IfaceData'' u8_t, Member ''TypeIdx'' u8_t,
     Member ''_'' (Arr 1 u8_t)]"

definition go_arg_rules :: ctype where
  "go_arg_rules = Struct
    [Member ''Length'' u8_t, Member ''_'' (Arr 1 u8_t), Member ''Rules'' (Arr 8 go_arg_rule)]"

definition go_event :: ctype where
  "go_event = Struct
    [Member ''Goid'' u64_t, Member ''Ip'' u64_t, Member ''Bp'' u64_t, Member ''CallerIp'' u64_t,
     Member ''CallerBp'' u64_t, Member ''TimeNs'' u64_t, Member ''Pid'' u32_t,
     Member ''SampleDenominator'' u32_t, Member ''Location'' u8_t, Member ''ArgCount'' u8_t,
     Member ''TraceFlags'' u8_t, Member ''Padding'' u8_t, Member ''Args'' (Arr 8 go_arg_data),
     Member ''_'' (Arr 4 u8_t)]"

definition go_rel_rule :: ctype where
  "go_rel_rule = Struct
    [Member ''Size'' u8_t, Member ''Length'' u8_t, Member ''NilCheck'' u8_t, Member ''Pad'' u8_t,
     Member ''Offsets'' (Arr 8 u16_t), Member ''Dereference'' (Arr 8 u8_t)]"

definition go_type_recipe :: ctype where
  "go_type_recipe = Struct
    [Member ''Length'' u8_t, Member ''Pad'' (Arr 7 u8_t), Member ''Rules'' (Arr 4 go_rel_rule)]"

definition go_sample_config :: ctype where
  "go_sample_config = Struct [Member ''Denominator'' u32_t, Member ''Pad'' u32_t]"

definition go_runtime_stats :: ctype where
  "go_runtime_stats = Struct
    [Member ''WantedRoots'' u64_t, Member ''AdmittedRoots'' u64_t,
     Member ''SampledOutRoots'' u64_t, Member ''EmittedEvents'' u64_t,
     Member ''DroppedEvents'' u64_t, Member ''AbortedRoots'' u64_t,
     Member ''StateInsertFailures'' u64_t]"

lemma go_layout [layout]:
  "c_size go_arg_data = 72" "c_align go_arg_data = 1"
  "c_size go_arg_rule = 32" "c_align go_arg_rule = 2"
  "c_size go_rel_rule = 28" "c_align go_rel_rule = 2"
  by (simp_all add: go_arg_data_def go_arg_rule_def go_rel_rule_def layout_rules)

text \<open>The offsets of the members that are not blank.\<close>

definition offsets :: "ctype \<Rightarrow> nat list" where
  "offsets t = map snd (filter (\<lambda>(nm, off). nm \<noteq> ''_'') (byte_offsets t))"

definition mirrors :: "ctype \<Rightarrow> ctype \<Rightarrow> bool" where
  "mirrors c go \<longleftrightarrow> c_size go = c_size c \<and> offsets go = offsets c"

lemmas mirror_rules = mirrors_def offsets_def layout layout_rules


section \<open>Values as bytes\<close>

definition bytes_of :: "nat \<Rightarrow> 'a::len word \<Rightarrow> u8 list" where
  "bytes_of n w = map (\<lambda>i. ucast (drop_bit (8 * i) w)) [0..<n]"

definition word_of :: "u8 list \<Rightarrow> 'a::len word" where
  "word_of bs = foldr (\<lambda>b acc. or (ucast b) (push_bit 8 acc)) bs 0"

lemma length_bytes_of [simp]: "length (bytes_of n w) = n"
  by (simp add: bytes_of_def)

lemma bit_word_of:
  "k < LENGTH('a) \<Longrightarrow>
     bit (word_of bs :: 'a::len word) k \<longleftrightarrow> k div 8 < length bs \<and> bit (bs ! (k div 8)) (k mod 8)"
proof (induction bs arbitrary: k)
  case Nil
  then show ?case by (simp add: word_of_def)
next
  case (Cons b bs)
  have step: "(word_of (b # bs) :: 'a word) = or (ucast b) (push_bit 8 (word_of bs))"
    by (simp add: word_of_def)
  show ?case
  proof (cases "k < 8")
    case True
    then show ?thesis using Cons.prems by (simp add: step bit_simps)
  next
    case False
    have k: "k = 8 + (k - 8)" using False by simp
    have "(k - 8) mod 8 = k mod 8" "k div 8 = Suc ((k - 8) div 8)"
      using False by (simp_all add: le_mod_geq le_div_geq)
    moreover have "\<not> bit b k" using False bit_imp_le_length [of b k] by auto
    ultimately show ?thesis
      using Cons.IH [of "k - 8"] Cons.prems False by (simp add: step bit_simps)
  qed
qed

lemma word_of_bytes_of:
  assumes "LENGTH('a) = 8 * n"
  shows "word_of (bytes_of n (w :: 'a::len word)) = w"
proof (rule bit_word_eqI)
  fix k assume k: "k < LENGTH('a)"
  then have d: "k div 8 < n" using assms by (simp add: less_mult_imp_div_less)
  have "bit (word_of (bytes_of n w) :: 'a word) k \<longleftrightarrow> bit (ucast (drop_bit (8 * (k div 8)) w) :: u8) (k mod 8)"
    using d by (simp add: bit_word_of [OF k] bytes_of_def)
  also have "\<dots> \<longleftrightarrow> bit w k"
    by (simp add: bit_simps)
  finally show "bit (word_of (bytes_of n w) :: 'a word) k = bit w k" .
qed

lemma word_of_8 [simp]: "word_of (bytes_of 8 (w :: u64)) = w"
  and word_of_4 [simp]: "word_of (bytes_of 4 (v :: u32)) = v"
  by (simp_all add: word_of_bytes_of)

lemma bytes_of_inj: "LENGTH('a) = 8 * n \<Longrightarrow> bytes_of n (v :: 'a::len word) = bytes_of n w \<longleftrightarrow> v = w"
  by (metis word_of_bytes_of)

text \<open>A struct in memory: its members in order, with the compiler's tail padding given.\<close>

definition goid_key_bytes :: "goid_key \<Rightarrow> u8 list" where
  "goid_key_bytes k = bytes_of 4 (gk_pid k) @ bytes_of 4 (gk_pad k) @ bytes_of 8 (gk_goid k)"

definition arg_data_bytes :: "arg_data \<Rightarrow> u8 list" where
  "arg_data_bytes d = ad_data d @ [ad_is_nil d, ad_read_error d] @ ad_padding d"

definition event_bytes :: "event \<Rightarrow> u8 list \<Rightarrow> u8 list" where
  "event_bytes e tail =
     bytes_of 8 (ev_goid e) @ bytes_of 8 (ev_ip e) @ bytes_of 8 (ev_bp e) @
     bytes_of 8 (ev_caller_ip e) @ bytes_of 8 (ev_caller_bp e) @ bytes_of 8 (ev_time_ns e) @
     bytes_of 4 (ev_pid e) @ bytes_of 4 (ev_sample_denominator e) @
     [ev_location e, ev_arg_count e, ev_trace_flags e, ev_padding e] @
     concat (map arg_data_bytes (ev_args e)) @ tail"

text \<open>Userspace's reading of a queue element, at the offsets of its own declaration.\<close>

definition go_at :: "ctype \<Rightarrow> string \<Rightarrow> u8 list \<Rightarrow> u8 list" where
  "go_at t nm bs = (case c_offsetof t nm of Some n \<Rightarrow> drop n bs | None \<Rightarrow> [])"

definition go_read_arg :: "u8 list \<Rightarrow> arg_data" where
  "go_read_arg bs =
     \<lparr>ad_data = take 64 (go_at go_arg_data ''Data'' bs), ad_is_nil = hd (go_at go_arg_data ''IsNil'' bs),
      ad_read_error = hd (go_at go_arg_data ''ReadError'' bs),
      ad_padding = take 6 (go_at go_arg_data ''Padding'' bs)\<rparr>"

definition go_read_event :: "u8 list \<Rightarrow> event" where
  "go_read_event bs =
     (let at = (\<lambda>nm. go_at go_event nm bs)
      in \<lparr>ev_goid = word_of (take 8 (at ''Goid'')), ev_ip = word_of (take 8 (at ''Ip'')),
          ev_bp = word_of (take 8 (at ''Bp'')), ev_caller_ip = word_of (take 8 (at ''CallerIp'')),
          ev_caller_bp = word_of (take 8 (at ''CallerBp'')), ev_time_ns = word_of (take 8 (at ''TimeNs'')),
          ev_pid = word_of (take 4 (at ''Pid'')),
          ev_sample_denominator = word_of (take 4 (at ''SampleDenominator'')),
          ev_location = hd (at ''Location''), ev_arg_count = hd (at ''ArgCount''),
          ev_trace_flags = hd (at ''TraceFlags''), ev_padding = hd (at ''Padding''),
          ev_args = map (\<lambda>i. go_read_arg (take 72 (drop (72 * i) (at ''Args'')))) [0..<8]\<rparr>)"

lemma length_arg_data_bytes: "arg_data_shape d \<Longrightarrow> length (arg_data_bytes d) = 72"
  by (simp add: arg_data_bytes_def arg_data_shape_def)

lemma go_arg_offsets:
  "c_offsetof go_arg_data ''Data'' = Some 0" "c_offsetof go_arg_data ''IsNil'' = Some 64"
  "c_offsetof go_arg_data ''ReadError'' = Some 65" "c_offsetof go_arg_data ''Padding'' = Some 66"
  by (simp_all add: go_arg_data_def layout_rules)

lemma go_event_offsets:
  "c_offsetof go_event ''Goid'' = Some 0" "c_offsetof go_event ''Ip'' = Some 8"
  "c_offsetof go_event ''Bp'' = Some 16" "c_offsetof go_event ''CallerIp'' = Some 24"
  "c_offsetof go_event ''CallerBp'' = Some 32" "c_offsetof go_event ''TimeNs'' = Some 40"
  "c_offsetof go_event ''Pid'' = Some 48" "c_offsetof go_event ''SampleDenominator'' = Some 52"
  "c_offsetof go_event ''Location'' = Some 56" "c_offsetof go_event ''ArgCount'' = Some 57"
  "c_offsetof go_event ''TraceFlags'' = Some 58" "c_offsetof go_event ''Padding'' = Some 59"
  "c_offsetof go_event ''Args'' = Some 60"
  by (simp_all add: go_event_def layout layout_rules)

lemma go_read_arg_bytes: "arg_data_shape d \<Longrightarrow> go_read_arg (arg_data_bytes d) = d"
  by (cases d) (simp add: go_read_arg_def go_at_def go_arg_offsets arg_data_bytes_def arg_data_shape_def)

lemma concat_slot:
  assumes "\<forall>x \<in> set xs. length (f x) = n" "i < length xs"
  shows "take n (drop (n * i) (concat (map f xs) @ t)) = f (xs ! i)"
  using assms
proof (induction xs arbitrary: i)
  case Nil
  then show ?case by simp
next
  case (Cons x xs)
  then show ?case by (cases i) simp_all
qed

lemma length_concat_slots:
  "\<forall>x \<in> set xs. length (f x) = n \<Longrightarrow> length (concat (map f xs)) = n * length xs"
  by (induction xs) simp_all

lemma read_args:
  assumes "event_shape e"
  shows "map (\<lambda>i. go_read_arg (take 72 (drop (72 * i) (concat (map arg_data_bytes (ev_args e)) @ t)))) [0..<8]
    = ev_args e"
proof (rule nth_equalityI)
  have len: "length (ev_args e) = 8" and sh: "\<forall>d \<in> set (ev_args e). arg_data_shape d"
    using assms by (simp_all add: event_shape_def list_all_iff)
  show "length (map (\<lambda>i. go_read_arg (take 72 (drop (72 * i) (concat (map arg_data_bytes (ev_args e)) @ t)))) [0..<8])
      = length (ev_args e)"
    using len by simp
  fix i assume "i < length (map (\<lambda>i. go_read_arg (take 72 (drop (72 * i) (concat (map arg_data_bytes (ev_args e)) @ t)))) [0..<8])"
  then have i: "i < 8" by simp
  have "take 72 (drop (72 * i) (concat (map arg_data_bytes (ev_args e)) @ t)) = arg_data_bytes (ev_args e ! i)"
    using sh len i by (intro concat_slot) (simp_all add: length_arg_data_bytes)
  then show "map (\<lambda>i. go_read_arg (take 72 (drop (72 * i) (concat (map arg_data_bytes (ev_args e)) @ t)))) [0..<8] ! i
      = ev_args e ! i"
    using i len sh by (simp add: go_read_arg_bytes)
qed

lemma event_bytes_length:
  assumes "event_shape e" "length tail = 4"
  shows "length (event_bytes e tail) = 640"
proof -
  have "\<forall>d \<in> set (ev_args e). length (arg_data_bytes d) = 72" "length (ev_args e) = 8"
    using assms(1) by (auto simp: event_shape_def list_all_iff length_arg_data_bytes)
  then show ?thesis
    using assms(2) length_concat_slots [of "ev_args e" arg_data_bytes 72] by (simp add: event_bytes_def)
qed

lemma event_wire:
  assumes "event_shape e" "length tail = 4"
  shows "length (event_bytes e tail) = md_value_size def_event_queue \<and>
    go_read_event (event_bytes e tail) = e"
proof
  show "length (event_bytes e tail) = md_value_size def_event_queue"
    using event_bytes_length [OF assms] by (simp add: def_event_queue_def map_def_def layout)
  show "go_read_event (event_bytes e tail) = e"
    using read_args [OF assms(1), of tail]
    by (cases e) (simp add: go_read_event_def go_at_def go_event_offsets event_bytes_def)
qed

text \<open>The queue element means the same on both sides: the bytes of any well-shaped event, in
  the C layout with whatever the four bytes of tail padding hold, are the size of the queue's
  elements, and reading them at the offsets of the Go declaration gives back every member,
  all eight argument leaves included.\<close>

lemma event_wire_roundtrip:
  assumes "event_shape e" "length tail = 4"
  shows "length (event_bytes e tail) = md_value_size def_event_queue \<and>
    go_read_event (event_bytes e tail) = e"
  by (rule event_wire [OF assms])

lemma event_wire_roundtrip_witness:
  "length (event_bytes (zero_event\<lparr>ev_goid := 7, ev_pid := 9\<rparr>) [1, 2, 3, 4]) = md_value_size def_event_queue \<and>
   go_read_event (event_bytes (zero_event\<lparr>ev_goid := 7, ev_pid := 9\<rparr>) [1, 2, 3, 4]) =
     zero_event\<lparr>ev_goid := 7, ev_pid := 9\<rparr>"
  by (rule event_wire_roundtrip)
    (simp_all add: event_shape_def zero_event_def zero_arg_data_def arg_data_shape_def list_all_iff)

text \<open>A goroutine's key has no byte the program leaves undefined: the members fill the struct,
  its bytes have the size of the map's keys, two hits use the same map entry, byte for byte,
  exactly when pid and goroutine id agree.\<close>

lemma goid_key_exact:
  "struct_bits 0 [Member ''pid'' u32_t, Member ''_pad'' u32_t, Member ''goid'' u64_t] = 8 * c_size c_goid_key \<and>
   length (goid_key_bytes (hit_key cfg env)) = md_key_size def_should_trace_goid \<and>
   (goid_key_bytes (hit_key cfg env) = goid_key_bytes (hit_key cfg env') \<longleftrightarrow>
    get_pid cfg env = get_pid cfg env' \<and> get_goid cfg env = get_goid cfg env')"
  by (simp add: layout layout_rules goid_key_bytes_def def_should_trace_goid_def map_def_def
      hit_key_def bytes_of_inj)

text \<open>The maps the program declares have the key and value sizes of the types it uses them
  with and the kernel's constraints on each kind of map hold; written out, the definitions
  are type, key size, value size and capacity of the nine maps of the compiled object.\<close>

lemma map_definitions:
  "list_all map_def_ok map_defs \<and>
   map (\<lambda>d. (md_type d, md_key_size d, md_value_size d, md_max_entries d, md_map_flags d)) map_defs =
     [(BPF_MAP_TYPE_HASH, 8, 258, 100, 0), (BPF_MAP_TYPE_HASH, 8, 120, 256, 0),
      (BPF_MAP_TYPE_QUEUE, 0, 640, 10000, 0), (BPF_MAP_TYPE_PERCPU_ARRAY, 4, 640, 1, 0),
      (BPF_MAP_TYPE_ARRAY, 4, 8, 1, 0), (BPF_MAP_TYPE_PERCPU_ARRAY, 4, 56, 1, 0),
      (BPF_MAP_TYPE_HASH, 16, 40, 10000, 0), (BPF_MAP_TYPE_HASH, 8, 1, 10000, 0),
      (BPF_MAP_TYPE_HASH, 8, 8, 10000, 0)]"
  using map_defs_ok
  by (simp add: map_defs_def map_def_def def_arg_rules_map_def def_type_recipes_map_def
      def_event_queue_def def_event_buffer_def def_sample_config_map_def def_runtime_stats_map_def
      def_should_trace_goid_def def_should_trace_rip_def def_should_trace_ret_def layout)

text \<open>The offset at which the program reads the TLS base of the current task, computed from
  the kernel header's declarations of task_struct and thread_struct by the C layout rules, is
  5288, and the eight bytes read there lie inside the task structure.\<close>

lemma fsbase_offset:
  "fsbase_off = 5288 \<and> fsbase_off + 8 \<le> c_size c_task_struct \<and>
   c_offsetof c_task_struct ''thread'' = Some 5248 \<and> c_offsetof c_thread_struct ''fsbase'' = Some 40"
proof -
  have "c_size c_task_struct \<ge> 5296"
    by (simp add: c_task_struct_def task_struct_head_def task_struct_tail_def layout layout_rules)
  then show ?thesis by (simp add: fsbase_off_value offsetof_thread offsetof_fsbase)
qed

end
