(* ===== verification/Ftrace_Concurrency.thy ===== *)
theory Ftrace_Concurrency
  imports Ftrace_Layout
begin

text \<open>
  Hits that overlap in time. Each program is split at its call of \<open>push_event\<close>: before it the
  program works on its goroutine's entry, its CPU's statistics and its CPU's scratch event,
  after it on the shared queue. The interpretation \<open>fine\<close> of \<open>split_machine\<close> shows that the
  halves of programs on different CPUs and goroutines commute, so that the atomic hits of
  \<open>Ftrace_Machine\<close> cover concurrent execution.
\<close>

section \<open>Machines whose steps have two halves\<close>

text \<open>
  A step is a \<open>prepare\<close> and a \<open>commit\<close> half; between them other agents run. If the prepare
  half of one step commutes with both halves of every independent step and with the other
  operations, any interleaving ends where the steps executed at once, in the order of their
  commit halves, end.
\<close>

datatype ('h, 'o) micro = Begin 'h | Finish 'h | Other 'o

fun apply_all :: "('h \<Rightarrow> 's \<Rightarrow> 's) \<Rightarrow> ('o \<Rightarrow> 's \<Rightarrow> 's) \<Rightarrow> ('h + 'o) list \<Rightarrow> 's \<Rightarrow> 's" where
  "apply_all step other [] s = s"
| "apply_all step other (Inl h # xs) s = apply_all step other xs (step h s)"
| "apply_all step other (Inr u # xs) s = apply_all step other xs (other u s)"

fun committed :: "('h, 'o) micro list \<Rightarrow> ('h + 'o) list" where
  "committed [] = []"
| "committed (Begin h # ms) = committed ms"
| "committed (Finish h # ms) = Inl h # committed ms"
| "committed (Other u # ms) = Inr u # committed ms"

fun micro_step :: "('h \<Rightarrow> 's \<Rightarrow> 's) \<Rightarrow> ('h \<Rightarrow> 's \<Rightarrow> 's) \<Rightarrow> ('o \<Rightarrow> 's \<Rightarrow> 's) \<Rightarrow> ('h, 'o) micro \<Rightarrow> 's \<Rightarrow> 's" where
  "micro_step prepare commit other (Begin h) s = prepare h s"
| "micro_step prepare commit other (Finish h) s = commit h s"
| "micro_step prepare commit other (Other u) s = other u s"

text \<open>
  Schedules: a step begins only beside independent ones, and every begun step finishes.
\<close>

fun schedule :: "('h \<Rightarrow> 'h \<Rightarrow> bool) \<Rightarrow> 'h list \<Rightarrow> ('h, 'o) micro list \<Rightarrow> bool" where
  "schedule indep P [] \<longleftrightarrow> P = []"
| "schedule indep P (Begin h # ms) \<longleftrightarrow> list_all (indep h) P \<and> schedule indep (h # P) ms"
| "schedule indep P (Finish h # ms) \<longleftrightarrow> h \<in> set P \<and> schedule indep (remove1 h P) ms"
| "schedule indep P (Other u # ms) \<longleftrightarrow> schedule indep P ms"

fun exclusive :: "('h \<Rightarrow> 'h \<Rightarrow> bool) \<Rightarrow> 'h list \<Rightarrow> bool" where
  "exclusive indep [] \<longleftrightarrow> True"
| "exclusive indep (h # P) \<longleftrightarrow> list_all (indep h) P \<and> exclusive indep P"

locale split_machine =
  fixes prepare :: "'h \<Rightarrow> 's \<Rightarrow> 's"
    and commit :: "'h \<Rightarrow> 's \<Rightarrow> 's"
    and step :: "'h \<Rightarrow> 's \<Rightarrow> 's"
    and other :: "'o \<Rightarrow> 's \<Rightarrow> 's"
    and indep :: "'h \<Rightarrow> 'h \<Rightarrow> bool"
  assumes step_split: "step h s = commit h (prepare h s)"
    and prepare_prepare: "indep g h \<Longrightarrow> prepare g (prepare h s) = prepare h (prepare g s)"
    and prepare_commit: "indep g h \<Longrightarrow> prepare g (commit h s) = commit h (prepare g s)"
    and prepare_other: "prepare g (other u s) = other u (prepare g s)"
    and indep_sym: "indep g h \<Longrightarrow> indep h g"
begin

lemma prepare_fold: "list_all (indep h) P \<Longrightarrow> prepare h (fold prepare P s) = fold prepare P (prepare h s)"
  by (induction P arbitrary: s) (simp_all add: prepare_prepare)

lemma commit_fold: "list_all (indep h) P \<Longrightarrow> commit h (fold prepare P s) = fold prepare P (commit h s)"
  by (induction P arbitrary: s) (simp_all add: prepare_commit indep_sym)

lemma other_fold: "other u (fold prepare P s) = fold prepare P (other u s)"
  by (induction P arbitrary: s) (simp_all add: prepare_other)

lemma exclusive_remove:
  "exclusive indep P \<Longrightarrow> h \<in> set P \<Longrightarrow>
     exclusive indep (remove1 h P) \<and> list_all (indep h) (remove1 h P) \<and>
     fold prepare P s = fold prepare (remove1 h P) (prepare h s)"
proof (induction P arbitrary: s)
  case Nil
  then show ?case by simp
next
  case (Cons g P)
  show ?case
  proof (cases "g = h")
    case True
    then show ?thesis using Cons.prems by simp
  next
    case False
    then have h: "h \<in> set P" "indep g h" using Cons.prems by (auto simp: list_all_iff)
    have "list_all (indep g) (remove1 h P)"
      using Cons.prems(1) by (auto simp: list_all_iff dest: notin_set_remove1 set_remove1_subset [THEN subsetD])
    then show ?thesis
      using False h Cons.IH [of "prepare g s"] Cons.prems(1)
      by (simp add: indep_sym prepare_prepare [OF indep_sym [OF h(2)]])
  qed
qed

lemma schedule_from:
  "schedule indep P ms \<Longrightarrow> exclusive indep P \<Longrightarrow>
     fold (micro_step prepare commit other) ms (fold prepare P s) = apply_all step other (committed ms) s"
proof (induction ms arbitrary: P s)
  case Nil
  then show ?case by simp
next
  case (Cons m ms)
  show ?case
  proof (cases m)
    case (Begin h)
    then show ?thesis
      using Cons.IH [of "h # P" s] Cons.prems prepare_fold [of h P s] by simp
  next
    case (Finish h)
    note r = exclusive_remove [OF Cons.prems(2), of h s]
    have "commit h (fold prepare P s) = fold prepare (remove1 h P) (step h s)"
      using r Cons.prems(1) Finish commit_fold [of h "remove1 h P" "prepare h s"]
      by (simp add: step_split)
    then show ?thesis
      using Cons.IH [of "remove1 h P" "step h s"] Cons.prems(1) r Finish by simp
  next
    case (Other u)
    then show ?thesis using Cons.IH [of P "other u s"] Cons.prems other_fold [of u P s] by simp
  qed
qed

lemma schedule_atomic:
  "schedule indep [] ms \<Longrightarrow>
     fold (micro_step prepare commit other) ms s = apply_all step other (committed ms) s"
  using schedule_from [of "[]" ms s] by simp

end

section \<open>The two halves of a hit\<close>

text \<open>
  A program up to the call of \<open>push_event\<close>: the result tells whether it gets there (else it
  has returned 0) and whether it deletes the trace state afterwards, the two facts its local
  variables carry across; the event is in the CPU's scratch entry.
\<close>

definition put_event :: "kenv \<Rightarrow> event \<Rightarrow> bpf_state \<Rightarrow> bpf_state" where
  "put_event env e st = st\<lparr>event_buffer := (event_buffer st)(k_cpu env \<mapsto> e)\<rparr>"

definition ent_fill :: "config \<Rightarrow> kenv \<Rightarrow> pt_regs \<Rightarrow> event \<Rightarrow> bpf_state \<Rightarrow> event" where
  "ent_fill cfg env ctx e st =
     fetch_if_configured cfg env ctx st
       (e\<lparr>ev_location := ENTPOINT, ev_time_ns := k_ktime env,
          ev_caller_ip := le64 (left_bytes 8 (k_read_user env (ctx_sp ctx) 8))\<rparr>)"

definition ent_prepare :: "config \<Rightarrow> kenv \<Rightarrow> pt_regs \<Rightarrow> bpf_state \<Rightarrow> bool option \<times> bpf_state" where
  "ent_prepare cfg env ctx st =
     (let e = zero_event\<lparr>ev_goid := get_goid cfg env, ev_pid := get_pid cfg env, ev_ip := ctx_ip ctx,
                ev_bp := ctx_sp ctx - 8, ev_caller_bp := ctx_bp ctx\<rparr>;
          gkey = hit_key cfg env
      in case should_trace_goid st gkey of
           None \<Rightarrow>
             (case ent_root cfg env gkey e st of
                (go, e, st) \<Rightarrow>
                  if go then (Some False, put_event env (ent_fill cfg env ctx e st) st)
                  else (None, put_event env e st))
         | Some s \<Rightarrow>
             (case ent_nested cfg env gkey s e st of
                (trace_abort, e, st) \<Rightarrow>
                  (Some trace_abort, put_event env (ent_fill cfg env ctx e st) st)))"

definition ret_prepare :: "config \<Rightarrow> kenv \<Rightarrow> pt_regs \<Rightarrow> bpf_state \<Rightarrow> bool option \<times> bpf_state" where
  "ret_prepare cfg env ctx st =
     (let e = zero_event\<lparr>ev_goid := get_goid cfg env, ev_pid := get_pid cfg env\<rparr>;
          gkey = hit_key cfg env
      in case should_trace_goid st gkey of
           None \<Rightarrow> (None, put_event env e st)
         | Some s \<Rightarrow>
             (let s' = ret_update s;
                  st = put_state gkey s' st;
                  e = e\<lparr>ev_sample_denominator := ts_sample_denominator s, ev_location := RETPOINT,
                        ev_ip := ctx_ip ctx, ev_time_ns := k_ktime env\<rparr>;
                  trace_abort = over_limit cfg s';
                  e = (if trace_abort then e\<lparr>ev_trace_flags := TRACE_ABORT\<rparr> else e);
                  st = (if trace_abort then bump env inc_aborted st else st);
                  e = fetch_if_configured cfg env ctx st e;
                  at_root = (\<not> trace_abort \<and> cfg_adaptive_sampling cfg \<and> returns_from_root st (ev_ip e) s');
                  trace_end = (at_root \<and> ts_root_depth s' \<le> 1);
                  st = (if at_root \<and> ts_root_depth s' > 1
                        then put_state gkey (s'\<lparr>ts_root_depth := ts_root_depth s' - 1\<rparr>) st else st);
                  e = (if trace_end then e\<lparr>ev_trace_flags := TRACE_END\<rparr> else e)
              in (Some (trace_end \<or> trace_abort), put_event env e st)))"

definition exit_prepare :: "config \<Rightarrow> kenv \<Rightarrow> bpf_state \<Rightarrow> bool option \<times> bpf_state" where
  "exit_prepare cfg env st =
     (let e = zero_event\<lparr>ev_goid := get_goid cfg env, ev_pid := get_pid cfg env, ev_location := GOROUTINE_EXIT\<rparr>;
          gkey = hit_key cfg env
      in case should_trace_goid st gkey of
           None \<Rightarrow> (None, put_event env e st)
         | Some s \<Rightarrow> (Some False, put_event env e (delete_state env gkey st)))"

fun hit_prepare :: "config \<Rightarrow> hit \<Rightarrow> bpf_state \<Rightarrow> bool option \<times> bpf_state" where
  "hit_prepare cfg h st =
     (if event_buffer st (k_cpu (hit_env h)) = None then (None, st)
      else case h of
        Ent env ctx \<Rightarrow> ent_prepare cfg env ctx st
      | Ret env ctx \<Rightarrow> ret_prepare cfg env ctx st
      | Exit env ctx \<Rightarrow> exit_prepare cfg env st)"

text \<open>The rest: push the scratch event and delete the state if the sample is over.\<close>

definition hit_commit :: "config \<Rightarrow> hit \<Rightarrow> bool option \<Rightarrow> bpf_state \<Rightarrow> bpf_state" where
  "hit_commit cfg h pending st =
     (case (pending, event_buffer st (k_cpu (hit_env h))) of
        (Some over, Some e) \<Rightarrow>
          (let st = snd (push_event (hit_env h) e st)
           in if over then delete_state (hit_env h) (key_of cfg h) st else st)
      | _ \<Rightarrow> st)"

lemma put_event_fields [simp]:
  "arg_rules_map (put_event env e st) = arg_rules_map st"
  "type_recipes_map (put_event env e st) = type_recipes_map st"
  "event_queue (put_event env e st) = event_queue st"
  "event_buffer (put_event env e st) = (event_buffer st)(k_cpu env \<mapsto> e)"
  "sample_config_map (put_event env e st) = sample_config_map st"
  "runtime_stats_map (put_event env e st) = runtime_stats_map st"
  "should_trace_goid (put_event env e st) = should_trace_goid st"
  "should_trace_rip (put_event env e st) = should_trace_rip st"
  "should_trace_ret (put_event env e st) = should_trace_ret st"
  by (simp_all add: put_event_def)

lemma put_event_commute:
  "delete_state env' k (put_event env e st) = put_event env e (delete_state env' k st)"
  "snd (push_event env' e' (put_event env e st)) = put_event env e (snd (push_event env' e' st))"
  by (simp_all add: delete_state_def put_event_def push_event_def bump_def get_runtime_stats_def Let_def
      split: option.split)

lemma with_event_put:
  "event_buffer st (k_cpu env) \<noteq> None \<Longrightarrow>
     snd (with_event env st body) =
       put_event env (fst (snd (body zero_event))) (snd (snd (body zero_event)))"
  by (auto simp: with_event_def put_event_def case_prod_beta split: option.split)

lemma hit_split: "hit_step cfg h st = hit_commit cfg h (fst (hit_prepare cfg h st)) (snd (hit_prepare cfg h st))"
proof (cases "event_buffer st (k_cpu (hit_env h)) = None")
  case True
  then show ?thesis
    by (cases h) (simp_all add: hit_step_def ent_def ret_def goroutine_exit_def with_event_none
        hit_commit_def)
next
  case False
  then obtain b where b: "event_buffer st (k_cpu (hit_env h)) = Some b" by blast
  show ?thesis
  proof (cases h)
    case (Ent env ctx)
    show ?thesis
    proof (cases "should_trace_goid st (hit_key cfg env)")
      case None
      then show ?thesis
        using b Ent
        by (simp add: hit_step_def ent_def with_event_put Let_def ent_prepare_def hit_commit_def
            case_prod_beta ent_finish_def ent_fill_def put_event_commute)
    next
      case (Some s)
      then show ?thesis
        using b Ent
        by (simp add: hit_step_def ent_def with_event_put Let_def ent_prepare_def hit_commit_def
            case_prod_beta ent_finish_def ent_fill_def put_event_commute key_of_def)
    qed
  next
    case (Ret env ctx)
    show ?thesis
    proof (cases "should_trace_goid st (hit_key cfg env)")
      case None
      then show ?thesis
        using b Ret by (simp add: hit_step_def ret_def with_event_put Let_def ret_prepare_def hit_commit_def)
    next
      case (Some s)
      then show ?thesis
        using b Ret
        by (simp add: hit_step_def ret_def with_event_put Let_def ret_prepare_def hit_commit_def
            case_prod_beta ret_finish_def put_event_commute key_of_def)
    qed
  next
    case (Exit env ctx)
    then show ?thesis
      using b by (cases "should_trace_goid st (hit_key cfg env)")
        (simp_all add: hit_step_def goroutine_exit_def with_event_put Let_def exit_prepare_def
          hit_commit_def case_prod_beta put_event_commute)
  qed
qed

section \<open>What the halves read and write\<close>

fun hit_pending :: "config \<Rightarrow> bpf_state \<Rightarrow> hit \<Rightarrow> trace_state option \<Rightarrow> bool option" where
  "hit_pending cfg c (Ent env ctx) None = (if admits env c (ctx_ip ctx) then Some False else None)"
| "hit_pending cfg c (Ent env ctx) (Some s) = Some (over_limit cfg (counted s))"
| "hit_pending cfg c (Ret env ctx) None = None"
| "hit_pending cfg c (Ret env ctx) (Some s) =
     Some (ends_sample cfg c (ctx_ip ctx) (ret_update s) \<or> over_limit cfg (ret_update s))"
| "hit_pending cfg c (Exit env ctx) None = None"
| "hit_pending cfg c (Exit env ctx) (Some s) = Some False"

fun prep_cell :: "config \<Rightarrow> bpf_state \<Rightarrow> hit \<Rightarrow> trace_state option \<Rightarrow> trace_state option" where
  "prep_cell cfg c (Ent env ctx) None = ent_cell cfg c env ctx None"
| "prep_cell cfg c (Ent env ctx) (Some s) =
     Some (ent_update cfg (is_wanted c (ctx_ip ctx)) (ent_head cfg env ctx) s)"
| "prep_cell cfg c (Ret env ctx) None = None"
| "prep_cell cfg c (Ret env ctx) (Some s) =
     (let s' = ret_update s
      in Some (if \<not> over_limit cfg s' \<and> cfg_adaptive_sampling cfg \<and>
                  returns_from_root c (ctx_ip ctx) s' \<and> ts_root_depth s' > 1
               then s'\<lparr>ts_root_depth := ts_root_depth s' - 1\<rparr> else s'))"
| "prep_cell cfg c (Exit env ctx) v = exit_cell env v"

fun idle_event :: "config \<Rightarrow> hit \<Rightarrow> event" where
  "idle_event cfg (Ent env ctx) = ent_head cfg env ctx"
| "idle_event cfg (Ret env ctx) = zero_event\<lparr>ev_goid := get_goid cfg env, ev_pid := get_pid cfg env\<rparr>"
| "idle_event cfg (Exit env ctx) =
     zero_event\<lparr>ev_goid := get_goid cfg env, ev_pid := get_pid cfg env, ev_location := GOROUTINE_EXIT\<rparr>"

definition prep_event :: "config \<Rightarrow> bpf_state \<Rightarrow> hit \<Rightarrow> trace_state option \<Rightarrow> event" where
  "prep_event cfg c h v =
     (case (case h of Ent env ctx \<Rightarrow> ent_event cfg c env ctx v
                    | Ret env ctx \<Rightarrow> ret_event cfg c env ctx v
                    | Exit env ctx \<Rightarrow> exit_event cfg env v) of
        Some e \<Rightarrow> e | None \<Rightarrow> idle_event cfg h)"

fun prep_count :: "config \<Rightarrow> bpf_state \<Rightarrow> hit \<Rightarrow> trace_state option \<Rightarrow> runtime_stats \<Rightarrow> runtime_stats" where
  "prep_count cfg c (Ent env ctx) None n =
     (if \<not> is_wanted c (ctx_ip ctx) then n
      else if \<not> should_sample env (current_sample_denominator c) then inc_sampled_out (inc_wanted n)
      else if k_update_rc env \<noteq> 0 then inc_insert_failures (inc_wanted n)
      else inc_admitted (inc_wanted n))"
| "prep_count cfg c (Ent env ctx) (Some s) n = (if over_limit cfg (counted s) then inc_aborted n else n)"
| "prep_count cfg c (Ret env ctx) None n = n"
| "prep_count cfg c (Ret env ctx) (Some s) n = (if over_limit cfg (counted s) then inc_aborted n else n)"
| "prep_count cfg c (Exit env ctx) v n = n"

definition prepared :: "config \<Rightarrow> hit \<Rightarrow> bpf_state \<Rightarrow> bool option \<times> bpf_state \<Rightarrow> bool" where
  "prepared cfg h st r \<longleftrightarrow>
     (let c = fixed_part st; k = key_of cfg h; cpu = k_cpu (hit_env h); v = should_trace_goid st k;
          st' = snd r
      in fst r = hit_pending cfg c h v \<and>
         arg_rules_map st' = arg_rules_map st \<and> type_recipes_map st' = type_recipes_map st \<and>
         sample_config_map st' = sample_config_map st \<and> should_trace_rip st' = should_trace_rip st \<and>
         should_trace_ret st' = should_trace_ret st \<and> event_queue st' = event_queue st \<and>
         event_buffer st' = (event_buffer st)(cpu \<mapsto> prep_event cfg c h v) \<and>
         should_trace_goid st' = (should_trace_goid st)(k := prep_cell cfg c h v) \<and>
         runtime_stats_map st' = (runtime_stats_map st)(cpu :=
           map_option (prep_count cfg c h v) (runtime_stats_map st cpu)))"

lemma ent_prepared: "prepared cfg (Ent env ctx) st (ent_prepare cfg env ctx st)"
proof (cases "should_trace_goid st (hit_key cfg env)")
  case None
  show ?thesis
  proof (cases "should_trace_rip st (ctx_ip ctx)")
    case (Some w)
    note rip = Some
    show ?thesis
    proof (cases "runtime_stats_map st (k_cpu env)")
      case None
      then show ?thesis
        using rip \<open>should_trace_goid st (hit_key cfg env) = None\<close>
        by (cases "should_sample env (current_sample_denominator st)"; cases "k_update_rc env = 0")
          (simp_all add: prepared_def ent_prepare_def key_of_def ent_root_def Let_def is_wanted_def
            admits_def bump_stats prep_event_def ent_head_def ent_tail_def ent_fill_def
            fetch_if_configured_fixed fun_upd_idem)
    next
      case (Some n)
      then show ?thesis
        using rip \<open>should_trace_goid st (hit_key cfg env) = None\<close>
        by (cases "should_sample env (current_sample_denominator st)"; cases "k_update_rc env = 0")
          (simp_all add: prepared_def ent_prepare_def key_of_def ent_root_def Let_def is_wanted_def
            admits_def bump_stats prep_event_def ent_head_def ent_tail_def ent_fill_def
            fetch_if_configured_fixed fun_upd_idem)
    qed
  next
    case None
    then show ?thesis
      using \<open>should_trace_goid st (hit_key cfg env) = None\<close>
      by (cases "runtime_stats_map st (k_cpu env)")
        (simp_all add: prepared_def ent_prepare_def key_of_def ent_root_def Let_def is_wanted_def
          admits_def prep_event_def ent_head_def fun_upd_idem)
  qed
next
  case (Some s)
  then show ?thesis
    by (cases "runtime_stats_map st (k_cpu env)"; cases "over_limit cfg (counted s)")
      (simp_all add: prepared_def ent_prepare_def key_of_def ent_nested_def counted_def [symmetric]
        Let_def is_wanted_def bump_stats prep_event_def ent_head_def ent_tail_def ent_fill_def
        fetch_if_configured_fixed fun_upd_idem)
qed

lemma ret_prepared: "prepared cfg (Ret env ctx) st (ret_prepare cfg env ctx st)"
proof (cases "should_trace_goid st (hit_key cfg env)")
  case None
  then show ?thesis
    by (cases "runtime_stats_map st (k_cpu env)")
      (simp_all add: prepared_def ret_prepare_def key_of_def Let_def prep_event_def fun_upd_idem)
next
  case (Some s)
  have le: "ts_root_depth s \<le> 1 \<longleftrightarrow> \<not> 1 < ts_root_depth s" by (rule not_less [symmetric])
  show ?thesis
    using Some
    by (cases "runtime_stats_map st (k_cpu env)"; cases "over_limit cfg (counted s)";
        cases "cfg_adaptive_sampling cfg"; cases "returns_from_root st (ctx_ip ctx) s";
        cases "1 < ts_root_depth s")
      (simp_all add: prepared_def ret_prepare_def key_of_def Let_def prep_event_def ends_sample_def le
        bump_stats fetch_if_configured_fixed fun_upd_idem)
qed

lemma exit_prepared: "prepared cfg (Exit env ctx) st (exit_prepare cfg env st)"
  by (cases "runtime_stats_map st (k_cpu env)"; cases "should_trace_goid st (hit_key cfg env)")
    (simp_all add: prepared_def exit_prepare_def key_of_def Let_def prep_event_def fun_upd_idem)

lemma hit_prepared:
  "event_buffer st (k_cpu (hit_env h)) \<noteq> None \<Longrightarrow> prepared cfg h st (hit_prepare cfg h st)"
  by (cases h) (auto simp: ent_prepared ret_prepared exit_prepared)

section \<open>Concurrent execution\<close>

text \<open>The maps together with the local variables of the program each CPU is running.\<close>

type_synonym fine_state = "bpf_state \<times> (nat \<Rightarrow> bool option)"

fun fine_prepare :: "config \<Rightarrow> hit \<Rightarrow> fine_state \<Rightarrow> fine_state" where
  "fine_prepare cfg h (st, local) =
     (snd (hit_prepare cfg h st), local(k_cpu (hit_env h) := fst (hit_prepare cfg h st)))"

fun fine_commit :: "config \<Rightarrow> hit \<Rightarrow> fine_state \<Rightarrow> fine_state" where
  "fine_commit cfg h (st, local) =
     (hit_commit cfg h (local (k_cpu (hit_env h))) st, local(k_cpu (hit_env h) := None))"

fun fine_step :: "config \<Rightarrow> hit \<Rightarrow> fine_state \<Rightarrow> fine_state" where
  "fine_step cfg h (st, local) = (hit_step cfg h st, local(k_cpu (hit_env h) := None))"

fun fine_poll :: "unit \<Rightarrow> fine_state \<Rightarrow> fine_state" where
  "fine_poll u (st, local) = (snd (poll_event st), local)"

definition independent :: "config \<Rightarrow> hit \<Rightarrow> hit \<Rightarrow> bool" where
  "independent cfg g h \<longleftrightarrow>
     k_cpu (hit_env g) \<noteq> k_cpu (hit_env h) \<and> key_of cfg g \<noteq> key_of cfg h"

declare hit_prepare.simps [simp del]

lemma prepare_idle: "event_buffer st (k_cpu (hit_env h)) = None \<Longrightarrow> hit_prepare cfg h st = (None, st)"
  by (simp add: hit_prepare.simps)

lemma prepared_fixed: "prepared cfg h st r \<Longrightarrow> event_buffer st (k_cpu (hit_env h)) \<noteq> None \<Longrightarrow>
    fixed_part (snd r) = fixed_part st"
  by (intro fixed_part_eqI) (auto simp: prepared_def Let_def)

lemma state_eqI:
  fixes st st' :: bpf_state
  assumes "arg_rules_map st = arg_rules_map st'" "type_recipes_map st = type_recipes_map st'"
    "event_queue st = event_queue st'" "event_buffer st = event_buffer st'"
    "sample_config_map st = sample_config_map st'" "runtime_stats_map st = runtime_stats_map st'"
    "should_trace_goid st = should_trace_goid st'" "should_trace_rip st = should_trace_rip st'"
    "should_trace_ret st = should_trace_ret st'"
  shows "st = st'"
  using assms by (cases st; cases st') simp

lemma prepare_twice:
  assumes "independent cfg g h"
  shows "fst (hit_prepare cfg g (snd (hit_prepare cfg h st))) = fst (hit_prepare cfg g st)"
    and "snd (hit_prepare cfg g (snd (hit_prepare cfg h st))) =
         snd (hit_prepare cfg h (snd (hit_prepare cfg g st)))"
proof -
  let ?G = "hit_prepare cfg g st" and ?H = "hit_prepare cfg h st"
  have ne: "k_cpu (hit_env g) \<noteq> k_cpu (hit_env h)" "key_of cfg g \<noteq> key_of cfg h"
    using assms by (simp_all add: independent_def)
  have both: "fst (hit_prepare cfg g (snd ?H)) = fst ?G \<and>
      snd (hit_prepare cfg g (snd ?H)) = snd (hit_prepare cfg h (snd ?G))"
  proof (cases "event_buffer st (k_cpu (hit_env g)) = None")
    case g: True
    have "event_buffer (snd ?H) (k_cpu (hit_env g)) = None"
      using hit_prepared [of st h cfg] ne g
      by (cases "event_buffer st (k_cpu (hit_env h)) = None") (simp_all add: prepare_idle prepared_def Let_def)
    then show ?thesis using g by (simp add: prepare_idle)
  next
    case g: False
    show ?thesis
    proof (cases "event_buffer st (k_cpu (hit_env h)) = None")
      case h: True
      have "event_buffer (snd ?G) (k_cpu (hit_env h)) = None"
        using hit_prepared [OF g, of cfg] ne h by (simp add: prepared_def Let_def)
      then show ?thesis using h by (simp add: prepare_idle)
    next
      case h: False
      note G = hit_prepared [OF g, of cfg] and H = hit_prepared [OF h, of cfg]
      have bg: "event_buffer (snd ?H) (k_cpu (hit_env g)) \<noteq> None"
        and bh: "event_buffer (snd ?G) (k_cpu (hit_env h)) \<noteq> None"
        using G H g h ne by (simp_all add: prepared_def Let_def)
      note GH = hit_prepared [OF bg, of cfg] and HG = hit_prepared [OF bh, of cfg]
      have fx: "fixed_part (snd ?G) = fixed_part st" "fixed_part (snd ?H) = fixed_part st"
        using prepared_fixed [OF G g] prepared_fixed [OF H h] by simp_all
      have "fst (hit_prepare cfg g (snd ?H)) = fst ?G"
        using G H GH fx ne by (simp add: prepared_def Let_def)
      moreover have "snd (hit_prepare cfg g (snd ?H)) = snd (hit_prepare cfg h (snd ?G))"
        using G H GH HG fx ne
        by (intro state_eqI) (simp_all add: prepared_def Let_def fun_upd_twist)
      ultimately show ?thesis by blast
    qed
  qed
  then show "fst (hit_prepare cfg g (snd ?H)) = fst ?G"
    and "snd (hit_prepare cfg g (snd ?H)) = snd (hit_prepare cfg h (snd ?G))" by blast+
qed

lemma commit_fields:
  "arg_rules_map (hit_commit cfg h p st) = arg_rules_map st"
  "type_recipes_map (hit_commit cfg h p st) = type_recipes_map st"
  "event_buffer (hit_commit cfg h p st) = event_buffer st"
  "sample_config_map (hit_commit cfg h p st) = sample_config_map st"
  "should_trace_rip (hit_commit cfg h p st) = should_trace_rip st"
  "should_trace_ret (hit_commit cfg h p st) = should_trace_ret st"
  "should_trace_goid (hit_commit cfg h p st) =
     (if p = Some True \<and> event_buffer st (k_cpu (hit_env h)) \<noteq> None \<and> k_delete_rc (hit_env h) = 0
      then (should_trace_goid st)(key_of cfg h := None) else should_trace_goid st)"
  "event_queue (hit_commit cfg h p st) =
     event_queue st @ (if p \<noteq> None \<and> k_push_rc (hit_env h) = 0
       then opt_list (event_buffer st (k_cpu (hit_env h))) else [])"
  "runtime_stats_map (hit_commit cfg h p st) =
     (if p \<noteq> None \<and> event_buffer st (k_cpu (hit_env h)) \<noteq> None
      then (runtime_stats_map st)(k_cpu (hit_env h) :=
             map_option (push_count (hit_env h)) (runtime_stats_map st (k_cpu (hit_env h))))
      else runtime_stats_map st)"
  by (cases p; cases "event_buffer st (k_cpu (hit_env h))";
      simp add: hit_commit_def Let_def push_event_queue push_event_counts)+

lemma commit_fixed: "fixed_part (hit_commit cfg h p st) = fixed_part st"
  by (intro fixed_part_eqI) (simp_all add: commit_fields)

lemma prepare_past_commit:
  assumes "independent cfg g h"
  shows "fst (hit_prepare cfg g (hit_commit cfg h p st)) = fst (hit_prepare cfg g st)"
    and "snd (hit_prepare cfg g (hit_commit cfg h p st)) = hit_commit cfg h p (snd (hit_prepare cfg g st))"
proof -
  let ?C = "hit_commit cfg h p st" and ?G = "hit_prepare cfg g st"
  have ne: "k_cpu (hit_env g) \<noteq> k_cpu (hit_env h)" "key_of cfg g \<noteq> key_of cfg h"
    using assms by (simp_all add: independent_def)
  have both: "fst (hit_prepare cfg g ?C) = fst ?G \<and> snd (hit_prepare cfg g ?C) = hit_commit cfg h p (snd ?G)"
  proof (cases "event_buffer st (k_cpu (hit_env g)) = None")
    case True
    then show ?thesis by (simp add: prepare_idle commit_fields)
  next
    case g: False
    then have bg: "event_buffer ?C (k_cpu (hit_env g)) \<noteq> None" by (simp add: commit_fields)
    note G = hit_prepared [OF g, of cfg] and GC = hit_prepared [OF bg, of cfg]
    have "fst (hit_prepare cfg g ?C) = fst ?G"
      using G GC ne by (simp add: prepared_def Let_def commit_fixed commit_fields)
    moreover have "snd (hit_prepare cfg g ?C) = hit_commit cfg h p (snd ?G)"
      using G GC ne
      by (cases "event_buffer st (k_cpu (hit_env h))"; cases p; intro state_eqI)
        (simp_all add: prepared_def Let_def commit_fixed commit_fields fun_upd_twist)
    ultimately show ?thesis by blast
  qed
  then show "fst (hit_prepare cfg g ?C) = fst ?G"
    and "snd (hit_prepare cfg g ?C) = hit_commit cfg h p (snd ?G)" by blast+
qed

lemma prepare_past_poll:
  "fst (hit_prepare cfg g (st\<lparr>event_queue := q\<rparr>)) = fst (hit_prepare cfg g st)"
  "snd (hit_prepare cfg g (st\<lparr>event_queue := drop n (event_queue st)\<rparr>)) =
     (snd (hit_prepare cfg g st))\<lparr>event_queue := drop n (event_queue (snd (hit_prepare cfg g st)))\<rparr>"
proof -
  have f: "fixed_part (st\<lparr>event_queue := q'\<rparr>) = fixed_part st" for q' by (simp add: fixed_part_def)
  show "fst (hit_prepare cfg g (st\<lparr>event_queue := q\<rparr>)) = fst (hit_prepare cfg g st)"
    using hit_prepared [of "st\<lparr>event_queue := q\<rparr>" g cfg] hit_prepared [of st g cfg] f
    by (cases "event_buffer st (k_cpu (hit_env g)) = None") (simp_all add: prepare_idle prepared_def Let_def)
  show "snd (hit_prepare cfg g (st\<lparr>event_queue := drop n (event_queue st)\<rparr>)) =
     (snd (hit_prepare cfg g st))\<lparr>event_queue := drop n (event_queue (snd (hit_prepare cfg g st)))\<rparr>"
    using hit_prepared [of "st\<lparr>event_queue := drop n (event_queue st)\<rparr>" g cfg] hit_prepared [of st g cfg] f
    by (cases "event_buffer st (k_cpu (hit_env g)) = None")
      (simp_all add: prepare_idle, auto intro!: state_eqI simp: prepared_def Let_def)
qed

interpretation fine: split_machine "fine_prepare cfg" "fine_commit cfg" "fine_step cfg" fine_poll
  "independent cfg" for cfg
proof unfold_locales
  fix g h :: hit and u :: unit and s :: fine_state
  obtain st local where s: "s = (st, local)" by (cases s)
  show "fine_step cfg h s = fine_commit cfg h (fine_prepare cfg h s)"
    by (simp add: s hit_split [of cfg h st])
  show "fine_prepare cfg g (fine_prepare cfg h s) = fine_prepare cfg h (fine_prepare cfg g s)"
    if i: "independent cfg g h"
  proof -
    have i': "independent cfg h g" using i by (auto simp: independent_def)
    show ?thesis
      using prepare_twice [OF i, of st] prepare_twice(1) [OF i', of st] i
      by (simp add: s independent_def fun_upd_twist)
  qed
  show "fine_prepare cfg g (fine_commit cfg h s) = fine_commit cfg h (fine_prepare cfg g s)"
    if i: "independent cfg g h"
    using prepare_past_commit [OF i, of _ st] i by (simp add: s independent_def fun_upd_twist)
  show "fine_prepare cfg g (fine_poll u s) = fine_poll u (fine_prepare cfg g s)"
    by (simp add: s prepare_past_poll)
  show "independent cfg h g" if "independent cfg g h"
    using that by (auto simp: independent_def)
qed

definition as_action :: "hit + unit \<Rightarrow> action" where
  "as_action x = (case x of Inl h \<Rightarrow> Hit h | Inr u \<Rightarrow> Poll)"

lemma apply_all_actions:
  "fst (apply_all (fine_step cfg) fine_poll xs (st, local)) = fold (act_step cfg) (map as_action xs) st"
proof (induction xs arbitrary: st local)
  case Nil
  then show ?case by simp
next
  case (Cons x xs)
  then show ?case by (cases x) (simp_all add: as_action_def)
qed

section \<open>Properties\<close>

text \<open>C24: Treating a hit as one step loses nothing: when the programs run concurrently, each CPU
  one at a time and each goroutine on one CPU at a time, with every program's work on the
  maps split from its push and deletion, and with polls anywhere in between, then the maps
  end up as if the hits had been executed at once, in the order of their pushes.\<close>

theorem hits_serializable:
  assumes "schedule (independent cfg) [] ms"
  shows "fst (fold (micro_step (fine_prepare cfg) (fine_commit cfg) fine_poll) ms (st, \<lambda>cpu. None)) =
    fold (act_step cfg) (map as_action (committed ms)) st"
  unfolding fine.schedule_atomic [OF assms] by (rule apply_all_actions)

text \<open>Two CPUs: the second hit begins while the first is between its halves, and ends first.\<close>

definition second_env :: kenv where
  "second_env = (demo_env 1)\<lparr>k_cpu := 1\<rparr>"

definition demo_schedule :: "(hit, unit) micro list" where
  "demo_schedule =
     [Begin (Ent (demo_env 0) (demo_ctx 100 1008 2000)), Begin (Ent second_env (demo_ctx 300 5008 6000)),
      Finish (Ent second_env (demo_ctx 300 5008 6000)), Other (),
      Finish (Ent (demo_env 0) (demo_ctx 100 1008 2000))]"

definition two_cpu_state :: bpf_state where
  "two_cpu_state = demo_state\<lparr>event_buffer := [0 \<mapsto> zero_event, 1 \<mapsto> zero_event]\<rparr>"

lemma second_env_simps:
  "k_cpu second_env = 1" "hit_key demo_cfg second_env = hit_key demo_cfg (demo_env 1)"
  by (simp_all add: second_env_def hit_key_def get_pid_def get_goid_def)

theorem hits_serializable_witness:
  "fst (fold (micro_step (fine_prepare demo_cfg) (fine_commit demo_cfg) fine_poll) demo_schedule
     (two_cpu_state, \<lambda>cpu. None)) =
   fold (act_step demo_cfg)
     [Hit (Ent second_env (demo_ctx 300 5008 6000)), Poll, Hit (Ent (demo_env 0) (demo_ctx 100 1008 2000))]
     two_cpu_state"
proof -
  have ok: "schedule (independent demo_cfg) [] demo_schedule"
    by (simp add: demo_schedule_def independent_def key_of_def second_env_simps)
  show ?thesis
    using hits_serializable [OF ok, of two_cpu_state] by (simp add: demo_schedule_def as_action_def)
qed

end
