(* ===== verification/Bpf_Helpers.thy ===== *)
theory Bpf_Helpers
  imports Ftrace_Prelude
begin

text \<open>
  The kernel helpers a program can call, as \<open>src/internal/bpf/headers/bpf_helper_defs.h\<close>
  declares them: one definition per declaration, with the parameters by name and type, the
  number the call instruction carries and what the declaration's comment documents of the
  result. Beside it the kernel's own numbering, \<open>enum bpf_func_id\<close> of
  \<open>src/internal/bpf/headers/vmlinux.h\<close>.
\<close>

section \<open>Declarations\<close>

datatype base =
    Void | CChar | CInt | CLong | CUlong | U8 | U16 | U32 | U64 | S32 | S64 | Be16 | Be32 | Wsum
  | Tag string

datatype ctyp = Plain base | Ptr base | Const_ptr base | Varargs

text \<open>
  The documented result: a status (\<open>0 on success\<close>, an error otherwise), another value, or
  nothing (\<open>void\<close>).
\<close>

datatype outcome = Status | Value | Nothing

record helper =
  h_id :: nat
  h_name :: string
  h_ret :: ctyp
  h_params :: "(string \<times> ctyp) list"
  h_outcome :: outcome

definition helper :: "nat \<Rightarrow> string \<Rightarrow> ctyp \<Rightarrow> (string \<times> ctyp) list \<Rightarrow> outcome \<Rightarrow> helper" where
  "helper i nm r ps oc = \<lparr>h_id = i, h_name = nm, h_ret = r, h_params = ps, h_outcome = oc\<rparr>"

lemma helper_fields [simp]:
  "h_id (helper i nm r ps oc) = i" "h_name (helper i nm r ps oc) = nm"
  "h_ret (helper i nm r ps oc) = r" "h_params (helper i nm r ps oc) = ps"
  "h_outcome (helper i nm r ps oc) = oc"
  by (simp_all add: helper_def)

definition bpf_map_lookup_elem :: helper where
  "bpf_map_lookup_elem = helper 1 ''map_lookup_elem'' (Ptr Void)
       [(''map'', Ptr Void), (''key'', Const_ptr Void)] Value"

definition bpf_map_update_elem :: helper where
  "bpf_map_update_elem = helper 2 ''map_update_elem'' (Plain CLong)
       [(''map'', Ptr Void), (''key'', Const_ptr Void), (''value'', Const_ptr Void),
        (''flags'', Plain U64)] Status"

definition bpf_map_delete_elem :: helper where
  "bpf_map_delete_elem = helper 3 ''map_delete_elem'' (Plain CLong)
       [(''map'', Ptr Void), (''key'', Const_ptr Void)] Status"

definition bpf_probe_read :: helper where
  "bpf_probe_read = helper 4 ''probe_read'' (Plain CLong)
       [(''dst'', Ptr Void), (''size'', Plain U32), (''unsafe_ptr'', Const_ptr Void)] Status"

definition bpf_ktime_get_ns :: helper where
  "bpf_ktime_get_ns = helper 5 ''ktime_get_ns'' (Plain U64)
       [] Value"

definition bpf_trace_printk :: helper where
  "bpf_trace_printk = helper 6 ''trace_printk'' (Plain CLong)
       [(''fmt'', Const_ptr CChar), (''fmt_size'', Plain U32), ('''', Varargs)] Value"

definition bpf_get_prandom_u32 :: helper where
  "bpf_get_prandom_u32 = helper 7 ''get_prandom_u32'' (Plain U32)
       [] Value"

definition bpf_get_smp_processor_id :: helper where
  "bpf_get_smp_processor_id = helper 8 ''get_smp_processor_id'' (Plain U32)
       [] Value"

definition bpf_skb_store_bytes :: helper where
  "bpf_skb_store_bytes = helper 9 ''skb_store_bytes'' (Plain CLong)
       [(''skb'', Ptr (Tag ''__sk_buff'')), (''offset'', Plain U32), (''from'',
        Const_ptr Void), (''len'', Plain U32), (''flags'', Plain U64)] Status"

definition bpf_l3_csum_replace :: helper where
  "bpf_l3_csum_replace = helper 10 ''l3_csum_replace'' (Plain CLong)
       [(''skb'', Ptr (Tag ''__sk_buff'')), (''offset'', Plain U32), (''from'', Plain
        U64), (''to'', Plain U64), (''size'', Plain U64)] Status"

definition bpf_l4_csum_replace :: helper where
  "bpf_l4_csum_replace = helper 11 ''l4_csum_replace'' (Plain CLong)
       [(''skb'', Ptr (Tag ''__sk_buff'')), (''offset'', Plain U32), (''from'', Plain
        U64), (''to'', Plain U64), (''flags'', Plain U64)] Status"

definition bpf_tail_call :: helper where
  "bpf_tail_call = helper 12 ''tail_call'' (Plain CLong)
       [(''ctx'', Ptr Void), (''prog_array_map'', Ptr Void), (''index'', Plain U32)] Status"

definition bpf_clone_redirect :: helper where
  "bpf_clone_redirect = helper 13 ''clone_redirect'' (Plain CLong)
       [(''skb'', Ptr (Tag ''__sk_buff'')), (''ifindex'', Plain U32), (''flags'',
        Plain U64)] Status"

definition bpf_get_current_pid_tgid :: helper where
  "bpf_get_current_pid_tgid = helper 14 ''get_current_pid_tgid'' (Plain U64)
       [] Value"

definition bpf_get_current_uid_gid :: helper where
  "bpf_get_current_uid_gid = helper 15 ''get_current_uid_gid'' (Plain U64)
       [] Value"

definition bpf_get_current_comm :: helper where
  "bpf_get_current_comm = helper 16 ''get_current_comm'' (Plain CLong)
       [(''buf'', Ptr Void), (''size_of_buf'', Plain U32)] Status"

definition bpf_get_cgroup_classid :: helper where
  "bpf_get_cgroup_classid = helper 17 ''get_cgroup_classid'' (Plain U32)
       [(''skb'', Ptr (Tag ''__sk_buff''))] Value"

definition bpf_skb_vlan_push :: helper where
  "bpf_skb_vlan_push = helper 18 ''skb_vlan_push'' (Plain CLong)
       [(''skb'', Ptr (Tag ''__sk_buff'')), (''vlan_proto'', Plain Be16),
        (''vlan_tci'', Plain U16)] Status"

definition bpf_skb_vlan_pop :: helper where
  "bpf_skb_vlan_pop = helper 19 ''skb_vlan_pop'' (Plain CLong)
       [(''skb'', Ptr (Tag ''__sk_buff''))] Status"

definition bpf_skb_get_tunnel_key :: helper where
  "bpf_skb_get_tunnel_key = helper 20 ''skb_get_tunnel_key'' (Plain CLong)
       [(''skb'', Ptr (Tag ''__sk_buff'')), (''key'', Ptr (Tag ''bpf_tunnel_key'')),
        (''size'', Plain U32), (''flags'', Plain U64)] Status"

definition bpf_skb_set_tunnel_key :: helper where
  "bpf_skb_set_tunnel_key = helper 21 ''skb_set_tunnel_key'' (Plain CLong)
       [(''skb'', Ptr (Tag ''__sk_buff'')), (''key'', Ptr (Tag ''bpf_tunnel_key'')),
        (''size'', Plain U32), (''flags'', Plain U64)] Status"

definition bpf_perf_event_read :: helper where
  "bpf_perf_event_read = helper 22 ''perf_event_read'' (Plain U64)
       [(''map'', Ptr Void), (''flags'', Plain U64)] Value"

definition bpf_redirect :: helper where
  "bpf_redirect = helper 23 ''redirect'' (Plain CLong)
       [(''ifindex'', Plain U32), (''flags'', Plain U64)] Value"

definition bpf_get_route_realm :: helper where
  "bpf_get_route_realm = helper 24 ''get_route_realm'' (Plain U32)
       [(''skb'', Ptr (Tag ''__sk_buff''))] Value"

definition bpf_perf_event_output :: helper where
  "bpf_perf_event_output = helper 25 ''perf_event_output'' (Plain CLong)
       [(''ctx'', Ptr Void), (''map'', Ptr Void), (''flags'', Plain U64), (''data'',
        Ptr Void), (''size'', Plain U64)] Status"

definition bpf_skb_load_bytes :: helper where
  "bpf_skb_load_bytes = helper 26 ''skb_load_bytes'' (Plain CLong)
       [(''skb'', Const_ptr Void), (''offset'', Plain U32), (''to'', Ptr Void),
        (''len'', Plain U32)] Status"

definition bpf_get_stackid :: helper where
  "bpf_get_stackid = helper 27 ''get_stackid'' (Plain CLong)
       [(''ctx'', Ptr Void), (''map'', Ptr Void), (''flags'', Plain U64)] Value"

definition bpf_csum_diff :: helper where
  "bpf_csum_diff = helper 28 ''csum_diff'' (Plain S64)
       [(''from'', Ptr Be32), (''from_size'', Plain U32), (''to'', Ptr Be32),
        (''to_size'', Plain U32), (''seed'', Plain Wsum)] Value"

definition bpf_skb_get_tunnel_opt :: helper where
  "bpf_skb_get_tunnel_opt = helper 29 ''skb_get_tunnel_opt'' (Plain CLong)
       [(''skb'', Ptr (Tag ''__sk_buff'')), (''opt'', Ptr Void), (''size'', Plain
        U32)] Value"

definition bpf_skb_set_tunnel_opt :: helper where
  "bpf_skb_set_tunnel_opt = helper 30 ''skb_set_tunnel_opt'' (Plain CLong)
       [(''skb'', Ptr (Tag ''__sk_buff'')), (''opt'', Ptr Void), (''size'', Plain
        U32)] Status"

definition bpf_skb_change_proto :: helper where
  "bpf_skb_change_proto = helper 31 ''skb_change_proto'' (Plain CLong)
       [(''skb'', Ptr (Tag ''__sk_buff'')), (''proto'', Plain Be16), (''flags'',
        Plain U64)] Status"

definition bpf_skb_change_type :: helper where
  "bpf_skb_change_type = helper 32 ''skb_change_type'' (Plain CLong)
       [(''skb'', Ptr (Tag ''__sk_buff'')), (''type'', Plain U32)] Status"

definition bpf_skb_under_cgroup :: helper where
  "bpf_skb_under_cgroup = helper 33 ''skb_under_cgroup'' (Plain CLong)
       [(''skb'', Ptr (Tag ''__sk_buff'')), (''map'', Ptr Void), (''index'', Plain
        U32)] Value"

definition bpf_get_hash_recalc :: helper where
  "bpf_get_hash_recalc = helper 34 ''get_hash_recalc'' (Plain U32)
       [(''skb'', Ptr (Tag ''__sk_buff''))] Value"

definition bpf_get_current_task :: helper where
  "bpf_get_current_task = helper 35 ''get_current_task'' (Plain U64)
       [] Value"

definition bpf_probe_write_user :: helper where
  "bpf_probe_write_user = helper 36 ''probe_write_user'' (Plain CLong)
       [(''dst'', Ptr Void), (''src'', Const_ptr Void), (''len'', Plain U32)] Status"

definition bpf_current_task_under_cgroup :: helper where
  "bpf_current_task_under_cgroup = helper 37 ''current_task_under_cgroup'' (Plain CLong)
       [(''map'', Ptr Void), (''index'', Plain U32)] Value"

definition bpf_skb_change_tail :: helper where
  "bpf_skb_change_tail = helper 38 ''skb_change_tail'' (Plain CLong)
       [(''skb'', Ptr (Tag ''__sk_buff'')), (''len'', Plain U32), (''flags'', Plain
        U64)] Status"

definition bpf_skb_pull_data :: helper where
  "bpf_skb_pull_data = helper 39 ''skb_pull_data'' (Plain CLong)
       [(''skb'', Ptr (Tag ''__sk_buff'')), (''len'', Plain U32)] Status"

definition bpf_csum_update :: helper where
  "bpf_csum_update = helper 40 ''csum_update'' (Plain S64)
       [(''skb'', Ptr (Tag ''__sk_buff'')), (''csum'', Plain Wsum)] Value"

definition bpf_set_hash_invalid :: helper where
  "bpf_set_hash_invalid = helper 41 ''set_hash_invalid'' (Plain Void)
       [(''skb'', Ptr (Tag ''__sk_buff''))] Nothing"

definition bpf_get_numa_node_id :: helper where
  "bpf_get_numa_node_id = helper 42 ''get_numa_node_id'' (Plain CLong)
       [] Value"

definition bpf_skb_change_head :: helper where
  "bpf_skb_change_head = helper 43 ''skb_change_head'' (Plain CLong)
       [(''skb'', Ptr (Tag ''__sk_buff'')), (''len'', Plain U32), (''flags'', Plain
        U64)] Status"

definition bpf_xdp_adjust_head :: helper where
  "bpf_xdp_adjust_head = helper 44 ''xdp_adjust_head'' (Plain CLong)
       [(''xdp_md'', Ptr (Tag ''xdp_md'')), (''delta'', Plain CInt)] Status"

definition bpf_probe_read_str :: helper where
  "bpf_probe_read_str = helper 45 ''probe_read_str'' (Plain CLong)
       [(''dst'', Ptr Void), (''size'', Plain U32), (''unsafe_ptr'', Const_ptr Void)] Value"

definition bpf_get_socket_cookie :: helper where
  "bpf_get_socket_cookie = helper 46 ''get_socket_cookie'' (Plain U64)
       [(''ctx'', Ptr Void)] Value"

definition bpf_get_socket_uid :: helper where
  "bpf_get_socket_uid = helper 47 ''get_socket_uid'' (Plain U32)
       [(''skb'', Ptr (Tag ''__sk_buff''))] Value"

definition bpf_set_hash :: helper where
  "bpf_set_hash = helper 48 ''set_hash'' (Plain CLong)
       [(''skb'', Ptr (Tag ''__sk_buff'')), (''hash'', Plain U32)] Value"

definition bpf_setsockopt :: helper where
  "bpf_setsockopt = helper 49 ''setsockopt'' (Plain CLong)
       [(''bpf_socket'', Ptr Void), (''level'', Plain CInt), (''optname'', Plain
        CInt), (''optval'', Ptr Void), (''optlen'', Plain CInt)] Status"

definition bpf_skb_adjust_room :: helper where
  "bpf_skb_adjust_room = helper 50 ''skb_adjust_room'' (Plain CLong)
       [(''skb'', Ptr (Tag ''__sk_buff'')), (''len_diff'', Plain S32), (''mode'',
        Plain U32), (''flags'', Plain U64)] Status"

definition bpf_redirect_map :: helper where
  "bpf_redirect_map = helper 51 ''redirect_map'' (Plain CLong)
       [(''map'', Ptr Void), (''key'', Plain U32), (''flags'', Plain U64)] Value"

definition bpf_sk_redirect_map :: helper where
  "bpf_sk_redirect_map = helper 52 ''sk_redirect_map'' (Plain CLong)
       [(''skb'', Ptr (Tag ''__sk_buff'')), (''map'', Ptr Void), (''key'', Plain
        U32), (''flags'', Plain U64)] Value"

definition bpf_sock_map_update :: helper where
  "bpf_sock_map_update = helper 53 ''sock_map_update'' (Plain CLong)
       [(''skops'', Ptr (Tag ''bpf_sock_ops'')), (''map'', Ptr Void), (''key'', Ptr
        Void), (''flags'', Plain U64)] Status"

definition bpf_xdp_adjust_meta :: helper where
  "bpf_xdp_adjust_meta = helper 54 ''xdp_adjust_meta'' (Plain CLong)
       [(''xdp_md'', Ptr (Tag ''xdp_md'')), (''delta'', Plain CInt)] Status"

definition bpf_perf_event_read_value :: helper where
  "bpf_perf_event_read_value = helper 55 ''perf_event_read_value'' (Plain CLong)
       [(''map'', Ptr Void), (''flags'', Plain U64), (''buf'', Ptr (Tag
        ''bpf_perf_event_value'')), (''buf_size'', Plain U32)] Status"

definition bpf_perf_prog_read_value :: helper where
  "bpf_perf_prog_read_value = helper 56 ''perf_prog_read_value'' (Plain CLong)
       [(''ctx'', Ptr (Tag ''bpf_perf_event_data'')), (''buf'', Ptr (Tag
        ''bpf_perf_event_value'')), (''buf_size'', Plain U32)] Status"

definition bpf_getsockopt :: helper where
  "bpf_getsockopt = helper 57 ''getsockopt'' (Plain CLong)
       [(''bpf_socket'', Ptr Void), (''level'', Plain CInt), (''optname'', Plain
        CInt), (''optval'', Ptr Void), (''optlen'', Plain CInt)] Status"

definition bpf_override_return :: helper where
  "bpf_override_return = helper 58 ''override_return'' (Plain CLong)
       [(''regs'', Ptr (Tag ''pt_regs'')), (''rc'', Plain U64)] Value"

definition bpf_sock_ops_cb_flags_set :: helper where
  "bpf_sock_ops_cb_flags_set = helper 59 ''sock_ops_cb_flags_set'' (Plain CLong)
       [(''bpf_sock'', Ptr (Tag ''bpf_sock_ops'')), (''argval'', Plain CInt)] Value"

definition bpf_msg_redirect_map :: helper where
  "bpf_msg_redirect_map = helper 60 ''msg_redirect_map'' (Plain CLong)
       [(''msg'', Ptr (Tag ''sk_msg_md'')), (''map'', Ptr Void), (''key'', Plain
        U32), (''flags'', Plain U64)] Value"

definition bpf_msg_apply_bytes :: helper where
  "bpf_msg_apply_bytes = helper 61 ''msg_apply_bytes'' (Plain CLong)
       [(''msg'', Ptr (Tag ''sk_msg_md'')), (''bytes'', Plain U32)] Value"

definition bpf_msg_cork_bytes :: helper where
  "bpf_msg_cork_bytes = helper 62 ''msg_cork_bytes'' (Plain CLong)
       [(''msg'', Ptr (Tag ''sk_msg_md'')), (''bytes'', Plain U32)] Value"

definition bpf_msg_pull_data :: helper where
  "bpf_msg_pull_data = helper 63 ''msg_pull_data'' (Plain CLong)
       [(''msg'', Ptr (Tag ''sk_msg_md'')), (''start'', Plain U32), (''end'', Plain
        U32), (''flags'', Plain U64)] Status"

definition bpf_bind :: helper where
  "bpf_bind = helper 64 ''bind'' (Plain CLong)
       [(''ctx'', Ptr (Tag ''bpf_sock_addr'')), (''addr'', Ptr (Tag ''sockaddr'')),
        (''addr_len'', Plain CInt)] Status"

definition bpf_xdp_adjust_tail :: helper where
  "bpf_xdp_adjust_tail = helper 65 ''xdp_adjust_tail'' (Plain CLong)
       [(''xdp_md'', Ptr (Tag ''xdp_md'')), (''delta'', Plain CInt)] Status"

definition bpf_skb_get_xfrm_state :: helper where
  "bpf_skb_get_xfrm_state = helper 66 ''skb_get_xfrm_state'' (Plain CLong)
       [(''skb'', Ptr (Tag ''__sk_buff'')), (''index'', Plain U32), (''xfrm_state'',
        Ptr (Tag ''bpf_xfrm_state'')), (''size'', Plain U32), (''flags'', Plain U64)] Status"

definition bpf_get_stack :: helper where
  "bpf_get_stack = helper 67 ''get_stack'' (Plain CLong)
       [(''ctx'', Ptr Void), (''buf'', Ptr Void), (''size'', Plain U32), (''flags'',
        Plain U64)] Value"

definition bpf_skb_load_bytes_relative :: helper where
  "bpf_skb_load_bytes_relative = helper 68 ''skb_load_bytes_relative'' (Plain CLong)
       [(''skb'', Const_ptr Void), (''offset'', Plain U32), (''to'', Ptr Void),
        (''len'', Plain U32), (''start_header'', Plain U32)] Status"

definition bpf_fib_lookup :: helper where
  "bpf_fib_lookup = helper 69 ''fib_lookup'' (Plain CLong)
       [(''ctx'', Ptr Void), (''params'', Ptr (Tag ''bpf_fib_lookup'')), (''plen'',
        Plain CInt), (''flags'', Plain U32)] Value"

definition bpf_sock_hash_update :: helper where
  "bpf_sock_hash_update = helper 70 ''sock_hash_update'' (Plain CLong)
       [(''skops'', Ptr (Tag ''bpf_sock_ops'')), (''map'', Ptr Void), (''key'', Ptr
        Void), (''flags'', Plain U64)] Status"

definition bpf_msg_redirect_hash :: helper where
  "bpf_msg_redirect_hash = helper 71 ''msg_redirect_hash'' (Plain CLong)
       [(''msg'', Ptr (Tag ''sk_msg_md'')), (''map'', Ptr Void), (''key'', Ptr Void),
        (''flags'', Plain U64)] Value"

definition bpf_sk_redirect_hash :: helper where
  "bpf_sk_redirect_hash = helper 72 ''sk_redirect_hash'' (Plain CLong)
       [(''skb'', Ptr (Tag ''__sk_buff'')), (''map'', Ptr Void), (''key'', Ptr Void),
        (''flags'', Plain U64)] Value"

definition bpf_lwt_push_encap :: helper where
  "bpf_lwt_push_encap = helper 73 ''lwt_push_encap'' (Plain CLong)
       [(''skb'', Ptr (Tag ''__sk_buff'')), (''type'', Plain U32), (''hdr'', Ptr
        Void), (''len'', Plain U32)] Status"

definition bpf_lwt_seg6_store_bytes :: helper where
  "bpf_lwt_seg6_store_bytes = helper 74 ''lwt_seg6_store_bytes'' (Plain CLong)
       [(''skb'', Ptr (Tag ''__sk_buff'')), (''offset'', Plain U32), (''from'',
        Const_ptr Void), (''len'', Plain U32)] Status"

definition bpf_lwt_seg6_adjust_srh :: helper where
  "bpf_lwt_seg6_adjust_srh = helper 75 ''lwt_seg6_adjust_srh'' (Plain CLong)
       [(''skb'', Ptr (Tag ''__sk_buff'')), (''offset'', Plain U32), (''delta'',
        Plain S32)] Status"

definition bpf_lwt_seg6_action :: helper where
  "bpf_lwt_seg6_action = helper 76 ''lwt_seg6_action'' (Plain CLong)
       [(''skb'', Ptr (Tag ''__sk_buff'')), (''action'', Plain U32), (''param'', Ptr
        Void), (''param_len'', Plain U32)] Status"

definition bpf_rc_repeat :: helper where
  "bpf_rc_repeat = helper 77 ''rc_repeat'' (Plain CLong)
       [(''ctx'', Ptr Void)] Value"

definition bpf_rc_keydown :: helper where
  "bpf_rc_keydown = helper 78 ''rc_keydown'' (Plain CLong)
       [(''ctx'', Ptr Void), (''protocol'', Plain U32), (''scancode'', Plain U64),
        (''toggle'', Plain U32)] Value"

definition bpf_skb_cgroup_id :: helper where
  "bpf_skb_cgroup_id = helper 79 ''skb_cgroup_id'' (Plain U64)
       [(''skb'', Ptr (Tag ''__sk_buff''))] Value"

definition bpf_get_current_cgroup_id :: helper where
  "bpf_get_current_cgroup_id = helper 80 ''get_current_cgroup_id'' (Plain U64)
       [] Value"

definition bpf_get_local_storage :: helper where
  "bpf_get_local_storage = helper 81 ''get_local_storage'' (Ptr Void)
       [(''map'', Ptr Void), (''flags'', Plain U64)] Value"

definition bpf_sk_select_reuseport :: helper where
  "bpf_sk_select_reuseport = helper 82 ''sk_select_reuseport'' (Plain CLong)
       [(''reuse'', Ptr (Tag ''sk_reuseport_md'')), (''map'', Ptr Void), (''key'',
        Ptr Void), (''flags'', Plain U64)] Status"

definition bpf_skb_ancestor_cgroup_id :: helper where
  "bpf_skb_ancestor_cgroup_id = helper 83 ''skb_ancestor_cgroup_id'' (Plain U64)
       [(''skb'', Ptr (Tag ''__sk_buff'')), (''ancestor_level'', Plain CInt)] Value"

definition bpf_sk_lookup_tcp :: helper where
  "bpf_sk_lookup_tcp = helper 84 ''sk_lookup_tcp'' (Ptr (Tag ''bpf_sock''))
       [(''ctx'', Ptr Void), (''tuple'', Ptr (Tag ''bpf_sock_tuple'')),
        (''tuple_size'', Plain U32), (''netns'', Plain U64), (''flags'', Plain U64)] Value"

definition bpf_sk_lookup_udp :: helper where
  "bpf_sk_lookup_udp = helper 85 ''sk_lookup_udp'' (Ptr (Tag ''bpf_sock''))
       [(''ctx'', Ptr Void), (''tuple'', Ptr (Tag ''bpf_sock_tuple'')),
        (''tuple_size'', Plain U32), (''netns'', Plain U64), (''flags'', Plain U64)] Value"

definition bpf_sk_release :: helper where
  "bpf_sk_release = helper 86 ''sk_release'' (Plain CLong)
       [(''sock'', Ptr Void)] Status"

definition bpf_map_push_elem :: helper where
  "bpf_map_push_elem = helper 87 ''map_push_elem'' (Plain CLong)
       [(''map'', Ptr Void), (''value'', Const_ptr Void), (''flags'', Plain U64)] Status"

definition bpf_map_pop_elem :: helper where
  "bpf_map_pop_elem = helper 88 ''map_pop_elem'' (Plain CLong)
       [(''map'', Ptr Void), (''value'', Ptr Void)] Status"

definition bpf_map_peek_elem :: helper where
  "bpf_map_peek_elem = helper 89 ''map_peek_elem'' (Plain CLong)
       [(''map'', Ptr Void), (''value'', Ptr Void)] Status"

definition bpf_msg_push_data :: helper where
  "bpf_msg_push_data = helper 90 ''msg_push_data'' (Plain CLong)
       [(''msg'', Ptr (Tag ''sk_msg_md'')), (''start'', Plain U32), (''len'', Plain
        U32), (''flags'', Plain U64)] Status"

definition bpf_msg_pop_data :: helper where
  "bpf_msg_pop_data = helper 91 ''msg_pop_data'' (Plain CLong)
       [(''msg'', Ptr (Tag ''sk_msg_md'')), (''start'', Plain U32), (''len'', Plain
        U32), (''flags'', Plain U64)] Status"

definition bpf_rc_pointer_rel :: helper where
  "bpf_rc_pointer_rel = helper 92 ''rc_pointer_rel'' (Plain CLong)
       [(''ctx'', Ptr Void), (''rel_x'', Plain S32), (''rel_y'', Plain S32)] Value"

definition bpf_spin_lock :: helper where
  "bpf_spin_lock = helper 93 ''spin_lock'' (Plain CLong)
       [(''lock'', Ptr (Tag ''bpf_spin_lock''))] Value"

definition bpf_spin_unlock :: helper where
  "bpf_spin_unlock = helper 94 ''spin_unlock'' (Plain CLong)
       [(''lock'', Ptr (Tag ''bpf_spin_lock''))] Value"

definition bpf_sk_fullsock :: helper where
  "bpf_sk_fullsock = helper 95 ''sk_fullsock'' (Ptr (Tag ''bpf_sock''))
       [(''sk'', Ptr (Tag ''bpf_sock''))] Value"

definition bpf_tcp_sock :: helper where
  "bpf_tcp_sock = helper 96 ''tcp_sock'' (Ptr (Tag ''bpf_tcp_sock''))
       [(''sk'', Ptr (Tag ''bpf_sock''))] Value"

definition bpf_skb_ecn_set_ce :: helper where
  "bpf_skb_ecn_set_ce = helper 97 ''skb_ecn_set_ce'' (Plain CLong)
       [(''skb'', Ptr (Tag ''__sk_buff''))] Value"

definition bpf_get_listener_sock :: helper where
  "bpf_get_listener_sock = helper 98 ''get_listener_sock'' (Ptr (Tag ''bpf_sock''))
       [(''sk'', Ptr (Tag ''bpf_sock''))] Value"

definition bpf_skc_lookup_tcp :: helper where
  "bpf_skc_lookup_tcp = helper 99 ''skc_lookup_tcp'' (Ptr (Tag ''bpf_sock''))
       [(''ctx'', Ptr Void), (''tuple'', Ptr (Tag ''bpf_sock_tuple'')),
        (''tuple_size'', Plain U32), (''netns'', Plain U64), (''flags'', Plain U64)] Value"

definition bpf_tcp_check_syncookie :: helper where
  "bpf_tcp_check_syncookie = helper 100 ''tcp_check_syncookie'' (Plain CLong)
       [(''sk'', Ptr Void), (''iph'', Ptr Void), (''iph_len'', Plain U32), (''th'',
        Ptr (Tag ''tcphdr'')), (''th_len'', Plain U32)] Value"

definition bpf_sysctl_get_name :: helper where
  "bpf_sysctl_get_name = helper 101 ''sysctl_get_name'' (Plain CLong)
       [(''ctx'', Ptr (Tag ''bpf_sysctl'')), (''buf'', Ptr CChar), (''buf_len'',
        Plain CUlong), (''flags'', Plain U64)] Value"

definition bpf_sysctl_get_current_value :: helper where
  "bpf_sysctl_get_current_value = helper 102 ''sysctl_get_current_value'' (Plain CLong)
       [(''ctx'', Ptr (Tag ''bpf_sysctl'')), (''buf'', Ptr CChar), (''buf_len'',
        Plain CUlong)] Value"

definition bpf_sysctl_get_new_value :: helper where
  "bpf_sysctl_get_new_value = helper 103 ''sysctl_get_new_value'' (Plain CLong)
       [(''ctx'', Ptr (Tag ''bpf_sysctl'')), (''buf'', Ptr CChar), (''buf_len'',
        Plain CUlong)] Value"

definition bpf_sysctl_set_new_value :: helper where
  "bpf_sysctl_set_new_value = helper 104 ''sysctl_set_new_value'' (Plain CLong)
       [(''ctx'', Ptr (Tag ''bpf_sysctl'')), (''buf'', Const_ptr CChar),
        (''buf_len'', Plain CUlong)] Status"

definition bpf_strtol :: helper where
  "bpf_strtol = helper 105 ''strtol'' (Plain CLong)
       [(''buf'', Const_ptr CChar), (''buf_len'', Plain CUlong), (''flags'', Plain
        U64), (''res'', Ptr CLong)] Value"

definition bpf_strtoul :: helper where
  "bpf_strtoul = helper 106 ''strtoul'' (Plain CLong)
       [(''buf'', Const_ptr CChar), (''buf_len'', Plain CUlong), (''flags'', Plain
        U64), (''res'', Ptr CUlong)] Value"

definition bpf_sk_storage_get :: helper where
  "bpf_sk_storage_get = helper 107 ''sk_storage_get'' (Ptr Void)
       [(''map'', Ptr Void), (''sk'', Ptr Void), (''value'', Ptr Void), (''flags'',
        Plain U64)] Value"

definition bpf_sk_storage_delete :: helper where
  "bpf_sk_storage_delete = helper 108 ''sk_storage_delete'' (Plain CLong)
       [(''map'', Ptr Void), (''sk'', Ptr Void)] Status"

definition bpf_send_signal :: helper where
  "bpf_send_signal = helper 109 ''send_signal'' (Plain CLong)
       [(''sig'', Plain U32)] Status"

definition bpf_tcp_gen_syncookie :: helper where
  "bpf_tcp_gen_syncookie = helper 110 ''tcp_gen_syncookie'' (Plain S64)
       [(''sk'', Ptr Void), (''iph'', Ptr Void), (''iph_len'', Plain U32), (''th'',
        Ptr (Tag ''tcphdr'')), (''th_len'', Plain U32)] Value"

definition bpf_skb_output :: helper where
  "bpf_skb_output = helper 111 ''skb_output'' (Plain CLong)
       [(''ctx'', Ptr Void), (''map'', Ptr Void), (''flags'', Plain U64), (''data'',
        Ptr Void), (''size'', Plain U64)] Status"

definition bpf_probe_read_user :: helper where
  "bpf_probe_read_user = helper 112 ''probe_read_user'' (Plain CLong)
       [(''dst'', Ptr Void), (''size'', Plain U32), (''unsafe_ptr'', Const_ptr Void)] Status"

definition bpf_probe_read_kernel :: helper where
  "bpf_probe_read_kernel = helper 113 ''probe_read_kernel'' (Plain CLong)
       [(''dst'', Ptr Void), (''size'', Plain U32), (''unsafe_ptr'', Const_ptr Void)] Status"

definition bpf_probe_read_user_str :: helper where
  "bpf_probe_read_user_str = helper 114 ''probe_read_user_str'' (Plain CLong)
       [(''dst'', Ptr Void), (''size'', Plain U32), (''unsafe_ptr'', Const_ptr Void)] Value"

definition bpf_probe_read_kernel_str :: helper where
  "bpf_probe_read_kernel_str = helper 115 ''probe_read_kernel_str'' (Plain CLong)
       [(''dst'', Ptr Void), (''size'', Plain U32), (''unsafe_ptr'', Const_ptr Void)] Value"

definition bpf_tcp_send_ack :: helper where
  "bpf_tcp_send_ack = helper 116 ''tcp_send_ack'' (Plain CLong)
       [(''tp'', Ptr Void), (''rcv_nxt'', Plain U32)] Status"

definition bpf_send_signal_thread :: helper where
  "bpf_send_signal_thread = helper 117 ''send_signal_thread'' (Plain CLong)
       [(''sig'', Plain U32)] Status"

definition bpf_jiffies64 :: helper where
  "bpf_jiffies64 = helper 118 ''jiffies64'' (Plain U64)
       [] Value"

definition bpf_read_branch_records :: helper where
  "bpf_read_branch_records = helper 119 ''read_branch_records'' (Plain CLong)
       [(''ctx'', Ptr (Tag ''bpf_perf_event_data'')), (''buf'', Ptr Void), (''size'',
        Plain U32), (''flags'', Plain U64)] Value"

definition bpf_get_ns_current_pid_tgid :: helper where
  "bpf_get_ns_current_pid_tgid = helper 120 ''get_ns_current_pid_tgid'' (Plain CLong)
       [(''dev'', Plain U64), (''ino'', Plain U64), (''nsdata'', Ptr (Tag
        ''bpf_pidns_info'')), (''size'', Plain U32)] Status"

definition bpf_xdp_output :: helper where
  "bpf_xdp_output = helper 121 ''xdp_output'' (Plain CLong)
       [(''ctx'', Ptr Void), (''map'', Ptr Void), (''flags'', Plain U64), (''data'',
        Ptr Void), (''size'', Plain U64)] Status"

definition bpf_get_netns_cookie :: helper where
  "bpf_get_netns_cookie = helper 122 ''get_netns_cookie'' (Plain U64)
       [(''ctx'', Ptr Void)] Value"

definition bpf_get_current_ancestor_cgroup_id :: helper where
  "bpf_get_current_ancestor_cgroup_id = helper 123 ''get_current_ancestor_cgroup_id'' (Plain U64)
       [(''ancestor_level'', Plain CInt)] Value"

definition bpf_sk_assign :: helper where
  "bpf_sk_assign = helper 124 ''sk_assign'' (Plain CLong)
       [(''ctx'', Ptr Void), (''sk'', Ptr Void), (''flags'', Plain U64)] Status"

definition bpf_ktime_get_boot_ns :: helper where
  "bpf_ktime_get_boot_ns = helper 125 ''ktime_get_boot_ns'' (Plain U64)
       [] Value"

definition bpf_seq_printf :: helper where
  "bpf_seq_printf = helper 126 ''seq_printf'' (Plain CLong)
       [(''m'', Ptr (Tag ''seq_file'')), (''fmt'', Const_ptr CChar), (''fmt_size'',
        Plain U32), (''data'', Const_ptr Void), (''data_len'', Plain U32)] Status"

definition bpf_seq_write :: helper where
  "bpf_seq_write = helper 127 ''seq_write'' (Plain CLong)
       [(''m'', Ptr (Tag ''seq_file'')), (''data'', Const_ptr Void), (''len'', Plain
        U32)] Status"

definition bpf_sk_cgroup_id :: helper where
  "bpf_sk_cgroup_id = helper 128 ''sk_cgroup_id'' (Plain U64)
       [(''sk'', Ptr Void)] Value"

definition bpf_sk_ancestor_cgroup_id :: helper where
  "bpf_sk_ancestor_cgroup_id = helper 129 ''sk_ancestor_cgroup_id'' (Plain U64)
       [(''sk'', Ptr Void), (''ancestor_level'', Plain CInt)] Value"

definition bpf_ringbuf_output :: helper where
  "bpf_ringbuf_output = helper 130 ''ringbuf_output'' (Plain CLong)
       [(''ringbuf'', Ptr Void), (''data'', Ptr Void), (''size'', Plain U64),
        (''flags'', Plain U64)] Status"

definition bpf_ringbuf_reserve :: helper where
  "bpf_ringbuf_reserve = helper 131 ''ringbuf_reserve'' (Ptr Void)
       [(''ringbuf'', Ptr Void), (''size'', Plain U64), (''flags'', Plain U64)] Value"

definition bpf_ringbuf_submit :: helper where
  "bpf_ringbuf_submit = helper 132 ''ringbuf_submit'' (Plain Void)
       [(''data'', Ptr Void), (''flags'', Plain U64)] Nothing"

definition bpf_ringbuf_discard :: helper where
  "bpf_ringbuf_discard = helper 133 ''ringbuf_discard'' (Plain Void)
       [(''data'', Ptr Void), (''flags'', Plain U64)] Nothing"

definition bpf_ringbuf_query :: helper where
  "bpf_ringbuf_query = helper 134 ''ringbuf_query'' (Plain U64)
       [(''ringbuf'', Ptr Void), (''flags'', Plain U64)] Value"

definition bpf_csum_level :: helper where
  "bpf_csum_level = helper 135 ''csum_level'' (Plain CLong)
       [(''skb'', Ptr (Tag ''__sk_buff'')), (''level'', Plain U64)] Status"

definition bpf_skc_to_tcp6_sock :: helper where
  "bpf_skc_to_tcp6_sock = helper 136 ''skc_to_tcp6_sock'' (Ptr (Tag ''tcp6_sock''))
       [(''sk'', Ptr Void)] Value"

definition bpf_skc_to_tcp_sock :: helper where
  "bpf_skc_to_tcp_sock = helper 137 ''skc_to_tcp_sock'' (Ptr (Tag ''tcp_sock''))
       [(''sk'', Ptr Void)] Value"

definition bpf_skc_to_tcp_timewait_sock :: helper where
  "bpf_skc_to_tcp_timewait_sock = helper 138 ''skc_to_tcp_timewait_sock'' (Ptr (Tag ''tcp_timewait_sock''))
       [(''sk'', Ptr Void)] Value"

definition bpf_skc_to_tcp_request_sock :: helper where
  "bpf_skc_to_tcp_request_sock = helper 139 ''skc_to_tcp_request_sock'' (Ptr (Tag ''tcp_request_sock''))
       [(''sk'', Ptr Void)] Value"

definition bpf_skc_to_udp6_sock :: helper where
  "bpf_skc_to_udp6_sock = helper 140 ''skc_to_udp6_sock'' (Ptr (Tag ''udp6_sock''))
       [(''sk'', Ptr Void)] Value"

definition bpf_get_task_stack :: helper where
  "bpf_get_task_stack = helper 141 ''get_task_stack'' (Plain CLong)
       [(''task'', Ptr (Tag ''task_struct'')), (''buf'', Ptr Void), (''size'', Plain
        U32), (''flags'', Plain U64)] Value"

definition bpf_load_hdr_opt :: helper where
  "bpf_load_hdr_opt = helper 142 ''load_hdr_opt'' (Plain CLong)
       [(''skops'', Ptr (Tag ''bpf_sock_ops'')), (''searchby_res'', Ptr Void),
        (''len'', Plain U32), (''flags'', Plain U64)] Value"

definition bpf_store_hdr_opt :: helper where
  "bpf_store_hdr_opt = helper 143 ''store_hdr_opt'' (Plain CLong)
       [(''skops'', Ptr (Tag ''bpf_sock_ops'')), (''from'', Const_ptr Void),
        (''len'', Plain U32), (''flags'', Plain U64)] Status"

definition bpf_reserve_hdr_opt :: helper where
  "bpf_reserve_hdr_opt = helper 144 ''reserve_hdr_opt'' (Plain CLong)
       [(''skops'', Ptr (Tag ''bpf_sock_ops'')), (''len'', Plain U32), (''flags'',
        Plain U64)] Status"

definition bpf_inode_storage_get :: helper where
  "bpf_inode_storage_get = helper 145 ''inode_storage_get'' (Ptr Void)
       [(''map'', Ptr Void), (''inode'', Ptr Void), (''value'', Ptr Void),
        (''flags'', Plain U64)] Value"

definition bpf_inode_storage_delete :: helper where
  "bpf_inode_storage_delete = helper 146 ''inode_storage_delete'' (Plain CInt)
       [(''map'', Ptr Void), (''inode'', Ptr Void)] Status"

definition bpf_d_path :: helper where
  "bpf_d_path = helper 147 ''d_path'' (Plain CLong)
       [(''path'', Ptr (Tag ''path'')), (''buf'', Ptr CChar), (''sz'', Plain U32)] Value"

definition bpf_copy_from_user :: helper where
  "bpf_copy_from_user = helper 148 ''copy_from_user'' (Plain CLong)
       [(''dst'', Ptr Void), (''size'', Plain U32), (''user_ptr'', Const_ptr Void)] Status"

definition bpf_snprintf_btf :: helper where
  "bpf_snprintf_btf = helper 149 ''snprintf_btf'' (Plain CLong)
       [(''str'', Ptr CChar), (''str_size'', Plain U32), (''ptr'', Ptr (Tag
        ''btf_ptr'')), (''btf_ptr_size'', Plain U32), (''flags'', Plain U64)] Value"

definition bpf_seq_printf_btf :: helper where
  "bpf_seq_printf_btf = helper 150 ''seq_printf_btf'' (Plain CLong)
       [(''m'', Ptr (Tag ''seq_file'')), (''ptr'', Ptr (Tag ''btf_ptr'')),
        (''ptr_size'', Plain U32), (''flags'', Plain U64)] Status"

definition bpf_skb_cgroup_classid :: helper where
  "bpf_skb_cgroup_classid = helper 151 ''skb_cgroup_classid'' (Plain U64)
       [(''skb'', Ptr (Tag ''__sk_buff''))] Value"

definition bpf_redirect_neigh :: helper where
  "bpf_redirect_neigh = helper 152 ''redirect_neigh'' (Plain CLong)
       [(''ifindex'', Plain U32), (''params'', Ptr (Tag ''bpf_redir_neigh'')),
        (''plen'', Plain CInt), (''flags'', Plain U64)] Value"

definition bpf_per_cpu_ptr :: helper where
  "bpf_per_cpu_ptr = helper 153 ''per_cpu_ptr'' (Ptr Void)
       [(''percpu_ptr'', Const_ptr Void), (''cpu'', Plain U32)] Value"

definition bpf_this_cpu_ptr :: helper where
  "bpf_this_cpu_ptr = helper 154 ''this_cpu_ptr'' (Ptr Void)
       [(''percpu_ptr'', Const_ptr Void)] Value"

definition bpf_redirect_peer :: helper where
  "bpf_redirect_peer = helper 155 ''redirect_peer'' (Plain CLong)
       [(''ifindex'', Plain U32), (''flags'', Plain U64)] Value"

definition bpf_task_storage_get :: helper where
  "bpf_task_storage_get = helper 156 ''task_storage_get'' (Ptr Void)
       [(''map'', Ptr Void), (''task'', Ptr (Tag ''task_struct'')), (''value'', Ptr
        Void), (''flags'', Plain U64)] Value"

definition bpf_task_storage_delete :: helper where
  "bpf_task_storage_delete = helper 157 ''task_storage_delete'' (Plain CLong)
       [(''map'', Ptr Void), (''task'', Ptr (Tag ''task_struct''))] Status"

definition bpf_get_current_task_btf :: helper where
  "bpf_get_current_task_btf = helper 158 ''get_current_task_btf'' (Ptr (Tag ''task_struct''))
       [] Value"

definition bpf_bprm_opts_set :: helper where
  "bpf_bprm_opts_set = helper 159 ''bprm_opts_set'' (Plain CLong)
       [(''bprm'', Ptr (Tag ''linux_binprm'')), (''flags'', Plain U64)] Value"

definition bpf_ktime_get_coarse_ns :: helper where
  "bpf_ktime_get_coarse_ns = helper 160 ''ktime_get_coarse_ns'' (Plain U64)
       [] Value"

definition bpf_ima_inode_hash :: helper where
  "bpf_ima_inode_hash = helper 161 ''ima_inode_hash'' (Plain CLong)
       [(''inode'', Ptr (Tag ''inode'')), (''dst'', Ptr Void), (''size'', Plain U32)] Value"

definition bpf_sock_from_file :: helper where
  "bpf_sock_from_file = helper 162 ''sock_from_file'' (Ptr (Tag ''socket''))
       [(''file'', Ptr (Tag ''file''))] Value"

definition bpf_check_mtu :: helper where
  "bpf_check_mtu = helper 163 ''check_mtu'' (Plain CLong)
       [(''ctx'', Ptr Void), (''ifindex'', Plain U32), (''mtu_len'', Ptr U32),
        (''len_diff'', Plain S32), (''flags'', Plain U64)] Value"

definition bpf_for_each_map_elem :: helper where
  "bpf_for_each_map_elem = helper 164 ''for_each_map_elem'' (Plain CLong)
       [(''map'', Ptr Void), (''callback_fn'', Ptr Void), (''callback_ctx'', Ptr
        Void), (''flags'', Plain U64)] Value"

definition bpf_snprintf :: helper where
  "bpf_snprintf = helper 165 ''snprintf'' (Plain CLong)
       [(''str'', Ptr CChar), (''str_size'', Plain U32), (''fmt'', Const_ptr CChar),
        (''data'', Ptr U64), (''data_len'', Plain U32)] Value"

definition bpf_sys_bpf :: helper where
  "bpf_sys_bpf = helper 166 ''sys_bpf'' (Plain CLong)
       [(''cmd'', Plain U32), (''attr'', Ptr Void), (''attr_size'', Plain U32)] Value"

definition bpf_btf_find_by_name_kind :: helper where
  "bpf_btf_find_by_name_kind = helper 167 ''btf_find_by_name_kind'' (Plain CLong)
       [(''name'', Ptr CChar), (''name_sz'', Plain CInt), (''kind'', Plain U32),
        (''flags'', Plain CInt)] Value"

definition bpf_sys_close :: helper where
  "bpf_sys_close = helper 168 ''sys_close'' (Plain CLong)
       [(''fd'', Plain U32)] Value"

definition bpf_timer_init :: helper where
  "bpf_timer_init = helper 169 ''timer_init'' (Plain CLong)
       [(''timer'', Ptr (Tag ''bpf_timer'')), (''map'', Ptr Void), (''flags'', Plain
        U64)] Status"

definition bpf_timer_set_callback :: helper where
  "bpf_timer_set_callback = helper 170 ''timer_set_callback'' (Plain CLong)
       [(''timer'', Ptr (Tag ''bpf_timer'')), (''callback_fn'', Ptr Void)] Status"

definition bpf_timer_start :: helper where
  "bpf_timer_start = helper 171 ''timer_start'' (Plain CLong)
       [(''timer'', Ptr (Tag ''bpf_timer'')), (''nsecs'', Plain U64), (''flags'',
        Plain U64)] Status"

definition bpf_timer_cancel :: helper where
  "bpf_timer_cancel = helper 172 ''timer_cancel'' (Plain CLong)
       [(''timer'', Ptr (Tag ''bpf_timer''))] Value"

definition bpf_get_func_ip :: helper where
  "bpf_get_func_ip = helper 173 ''get_func_ip'' (Plain U64)
       [(''ctx'', Ptr Void)] Value"

definition bpf_get_attach_cookie :: helper where
  "bpf_get_attach_cookie = helper 174 ''get_attach_cookie'' (Plain U64)
       [(''ctx'', Ptr Void)] Value"

definition bpf_task_pt_regs :: helper where
  "bpf_task_pt_regs = helper 175 ''task_pt_regs'' (Plain CLong)
       [(''task'', Ptr (Tag ''task_struct''))] Value"

definition bpf_get_branch_snapshot :: helper where
  "bpf_get_branch_snapshot = helper 176 ''get_branch_snapshot'' (Plain CLong)
       [(''entries'', Ptr Void), (''size'', Plain U32), (''flags'', Plain U64)] Value"

definition bpf_trace_vprintk :: helper where
  "bpf_trace_vprintk = helper 177 ''trace_vprintk'' (Plain CLong)
       [(''fmt'', Const_ptr CChar), (''fmt_size'', Plain U32), (''data'', Const_ptr
        Void), (''data_len'', Plain U32)] Value"

definition bpf_skc_to_unix_sock :: helper where
  "bpf_skc_to_unix_sock = helper 178 ''skc_to_unix_sock'' (Ptr (Tag ''unix_sock''))
       [(''sk'', Ptr Void)] Value"

definition bpf_kallsyms_lookup_name :: helper where
  "bpf_kallsyms_lookup_name = helper 179 ''kallsyms_lookup_name'' (Plain CLong)
       [(''name'', Const_ptr CChar), (''name_sz'', Plain CInt), (''flags'', Plain
        CInt), (''res'', Ptr U64)] Value"

definition bpf_find_vma :: helper where
  "bpf_find_vma = helper 180 ''find_vma'' (Plain CLong)
       [(''task'', Ptr (Tag ''task_struct'')), (''addr'', Plain U64),
        (''callback_fn'', Ptr Void), (''callback_ctx'', Ptr Void), (''flags'', Plain
        U64)] Status"

section \<open>The table\<close>

definition helpers_1 :: "helper list" where
  "helpers_1 =
     [bpf_map_lookup_elem, bpf_map_update_elem, bpf_map_delete_elem, bpf_probe_read,
      bpf_ktime_get_ns, bpf_trace_printk, bpf_get_prandom_u32,
      bpf_get_smp_processor_id, bpf_skb_store_bytes, bpf_l3_csum_replace,
      bpf_l4_csum_replace, bpf_tail_call, bpf_clone_redirect,
      bpf_get_current_pid_tgid, bpf_get_current_uid_gid, bpf_get_current_comm,
      bpf_get_cgroup_classid, bpf_skb_vlan_push, bpf_skb_vlan_pop,
      bpf_skb_get_tunnel_key, bpf_skb_set_tunnel_key, bpf_perf_event_read,
      bpf_redirect, bpf_get_route_realm, bpf_perf_event_output, bpf_skb_load_bytes,
      bpf_get_stackid, bpf_csum_diff, bpf_skb_get_tunnel_opt, bpf_skb_set_tunnel_opt]"

lemmas helpers_1_defs = helpers_1_def
  bpf_map_lookup_elem_def bpf_map_update_elem_def bpf_map_delete_elem_def bpf_probe_read_def
  bpf_ktime_get_ns_def bpf_trace_printk_def bpf_get_prandom_u32_def
  bpf_get_smp_processor_id_def bpf_skb_store_bytes_def bpf_l3_csum_replace_def
  bpf_l4_csum_replace_def bpf_tail_call_def bpf_clone_redirect_def
  bpf_get_current_pid_tgid_def bpf_get_current_uid_gid_def bpf_get_current_comm_def
  bpf_get_cgroup_classid_def bpf_skb_vlan_push_def bpf_skb_vlan_pop_def
  bpf_skb_get_tunnel_key_def bpf_skb_set_tunnel_key_def bpf_perf_event_read_def
  bpf_redirect_def bpf_get_route_realm_def bpf_perf_event_output_def bpf_skb_load_bytes_def
  bpf_get_stackid_def bpf_csum_diff_def bpf_skb_get_tunnel_opt_def
  bpf_skb_set_tunnel_opt_def

definition helpers_2 :: "helper list" where
  "helpers_2 =
     [bpf_skb_change_proto, bpf_skb_change_type, bpf_skb_under_cgroup,
      bpf_get_hash_recalc, bpf_get_current_task, bpf_probe_write_user,
      bpf_current_task_under_cgroup, bpf_skb_change_tail, bpf_skb_pull_data,
      bpf_csum_update, bpf_set_hash_invalid, bpf_get_numa_node_id,
      bpf_skb_change_head, bpf_xdp_adjust_head, bpf_probe_read_str,
      bpf_get_socket_cookie, bpf_get_socket_uid, bpf_set_hash, bpf_setsockopt,
      bpf_skb_adjust_room, bpf_redirect_map, bpf_sk_redirect_map, bpf_sock_map_update,
      bpf_xdp_adjust_meta, bpf_perf_event_read_value, bpf_perf_prog_read_value,
      bpf_getsockopt, bpf_override_return, bpf_sock_ops_cb_flags_set,
      bpf_msg_redirect_map]"

lemmas helpers_2_defs = helpers_2_def
  bpf_skb_change_proto_def bpf_skb_change_type_def bpf_skb_under_cgroup_def
  bpf_get_hash_recalc_def bpf_get_current_task_def bpf_probe_write_user_def
  bpf_current_task_under_cgroup_def bpf_skb_change_tail_def bpf_skb_pull_data_def
  bpf_csum_update_def bpf_set_hash_invalid_def bpf_get_numa_node_id_def
  bpf_skb_change_head_def bpf_xdp_adjust_head_def bpf_probe_read_str_def
  bpf_get_socket_cookie_def bpf_get_socket_uid_def bpf_set_hash_def bpf_setsockopt_def
  bpf_skb_adjust_room_def bpf_redirect_map_def bpf_sk_redirect_map_def
  bpf_sock_map_update_def bpf_xdp_adjust_meta_def bpf_perf_event_read_value_def
  bpf_perf_prog_read_value_def bpf_getsockopt_def bpf_override_return_def
  bpf_sock_ops_cb_flags_set_def bpf_msg_redirect_map_def

definition helpers_3 :: "helper list" where
  "helpers_3 =
     [bpf_msg_apply_bytes, bpf_msg_cork_bytes, bpf_msg_pull_data, bpf_bind,
      bpf_xdp_adjust_tail, bpf_skb_get_xfrm_state, bpf_get_stack,
      bpf_skb_load_bytes_relative, bpf_fib_lookup, bpf_sock_hash_update,
      bpf_msg_redirect_hash, bpf_sk_redirect_hash, bpf_lwt_push_encap,
      bpf_lwt_seg6_store_bytes, bpf_lwt_seg6_adjust_srh, bpf_lwt_seg6_action,
      bpf_rc_repeat, bpf_rc_keydown, bpf_skb_cgroup_id, bpf_get_current_cgroup_id,
      bpf_get_local_storage, bpf_sk_select_reuseport, bpf_skb_ancestor_cgroup_id,
      bpf_sk_lookup_tcp, bpf_sk_lookup_udp, bpf_sk_release, bpf_map_push_elem,
      bpf_map_pop_elem, bpf_map_peek_elem, bpf_msg_push_data]"

lemmas helpers_3_defs = helpers_3_def
  bpf_msg_apply_bytes_def bpf_msg_cork_bytes_def bpf_msg_pull_data_def bpf_bind_def
  bpf_xdp_adjust_tail_def bpf_skb_get_xfrm_state_def bpf_get_stack_def
  bpf_skb_load_bytes_relative_def bpf_fib_lookup_def bpf_sock_hash_update_def
  bpf_msg_redirect_hash_def bpf_sk_redirect_hash_def bpf_lwt_push_encap_def
  bpf_lwt_seg6_store_bytes_def bpf_lwt_seg6_adjust_srh_def bpf_lwt_seg6_action_def
  bpf_rc_repeat_def bpf_rc_keydown_def bpf_skb_cgroup_id_def bpf_get_current_cgroup_id_def
  bpf_get_local_storage_def bpf_sk_select_reuseport_def bpf_skb_ancestor_cgroup_id_def
  bpf_sk_lookup_tcp_def bpf_sk_lookup_udp_def bpf_sk_release_def bpf_map_push_elem_def
  bpf_map_pop_elem_def bpf_map_peek_elem_def bpf_msg_push_data_def

definition helpers_4 :: "helper list" where
  "helpers_4 =
     [bpf_msg_pop_data, bpf_rc_pointer_rel, bpf_spin_lock, bpf_spin_unlock,
      bpf_sk_fullsock, bpf_tcp_sock, bpf_skb_ecn_set_ce, bpf_get_listener_sock,
      bpf_skc_lookup_tcp, bpf_tcp_check_syncookie, bpf_sysctl_get_name,
      bpf_sysctl_get_current_value, bpf_sysctl_get_new_value,
      bpf_sysctl_set_new_value, bpf_strtol, bpf_strtoul, bpf_sk_storage_get,
      bpf_sk_storage_delete, bpf_send_signal, bpf_tcp_gen_syncookie, bpf_skb_output,
      bpf_probe_read_user, bpf_probe_read_kernel, bpf_probe_read_user_str,
      bpf_probe_read_kernel_str, bpf_tcp_send_ack, bpf_send_signal_thread,
      bpf_jiffies64, bpf_read_branch_records, bpf_get_ns_current_pid_tgid]"

lemmas helpers_4_defs = helpers_4_def
  bpf_msg_pop_data_def bpf_rc_pointer_rel_def bpf_spin_lock_def bpf_spin_unlock_def
  bpf_sk_fullsock_def bpf_tcp_sock_def bpf_skb_ecn_set_ce_def bpf_get_listener_sock_def
  bpf_skc_lookup_tcp_def bpf_tcp_check_syncookie_def bpf_sysctl_get_name_def
  bpf_sysctl_get_current_value_def bpf_sysctl_get_new_value_def bpf_sysctl_set_new_value_def
  bpf_strtol_def bpf_strtoul_def bpf_sk_storage_get_def bpf_sk_storage_delete_def
  bpf_send_signal_def bpf_tcp_gen_syncookie_def bpf_skb_output_def bpf_probe_read_user_def
  bpf_probe_read_kernel_def bpf_probe_read_user_str_def bpf_probe_read_kernel_str_def
  bpf_tcp_send_ack_def bpf_send_signal_thread_def bpf_jiffies64_def
  bpf_read_branch_records_def bpf_get_ns_current_pid_tgid_def

definition helpers_5 :: "helper list" where
  "helpers_5 =
     [bpf_xdp_output, bpf_get_netns_cookie, bpf_get_current_ancestor_cgroup_id,
      bpf_sk_assign, bpf_ktime_get_boot_ns, bpf_seq_printf, bpf_seq_write,
      bpf_sk_cgroup_id, bpf_sk_ancestor_cgroup_id, bpf_ringbuf_output,
      bpf_ringbuf_reserve, bpf_ringbuf_submit, bpf_ringbuf_discard, bpf_ringbuf_query,
      bpf_csum_level, bpf_skc_to_tcp6_sock, bpf_skc_to_tcp_sock,
      bpf_skc_to_tcp_timewait_sock, bpf_skc_to_tcp_request_sock, bpf_skc_to_udp6_sock,
      bpf_get_task_stack, bpf_load_hdr_opt, bpf_store_hdr_opt, bpf_reserve_hdr_opt,
      bpf_inode_storage_get, bpf_inode_storage_delete, bpf_d_path, bpf_copy_from_user,
      bpf_snprintf_btf, bpf_seq_printf_btf]"

lemmas helpers_5_defs = helpers_5_def
  bpf_xdp_output_def bpf_get_netns_cookie_def bpf_get_current_ancestor_cgroup_id_def
  bpf_sk_assign_def bpf_ktime_get_boot_ns_def bpf_seq_printf_def bpf_seq_write_def
  bpf_sk_cgroup_id_def bpf_sk_ancestor_cgroup_id_def bpf_ringbuf_output_def
  bpf_ringbuf_reserve_def bpf_ringbuf_submit_def bpf_ringbuf_discard_def
  bpf_ringbuf_query_def bpf_csum_level_def bpf_skc_to_tcp6_sock_def bpf_skc_to_tcp_sock_def
  bpf_skc_to_tcp_timewait_sock_def bpf_skc_to_tcp_request_sock_def bpf_skc_to_udp6_sock_def
  bpf_get_task_stack_def bpf_load_hdr_opt_def bpf_store_hdr_opt_def bpf_reserve_hdr_opt_def
  bpf_inode_storage_get_def bpf_inode_storage_delete_def bpf_d_path_def
  bpf_copy_from_user_def bpf_snprintf_btf_def bpf_seq_printf_btf_def

definition helpers_6 :: "helper list" where
  "helpers_6 =
     [bpf_skb_cgroup_classid, bpf_redirect_neigh, bpf_per_cpu_ptr, bpf_this_cpu_ptr,
      bpf_redirect_peer, bpf_task_storage_get, bpf_task_storage_delete,
      bpf_get_current_task_btf, bpf_bprm_opts_set, bpf_ktime_get_coarse_ns,
      bpf_ima_inode_hash, bpf_sock_from_file, bpf_check_mtu, bpf_for_each_map_elem,
      bpf_snprintf, bpf_sys_bpf, bpf_btf_find_by_name_kind, bpf_sys_close,
      bpf_timer_init, bpf_timer_set_callback, bpf_timer_start, bpf_timer_cancel,
      bpf_get_func_ip, bpf_get_attach_cookie, bpf_task_pt_regs,
      bpf_get_branch_snapshot, bpf_trace_vprintk, bpf_skc_to_unix_sock,
      bpf_kallsyms_lookup_name, bpf_find_vma]"

lemmas helpers_6_defs = helpers_6_def
  bpf_skb_cgroup_classid_def bpf_redirect_neigh_def bpf_per_cpu_ptr_def bpf_this_cpu_ptr_def
  bpf_redirect_peer_def bpf_task_storage_get_def bpf_task_storage_delete_def
  bpf_get_current_task_btf_def bpf_bprm_opts_set_def bpf_ktime_get_coarse_ns_def
  bpf_ima_inode_hash_def bpf_sock_from_file_def bpf_check_mtu_def bpf_for_each_map_elem_def
  bpf_snprintf_def bpf_sys_bpf_def bpf_btf_find_by_name_kind_def bpf_sys_close_def
  bpf_timer_init_def bpf_timer_set_callback_def bpf_timer_start_def bpf_timer_cancel_def
  bpf_get_func_ip_def bpf_get_attach_cookie_def bpf_task_pt_regs_def
  bpf_get_branch_snapshot_def bpf_trace_vprintk_def bpf_skc_to_unix_sock_def
  bpf_kallsyms_lookup_name_def bpf_find_vma_def

definition helpers :: "helper list" where
  "helpers = helpers_1 @ helpers_2 @ helpers_3 @ helpers_4 @ helpers_5 @ helpers_6"

section \<open>The kernel's numbering\<close>

text \<open>
  The enumerators of \<open>enum bpf_func_id\<close> without their prefix \<open>BPF_FUNC_\<close>, in order, in
  two parts; \<open>__BPF_FUNC_MAX_ID\<close> is their number.
\<close>

definition func_ids_low :: "string list" where
  "func_ids_low =
    [''unspec'', ''map_lookup_elem'', ''map_update_elem'', ''map_delete_elem'',
     ''probe_read'', ''ktime_get_ns'', ''trace_printk'', ''get_prandom_u32'',
     ''get_smp_processor_id'', ''skb_store_bytes'', ''l3_csum_replace'',
     ''l4_csum_replace'', ''tail_call'', ''clone_redirect'', ''get_current_pid_tgid'',
     ''get_current_uid_gid'', ''get_current_comm'', ''get_cgroup_classid'',
     ''skb_vlan_push'', ''skb_vlan_pop'', ''skb_get_tunnel_key'',
     ''skb_set_tunnel_key'', ''perf_event_read'', ''redirect'', ''get_route_realm'',
     ''perf_event_output'', ''skb_load_bytes'', ''get_stackid'', ''csum_diff'',
     ''skb_get_tunnel_opt'', ''skb_set_tunnel_opt'', ''skb_change_proto'',
     ''skb_change_type'', ''skb_under_cgroup'', ''get_hash_recalc'',
     ''get_current_task'', ''probe_write_user'', ''current_task_under_cgroup'',
     ''skb_change_tail'', ''skb_pull_data'', ''csum_update'', ''set_hash_invalid'',
     ''get_numa_node_id'', ''skb_change_head'', ''xdp_adjust_head'', ''probe_read_str'',
     ''get_socket_cookie'', ''get_socket_uid'', ''set_hash'', ''setsockopt'',
     ''skb_adjust_room'', ''redirect_map'', ''sk_redirect_map'', ''sock_map_update'',
     ''xdp_adjust_meta'', ''perf_event_read_value'', ''perf_prog_read_value'',
     ''getsockopt'', ''override_return'', ''sock_ops_cb_flags_set'',
     ''msg_redirect_map'', ''msg_apply_bytes'', ''msg_cork_bytes'', ''msg_pull_data'',
     ''bind'', ''xdp_adjust_tail'', ''skb_get_xfrm_state'', ''get_stack'',
     ''skb_load_bytes_relative'', ''fib_lookup'', ''sock_hash_update'',
     ''msg_redirect_hash'', ''sk_redirect_hash'', ''lwt_push_encap'',
     ''lwt_seg6_store_bytes'', ''lwt_seg6_adjust_srh'', ''lwt_seg6_action'',
     ''rc_repeat'', ''rc_keydown'', ''skb_cgroup_id'', ''get_current_cgroup_id'',
     ''get_local_storage'', ''sk_select_reuseport'', ''skb_ancestor_cgroup_id'',
     ''sk_lookup_tcp'', ''sk_lookup_udp'', ''sk_release'', ''map_push_elem'',
     ''map_pop_elem'', ''map_peek_elem'', ''msg_push_data'', ''msg_pop_data'',
     ''rc_pointer_rel'', ''spin_lock'', ''spin_unlock'', ''sk_fullsock'', ''tcp_sock'',
     ''skb_ecn_set_ce'', ''get_listener_sock'', ''skc_lookup_tcp'']"

definition func_ids_high :: "string list" where
  "func_ids_high =
    [''tcp_check_syncookie'', ''sysctl_get_name'', ''sysctl_get_current_value'',
     ''sysctl_get_new_value'', ''sysctl_set_new_value'', ''strtol'', ''strtoul'',
     ''sk_storage_get'', ''sk_storage_delete'', ''send_signal'', ''tcp_gen_syncookie'',
     ''skb_output'', ''probe_read_user'', ''probe_read_kernel'',
     ''probe_read_user_str'', ''probe_read_kernel_str'', ''tcp_send_ack'',
     ''send_signal_thread'', ''jiffies64'', ''read_branch_records'',
     ''get_ns_current_pid_tgid'', ''xdp_output'', ''get_netns_cookie'',
     ''get_current_ancestor_cgroup_id'', ''sk_assign'', ''ktime_get_boot_ns'',
     ''seq_printf'', ''seq_write'', ''sk_cgroup_id'', ''sk_ancestor_cgroup_id'',
     ''ringbuf_output'', ''ringbuf_reserve'', ''ringbuf_submit'', ''ringbuf_discard'',
     ''ringbuf_query'', ''csum_level'', ''skc_to_tcp6_sock'', ''skc_to_tcp_sock'',
     ''skc_to_tcp_timewait_sock'', ''skc_to_tcp_request_sock'', ''skc_to_udp6_sock'',
     ''get_task_stack'', ''load_hdr_opt'', ''store_hdr_opt'', ''reserve_hdr_opt'',
     ''inode_storage_get'', ''inode_storage_delete'', ''d_path'', ''copy_from_user'',
     ''snprintf_btf'', ''seq_printf_btf'', ''skb_cgroup_classid'', ''redirect_neigh'',
     ''per_cpu_ptr'', ''this_cpu_ptr'', ''redirect_peer'', ''task_storage_get'',
     ''task_storage_delete'', ''get_current_task_btf'', ''bprm_opts_set'',
     ''ktime_get_coarse_ns'', ''ima_inode_hash'', ''sock_from_file'', ''check_mtu'',
     ''for_each_map_elem'', ''snprintf'', ''sys_bpf'', ''btf_find_by_name_kind'',
     ''sys_close'', ''timer_init'', ''timer_set_callback'', ''timer_start'',
     ''timer_cancel'', ''get_func_ip'', ''get_attach_cookie'', ''task_pt_regs'']"

definition bpf_func_id :: "string list" where
  "bpf_func_id = func_ids_low @ func_ids_high"

definition BPF_FUNC_MAX_ID :: nat where
  "BPF_FUNC_MAX_ID = 176"

section \<open>Laws of the table\<close>

lemma helper_ids_1: "map h_id helpers_1 = [1..<31]" "map h_id helpers_2 = [31..<61]"
  "map h_id helpers_3 = [61..<91]"
  by (simp_all add: helpers_1_defs helpers_2_defs helpers_3_defs upt_rec)

lemma helper_ids_2: "map h_id helpers_4 = [91..<121]" "map h_id helpers_5 = [121..<151]"
  "map h_id helpers_6 = [151..<181]"
  by (simp_all add: helpers_4_defs helpers_5_defs helpers_6_defs upt_rec)

lemma helper_ids: "map h_id helpers = [1..<181]"
proof -
  have "[1..<31] @ [31..<61] @ [61..<91] @ [91..<121] @ [121..<151] @ [151..<181] = [1..<181 :: nat]"
    by (simp add: upt_rec)
  then show ?thesis by (simp only: helpers_def map_append helper_ids_1 helper_ids_2)
qed

lemma helper_names:
  "map h_name helpers_1 @ map h_name helpers_2 @ map h_name helpers_3 @ map h_name helpers_4
     @ map h_name helpers_5 @ take 25 (map h_name helpers_6) = tl bpf_func_id"
  by (simp add: helpers_1_defs helpers_2_defs helpers_3_defs helpers_4_defs helpers_5_defs
      helpers_6_defs bpf_func_id_def func_ids_low_def func_ids_high_def)

end
