(* ===== verification/Ftrace_Helper_Calls.thy ===== *)
theory Ftrace_Helper_Calls
  imports Ftrace_Examples Bpf_Helpers
begin

text \<open>
  The helper calls of \<open>src/internal/bpf/ftrace.c\<close> against the declarations of
  \<open>Bpf_Helpers\<close>, and the rewriting by which \<open>src/internal/bpf/pid_helper_compat.go\<close>
  makes the program loadable on kernels without \<open>bpf_get_ns_current_pid_tgid\<close>.
\<close>

section \<open>Call sites\<close>

datatype argk = Addr | Num

type_synonym call_site = "helper \<times> argk list"

fun passes_as :: "argk \<Rightarrow> ctyp \<Rightarrow> bool" where
  "passes_as Addr (Ptr b) = True"
| "passes_as Addr (Const_ptr b) = True"
| "passes_as Num (Plain b) = True"
| "passes_as _ _ = False"

definition call_typed :: "call_site \<Rightarrow> bool" where
  "call_typed site \<longleftrightarrow> list_all2 passes_as (snd site) (map snd (h_params (fst site)))"

text \<open>The calls in each function of the program, in the order of the text.\<close>

definition calls_get_goid :: "call_site list" where
  "calls_get_goid =
     [(bpf_get_current_task, []), (bpf_probe_read_kernel, [Addr, Num, Addr]),
      (bpf_probe_read_user, [Addr, Num, Addr]), (bpf_probe_read_user, [Addr, Num, Addr])]"

definition calls_get_pid :: "call_site list" where
  "calls_get_pid =
     [(bpf_get_ns_current_pid_tgid, [Num, Num, Addr, Num]), (bpf_get_current_pid_tgid, [])]"

definition calls_read_reg :: "call_site list" where
  "calls_read_reg = replicate 16 (bpf_probe_read_kernel, [Addr, Num, Addr])"

definition calls_load_arg_word :: "call_site list" where
  "calls_load_arg_word = replicate 8 (bpf_probe_read_kernel, [Addr, Num, Addr])"

definition calls_fetching :: "call_site list" where
  "calls_fetching =
     [(bpf_probe_read_user, [Addr, Num, Addr]), (bpf_probe_read_user, [Addr, Num, Addr]),
      (bpf_probe_read_user, [Addr, Num, Addr]), (bpf_probe_read_user, [Addr, Num, Addr]),
      (bpf_map_lookup_elem, [Addr, Addr]), (bpf_map_lookup_elem, [Addr, Addr])]"

definition calls_sampling :: "call_site list" where
  "calls_sampling =
     [(bpf_map_lookup_elem, [Addr, Addr]), (bpf_map_lookup_elem, [Addr, Addr]),
      (bpf_get_prandom_u32, []), (bpf_map_push_elem, [Addr, Addr, Num])]"

definition calls_ent :: "call_site list" where
  "calls_ent =
     [(bpf_map_lookup_elem, [Addr, Addr]), (bpf_map_lookup_elem, [Addr, Addr]),
      (bpf_map_lookup_elem, [Addr, Addr]), (bpf_map_update_elem, [Addr, Addr, Addr, Num]),
      (bpf_ktime_get_ns, []), (bpf_probe_read_user, [Addr, Num, Addr]),
      (bpf_map_delete_elem, [Addr, Addr])]"

definition calls_ret :: "call_site list" where
  "calls_ret =
     [(bpf_map_lookup_elem, [Addr, Addr]), (bpf_map_lookup_elem, [Addr, Addr]),
      (bpf_ktime_get_ns, []), (bpf_map_lookup_elem, [Addr, Addr]),
      (bpf_map_delete_elem, [Addr, Addr])]"

definition calls_goroutine_exit :: "call_site list" where
  "calls_goroutine_exit =
     [(bpf_map_lookup_elem, [Addr, Addr]), (bpf_map_lookup_elem, [Addr, Addr]),
      (bpf_map_delete_elem, [Addr, Addr])]"

definition program_calls :: "call_site list" where
  "program_calls =
     calls_get_goid @ calls_get_pid @ calls_read_reg @ calls_load_arg_word @ calls_fetching @
     calls_sampling @ calls_ent @ calls_ret @ calls_goroutine_exit"

lemmas program_calls_defs = program_calls_def calls_get_goid_def calls_get_pid_def calls_read_reg_def
  calls_load_arg_word_def calls_fetching_def calls_sampling_def calls_ent_def calls_ret_def
  calls_goroutine_exit_def

lemmas called_helpers = bpf_get_current_task_def bpf_probe_read_kernel_def bpf_probe_read_user_def
  bpf_get_ns_current_pid_tgid_def bpf_get_current_pid_tgid_def bpf_map_lookup_elem_def
  bpf_map_update_elem_def bpf_map_delete_elem_def bpf_map_push_elem_def bpf_ktime_get_ns_def
  bpf_get_prandom_u32_def

text \<open>The helpers whose result the program compares with zero.\<close>

definition status_checked :: "helper list" where
  "status_checked =
     [bpf_get_ns_current_pid_tgid, bpf_probe_read_user, bpf_map_push_elem, bpf_map_update_elem]"

section \<open>Rewriting the namespaced pid helper\<close>

text \<open>
  The instructions as the rewriting sees them: calls with their constant, the move of an
  immediate into a register, and all others, which it copies. A program may be missing
  (\<open>nil\<close>), and so may the collection.
\<close>

datatype insn = Call_insn int | Mov_imm nat int | Other_insn nat

definition fn_get_ns_current_pid_tgid :: int where
  "fn_get_ns_current_pid_tgid = int (h_id bpf_get_ns_current_pid_tgid)"

fun patch_insn :: "insn \<Rightarrow> insn" where
  "patch_insn (Call_insn c) = (if c \<noteq> fn_get_ns_current_pid_tgid then Call_insn c else Mov_imm 0 (-1))"
| "patch_insn i = i"

fun patch_prog :: "insn list \<Rightarrow> insn list \<times> nat" where
  "patch_prog [] = ([], 0)"
| "patch_prog (i # is) =
     (case patch_prog is of
        (js, n) \<Rightarrow> (patch_insn i # js, if i = Call_insn fn_get_ns_current_pid_tgid then Suc n else n))"

fun patch_progs :: "insn list option list \<Rightarrow> insn list option list \<times> nat" where
  "patch_progs [] = ([], 0)"
| "patch_progs (None # ps) = (case patch_progs ps of (qs, n) \<Rightarrow> (None # qs, n))"
| "patch_progs (Some p # ps) =
     (case (patch_prog p, patch_progs ps) of ((q, m), (qs, n)) \<Rightarrow> (Some q # qs, m + n))"

fun disable_ns_pid_helper ::
    "insn list option list option \<Rightarrow> insn list option list option \<times> nat" where
  "disable_ns_pid_helper None = (None, 0)"
| "disable_ns_pid_helper (Some ps) = (case patch_progs ps of (qs, n) \<Rightarrow> (Some qs, n))"

definition insns :: "insn list option list option \<Rightarrow> insn list" where
  "insns spec = (case spec of None \<Rightarrow> [] | Some ps \<Rightarrow> concat (map (\<lambda>p. case p of None \<Rightarrow> [] | Some is \<Rightarrow> is) ps))"

lemma patch_prog_map: "fst (patch_prog p) = map patch_insn p"
  by (induction p) (simp_all add: case_prod_beta)

lemma patch_prog_count: "snd (patch_prog p) = count_list p (Call_insn fn_get_ns_current_pid_tgid)"
  by (induction p) (simp_all add: case_prod_beta)

lemma patch_progs_map:
  "fst (patch_progs ps) = map (map_option (map patch_insn)) ps"
  by (induction ps rule: patch_progs.induct) (simp_all add: case_prod_beta patch_prog_map)

lemma patch_progs_count:
  "snd (patch_progs ps) =
     count_list (concat (map (\<lambda>p. case p of None \<Rightarrow> [] | Some is \<Rightarrow> is) ps))
       (Call_insn fn_get_ns_current_pid_tgid)"
  by (induction ps rule: patch_progs.induct) (simp_all add: case_prod_beta patch_prog_count)

lemma insns_patched: "insns (fst (disable_ns_pid_helper spec)) = map patch_insn (insns spec)"
proof (cases spec)
  case None
  then show ?thesis by (simp add: insns_def)
next
  case (Some ps)
  have "concat (map (\<lambda>p. case p of None \<Rightarrow> [] | Some is \<Rightarrow> is) (map (map_option (map patch_insn)) ps)) =
      map patch_insn (concat (map (\<lambda>p. case p of None \<Rightarrow> [] | Some is \<Rightarrow> is) ps))"
    by (induction ps) (simp_all split: option.split)
  then show ?thesis by (simp add: Some insns_def case_prod_beta patch_progs_map)
qed

lemma patch_insn_safe: "patch_insn i \<noteq> Call_insn fn_get_ns_current_pid_tgid"
  by (cases i) simp_all

lemma patch_insn_keeps: "i \<noteq> Call_insn fn_get_ns_current_pid_tgid \<Longrightarrow> patch_insn i = i"
  by (cases i) simp_all

section \<open>Properties\<close>

text \<open>The declared helper table is sound: its 180 declarations carry the numbers 1 to 180 in
  order, so a call instruction names one helper only, and up to the maximum the kernel header
  knows every declaration has the name the kernel's enumeration gives its number; the header
  of helper declarations is newer by the last five.\<close>

lemma helper_table_sound:
  "map h_id helpers = [1..<181] \<and>
   map h_name (take 175 helpers) = tl bpf_func_id \<and>
   length bpf_func_id = BPF_FUNC_MAX_ID \<and>
   length (filter (\<lambda>h. BPF_FUNC_MAX_ID \<le> h_id h) helpers) = 5"
proof -
  have len: "length helpers_1 = 30" "length helpers_2 = 30" "length helpers_3 = 30"
    "length helpers_4 = 30" "length helpers_5 = 30" "length helpers_6 = 30"
    using arg_cong [OF helper_ids_1(1), of length] arg_cong [OF helper_ids_1(2), of length]
      arg_cong [OF helper_ids_1(3), of length] arg_cong [OF helper_ids_2(1), of length]
      arg_cong [OF helper_ids_2(2), of length] arg_cong [OF helper_ids_2(3), of length] by simp_all
  have names: "map h_name (take 175 helpers) = tl bpf_func_id"
    unfolding helpers_def helper_names [symmetric] by (simp add: len take_map)
  have n: "length bpf_func_id = BPF_FUNC_MAX_ID"
    by (simp add: bpf_func_id_def func_ids_low_def func_ids_high_def BPF_FUNC_MAX_ID_def)
  have "length (filter (\<lambda>h. BPF_FUNC_MAX_ID \<le> h_id h) helpers) =
      length (filter (\<lambda>i. BPF_FUNC_MAX_ID \<le> i) (map h_id helpers))"
    by (simp add: filter_map comp_def)
  also have "\<dots> = 5"
    unfolding helper_ids BPF_FUNC_MAX_ID_def by (simp add: upt_rec)
  finally show ?thesis using helper_ids names n by blast
qed


text \<open>Rewriting the collection for an older kernel removes every call of the namespaced pid
  helper, reports how many there were, leaves every other instruction as it is and keeps the
  number of instructions.\<close>

lemma patched_program_loadable:
  "Call_insn fn_get_ns_current_pid_tgid \<notin> set (insns (fst (disable_ns_pid_helper spec))) \<and>
   snd (disable_ns_pid_helper spec) = count_list (insns spec) (Call_insn fn_get_ns_current_pid_tgid) \<and>
   length (insns (fst (disable_ns_pid_helper spec))) = length (insns spec) \<and>
   filter (\<lambda>i. i \<noteq> Mov_imm 0 (-1)) (insns (fst (disable_ns_pid_helper spec))) =
   filter (\<lambda>i. i \<noteq> Mov_imm 0 (-1) \<and> i \<noteq> Call_insn fn_get_ns_current_pid_tgid) (insns spec)"
proof -
  have "filter (\<lambda>i. i \<noteq> Mov_imm 0 (-1)) (map patch_insn is) =
      filter (\<lambda>i. i \<noteq> Mov_imm 0 (-1) \<and> i \<noteq> Call_insn fn_get_ns_current_pid_tgid) is" for "is"
  proof (induction "is")
    case Nil
    then show ?case by simp
  next
    case (Cons i "is")
    then show ?case by (cases "i = Call_insn fn_get_ns_current_pid_tgid") (simp_all add: patch_insn_keeps)
  qed
  moreover have "snd (disable_ns_pid_helper spec) = count_list (insns spec) (Call_insn fn_get_ns_current_pid_tgid)"
    by (cases spec) (simp_all add: insns_def case_prod_beta patch_progs_count)
  ultimately show ?thesis
    using patch_insn_safe unfolding insns_patched by (auto simp: eq_commute)
qed

text \<open>In a rewritten program, where the helper's result is -1 and the namespace information
  stays as it was initialised, the program reports the process id of the initial namespace,
  whatever the configuration says.\<close>

lemma patched_pid:
  "get_pid cfg (env\<lparr>k_ns_pid_tgid := (\<lambda>dev ino. (-1, \<lparr>nsi_pid = 0, nsi_tgid = 0\<rparr>))\<rparr>) =
     ucast (drop_bit 32 (k_pid_tgid env))"
  by (simp add: get_pid_def)

end
