(* ===== verification/Ftrace_Sampler.thy ===== *)
theory Ftrace_Sampler
  imports Complex_Main Ftrace_Calls
begin

text \<open>
  The adaptive sampling controller: \<open>src/cmd/sampler.go\<close> and the sampling clock of
  \<open>Start\<close> in \<open>src/cmd/tracer.go\<close>, over the statistics and the rate of the BPF program.
\<close>

section \<open>The sampler\<close>

definition maxSampleDenominator :: u32 where
  "maxSampleDenominator = 1048576"

definition recoverStableWindows :: nat where
  "recoverStableWindows = 5"

definition unlockStableWindows :: nat where
  "unlockStableWindows = 15"

record adaptive_sampler =
  sm_memory_limit :: u64
  sm_den :: u32
  sm_unsafe_den :: u32
  sm_stable_windows :: nat

definition new_adaptive_sampler :: "u64 \<Rightarrow> adaptive_sampler" where
  "new_adaptive_sampler limit =
     \<lparr>sm_memory_limit = limit, sm_den = 1, sm_unsafe_den = 0, sm_stable_windows = 0\<rparr>"

text \<open>
  What the sampler computes in floating point is a parameter: the loss rate of a window with
  its dropped and produced events, the rate of an empty one, whether a rate is above the noise
  threshold, and the denominator that \<open>lossRaisedDenominator\<close> rounds up to.
\<close>

record 'f floats =
  fl_ratio :: "u64 \<Rightarrow> u64 \<Rightarrow> 'f"
  fl_zero :: 'f
  fl_noisy :: "'f \<Rightarrow> bool"
  fl_break_even :: "u32 \<Rightarrow> 'f \<Rightarrow> u32"

definition percent :: "u64 \<Rightarrow> u64 \<Rightarrow> u64" where
  "percent v p = v div 100 * p + v mod 100 * p div 100"

definition heap_target :: "adaptive_sampler \<Rightarrow> u64 \<Rightarrow> u32" where
  "heap_target s heap_alloc =
     (if heap_alloc \<ge> sm_memory_limit s then maxSampleDenominator
      else if heap_alloc \<ge> percent (sm_memory_limit s) 85 then 64
      else if heap_alloc \<ge> percent (sm_memory_limit s) 70 then 8
      else if heap_alloc > percent (sm_memory_limit s) 45 then sm_den s
      else 1)"

definition loss_raised_denominator :: "'f floats \<Rightarrow> u32 \<Rightarrow> 'f \<Rightarrow> u32" where
  "loss_raised_denominator fl current loss_rate =
     (let raised = fl_break_even fl current loss_rate;
          raised = (if raised \<le> current then current + 1 else raised)
      in if raised > maxSampleDenominator then maxSampleDenominator else raised)"

text \<open>The feedback of the loss rate: the target and the sampler with floor and window count.\<close>

definition loss_feedback :: "'f floats \<Rightarrow> 'f \<Rightarrow> u32 \<Rightarrow> adaptive_sampler \<Rightarrow> u32 \<times> adaptive_sampler" where
  "loss_feedback fl loss_rate target s =
     (if fl_noisy fl loss_rate then
        (let s = s\<lparr>sm_stable_windows := 0\<rparr>;
             s = (if sm_den s > sm_unsafe_den s then s\<lparr>sm_unsafe_den := sm_den s\<rparr> else s);
             raised = loss_raised_denominator fl (sm_den s) loss_rate
         in (if raised > target then raised else target, s))
      else
        (let s = s\<lparr>sm_stable_windows := sm_stable_windows s + 1\<rparr>
         in (target,
             if sm_stable_windows s \<ge> unlockStableWindows
             then s\<lparr>sm_unsafe_den := sm_unsafe_den s div 2, sm_stable_windows := 0\<rparr> else s)))"

definition move_denominator :: "u32 \<Rightarrow> adaptive_sampler \<Rightarrow> adaptive_sampler" where
  "move_denominator target s =
     (if target > sm_den s then s\<lparr>sm_den := target, sm_stable_windows := 0\<rparr>
      else if target < sm_den s then
        (if sm_stable_windows s \<ge> recoverStableWindows \<and> sm_den s div 2 > sm_unsafe_den s then
           (let den = sm_den s div 2
            in s\<lparr>sm_den := if den < target then target else den, sm_stable_windows := 0\<rparr>)
         else s)
      else s)"

definition adjust :: "'f floats \<Rightarrow> u64 \<Rightarrow> 'f \<Rightarrow> adaptive_sampler \<Rightarrow> adaptive_sampler \<times> u32 \<times> bool" where
  "adjust fl heap_alloc loss_rate s =
     (let previous = sm_den s; target = heap_target s heap_alloc
      in case loss_feedback fl loss_rate target s of
           (target, s) \<Rightarrow>
             (let s = move_denominator target s in (s, sm_den s, sm_den s \<noteq> previous)))"

section \<open>Percentages\<close>

lemma percent_nat: "unat p \<le> 100 \<Longrightarrow> unat (percent v p) = unat v * unat p div 100"
proof -
  assume p: "unat p \<le> 100"
  let ?a = "unat v div 100" and ?b = "unat v mod 100"
  have v: "unat v < 18446744073709551616" using unsigned_less [of v] by simp
  have b: "?b * unat p \<le> 99 * 100" using p by (intro mult_mono) auto
  have a: "?a * unat p \<le> ?a * 100" using p by simp
  have m: "unat (v mod 100 * p) = ?b * unat p"
    using b by (simp add: unat_word_ariths unat_mod)
  have lt: "?a * unat p < 18446744073709551616"
    using a v div_times_less_eq_dividend [of "unat v" 100] by linarith
  have d: "unat (v div 100 * p) = ?a * unat p"
    using lt by (subst unat_mult_lem [THEN iffD1]) (simp_all add: unat_div)
  have s: "unat v * unat p div 100 = ?a * unat p + ?b * unat p div 100"
  proof -
    have split: "(100 * a + b) * q = b * q + a * q * 100" for a b q :: nat
      by (simp add: algebra_simps)
    have "unat v * unat p = ?b * unat p + ?a * unat p * 100"
      using split [of ?a ?b "unat p"] by (simp only: mult_div_mod_eq)
    then show ?thesis by (simp only: div_mult_self3 zero_neq_numeral)
  qed
  have "?b * unat p \<le> ?b * 100" using p by simp
  then have "?b * unat p div 100 \<le> ?b" by linarith
  then have "?a * unat p + ?b * unat p div 100 \<le> unat v"
    using a mult_div_mod_eq [of 100 "unat v"] by linarith
  then show ?thesis
    unfolding percent_def s using v
    by (subst unat_add_lem [THEN iffD1]) (simp_all add: m d unat_div)
qed


lemma percent_45_70: "4 \<le> unat limit \<Longrightarrow> heap \<le> percent limit 45 \<Longrightarrow> heap < percent limit 70 \<and> heap < percent limit 85 \<and> heap < limit"
proof -
  assume l: "4 \<le> unat limit" and h: "heap \<le> percent limit 45"
  have "unat heap \<le> unat limit * 45 div 100" using h by (simp add: word_le_nat_alt percent_nat)
  moreover have "unat limit * 45 div 100 < unat limit * 70 div 100" using l by simp
  moreover have "unat limit * 70 div 100 \<le> unat limit * 85 div 100" "unat limit * 85 div 100 \<le> unat limit"
    by simp_all
  ultimately show ?thesis by (simp add: word_less_nat_alt percent_nat)
qed

section \<open>Bounds\<close>

definition sampler_ok :: "adaptive_sampler \<Rightarrow> bool" where
  "sampler_ok s \<longleftrightarrow>
     1 \<le> sm_den s \<and> sm_den s \<le> maxSampleDenominator \<and> sm_unsafe_den s \<le> sm_den s \<and>
     sm_stable_windows s < unlockStableWindows"

definition window_step :: "'f floats \<Rightarrow> u64 \<times> 'f \<Rightarrow> adaptive_sampler \<Rightarrow> adaptive_sampler" where
  "window_step fl w s = fst (adjust fl (fst w) (snd w) s)"

lemma heap_target_bounds:
  "sampler_ok s \<Longrightarrow> 1 \<le> heap_target s h \<and> heap_target s h \<le> maxSampleDenominator"
  by (simp add: heap_target_def sampler_ok_def maxSampleDenominator_def)

lemma loss_raised_bounds:
  "c \<le> maxSampleDenominator \<Longrightarrow>
     1 \<le> loss_raised_denominator fl c r \<and> loss_raised_denominator fl c r \<le> maxSampleDenominator"
proof -
  assume c: "c \<le> maxSampleDenominator"
  have "unat (c + 1) = Suc (unat c)"
    using c by (simp add: maxSampleDenominator_def word_le_nat_alt unat_word_ariths)
  then have "1 \<le> (if q \<le> c then c + 1 else q)" for q :: u32
    by (simp add: word_le_nat_alt not_le)
  then show ?thesis
    by (simp add: loss_raised_denominator_def Let_def maxSampleDenominator_def not_less)
qed

lemma loss_feedback_ok:
  assumes "sampler_ok s" "1 \<le> t" "t \<le> maxSampleDenominator" "loss_feedback fl r t s = (t', s')"
  shows "sampler_ok s'" "1 \<le> t'" "t' \<le> maxSampleDenominator" "sm_den s' = sm_den s"
proof -
  have d: "sm_unsafe_den s div 2 \<le> sm_den s"
    using assms(1) le_trans [OF div_le_dividend] by (simp add: sampler_ok_def word_le_nat_alt unat_div)
  show "sampler_ok s'" "sm_den s' = sm_den s"
    using assms d
    by (auto simp: loss_feedback_def Let_def sampler_ok_def unlockStableWindows_def not_less split: if_splits)
  show "1 \<le> t'" "t' \<le> maxSampleDenominator"
    using assms loss_raised_bounds [of "sm_den s" fl r]
    by (auto simp: loss_feedback_def Let_def sampler_ok_def split: if_splits)
qed

lemma move_denominator_ok:
  assumes "sampler_ok s" "1 \<le> t" "t \<le> maxSampleDenominator"
  shows "sampler_ok (move_denominator t s)"
proof -
  have h: "sm_den s div 2 \<le> sm_den s" by (simp add: word_le_nat_alt unat_div)
  show ?thesis
    using assms h
    by (auto simp: move_denominator_def Let_def sampler_ok_def unlockStableWindows_def not_less)
qed

lemma window_step_ok: "sampler_ok s \<Longrightarrow> sampler_ok (window_step fl w s)"
proof -
  assume s: "sampler_ok s"
  obtain t' s' where f: "loss_feedback fl (snd w) (heap_target s (fst w)) s = (t', s')"
    by (cases "loss_feedback fl (snd w) (heap_target s (fst w)) s")
  have t: "1 \<le> heap_target s (fst w)" "heap_target s (fst w) \<le> maxSampleDenominator"
    using heap_target_bounds [OF s] by simp_all
  note b = loss_feedback_ok [OF s t f]
  show ?thesis
    using move_denominator_ok [OF b(1-3)] by (simp add: window_step_def adjust_def f Let_def)
qed


section \<open>Recovery\<close>

fun bits :: "nat \<Rightarrow> nat" where
  "bits n = (if n = 0 then 0 else Suc (bits (n div 2)))"

declare bits.simps [simp del]

lemma bits_half: "0 < n \<Longrightarrow> bits n = Suc (bits (n div 2))"
  by (subst bits.simps) simp

lemma bits_bound: "n < 2 ^ k \<Longrightarrow> bits n \<le> k"
proof (induction k arbitrary: n)
  case 0
  then show ?case by (simp add: bits.simps)
next
  case (Suc k)
  then show ?case by (cases "n = 0") (auto simp: bits_half bits.simps [of 0])
qed

text \<open>
  Quiet windows until the next halving of the denominator or of the unsafe floor, and the
  distance from the denominator 1 that each of them shortens.
\<close>

definition wait :: "nat \<Rightarrow> nat \<Rightarrow> nat \<Rightarrow> nat" where
  "wait d u n = (if d div 2 > u then (if n = 14 then 6 else max 1 (5 - n)) else 15 - n)"

definition recovery_distance :: "adaptive_sampler \<Rightarrow> nat" where
  "recovery_distance s =
     (let d = unat (sm_den s); u = unat (sm_unsafe_den s)
      in 16 * (bits d + bits u) + wait d u (sm_stable_windows s))"

definition quiet :: "'f floats \<Rightarrow> u64 \<Rightarrow> u64 \<times> 'f \<Rightarrow> bool" where
  "quiet fl limit w \<longleftrightarrow> fst w \<le> percent limit 45 \<and> \<not> fl_noisy fl (snd w)"

lemma wait_bounds: "n < 15 \<Longrightarrow> wait d u n \<le> 15" "n < 15 \<Longrightarrow> 1 \<le> wait d u n"
  by (auto simp: wait_def)

text \<open>The numbers a quiet window moves the sampler to.\<close>

definition quiet_next :: "nat \<Rightarrow> nat \<Rightarrow> nat \<Rightarrow> nat \<times> nat \<times> nat" where
  "quiet_next d u n =
     (if n = 14 then (d, u div 2, 0)
      else if 4 \<le> n \<and> d div 2 > u then (d div 2, u, 0)
      else (d, u, n + 1))"

lemma quiet_target:
  "4 \<le> unat (sm_memory_limit s) \<Longrightarrow> quiet fl (sm_memory_limit s) w \<Longrightarrow> heap_target s (fst w) = 1"
  using percent_45_70 [of "sm_memory_limit s" "fst w"] by (auto simp: heap_target_def quiet_def dest: leD)

lemma quiet_step:
  assumes "sampler_ok s" "4 \<le> unat (sm_memory_limit s)" "quiet fl (sm_memory_limit s) w" "sm_den s \<noteq> 1"
  shows "(unat (sm_den (window_step fl w s)), unat (sm_unsafe_den (window_step fl w s)),
      sm_stable_windows (window_step fl w s)) =
    quiet_next (unat (sm_den s)) (unat (sm_unsafe_den s)) (sm_stable_windows s)"
proof -
  have t: "heap_target s (fst w) = 1"
    by (rule quiet_target [OF assms(2,3)])
  have d: "1 < sm_den s" using assms(1,4) by (simp add: sampler_ok_def order.strict_iff_order)
  then have one: "\<not> sm_den s div 2 < 1"
    by (simp add: word_less_nat_alt unat_div not_less)
  have n: "sm_stable_windows s < 15" using assms(1) by (simp add: sampler_ok_def unlockStableWindows_def)
  have q: "\<not> fl_noisy fl (snd w)" using assms(3) by (simp add: quiet_def)
  have half: "sm_unsafe_den s < sm_den s div 2 \<longleftrightarrow> unat (sm_unsafe_den s) < unat (sm_den s) div 2"
    by (simp add: word_less_nat_alt unat_div)
  show ?thesis
    using d one n q
    by (auto simp: window_step_def adjust_def t loss_feedback_def move_denominator_def Let_def quiet_next_def
        unlockStableWindows_def recoverStableWindows_def half unat_div)
qed

lemma quiet_distance:
  assumes "2 \<le> d" "u \<le> d" "n < 15" "quiet_next d u n = (d', u', n')"
  shows "16 * (bits d' + bits u') + wait d' u' n' < 16 * (bits d + bits u) + wait d u n"
proof -
  consider (floor) "n = 14" "0 < u" | (reset) "n = 14" "u = 0" | (halve) "n < 14" "4 \<le> n" "d div 2 > u"
    | (count) "n < 14" "\<not> (4 \<le> n \<and> d div 2 > u)"
    using assms(3) by linarith
  then show ?thesis
  proof cases
    case floor
    then have "d' = d" "u' = u div 2" "n' = 0" using assms(4) by (auto simp: quiet_next_def)
    then show ?thesis
      using bits_half [OF floor(2)] wait_bounds(1) [of n' d' u'] wait_bounds(2) [OF assms(3), of d u] by simp
  next
    case reset
    then have "d' = d" "u' = 0" "n' = 0" using assms(4) by (auto simp: quiet_next_def)
    then show ?thesis using reset assms(1) by (simp add: wait_def)
  next
    case halve
    then have "d' = d div 2" "u' = u" "n' = 0" using assms(4) by (auto simp: quiet_next_def)
    then show ?thesis
      using bits_half [of d] assms(1) wait_bounds(1) [of n' d' u'] wait_bounds(2) [OF assms(3), of d u] by simp
  next
    case count
    then have "d' = d" "u' = u" "n' = n + 1" using assms(4) by (auto simp: quiet_next_def split: if_splits)
    then show ?thesis using count by (auto simp: wait_def)
  qed
qed

lemma window_step_limit [simp]: "sm_memory_limit (window_step fl w s) = sm_memory_limit s"
  by (simp add: window_step_def adjust_def loss_feedback_def move_denominator_def Let_def)

lemma quiet_one:
  assumes "sampler_ok s" "4 \<le> unat (sm_memory_limit s)" "quiet fl (sm_memory_limit s) w" "sm_den s = 1"
  shows "sm_den (window_step fl w s) = 1"
proof -
  have t: "heap_target s (fst w) = 1"
    by (rule quiet_target [OF assms(2,3)])
  show ?thesis
    using assms(3,4)
    by (simp add: window_step_def adjust_def t loss_feedback_def move_denominator_def Let_def quiet_def)
qed

definition sampler_inv :: "u64 \<Rightarrow> adaptive_sampler \<Rightarrow> bool" where
  "sampler_inv limit s \<longleftrightarrow> sampler_ok s \<and> sm_memory_limit s = limit \<and> 4 \<le> unat limit"

text \<open>Any window keeps the bounds; a quiet one also brings the denominator closer to 1.\<close>

interpretation windows: invariant_machine "window_step fl" "\<lambda>w. True" sampler_ok for fl
  by unfold_locales (rule window_step_ok)

interpretation recovery: progress_machine "window_step fl" "quiet fl limit" "sampler_inv limit"
    "\<lambda>s. sm_den s = 1" recovery_distance for fl limit
proof unfold_locales
  fix w s
  assume w: "quiet fl limit w" and s: "sampler_inv limit s"
  then have a: "sampler_ok s" "4 \<le> unat (sm_memory_limit s)" "quiet fl (sm_memory_limit s) w"
    by (auto simp: sampler_inv_def)
  show "sampler_inv limit (window_step fl w s)"
    using s by (simp add: sampler_inv_def window_step_ok)
  show "sm_den s = 1 \<Longrightarrow> sm_den (window_step fl w s) = 1"
    by (rule quiet_one [OF a])
  assume ne: "sm_den s \<noteq> 1"
  then have "1 < sm_den s" using a(1) by (simp add: sampler_ok_def order.strict_iff_order)
  then have d: "2 \<le> unat (sm_den s)" "unat (sm_unsafe_den s) \<le> unat (sm_den s)" "sm_stable_windows s < 15"
    using a(1) by (simp_all add: sampler_ok_def word_le_nat_alt word_less_nat_alt unlockStableWindows_def)
  show "recovery_distance (window_step fl w s) < recovery_distance s"
    using quiet_distance [OF d quiet_step [OF a ne, symmetric]] by (simp add: recovery_distance_def Let_def)
qed

lemma distance_bound: "sampler_ok s \<Longrightarrow> recovery_distance s < 688"
proof -
  assume s: "sampler_ok s"
  then have "unat (sm_den s) < 2 ^ 21" "unat (sm_unsafe_den s) < 2 ^ 21"
    by (auto simp: sampler_ok_def word_le_nat_alt maxSampleDenominator_def)
  then have "bits (unat (sm_den s)) \<le> 21" "bits (unat (sm_unsafe_den s)) \<le> 21"
    by (auto intro: bits_bound)
  moreover have "wait (unat (sm_den s)) (unat (sm_unsafe_den s)) (sm_stable_windows s) \<le> 15"
    using s by (intro wait_bounds) (simp add: sampler_ok_def unlockStableWindows_def)
  ultimately show ?thesis by (simp add: recovery_distance_def Let_def)
qed


section \<open>The sampling loop\<close>

text \<open>
  \<open>ReadRuntimeStats\<close>: the sum over the CPUs' entries.
\<close>

definition add_stats :: "runtime_stats \<Rightarrow> runtime_stats \<Rightarrow> runtime_stats" where
  "add_stats v t =
     \<lparr>rs_wanted_roots = rs_wanted_roots t + rs_wanted_roots v,
      rs_admitted_roots = rs_admitted_roots t + rs_admitted_roots v,
      rs_sampled_out_roots = rs_sampled_out_roots t + rs_sampled_out_roots v,
      rs_emitted_events = rs_emitted_events t + rs_emitted_events v,
      rs_dropped_events = rs_dropped_events t + rs_dropped_events v,
      rs_aborted_roots = rs_aborted_roots t + rs_aborted_roots v,
      rs_state_insert_failures = rs_state_insert_failures t + rs_state_insert_failures v\<rparr>"

definition zero_stats :: runtime_stats where
  "zero_stats =
     \<lparr>rs_wanted_roots = 0, rs_admitted_roots = 0, rs_sampled_out_roots = 0, rs_emitted_events = 0,
      rs_dropped_events = 0, rs_aborted_roots = 0, rs_state_insert_failures = 0\<rparr>"

definition read_runtime_stats :: "nat \<Rightarrow> bpf_state \<Rightarrow> runtime_stats" where
  "read_runtime_stats ncpu st =
     fold add_stats
       (map (\<lambda>cpu. case runtime_stats_map st cpu of None \<Rightarrow> zero_stats | Some v \<Rightarrow> v) [0..<ncpu]) zero_stats"

record controller =
  ct_sampler :: adaptive_sampler
  ct_last_emitted :: u64
  ct_last_dropped :: u64

definition loss_rate_since :: "'f floats \<Rightarrow> runtime_stats \<Rightarrow> controller \<Rightarrow> 'f \<times> controller" where
  "loss_rate_since fl stats c =
     (let window_emitted = rs_emitted_events stats - ct_last_emitted c;
          window_dropped = rs_dropped_events stats - ct_last_dropped c;
          c = c\<lparr>ct_last_emitted := rs_emitted_events stats, ct_last_dropped := rs_dropped_events stats\<rparr>;
          total = window_emitted + window_dropped
      in (if total = 0 then fl_zero fl else fl_ratio fl window_dropped total, c))"

text \<open>One tick of the sampling clock, and what may happen between ticks: hits, polls and new
  recipes.\<close>

definition sampling_tick ::
  "'f floats \<Rightarrow> nat \<Rightarrow> u64 \<Rightarrow> controller \<times> bpf_state \<Rightarrow> controller \<times> bpf_state" where
  "sampling_tick fl ncpu heap_alloc cs =
     (case cs of (c, st) \<Rightarrow>
        (case loss_rate_since fl (read_runtime_stats ncpu st) c of
           (loss_rate, c) \<Rightarrow>
             (case adjust fl heap_alloc loss_rate (ct_sampler c) of
                (s, denominator, changed) \<Rightarrow>
                  (c\<lparr>ct_sampler := s\<rparr>, if changed then set_sample_denominator denominator st else st))))"

datatype tracer_action = Tick u64 | Program hit | Deliver | Learn u64 type_recipe

fun tracer_step :: "'f floats \<Rightarrow> nat \<Rightarrow> config \<Rightarrow> tracer_action \<Rightarrow> controller \<times> bpf_state \<Rightarrow> controller \<times> bpf_state" where
  "tracer_step fl ncpu cfg (Tick heap) cs = sampling_tick fl ncpu heap cs"
| "tracer_step fl ncpu cfg (Program h) cs = (fst cs, hit_step cfg h (snd cs))"
| "tracer_step fl ncpu cfg Deliver cs = (fst cs, snd (poll_event (snd cs)))"
| "tracer_step fl ncpu cfg (Learn a rec) cs = (fst cs, install_type_recipe a rec (snd cs))"

text \<open>The start: the first adjustment, with no loss window, and what it writes.\<close>

definition tracer_start :: "'f floats \<Rightarrow> u64 \<Rightarrow> u64 \<Rightarrow> bpf_state \<Rightarrow> controller \<times> bpf_state" where
  "tracer_start fl limit heap_alloc st =
     (case adjust fl heap_alloc (fl_zero fl) (new_adaptive_sampler limit) of
        (s, denominator, changed) \<Rightarrow>
          (\<lparr>ct_sampler = s, ct_last_emitted = 0, ct_last_dropped = 0\<rparr>,
           if changed then set_sample_denominator denominator st else st))"

definition in_step :: "controller \<times> bpf_state \<Rightarrow> bool" where
  "in_step cs \<longleftrightarrow>
     sampler_ok (ct_sampler (fst cs)) \<and>
     current_sample_denominator (snd cs) = sm_den (ct_sampler (fst cs))"

lemma adjust_window:
  "adjust fl h r s = (window_step fl (h, r) s, sm_den (window_step fl (h, r) s),
     sm_den (window_step fl (h, r) s) \<noteq> sm_den s)"
  by (simp add: window_step_def adjust_def Let_def split: prod.split)

lemma written_denominator: "1 \<le> d \<Longrightarrow> current_sample_denominator (set_sample_denominator d st) = d"
proof -
  assume d: "1 \<le> d"
  then have "d \<noteq> 0" by auto
  moreover have "d \<le> 1 \<Longrightarrow> d = 1" using d by simp
  ultimately show ?thesis by (simp add: current_sample_denominator_def set_sample_denominator_def Let_def)
qed

lemma den_pos: "sampler_ok s \<Longrightarrow> 1 \<le> sm_den s"
  by (simp add: sampler_ok_def)

lemma tick_window:
  obtains r c where "loss_rate_since fl (read_runtime_stats ncpu (snd cs)) (fst cs) = (r, c)"
    "ct_sampler c = ct_sampler (fst cs)"
    "ct_sampler (fst (sampling_tick fl ncpu h cs)) = window_step fl (h, r) (ct_sampler (fst cs))"
proof -
  obtain r c where l: "loss_rate_since fl (read_runtime_stats ncpu (snd cs)) (fst cs) = (r, c)"
    by (cases "loss_rate_since fl (read_runtime_stats ncpu (snd cs)) (fst cs)")
  moreover have "ct_sampler c = ct_sampler (fst cs)"
    using l by (auto simp: loss_rate_since_def Let_def)
  moreover have "ct_sampler (fst (sampling_tick fl ncpu h cs)) = window_step fl (h, r) (ct_sampler (fst cs))"
    using calculation by (cases cs) (simp add: sampling_tick_def adjust_window)
  ultimately show ?thesis by (rule that)
qed

lemma tick_in_step: "in_step cs \<Longrightarrow> in_step (sampling_tick fl ncpu h cs)"
proof -
  assume i: "in_step cs"
  obtain r c where l: "loss_rate_since fl (read_runtime_stats ncpu (snd cs)) (fst cs) = (r, c)"
      "ct_sampler c = ct_sampler (fst cs)"
    by (rule tick_window)
  have s: "sampler_ok (window_step fl (h, r) (ct_sampler (fst cs)))"
    using i window_step_ok [of "ct_sampler (fst cs)" fl "(h, r)"] by (simp add: in_step_def)
  then show ?thesis
    using i l written_denominator [OF den_pos [OF s]]
    by (cases cs) (simp add: sampling_tick_def adjust_window in_step_def)
qed

lemma tracer_step_in_step: "in_step cs \<Longrightarrow> in_step (tracer_step fl ncpu cfg a cs)"
proof (cases a)
  case (Tick h)
  then show "in_step cs \<Longrightarrow> ?thesis" by (simp add: tick_in_step)
qed (simp_all add: in_step_def current_sample_denominator_def hit_maps)


interpretation tracer: invariant_machine "tracer_step fl ncpu cfg" "\<lambda>a. True" in_step for fl ncpu cfg
  by unfold_locales (rule tracer_step_in_step)

lemma new_sampler_ok: "sampler_ok (new_adaptive_sampler limit)"
  by (simp add: sampler_ok_def new_adaptive_sampler_def maxSampleDenominator_def unlockStableWindows_def)

lemma tracer_start_in_step:
  assumes "current_sample_denominator st = 1"
  shows "in_step (tracer_start fl limit heap st)"
proof -
  have s: "sampler_ok (window_step fl (heap, fl_zero fl) (new_adaptive_sampler limit))"
    by (rule window_step_ok [OF new_sampler_ok])
  show ?thesis
    using s assms written_denominator [OF den_pos [OF s]]
    by (simp add: tracer_start_def adjust_window in_step_def) (simp add: new_adaptive_sampler_def)
qed

section \<open>Windows of a run\<close>

text \<open>The heap size and the loss rate each tick of a run sees.\<close>

fun observed ::
  "'f floats \<Rightarrow> nat \<Rightarrow> config \<Rightarrow> tracer_action list \<Rightarrow> controller \<times> bpf_state \<Rightarrow> (u64 \<times> 'f) list" where
  "observed fl ncpu cfg [] cs = []"
| "observed fl ncpu cfg (a # as) cs =
     (case a of
        Tick heap \<Rightarrow> [(heap, fst (loss_rate_since fl (read_runtime_stats ncpu (snd cs)) (fst cs)))]
      | _ \<Rightarrow> []) @ observed fl ncpu cfg as (tracer_step fl ncpu cfg a cs)"

lemma sampler_run:
  "ct_sampler (fst (fold (tracer_step fl ncpu cfg) as cs)) =
     fold (window_step fl) (observed fl ncpu cfg as cs) (ct_sampler (fst cs))"
proof (induction "as" arbitrary: cs)
  case (Cons a as)
  show ?case
  proof (cases a)
    case (Tick h)
    obtain r c where "loss_rate_since fl (read_runtime_stats ncpu (snd cs)) (fst cs) = (r, c)"
        "ct_sampler (fst (sampling_tick fl ncpu h cs)) = window_step fl (h, r) (ct_sampler (fst cs))"
      by (rule tick_window)
    then show ?thesis using Cons Tick by simp
  qed (simp_all add: Cons)
qed simp

lemma limit_run:
  "sm_memory_limit (fold (window_step fl) ws s) = sm_memory_limit s"
  by (induction ws arbitrary: s) simp_all

lemma noisy_raises:
  assumes "sampler_ok s" "fl_noisy fl (snd w)"
  shows "sm_den s < sm_den (window_step fl w s) \<or> sm_den (window_step fl w s) = maxSampleDenominator"
proof -
  let ?raised = "loss_raised_denominator fl (sm_den s) (snd w)" and ?t = "heap_target s (fst w)"
  have r: "sm_den s < ?raised \<or> ?raised = maxSampleDenominator"
  proof -
    have "unat (sm_den s + 1) = Suc (unat (sm_den s))"
      using assms(1) by (simp add: sampler_ok_def maxSampleDenominator_def word_le_nat_alt unat_word_ariths)
    then show ?thesis
      by (auto simp: loss_raised_denominator_def Let_def word_less_nat_alt word_le_nat_alt not_le not_less)
  qed
  define m where "m = (if ?raised > ?t then ?raised else ?t)"
  have m: "sm_den s < m \<or> m = maxSampleDenominator"
    using r heap_target_bounds [OF assms(1), of "fst w"] by (auto simp: m_def not_less)
  obtain s' where f: "loss_feedback fl (snd w) ?t s = (m, s')" "sm_den s' = sm_den s" "sm_stable_windows s' = 0"
    using assms(2) by (simp add: loss_feedback_def Let_def m_def)
  have "sm_den (move_denominator m s') = (if m > sm_den s then m else sm_den s)"
    using f(2,3) by (simp add: move_denominator_def recoverStableWindows_def)
  moreover have "sm_den s \<le> maxSampleDenominator" using assms(1) by (simp add: sampler_ok_def)
  ultimately show ?thesis
    using m by (auto simp: window_step_def adjust_def f(1) Let_def)
qed


text \<open>C17: Sampling recovers: from any moment of a trace, once the consumer keeps up and the heap
  stays at or below 45 percent of its limit, 688 windows later the denominator is 1 and every
  wanted root call is admitted again, whatever hits, polls and recipes happen in between.\<close>

theorem sampling_recovers:
  fixes fl :: "'f floats" and ncpu cfg before limit heap
  assumes "current_sample_denominator st = 1" "4 \<le> unat limit"
  defines "cs \<equiv> fold (tracer_step fl ncpu cfg) before (tracer_start fl limit heap st)"
  assumes "list_all (quiet fl limit) (observed fl ncpu cfg acts cs)"
    and "688 \<le> length (observed fl ncpu cfg acts cs)"
  shows "current_sample_denominator (snd (fold (tracer_step fl ncpu cfg) acts cs)) = 1 \<and>
    should_sample env (current_sample_denominator (snd (fold (tracer_step fl ncpu cfg) acts cs)))"
proof -
  have i: "in_step cs"
    unfolding cs_def by (rule tracer.inv_run [OF _ tracer_start_in_step [OF assms(1)]]) (simp add: list_all_iff)
  have "sm_memory_limit (ct_sampler (fst (tracer_start fl limit heap st))) = limit"
    by (simp add: tracer_start_def adjust_window) (simp add: new_adaptive_sampler_def)
  then have l: "sm_memory_limit (ct_sampler (fst cs)) = limit"
    unfolding cs_def sampler_run limit_run by simp
  have s: "sampler_inv limit (ct_sampler (fst cs))"
    using i l assms(2) by (simp add: sampler_inv_def in_step_def)
  have "recovery_distance (ct_sampler (fst cs)) < length (observed fl ncpu cfg acts cs)"
    using distance_bound [of "ct_sampler (fst cs)"] i assms(5) by (simp add: in_step_def)
  then have "sm_den (ct_sampler (fst (fold (tracer_step fl ncpu cfg) acts cs))) = 1"
    unfolding sampler_run by (rule recovery.goal_reached [OF assms(4) s])
  moreover have "in_step (fold (tracer_step fl ncpu cfg) acts cs)"
    by (rule tracer.inv_run [OF _ i]) (simp add: list_all_iff)
  ultimately show ?thesis by (simp add: in_step_def should_sample_def)
qed

section \<open>An example\<close>

definition exact_floats :: "rat floats" where
  "exact_floats =
     \<lparr>fl_ratio = (\<lambda>d t. of_nat (unat d) / of_nat (unat t)), fl_zero = 0, fl_noisy = (\<lambda>r. r > 1 / 50),
      fl_break_even = (\<lambda>c r. word_of_int \<lceil>of_nat (unat c) * (3 / 2) / (1 - r) - 1 / 10 ^ 9\<rceil>)\<rparr>"

lemma idle_observed:
  assumes "rs_emitted_events (read_runtime_stats ncpu (snd cs)) = ct_last_emitted (fst cs)"
    "rs_dropped_events (read_runtime_stats ncpu (snd cs)) = ct_last_dropped (fst cs)"
  shows "observed fl ncpu cfg (replicate n (Tick h)) cs = replicate n (h, fl_zero fl)"
  using assms
proof (induction n arbitrary: cs)
  case (Suc n)
  let ?cs = "sampling_tick fl ncpu h cs"
  have m: "runtime_stats_map (snd ?cs) = runtime_stats_map (snd cs)"
    by (cases cs) (simp add: sampling_tick_def adjust_window split: prod.split)
  then have "read_runtime_stats ncpu (snd ?cs) = read_runtime_stats ncpu (snd cs)"
    by (simp add: read_runtime_stats_def)
  moreover have "ct_last_emitted (fst ?cs) = rs_emitted_events (read_runtime_stats ncpu (snd cs))"
      "ct_last_dropped (fst ?cs) = rs_dropped_events (read_runtime_stats ncpu (snd cs))"
    by (cases cs, simp add: sampling_tick_def adjust_window loss_rate_since_def Let_def)+
  ultimately show ?case
    using Suc by (simp add: loss_rate_since_def Let_def)
qed simp

definition demo_start :: bpf_state where
  "demo_start = demo_state\<lparr>sample_config_map := [0 \<mapsto> \<lparr>sc_denominator = 0, sc_pad = 0\<rparr>]\<rparr>"

lemma demo_start_rate: "current_sample_denominator demo_start = 1"
  by (simp add: demo_start_def current_sample_denominator_def)

lemma demo_start_stats:
  "rs_emitted_events (read_runtime_stats 1 (snd (tracer_start exact_floats 1000 2000 demo_start))) = 0"
  "rs_dropped_events (read_runtime_stats 1 (snd (tracer_start exact_floats 1000 2000 demo_start))) = 0"
  by (simp_all add: tracer_start_def adjust_window read_runtime_stats_def demo_start_def demo_state_def
      add_stats_def zero_stats_def)

theorem sampling_recovers_witness:
  "current_sample_denominator (snd (tracer_start exact_floats 1000 2000 demo_start)) = 1048576 \<and>
   current_sample_denominator (snd (fold (tracer_step exact_floats 1 demo_cfg) (replicate 688 (Tick 100))
     (tracer_start exact_floats 1000 2000 demo_start))) = 1"
proof
  show "current_sample_denominator (snd (tracer_start exact_floats 1000 2000 demo_start)) = 1048576"
    by (simp add: tracer_start_def adjust_def new_adaptive_sampler_def heap_target_def loss_feedback_def
        exact_floats_def move_denominator_def unlockStableWindows_def maxSampleDenominator_def written_denominator
        Let_def)
  have o: "observed exact_floats 1 demo_cfg (replicate 688 (Tick 100)) (tracer_start exact_floats 1000 2000 demo_start) =
      replicate 688 (100, fl_zero exact_floats)"
    by (rule idle_observed) (simp_all only: demo_start_stats, simp_all add: tracer_start_def adjust_window)
  have q: "quiet exact_floats 1000 (100, fl_zero exact_floats)"
    by (simp add: quiet_def exact_floats_def percent_def)
  show "current_sample_denominator (snd (fold (tracer_step exact_floats 1 demo_cfg) (replicate 688 (Tick 100))
     (tracer_start exact_floats 1000 2000 demo_start))) = 1"
    using sampling_recovers [of demo_start 1000 exact_floats 1 demo_cfg "replicate 688 (Tick 100)" "[]" 2000]
    by (simp only: fold_simps id_apply o length_replicate demo_start_rate) (simp add: q list_all_iff)
qed


end
