(* ===== verification/Ftrace_Poller.thy ===== *)
theory Ftrace_Poller
  imports Ftrace_Events Ftrace_Calls
begin

text \<open>
  The polling goroutine \<open>PollEvents\<close> of \<open>src/internal/bpf/bpf.go\<close>: its loop, turn by turn,
  against the hits that happen meanwhile, and its end.
\<close>

section \<open>The polling goroutine\<close>

datatype poll_result = Got event | Poll_failed

text \<open>
  One turn of the loop: the hits that happen before its lookup, whether the context is done
  when the turn starts, whether the lookup fails for another reason than an empty queue, and
  whether the context is done in the select that follows the lookup.
\<close>

record turn =
  tn_hits :: "hit list"
  tn_done :: bool
  tn_error :: bool
  tn_done_late :: bool

record poller =
  pl_draining :: bool
  pl_closed :: bool
  pl_sent :: "poll_result list"
  pl_maps :: bpf_state

definition poller_turn :: "config \<Rightarrow> turn \<Rightarrow> poller \<Rightarrow> poller" where
  "poller_turn cfg t p =
     (let st = fold (hit_step cfg) (tn_hits t) (pl_maps p)
      in if pl_closed p then p\<lparr>pl_maps := st\<rparr>
         else let draining = pl_draining p \<or> tn_done t
              in if tn_error t then
                   p\<lparr>pl_draining := draining, pl_maps := st, pl_sent := pl_sent p @ [Poll_failed], pl_closed := True\<rparr>
                 else case poll_event st of
                   (None, st) \<Rightarrow>
                     if draining then p\<lparr>pl_draining := draining, pl_maps := st, pl_closed := True\<rparr>
                     else p\<lparr>pl_draining := tn_done_late t, pl_maps := st\<rparr>
                 | (Some e, st) \<Rightarrow>
                     p\<lparr>pl_draining := draining \<or> tn_done_late t, pl_maps := st, pl_sent := pl_sent p @ [Got e]\<rparr>)"

definition poll_events :: "config \<Rightarrow> turn list \<Rightarrow> bpf_state \<Rightarrow> poller" where
  "poll_events cfg turns st =
     fold (poller_turn cfg) turns \<lparr>pl_draining = False, pl_closed = False, pl_sent = [], pl_maps = st\<rparr>"

text \<open>A turn of an open poller whose lookup does not fail is its hits and one poll.\<close>

definition turn_actions :: "turn \<Rightarrow> action list" where
  "turn_actions t = map Hit (tn_hits t) @ [Poll]"

lemma hit_actions: "fold (act_step cfg) (map Hit hs) st = fold (hit_step cfg) hs st"
  by (induction hs arbitrary: st) simp_all

lemma polled_append:
  "polled cfg (xs @ ys) st = polled cfg xs st @ polled cfg ys (fold (act_step cfg) xs st)"
  by (induction xs arbitrary: st) simp_all

lemma polled_hits: "polled cfg (map Hit hs) st = []"
  by (induction hs arbitrary: st) simp_all

lemma turn_effect:
  assumes "\<not> pl_closed p" "\<not> tn_error t"
  shows "pl_maps (poller_turn cfg t p) = fold (act_step cfg) (turn_actions t) (pl_maps p)"
    and "pl_sent (poller_turn cfg t p) =
      pl_sent p @ map Got (polled cfg (turn_actions t) (pl_maps p))"
    and "pl_closed (poller_turn cfg t p) \<longleftrightarrow>
      (pl_draining p \<or> tn_done t) \<and> event_queue (fold (hit_step cfg) (tn_hits t) (pl_maps p)) = []"
    and "pl_draining (poller_turn cfg t p) \<longleftrightarrow> pl_draining p \<or> tn_done t \<or> tn_done_late t \<and> \<not> pl_closed (poller_turn cfg t p)"
proof -
  define s where "s = fold (hit_step cfg) (tn_hits t) (pl_maps p)"
  have a: "fold (act_step cfg) (turn_actions t) (pl_maps p) = s\<lparr>event_queue := drop 1 (event_queue s)\<rparr>"
    "polled cfg (turn_actions t) (pl_maps p) = (case event_queue s of [] \<Rightarrow> [] | e # es \<Rightarrow> [e])"
    by (simp_all add: turn_actions_def hit_actions polled_append polled_hits s_def split: list.split)
  have n: "s\<lparr>event_queue := []\<rparr> = s" if "event_queue s = []" using that by (cases s) simp
  show "pl_maps (poller_turn cfg t p) = fold (act_step cfg) (turn_actions t) (pl_maps p)"
    "pl_sent (poller_turn cfg t p) = pl_sent p @ map Got (polled cfg (turn_actions t) (pl_maps p))"
    "pl_closed (poller_turn cfg t p) \<longleftrightarrow>
      (pl_draining p \<or> tn_done t) \<and> event_queue (fold (hit_step cfg) (tn_hits t) (pl_maps p)) = []"
    "pl_draining (poller_turn cfg t p) \<longleftrightarrow> pl_draining p \<or> tn_done t \<or> tn_done_late t \<and> \<not> pl_closed (poller_turn cfg t p)"
    using assms n unfolding a s_def [symmetric]
    by (cases "event_queue s"; simp add: poller_turn_def Let_def poll_event_def flip: s_def)+
qed

lemma open_run:
  assumes "list_all (\<lambda>t. \<not> tn_error t \<and> \<not> tn_done t \<and> \<not> tn_done_late t) ts" "\<not> pl_closed p" "\<not> pl_draining p"
  shows "\<not> pl_closed (fold (poller_turn cfg) ts p) \<and> \<not> pl_draining (fold (poller_turn cfg) ts p) \<and>
    pl_maps (fold (poller_turn cfg) ts p) = fold (act_step cfg) (concat (map turn_actions ts)) (pl_maps p) \<and>
    pl_sent (fold (poller_turn cfg) ts p) =
      pl_sent p @ map Got (polled cfg (concat (map turn_actions ts)) (pl_maps p))"
  using assms
proof (induction ts arbitrary: p)
  case (Cons t ts)
  have e: "\<not> tn_error t" "\<not> tn_done t" "\<not> tn_done_late t" using Cons.prems(1) by simp_all
  note t = turn_effect [OF Cons.prems(2) e(1), of cfg]
  have "\<not> pl_closed (poller_turn cfg t p)" "\<not> pl_draining (poller_turn cfg t p)"
    using t(3,4) e Cons.prems(3) by auto
  then show ?case
    using Cons.IH [of "poller_turn cfg t p"] Cons.prems(1) t(1,2) by (simp add: polled_append)
qed simp

text \<open>A draining poller with no more hits delivers what is queued and returns.\<close>

lemma closed_stays:
  "pl_closed p \<Longrightarrow> list_all (\<lambda>t. tn_hits t = []) ts \<Longrightarrow> fold (poller_turn cfg) ts p = p"
proof (induction ts arbitrary: p)
  case (Cons t ts)
  have "poller_turn cfg t p = p" using Cons.prems by (simp add: poller_turn_def Let_def)
  then show ?case using Cons by simp
qed simp

lemma draining_run:
  assumes "list_all (\<lambda>t. tn_hits t = [] \<and> \<not> tn_error t) ts" "\<not> pl_closed p" "pl_draining p"
    and "length (event_queue (pl_maps p)) < length ts"
  shows "pl_closed (fold (poller_turn cfg) ts p) \<and> event_queue (pl_maps (fold (poller_turn cfg) ts p)) = [] \<and>
    pl_sent (fold (poller_turn cfg) ts p) = pl_sent p @ map Got (event_queue (pl_maps p))"
  using assms
proof (induction ts arbitrary: p)
  case (Cons t ts)
  have e: "tn_hits t = []" "\<not> tn_error t" using Cons.prems(1) by simp_all
  show ?case
  proof (cases "event_queue (pl_maps p)")
    case Nil
    let ?p = "poller_turn cfg t p"
    have p: "?p = p\<lparr>pl_closed := True\<rparr>"
      using Nil Cons.prems(2,3) e by (simp add: poller_turn_def Let_def poll_event_def)
    have "fold (poller_turn cfg) ts ?p = ?p"
      using Cons.prems(1) by (intro closed_stays) (auto simp: p list_all_iff)
    then show ?thesis using Nil p by simp
  next
    case (Cons e0 es)
    let ?p = "poller_turn cfg t p"
    have p: "?p = p\<lparr>pl_maps := (pl_maps p)\<lparr>event_queue := es\<rparr>, pl_sent := pl_sent p @ [Got e0]\<rparr>"
      using Cons Cons.prems(2,3) e by (simp add: poller_turn_def Let_def poll_event_def)
    show ?thesis
      using Cons.IH [of ?p] Cons.prems Cons p by simp
  qed
qed simp

text \<open>C16: Shutting down loses nothing: when tracing is stopped first and the poller's context is
  cancelled then, the polling goroutine returns after at most one turn more than there are
  events in the queue, with the queue empty, and the consumer has received every event the
  probes put into the queue since the start, in that order.\<close>

theorem poller_drains:
  assumes "list_all (\<lambda>t. \<not> tn_error t \<and> \<not> tn_done t \<and> \<not> tn_done_late t) tracing"
    and "list_all (\<lambda>t. tn_hits t = [] \<and> \<not> tn_error t) (t # stopped)" "tn_done t"
  defines "acts \<equiv> concat (map turn_actions tracing)"
  assumes "length (event_queue (pl_maps (poll_events cfg tracing st))) \<le> length stopped"
  shows "pl_closed (poll_events cfg (tracing @ t # stopped) st) \<and>
    event_queue (pl_maps (poll_events cfg (tracing @ t # stopped) st)) = [] \<and>
    pl_sent (poll_events cfg (tracing @ t # stopped) st) = map Got (event_queue st @ stream cfg acts st)"
proof -
  let ?init = "\<lparr>pl_draining = False, pl_closed = False, pl_sent = [], pl_maps = st\<rparr>"
  let ?p = "fold (poller_turn cfg) tracing ?init"
  have o: "\<not> pl_closed ?p" "\<not> pl_draining ?p" "pl_maps ?p = fold (act_step cfg) acts st"
      "pl_sent ?p = map Got (polled cfg acts st)"
    using open_run [OF assms(1), of ?init cfg] by (simp_all add: acts_def)
  let ?q = "?p\<lparr>pl_draining := True\<rparr>"
  have same: "fold (poller_turn cfg) (t # stopped) ?p = fold (poller_turn cfg) (t # stopped) ?q"
    using assms(2,3) o(1) by (simp add: poller_turn_def Let_def split: option.split prod.split)
  have "length (event_queue (pl_maps ?q)) < length (t # stopped)"
    using assms(5) by (simp add: poll_events_def)
  from draining_run [OF assms(2) _ _ this, of cfg]
  show ?thesis
    using o polled_stream [of cfg acts st] same
    by (simp add: poll_events_def del: fold_simps flip: map_append)
qed


lemma queue_growth:
  "length (event_queue (fold (hit_step cfg) hs st)) \<le> length (event_queue st) + length hs"
proof (induction hs arbitrary: st)
  case (Cons h hs)
  have "length (event_queue (hit_step cfg h st)) \<le> Suc (length (event_queue st))"
    by (cases "hit_event cfg (fixed_part st) h (should_trace_goid st (key_of cfg h))") (simp_all add: hit_queue)
  then show ?case using Cons.IH [of "hit_step cfg h st"] by simp
qed simp

definition busy_turn :: "hit list \<Rightarrow> turn" where
  "busy_turn hs = \<lparr>tn_hits = hs, tn_done = False, tn_error = False, tn_done_late = False\<rparr>"

definition last_turn :: turn where
  "last_turn = \<lparr>tn_hits = [], tn_done = True, tn_error = False, tn_done_late = False\<rparr>"

theorem poller_drains_witness:
  "pl_closed (poll_events demo_cfg ([busy_turn demo_hits] @ last_turn # replicate 9 last_turn) demo_state) \<and>
   event_queue (pl_maps (poll_events demo_cfg ([busy_turn demo_hits] @ last_turn # replicate 9 last_turn) demo_state)) = [] \<and>
   pl_sent (poll_events demo_cfg ([busy_turn demo_hits] @ last_turn # replicate 9 last_turn) demo_state) =
     map Got (event_queue demo_state @ stream demo_cfg (concat (map turn_actions [busy_turn demo_hits])) demo_state)"
proof (rule poller_drains)
  have "length (event_queue (fold (hit_step demo_cfg) demo_hits demo_state)) \<le> 9"
    using queue_growth [of demo_cfg demo_hits demo_state] by (simp add: demo_hits_def demo_state_def)
  then show "length (event_queue (pl_maps (poll_events demo_cfg [busy_turn demo_hits] demo_state))) \<le> length (replicate 9 last_turn)"
    by (simp add: poll_events_def turn_effect(1) busy_turn_def turn_actions_def hit_actions)
qed (simp_all add: busy_turn_def last_turn_def list_all_iff)

end
