(* ===== verification/Ftrace_Memory.thy ===== *)
theory Ftrace_Memory
  imports Ftrace_Layout
begin

text \<open>
  What the reads of the program mean when the read helpers answer from a memory: the address
  expressions of the argument rules and the search for the running goroutine.
\<close>

section \<open>Memory\<close>

definition load_bytes :: "(u64 \<rightharpoonup> u8) \<Rightarrow> u64 \<Rightarrow> nat \<Rightarrow> u8 list option" where
  "load_bytes mem a n = those (map (\<lambda>i. mem (a + of_nat i)) [0..<n])"

definition load64 :: "(u64 \<rightharpoonup> u8) \<Rightarrow> u64 \<Rightarrow> u64 option" where
  "load64 mem a = map_option le64 (load_bytes mem a 8)"

text \<open>
  The documented behaviour of a read helper over a memory: it succeeds and delivers the bytes
  when all of them are mapped, and reports an error otherwise.
\<close>

definition answers :: "(u64 \<Rightarrow> nat \<Rightarrow> c_long \<times> (nat \<Rightarrow> u8)) \<Rightarrow> (u64 \<rightharpoonup> u8) \<Rightarrow> bool" where
  "answers reader mem \<longleftrightarrow>
     (\<forall>a n. case load_bytes mem a n of
              None \<Rightarrow> fst (reader a n) \<noteq> 0
            | Some bs \<Rightarrow> fst (reader a n) = 0 \<and> left_bytes n (reader a n) = bs)"

lemma answers_load:
  "answers reader mem \<Longrightarrow> load_bytes mem a n = Some bs \<Longrightarrow>
     fst (reader a n) = 0 \<and> left_bytes n (reader a n) = bs"
  unfolding answers_def by (drule spec [of _ a], drule spec [of _ n]) simp

lemma answers_fault: "answers reader mem \<Longrightarrow> load_bytes mem a n = None \<Longrightarrow> fst (reader a n) \<noteq> 0"
  unfolding answers_def by (drule spec [of _ a], drule spec [of _ n]) simp

lemma length_those: "those xs = Some ys \<Longrightarrow> length ys = length xs"
  by (induction xs arbitrary: ys) (auto split: option.splits)

lemma length_load_bytes: "load_bytes mem a n = Some bs \<Longrightarrow> length bs = n"
  unfolding load_bytes_def by (drule length_those) simp

section \<open>Address expressions\<close>

text \<open>The meaning of a rule's steps over a memory: add the offset, or load from there.\<close>

fun chase :: "(u64 \<rightharpoonup> u8) \<Rightarrow> (16 word \<times> u8) list \<Rightarrow> u64 \<Rightarrow> u64 option" where
  "chase mem [] a = Some a"
| "chase mem ((off, deref) # steps) a =
     (if deref = 1 then Option.bind (load64 mem (a + scast off)) (chase mem steps)
      else chase mem steps (a + scast off))"

lemma follow_chase: "answers (k_read_user env) mem \<Longrightarrow> follow env steps a = chase mem steps a"
proof (induction mem steps a rule: chase.induct)
  case (1 mem a)
  then show ?case by simp
next
  case (2 mem off deref steps a)
  show ?case
  proof (cases "deref = 1")
    case False
    then show ?thesis using 2 by (simp add: hop_def)
  next
    case True
    let ?b = "a + scast off"
    show ?thesis
    proof (cases "load_bytes mem ?b 8")
      case None
      then show ?thesis
        using True answers_fault [OF "2.prems" None] by (simp add: hop_def load64_def case_prod_beta)
    next
      case (Some bs)
      then show ?thesis
        using True 2 answers_load [OF "2.prems" Some]
        by (simp add: hop_def load64_def case_prod_beta)
    qed
  qed
qed

lemma fetch_leaf_memory:
  assumes "answers (k_read_user env) mem" "arg_rule_shape r" "ar_type r = ARG_RULE_MEMORY"
  shows "fetch_leaf env ctx r =
    address_leaf env (ar_nil_check r \<noteq> 0) (arg_steps r) (ar_size r)
      (le64 (read_reg env ctx (ar_reg r) (bytes64 0)))"
proof -
  have "ARG_RULE_MEMORY \<noteq> ARG_RULE_REG" by (simp add: rule_type_defs)
  then show ?thesis using assms(2,3) by (simp add: fetch_leaf_def fetch_args_from_memory_leaf)
qed

lemma empty_load: "load_bytes mem a 0 = Some []"
  by (simp add: load_bytes_def)

section \<open>Leaves of memory rules\<close>

lemma memory_rule_leaf:
  assumes "answers (k_read_user env) mem" "reads_objects env" "arg_rule_shape r"
    and "ar_type r = ARG_RULE_MEMORY" "unat (ar_reg r) < 16"
    and "ar_nil_check r = 0 \<or> dwarf_regs ctx ! unat (ar_reg r) \<noteq> 0"
  shows "case Option.bind (chase mem (arg_steps r) (dwarf_regs ctx ! unat (ar_reg r)))
           (\<lambda>a. load_bytes mem a (min 64 (unat (ar_size r)))) of
      None \<Rightarrow> ad_read_error (fetch_leaf env ctx r) = 1
    | Some bs \<Rightarrow> fetch_leaf env ctx r =
        zero_arg_data\<lparr>ad_data := bs @ replicate (64 - min 64 (unat (ar_size r))) 0\<rparr>"
proof -
  let ?n = "min 64 (unat (ar_size r))" and ?base = "dwarf_regs ctx ! unat (ar_reg r)"
  have base: "le64 (read_reg env ctx (ar_reg r) (bytes64 0)) = ?base"
    using assms(2,5) by (simp add: read_reg_def reg_field_dwarf reads_objects_bytes64)
  have leaf: "fetch_leaf env ctx r =
      address_leaf env (ar_nil_check r \<noteq> 0) (arg_steps r) (ar_size r) ?base"
    unfolding fetch_leaf_memory [OF assms(1,3,4)] base by (rule refl)
  have not_nil: "\<not> (ar_nil_check r \<noteq> 0 \<and> ?base = 0)" using assms(6) by auto
  note follow = follow_chase [OF assms(1), of "arg_steps r" ?base]
  show ?thesis
  proof (cases "chase mem (arg_steps r) ?base")
    case None
    then show ?thesis using leaf not_nil follow by (simp add: address_leaf_def)
  next
    case (Some a)
    show ?thesis
    proof (cases "load_bytes mem a ?n")
      case None
      then have "?n \<noteq> 0" using empty_load [of mem a] by (metis option.distinct(1))
      then show ?thesis
        using leaf not_nil follow Some None answers_fault [OF assms(1) None]
        by (simp only: address_leaf_def Let_def) simp
    next
      case (Some bs)
      note ans = answers_load [OF assms(1) Some]
      have "zero_arg_data\<lparr>ad_data := replicate 64 0\<rparr> = zero_arg_data"
        "zero_arg_data\<lparr>ad_data := d, ad_read_error := 0\<rparr> = zero_arg_data\<lparr>ad_data := d\<rparr>" for d
        by (simp_all add: zero_arg_data_def)
      moreover have "?n = 0 \<Longrightarrow> bs = []" using length_load_bytes [OF Some] by simp
      ultimately show ?thesis
        using leaf not_nil follow \<open>chase mem (arg_steps r) ?base = Some a\<close> Some ans
        by (cases "?n = 0") (simp_all only: address_leaf_def Let_def, simp_all)
    qed
  qed
qed

text \<open>What a memory rule fetches, in terms of the traced program's memory: with reads that
  succeed exactly on mapped memory, the leaf of a rule over register r with steps s holds the
  bytes, at most 64, of the rule's size at the address the steps lead to from the register's
  value, zeros behind them, and no error mark; it is marked unreadable when a step or the
  target lies in unmapped memory.\<close>

lemma memory_rule_semantics:
  assumes "answers (k_read_user env) mem" "reads_objects env" "arg_rule_shape r"
    and "ar_type r = ARG_RULE_MEMORY" "unat (ar_reg r) < 16"
    and "ar_nil_check r = 0 \<or> dwarf_regs ctx ! unat (ar_reg r) \<noteq> 0"
  shows "case Option.bind (chase mem (arg_steps r) (dwarf_regs ctx ! unat (ar_reg r)))
           (\<lambda>a. load_bytes mem a (min 64 (unat (ar_size r)))) of
      None \<Rightarrow> ad_read_error (fetch_leaf env ctx r) = 1
    | Some bs \<Rightarrow> fetch_leaf env ctx r =
        zero_arg_data\<lparr>ad_data := bs @ replicate (64 - min 64 (unat (ar_size r))) 0\<rparr>"
  by (rule memory_rule_leaf [OF assms])


text \<open>A memory in which every byte is mapped and holds the low byte of its address.\<close>

definition low_memory :: "u64 \<rightharpoonup> u8" where
  "low_memory a = Some (ucast a)"

definition low_env :: kenv where
  "low_env = (demo_env 0)\<lparr>k_read_user := (\<lambda>a n. (0, \<lambda>i. ucast (a + of_nat i))),
                         k_read_kernel := (\<lambda>a n. (0, \<lambda>i. ucast (a + of_nat i)))\<rparr>"

lemma those_total: "those (map (\<lambda>i. Some (f i)) is) = Some (map f is)"
  by (induction "is") simp_all

lemma load_low: "load_bytes low_memory a n = Some (map (\<lambda>i. ucast (a + of_nat i)) [0..<n])"
  by (simp add: load_bytes_def low_memory_def those_total)

lemma low_answers: "answers (k_read_user low_env) low_memory" "answers (k_read_kernel low_env) low_memory"
  by (simp_all add: answers_def load_low low_env_def left_bytes_def)

lemma low_objects: "reads_objects low_env"
  by (simp add: reads_objects_def low_env_def demo_env_def left_bytes_def map_nth)

lemma memory_rule_semantics_witness:
  "fetch_leaf low_env (demo_ctx 100 1008 2000) demo_rule =
     zero_arg_data\<lparr>ad_data := map (\<lambda>i. ucast (0x0F0E0D0C0B0A0904 + of_nat i :: u64)) [0..<16] @ replicate 48 0\<rparr>"
proof -
  have c: "chase low_memory (arg_steps demo_rule) 0x2000 = Some 0x0F0E0D0C0B0A0904"
    by (simp add: arg_steps_def demo_rule_def load64_def load_low upt_rec le64_Cons)
  show ?thesis
    using memory_rule_semantics [OF low_answers(1) low_objects, of demo_rule "demo_ctx 100 1008 2000"]
    by (simp add: dwarf_regs_def demo_ctx_def demo_rule_def [THEN arg_cong [where f = ar_reg]] c load_low)
qed


end
