(* ===== verification/Ftrace_Rules.thy ===== *)
theory Ftrace_Rules
  imports Go_Strings
begin

text \<open>
  Argument rules on the way from the command line to the BPF program: the statement parser
  of \<open>src/internal/uprobe/fetcharg.go\<close>, the flag parser of \<open>src/cmd/tracer.go\<close> and the
  encoding of \<open>setArgRules\<close> in \<open>src/internal/bpf/bpf.go\<close>. Errors are values; an index
  out of range, which panics in Go, is one of them. The second half is the grammar of the
  statements and what the parser makes of them.
\<close>

section \<open>Data\<close>

datatype go_error =
    Type_not_found | Bad_bits | Bad_type | Empty_op | Unknown_register | Bad_offset
  | Imbalanced_parenthese | Invalid_variable
  | Too_many_fetch_args | Too_many_rules | Key_exist | Map_full
  | Index_out_of_range | Symbol_not_found | Pc_range_too_large | No_ret_offsets

datatype arg_location = Register | Stack

record fetch_rule =
  ru_from :: arg_location
  ru_register :: string
  ru_offset :: int
  ru_dereference :: bool

record fetch_arg =
  fa_varname :: string
  fa_statement :: string
  fa_type :: string
  fa_size :: int
  fa_rules :: "fetch_rule list"
  fa_nil_check :: bool
  fa_iface_data :: bool
  fa_type_index :: int

section \<open>Parsing a statement\<close>

definition register_names :: "string list" where
  "register_names =
     [''ax'', ''bx'', ''cx'', ''dx'', ''si'', ''di'', ''bp'', ''sp'', ''r8'', ''r9'', ''r10'', ''r11'',
      ''r12'', ''r13'', ''r14'', ''r15'']"

definition new_fetch_op :: "string \<Rightarrow> go_error + fetch_rule" where
  "new_fetch_op op =
     (case op of
        [] \<Rightarrow> Inl Empty_op
      | c # cs \<Rightarrow>
          if c = CHR ''%'' then
            (if cs \<in> set register_names
             then Inr \<lparr>ru_from = Register, ru_register = cs, ru_offset = 0, ru_dereference = False\<rparr>
             else Inl Unknown_register)
          else
            (let dereference = (c = CHR ''*''); op = (if dereference then cs else op)
             in case parse_int op of
                  None \<Rightarrow> Inl Bad_offset
                | Some offset \<Rightarrow>
                    Inr \<lparr>ru_from = Stack, ru_register = [], ru_offset = offset,
                         ru_dereference = dereference\<rparr>))"

text \<open>The loop over the bytes of the address, with the op collected so far and the rules found.\<close>

fun scan_ops :: "string \<Rightarrow> string \<Rightarrow> fetch_rule list \<Rightarrow> go_error + fetch_rule list" where
  "scan_ops [] buf rules =
     (if buf \<noteq> []
      then (case new_fetch_op buf of Inl err \<Rightarrow> Inl err | Inr op \<Rightarrow> Inr (rules @ [op]))
      else Inr rules)"
| "scan_ops (ch # cs) buf rules =
     (if ch \<noteq> CHR ''('' \<and> ch \<noteq> CHR '')'' then scan_ops cs (buf @ [ch]) rules
      else if buf \<noteq> []
      then (case new_fetch_op buf of Inl err \<Rightarrow> Inl err | Inr op \<Rightarrow> scan_ops cs [] (rules @ [op]))
      else scan_ops cs buf rules)"

text \<open>The in-place reversal: \<open>j\<close> is one above the upper index.\<close>

function swap_ends :: "nat \<Rightarrow> nat \<Rightarrow> 'a list \<Rightarrow> 'a list" where
  "swap_ends i j xs =
     (if Suc i < j then swap_ends (Suc i) (j - 1) (xs[i := xs ! (j - 1), j - 1 := xs ! i]) else xs)"
  by pat_completeness auto
termination
  by (relation "measure (\<lambda>(i, j, xs). j - i)") auto

declare swap_ends.simps [simp del]

definition type_error :: "string \<Rightarrow> go_error option" where
  "type_error t =
     (case t of
        [] \<Rightarrow> Some Index_out_of_range
      | c # bits \<Rightarrow>
          if c = CHR ''u'' \<or> c = CHR ''s'' then
            (if bits \<in> set [''8'', ''16'', ''32'', ''64''] then None else Some Bad_bits)
          else if c = CHR ''c'' then
            (if bits \<in> set [''8'', ''16'', ''32'', ''64'', ''128'', ''256'', ''512''] then None
             else Some Bad_bits)
          else Some Bad_type)"

definition new_fetch_arg :: "string \<Rightarrow> string \<Rightarrow> go_error + fetch_arg" where
  "new_fetch_arg varname statement =
     (case split_on CHR '':'' statement of
        [arg_addr, arg_type] \<Rightarrow>
          (case type_error arg_type of
             Some err \<Rightarrow> Inl err
           | None \<Rightarrow>
               (case parse_int (tl arg_type) of
                  None \<Rightarrow> Inl Bad_bits
                | Some bits \<Rightarrow>
                    (case scan_ops arg_addr [] [] of
                       Inl err \<Rightarrow> Inl err
                     | Inr rules \<Rightarrow>
                         Inr \<lparr>fa_varname = varname, fa_statement = statement, fa_type = arg_type,
                              fa_size = bits div 8, fa_rules = swap_ends 0 (length rules) rules,
                              fa_nil_check = False, fa_iface_data = False, fa_type_index = 0\<rparr>)))
      | _ \<Rightarrow> Inl Type_not_found)"

text \<open>One function's list in \<open>parseFetchArgs\<close>: the first error ends it.\<close>

fun new_fetch_args :: "(string \<times> string) list \<Rightarrow> go_error + fetch_arg list" where
  "new_fetch_args [] = Inr []"
| "new_fetch_args ((varname, expr) # es) =
     (case new_fetch_arg varname expr of
        Inl err \<Rightarrow> Inl err
      | Inr fa \<Rightarrow>
          (case new_fetch_args es of Inl err \<Rightarrow> Inl err | Inr fas \<Rightarrow> Inr (fa # fas)))"

section \<open>Parsing a flag\<close>

text \<open>
  The backward scan for the parenthesis that opens the variable list: the bytes before the
  last one in reverse, and the stack of open parentheses. The result is the index found.
\<close>

fun find_open :: "string \<Rightarrow> string \<Rightarrow> nat option" where
  "find_open [] stack = None"
| "find_open (c # cs) stack =
     (if c = CHR '')'' then find_open cs (CHR '')'' # stack)
      else if c = CHR ''('' then
        (case stack of
           t # stack' \<Rightarrow>
             if t = CHR '')'' then (if stack' = [] then Some (length cs) else find_open cs stack')
             else None
         | [] \<Rightarrow> None)
      else find_open cs stack)"

fun parse_vars :: "string list \<Rightarrow> go_error + (string \<times> string) list" where
  "parse_vars [] = Inr []"
| "parse_vars (part # parts) =
     (case split_on CHR ''='' part of
        [name, expr] \<Rightarrow>
          (case parse_vars parts of
             Inl err \<Rightarrow> Inl err
           | Inr vars \<Rightarrow> Inr ((trim_space name, trim_space expr) # vars))
      | _ \<Rightarrow> Inl Invalid_variable)"

definition parse_fetch_expr :: "string \<Rightarrow> go_error + string \<times> (string \<times> string) list" where
  "parse_fetch_expr s =
     (if s = [] then Inl Index_out_of_range
      else if last s \<noteq> CHR '')'' then Inr (s, [])
      else case find_open (tl (rev s)) [CHR '')''] of
        None \<Rightarrow> Inl Imbalanced_parenthese
      | Some i \<Rightarrow>
          (case parse_vars (split_on CHR '','' (drop (i + 1) (butlast s))) of
             Inl err \<Rightarrow> Inl err
           | Inr vars \<Rightarrow> Inr (take i s, vars)))"

section \<open>Encoding for the program\<close>

definition register_constants :: "(string \<times> u8) list" where
  "register_constants =
     [(''ax'', 0), (''dx'', 1), (''cx'', 2), (''bx'', 3), (''si'', 4), (''di'', 5), (''bp'', 6), (''sp'', 7),
      (''r8'', 8), (''r9'', 9), (''r10'', 10), (''r11'', 11), (''r12'', 12), (''r13'', 13), (''r14'', 14),
      (''r15'', 15)]"

text \<open>Go's lookup in \<open>RegisterConstants\<close>: a missing name reads as 0.\<close>

definition register_constant :: "string \<Rightarrow> u8" where
  "register_constant r = (case map_of register_constants r of None \<Rightarrow> 0 | Some n \<Rightarrow> n)"

definition location_code :: "arg_location \<Rightarrow> u8" where
  "location_code l = (case l of Register \<Rightarrow> 0 | Stack \<Rightarrow> 1)"

fun encode_steps :: "fetch_rule list \<Rightarrow> nat \<Rightarrow> 16 word list \<Rightarrow> u8 list \<Rightarrow> 16 word list \<times> u8 list" where
  "encode_steps [] j os ds = (os, ds)"
| "encode_steps (r # rs) j os ds =
     (if ru_from r = Stack
      then encode_steps rs (Suc j) (os[j := word_of_int (ru_offset r)])
             (if ru_dereference r then ds[j := 1] else ds)
      else encode_steps rs j os ds)"

definition encode_rule :: "fetch_arg \<Rightarrow> go_error + arg_rule" where
  "encode_rule fa =
     (let rules = fa_rules fa
      in if length rules > 8 then Inl Too_many_rules
         else if rules = [] then Inl Index_out_of_range
         else case encode_steps rules 0 (replicate 8 0) (replicate 8 0) of
           (os, ds) \<Rightarrow>
             Inr \<lparr>ar_type = location_code (ru_from (last rules)),
                  ar_reg = register_constant (ru_register (hd rules)),
                  ar_size = word_of_int (fa_size fa),
                  ar_length = of_nat (length rules - 1),
                  ar_offsets = os, ar_dereference = ds,
                  ar_nil_check = (if fa_nil_check fa then 1 else 0),
                  ar_iface_data = (if fa_iface_data fa then 1 else 0),
                  ar_type_idx = (if fa_iface_data fa then word_of_int (fa_type_index fa) else 0)\<rparr>)"

fun encode_rules :: "fetch_arg list \<Rightarrow> go_error + arg_rule list" where
  "encode_rules [] = Inr []"
| "encode_rules (fa # fas) =
     (case encode_rule fa of
        Inl err \<Rightarrow> Inl err
      | Inr r \<Rightarrow> (case encode_rules fas of Inl err \<Rightarrow> Inl err | Inr rs \<Rightarrow> Inr (r # rs)))"

definition zero_arg_rule :: arg_rule where
  "zero_arg_rule =
     \<lparr>ar_type = 0, ar_reg = 0, ar_size = 0, ar_length = 0, ar_offsets = replicate 8 0,
      ar_dereference = replicate 8 0, ar_nil_check = 0, ar_iface_data = 0, ar_type_idx = 0\<rparr>"

text \<open>
  An update with \<open>BPF_NOEXIST\<close> of a hash map with room for \<open>cap\<close> entries.
\<close>

definition update_no_exist :: "nat \<Rightarrow> ('k \<rightharpoonup> 'v) \<Rightarrow> 'k \<Rightarrow> 'v \<Rightarrow> go_error + ('k \<rightharpoonup> 'v)" where
  "update_no_exist cap mp k v =
     (if mp k \<noteq> None then Inl Key_exist
      else if cap \<le> card (dom mp) then Inl Map_full
      else Inr (mp(k \<mapsto> v)))"

definition set_arg_rules :: "u64 \<Rightarrow> fetch_arg list \<Rightarrow> bpf_state \<Rightarrow> go_error + bpf_state" where
  "set_arg_rules pc fas st =
     (if length fas > 8 then Inl Too_many_fetch_args
      else case encode_rules fas of
        Inl err \<Rightarrow> Inl err
      | Inr rs \<Rightarrow>
          (case update_no_exist (md_max_entries def_arg_rules_map) (arg_rules_map st) pc
                  \<lparr>ars_length = of_nat (length fas),
                   ars_rules = rs @ replicate (8 - length rs) zero_arg_rule\<rparr> of
             Inl err \<Rightarrow> Inl err
           | Inr mp \<Rightarrow> Inr (st\<lparr>arg_rules_map := mp\<rparr>)))"

section \<open>Reversal\<close>

lemma swap_ends_nth:
  "j \<le> length xs \<Longrightarrow> k < length xs \<Longrightarrow>
     swap_ends i j xs ! k = (if i \<le> k \<and> k < j then xs ! (i + j - 1 - k) else xs ! k)"
proof (induction i j xs rule: swap_ends.induct)
  case (1 i j xs)
  show ?case
  proof (cases "Suc i < j")
    case False
    then show ?thesis by (subst swap_ends.simps) (auto intro: arg_cong [where f = "nth xs"])
  next
    case True
    let ?ys = "xs[i := xs ! (j - 1), j - 1 := xs ! i]"
    have ih: "swap_ends (Suc i) (j - 1) ?ys ! k =
        (if Suc i \<le> k \<and> k < j - 1 then ?ys ! (Suc i + (j - 1) - 1 - k) else ?ys ! k)"
      by (rule "1.IH" [OF True]) (use "1.prems" in simp_all)
    have eq: "swap_ends i j xs = swap_ends (Suc i) (j - 1) ?ys"
      using True by (subst swap_ends.simps) simp
    consider "k < i \<or> j \<le> k" | "k = i" | "k = j - 1" | "Suc i \<le> k" "k < j - 1" by linarith
    then show ?thesis
    proof cases
      case 4
      then have "Suc i + (j - 1) - 1 - k = i + j - 1 - k" "i + j - 1 - k \<noteq> i" "i + j - 1 - k \<noteq> j - 1" "i \<le> k" "k < j"
        by arith+
      then show ?thesis using 4 ih eq by (simp add: nth_list_update)
    next
      case 1
      then have n: "\<not> (Suc i \<le> k \<and> k < j - 1)" "k \<noteq> i" "k \<noteq> j - 1" "\<not> (i \<le> k \<and> k < j)"
        using True by arith+
      then show ?thesis by (simp only: eq ih n if_False nth_list_update_neq n(2,3) [symmetric])
    next
      case 2
      then have n: "\<not> (Suc i \<le> k \<and> k < j - 1)" "k \<noteq> j - 1" "(i \<le> k \<and> k < j) = True" "i + j - 1 - k = j - 1"
        using True by arith+
      then have "swap_ends i j xs ! k = ?ys ! k" by (simp only: eq ih if_False)
      then show ?thesis using n 2 "1.prems" by (simp only: if_True) simp
    next
      case 3
      then have n: "\<not> (Suc i \<le> k \<and> k < j - 1)" "(i \<le> k \<and> k < j) = True" "i + j - 1 - k = i"
        using True by arith+
      then have "swap_ends i j xs ! k = ?ys ! k" by (simp only: eq ih if_False)
      then show ?thesis using n 3 "1.prems" by (simp only: if_True) simp
    qed
  qed
qed

lemma length_swap_ends [simp]: "length (swap_ends i j xs) = length xs"
  by (induction i j xs rule: swap_ends.induct) (subst swap_ends.simps, simp)

lemma swap_ends_rev [simp]: "swap_ends 0 (length xs) xs = rev xs"
  by (rule nth_equalityI) (simp_all add: swap_ends_nth rev_nth)


section \<open>Address expressions\<close>

text \<open>
  What a statement is written from: a register, an offset added to an address, or the word
  at an offset from an address.
\<close>

datatype address = At string | Plus int address | Load int address

definition show_offset :: "int \<Rightarrow> string" where
  "show_offset i = (if i < 0 then CHR ''-'' else CHR ''+'') # show_nat (nat \<bar>i\<bar>)"

fun show_address :: "address \<Rightarrow> string" where
  "show_address (At r) = CHR ''%'' # r"
| "show_address (Plus off a) = show_offset off @ CHR ''('' # show_address a @ '')''"
| "show_address (Load off a) = CHR ''*'' # show_offset off @ CHR ''('' # show_address a @ '')''"

definition show_statement :: "address \<Rightarrow> string \<Rightarrow> string" where
  "show_statement a ty = CHR ''('' # show_address a @ '')'' @ CHR '':'' # ty"

fun address_rules :: "address \<Rightarrow> fetch_rule list" where
  "address_rules (At r) =
     [\<lparr>ru_from = Register, ru_register = r, ru_offset = 0, ru_dereference = False\<rparr>]"
| "address_rules (Plus off a) =
     address_rules a @ [\<lparr>ru_from = Stack, ru_register = [], ru_offset = off, ru_dereference = False\<rparr>]"
| "address_rules (Load off a) =
     address_rules a @ [\<lparr>ru_from = Stack, ru_register = [], ru_offset = off, ru_dereference = True\<rparr>]"

definition int64 :: "int \<Rightarrow> bool" where
  "int64 i \<longleftrightarrow> - (2 ^ 63) \<le> i \<and> i < 2 ^ 63"

fun address_ok :: "address \<Rightarrow> bool" where
  "address_ok (At r) \<longleftrightarrow> r \<in> set register_names"
| "address_ok (Plus off a) \<longleftrightarrow> int64 off \<and> address_ok a"
| "address_ok (Load off a) \<longleftrightarrow> int64 off \<and> address_ok a"

lemma parse_offset: "int64 i \<Longrightarrow> parse_int (show_offset i) = Some i"
  using parse_signed [of i] by (simp add: show_offset_def int64_def)

lemma scan_plain:
  "CHR ''('' \<notin> set w \<Longrightarrow> CHR '')'' \<notin> set w \<Longrightarrow> scan_ops (w @ cs) buf rules = scan_ops cs (buf @ w) rules"
  by (induction w arbitrary: buf) auto

lemma scan_op:
  assumes "CHR ''('' \<notin> set w" "CHR '')'' \<notin> set w" "w \<noteq> []" "new_fetch_op w = Inr op"
    "c = CHR ''('' \<or> c = CHR '')''"
  shows "scan_ops (w @ c # cs) [] rules = scan_ops cs [] (rules @ [op])"
  using assms by (auto simp: scan_plain)

lemma show_offset_plain:
  "c \<in> set (show_offset i) \<Longrightarrow> c \<notin> set ''*%():,= '' \<and> \<not> is_space c"
  using show_nat_plain [of c "nat \<bar>i\<bar>"] digit_plain [of c]
  by (auto simp: show_offset_def is_space_def split: if_splits)

lemma register_plain: "r \<in> set register_names \<Longrightarrow> c \<in> set r \<Longrightarrow> c \<notin> set ''*%():,= '' \<and> \<not> is_space c"
  by (auto simp: register_names_def is_space_def)

lemma offset_op:
  assumes "int64 off"
  shows "new_fetch_op (show_offset off) =
      Inr \<lparr>ru_from = Stack, ru_register = [], ru_offset = off, ru_dereference = False\<rparr>"
    "new_fetch_op (CHR ''*'' # show_offset off) =
      Inr \<lparr>ru_from = Stack, ru_register = [], ru_offset = off, ru_dereference = True\<rparr>"
proof -
  obtain c cs where s: "show_offset off = c # cs" "c \<noteq> CHR ''%''" "c \<noteq> CHR ''*''"
    by (cases "off < 0") (auto simp: show_offset_def)
  show "new_fetch_op (show_offset off) =
      Inr \<lparr>ru_from = Stack, ru_register = [], ru_offset = off, ru_dereference = False\<rparr>"
    using parse_offset [OF assms] s by (simp add: new_fetch_op_def)
  show "new_fetch_op (CHR ''*'' # show_offset off) =
      Inr \<lparr>ru_from = Stack, ru_register = [], ru_offset = off, ru_dereference = True\<rparr>"
    using parse_offset [OF assms] by (simp add: new_fetch_op_def)
qed

lemma scan_address:
  "address_ok a \<Longrightarrow>
     scan_ops (show_address a @ CHR '')'' # cs) [] rules = scan_ops cs [] (rules @ rev (address_rules a))"
proof (induction a arbitrary: cs rules)
  case (At r)
  have "new_fetch_op (CHR ''%'' # r) =
      Inr \<lparr>ru_from = Register, ru_register = r, ru_offset = 0, ru_dereference = False\<rparr>"
    using At by (simp add: new_fetch_op_def)
  then show ?case
    using scan_op [of "CHR ''%'' # r" _ "CHR '')''" cs rules] register_plain [of r] At by force
next
  case (Plus off a)
  then have "scan_ops (show_offset off @ CHR ''('' # show_address a @ CHR '')'' # CHR '')'' # cs) [] rules =
      scan_ops (show_address a @ CHR '')'' # CHR '')'' # cs) []
        (rules @ [\<lparr>ru_from = Stack, ru_register = [], ru_offset = off, ru_dereference = False\<rparr>])"
    by (intro scan_op) (auto simp: offset_op dest: show_offset_plain, simp add: show_offset_def)
  then show ?case using Plus by simp
next
  case (Load off a)
  then have "scan_ops ((CHR ''*'' # show_offset off) @ CHR ''('' # show_address a @ CHR '')'' # CHR '')'' # cs) [] rules =
      scan_ops (show_address a @ CHR '')'' # CHR '')'' # cs) []
        (rules @ [\<lparr>ru_from = Stack, ru_register = [], ru_offset = off, ru_dereference = True\<rparr>])"
    by (intro scan_op) (auto simp: offset_op dest: show_offset_plain)
  then show ?case using Load by simp
qed

lemma show_address_plain:
  "address_ok a \<Longrightarrow> c \<in> set (show_address a) \<Longrightarrow> c \<notin> set '':,= '' \<and> \<not> is_space c"
  by (induction a) (auto dest: show_offset_plain register_plain simp: is_space_def)

section \<open>Types\<close>

definition fetch_types :: "(string \<times> int) list" where
  "fetch_types =
     [(''u8'', 1), (''u16'', 2), (''u32'', 4), (''u64'', 8), (''s8'', 1), (''s16'', 2), (''s32'', 4), (''s64'', 8),
      (''c8'', 1), (''c16'', 2), (''c32'', 4), (''c64'', 8), (''c128'', 16), (''c256'', 32), (''c512'', 64)]"

lemma type_known: "type_error ty = None \<longleftrightarrow> ty \<in> fst ` set fetch_types"
  by (cases ty) (auto simp: type_error_def fetch_types_def)

lemma type_size:
  "(ty, n) \<in> set fetch_types \<Longrightarrow>
     \<exists>bits. parse_int (tl ty) = Some bits \<and> bits div 8 = n"
  by (auto simp: fetch_types_def parse_int_def parse_uint_def digit_value_def)

lemma type_plain: "(ty, n) \<in> set fetch_types \<Longrightarrow> c \<in> set ty \<Longrightarrow> c \<notin> set '':,=() '' \<and> \<not> is_space c"
  by (auto simp: fetch_types_def is_space_def)

lemma statement_parsed:
  assumes "address_ok a" "(ty, n) \<in> set fetch_types"
  shows "new_fetch_arg v (show_statement a ty) =
    Inr \<lparr>fa_varname = v, fa_statement = show_statement a ty, fa_type = ty, fa_size = n,
         fa_rules = address_rules a, fa_nil_check = False, fa_iface_data = False, fa_type_index = 0\<rparr>"
proof -
  have "CHR '':'' \<notin> set (CHR ''('' # show_address a @ '')'')" "CHR '':'' \<notin> set ty"
    using show_address_plain [OF assms(1), of "CHR '':''"] type_plain [OF assms(2), of "CHR '':''"] by auto
  then have s: "split_on CHR '':'' (show_statement a ty) = [CHR ''('' # show_address a @ '')'', ty]"
    using split_on_append [of "CHR '':''" "CHR ''('' # show_address a @ '')''" ty]
    by (simp only: show_statement_def split_on_plain) simp
  have r: "scan_ops (show_address a @ '')'') [] [] = Inr (rev (address_rules a))"
    using scan_address [OF assms(1), of "[]" "[]"] by simp
  have t: "type_error ty = None" using assms(2) type_known by force
  obtain bits where "parse_int (tl ty) = Some bits" "bits div 8 = n" using type_size [OF assms(2)] by blast
  then show ?thesis
    using swap_ends_rev [of "rev (address_rules a)"] by (simp add: new_fetch_arg_def s r t)
qed

end
