(* ===== verification/Ftrace_Flags.thy ===== *)
theory Ftrace_Flags
  imports Ftrace_Rules
begin

text \<open>
  Whole flags: printing a list of variables and reading it back.
\<close>

section \<open>Flags and statements read back\<close>

text \<open>A variable of a flag: its name, its address and its type with the size in bytes.\<close>

type_synonym flag_var = "string \<times> address \<times> string \<times> int"

definition var_ok :: "flag_var \<Rightarrow> bool" where
  "var_ok x =
     (case x of (v, a, ty, n) \<Rightarrow>
        list_all (\<lambda>c. c \<notin> set ''(),='' \<and> \<not> is_space c) v \<and> address_ok a \<and> (ty, n) \<in> set fetch_types)"

definition var_statement :: "flag_var \<Rightarrow> string" where
  "var_statement x = (case x of (v, a, ty, n) \<Rightarrow> show_statement a ty)"

definition show_var :: "flag_var \<Rightarrow> string" where
  "show_var x = fst x @ CHR ''='' # var_statement x"

definition show_flag :: "string \<Rightarrow> flag_var list \<Rightarrow> string" where
  "show_flag f vars = f @ ''('' @ join '', '' (map show_var vars) @ '')''"

definition var_fetch_arg :: "flag_var \<Rightarrow> fetch_arg" where
  "var_fetch_arg x =
     (case x of (v, a, ty, n) \<Rightarrow>
        \<lparr>fa_varname = v, fa_statement = show_statement a ty, fa_type = ty, fa_size = n,
         fa_rules = address_rules a, fa_nil_check = False, fa_iface_data = False, fa_type_index = 0\<rparr>)"

lemma vars_parsed:
  "list_all var_ok vars \<Longrightarrow>
     new_fetch_args (map (\<lambda>x. (fst x, var_statement x)) vars) = Inr (map var_fetch_arg vars)"
  by (induction vars)
    (auto simp: var_ok_def var_statement_def var_fetch_arg_def statement_parsed split: prod.splits)

text \<open>Words the backward scan passes over.\<close>

definition closed_word :: "string \<Rightarrow> bool" where
  "closed_word w \<longleftrightarrow>
     (\<forall>cs t. find_open (rev w @ cs) (CHR '')'' # t) = find_open cs (CHR '')'' # t))"

lemma closed_word_plain: "CHR ''('' \<notin> set w \<Longrightarrow> CHR '')'' \<notin> set w \<Longrightarrow> closed_word w"
  unfolding closed_word_def by (induction w rule: rev_induct) auto

lemma closed_word_append: "closed_word u \<Longrightarrow> closed_word v \<Longrightarrow> closed_word (u @ v)"
  by (simp add: closed_word_def)

lemma closed_word_paren: "closed_word w \<Longrightarrow> closed_word (CHR ''('' # w @ '')'')"
  by (simp add: closed_word_def)

lemma closed_address: "address_ok a \<Longrightarrow> closed_word (show_address a)"
proof (induction a)
  case (At r)
  then show ?case by (intro closed_word_plain) (auto dest: register_plain)
next
  case (Plus off a)
  have "closed_word (show_offset off)" by (intro closed_word_plain) (auto dest: show_offset_plain)
  then show ?case
    using closed_word_append [OF _ closed_word_paren [of "show_address a"], of "show_offset off"] Plus by simp
next
  case (Load off a)
  have "closed_word (CHR ''*'' # show_offset off)" by (intro closed_word_plain) (auto dest: show_offset_plain)
  then show ?case
    using closed_word_append [OF _ closed_word_paren [of "show_address a"], of "CHR ''*'' # show_offset off"] Load
    by simp
qed

lemma closed_var:
  assumes "var_ok x"
  shows "closed_word (show_var x)"
proof -
  obtain v a ty n where x: "x = (v, a, ty, n)" by (cases x)
  have v: "CHR ''('' \<notin> set v" "CHR '')'' \<notin> set v" and a: "address_ok a" and t: "(ty, n) \<in> set fetch_types"
    using assms by (auto simp: x var_ok_def list_all_iff)
  have "closed_word (CHR '':'' # ty)"
    by (intro closed_word_plain) (auto dest: type_plain [OF t])
  then have "closed_word ((v @ ''='') @ (CHR ''('' # show_address a @ '')'') @ (CHR '':'' # ty))"
    using v closed_address [OF a] by (intro closed_word_append closed_word_paren) (auto intro: closed_word_plain)
  then show ?thesis by (simp add: x show_var_def var_statement_def show_statement_def)
qed

lemma closed_join: "closed_word sep \<Longrightarrow> list_all closed_word ws \<Longrightarrow> closed_word (join sep ws)"
  by (induction sep ws rule: join.induct) (auto intro: closed_word_append closed_word_plain)

lemma find_flag: "closed_word w \<Longrightarrow> find_open (rev w @ CHR ''('' # rev f) '')'' = Some (length f)"
  by (simp add: closed_word_def)

lemma join_cons: "join '','' ((c # w) # ws) = c # join '','' (w # ws)"
  by (cases ws) simp_all

lemma join_spaced: "join '', '' (w # ws) = join '','' (w # map ((#) CHR '' '') ws)"
  by (induction ws arbitrary: w) (simp_all add: join_cons)

lemma var_plain:
  assumes "var_ok x"
  shows "CHR '','' \<notin> set (show_var x)" "split_on CHR ''='' (show_var x) = [fst x, var_statement x]"
    "trim_space (fst x) = fst x" "trim_space (var_statement x) = var_statement x"
    "split_on CHR ''='' (CHR '' '' # show_var x) = [CHR '' '' # fst x, var_statement x]"
proof -
  obtain v a ty n where x: "x = (v, a, ty, n)" by (cases x)
  have v: "c \<in> set v \<Longrightarrow> c \<notin> set ''(),='' \<and> \<not> is_space c" for c
    using assms by (auto simp: x var_ok_def list_all_iff)
  have a: "address_ok a" and t: "(ty, n) \<in> set fetch_types"
    using assms by (auto simp: x var_ok_def)
  have s: "c \<in> set (var_statement x) \<Longrightarrow> c \<notin> set '',='' \<and> \<not> is_space c" for c
    using show_address_plain [OF a, of c] type_plain [OF t, of c]
    by (auto simp: x var_statement_def show_statement_def is_space_def)
  show "CHR '','' \<notin> set (show_var x)"
    using v [of "CHR '',''"] s [of "CHR '',''"] by (auto simp: show_var_def x)
  have e: "CHR ''='' \<notin> set v" "CHR ''='' \<notin> set (var_statement x)"
    using v [of "CHR ''=''"] s [of "CHR ''=''"] by auto
  show "split_on CHR ''='' (show_var x) = [fst x, var_statement x]"
    using split_on_append [OF e(1), of "var_statement x"] split_on_plain [OF e(2)] by (simp add: show_var_def x)
  then show "split_on CHR ''='' (CHR '' '' # show_var x) = [CHR '' '' # fst x, var_statement x]"
    by simp
  show "trim_space (fst x) = fst x" "trim_space (var_statement x) = var_statement x"
    using v s by (auto intro!: trim_plain simp: x list_all_iff)
qed

lemma vars_split:
  "list_all var_ok vars \<Longrightarrow>
     parse_vars (map show_var vars) = Inr (map (\<lambda>x. (fst x, var_statement x)) vars) \<and>
     parse_vars (map (\<lambda>x. CHR '' '' # show_var x) vars) = Inr (map (\<lambda>x. (fst x, var_statement x)) vars)"
proof (induction vars)
  case (Cons x vars)
  have "is_space CHR '' ''" by (simp add: is_space_def)
  then show ?case using Cons var_plain [of x] by (simp add: trim_leading del: split_on.simps)
qed simp

lemma flag_parsed:
  assumes "list_all var_ok vars" "vars \<noteq> []"
  shows "parse_fetch_expr (show_flag f vars) = Inr (f, map (\<lambda>x. (fst x, var_statement x)) vars)"
proof -
  obtain x xs where vars: "vars = x # xs" using assms(2) by (cases vars) auto
  let ?w = "join '', '' (map show_var vars)"
  have "closed_word '', ''" by (rule closed_word_plain) simp_all
  moreover have "list_all closed_word (map show_var vars)"
    using assms(1) closed_var by (auto simp: list_all_iff)
  ultimately have f: "find_open (rev ?w @ CHR ''('' # rev f) '')'' = Some (length f)"
    by (intro find_flag closed_join)
  have "list_all (\<lambda>w. CHR '','' \<notin> set w) (show_var x # map ((#) CHR '' '') (map show_var xs))"
    using assms(1) var_plain(1) by (auto simp: list_all_iff vars)
  from split_join [OF _ this]
  have "split_on CHR '','' ?w = show_var x # map ((#) CHR '' '') (map show_var xs)"
    by (simp add: vars join_spaced del: join.simps)
  moreover have "parse_vars (show_var x # map ((#) CHR '' '') (map show_var xs)) =
      Inr (map (\<lambda>x. (fst x, var_statement x)) vars)"
    using assms(1) vars_split [of xs] var_plain [of x] by (simp add: vars comp_def del: split_on.simps)
  ultimately show ?thesis
    using f by (simp add: parse_fetch_expr_def show_flag_def butlast_append)
qed

text \<open>C27: Rules given on the command line are read back as written: a flag that names a function and
  a list of variables, each with an address built from a register, offsets and dereferences
  and one of the fifteen types, is parsed into the function and the variables in their order,
  and every variable's statement into the rules of its address, register first, and the size
  of its type. Function names may contain parentheses.\<close>

theorem flag_roundtrip:
  assumes "list_all var_ok vars" "vars \<noteq> []"
  shows "parse_fetch_expr (show_flag f vars) = Inr (f, map (\<lambda>x. (fst x, var_statement x)) vars) \<and>
    new_fetch_args (map (\<lambda>x. (fst x, var_statement x)) vars) = Inr (map var_fetch_arg vars)"
  using flag_parsed [OF assms] vars_parsed [OF assms(1)] by simp

lemma digit_chars:
  "digit_char 0 = CHR ''0''" "digit_char (Suc 0) = CHR ''1''" "digit_char 2 = CHR ''2''"
  "digit_char 4 = CHR ''4''" "digit_char 6 = CHR ''6''" "digit_char 8 = CHR ''8''"
  by code_simp+

definition demo_vars :: "flag_var list" where
  "demo_vars =
     [(''name'', Load 0 (At ''ax''), ''c64'', 8), (''len'', Plus 8 (At ''ax''), ''s64'', 8),
      (''next.age'', Plus 16 (Load (- 24) (Plus 8 (At ''r10''))), ''u8'', 1)]"

lemma demo_vars_ok: "list_all var_ok demo_vars"
  by (simp add: demo_vars_def var_ok_def fetch_types_def register_names_def int64_def is_space_def)

theorem flag_roundtrip_witness:
  "show_flag ''main.(*Student).String'' demo_vars =
     ''main.(*Student).String(name=(*+0(%ax)):c64, len=(+8(%ax)):s64, next.age=(+16(*-24(+8(%r10)))):u8)'' \<and>
   parse_fetch_expr (show_flag ''main.(*Student).String'' demo_vars) =
     Inr (''main.(*Student).String'', map (\<lambda>x. (fst x, var_statement x)) demo_vars) \<and>
   new_fetch_args (map (\<lambda>x. (fst x, var_statement x)) demo_vars) = Inr (map var_fetch_arg demo_vars)"
proof (rule conjI)
  show "show_flag ''main.(*Student).String'' demo_vars =
     ''main.(*Student).String(name=(*+0(%ax)):c64, len=(+8(%ax)):s64, next.age=(+16(*-24(+8(%r10)))):u8)''"
    by (simp add: show_flag_def demo_vars_def show_var_def var_statement_def show_statement_def
        show_offset_def show_nat.simps digit_chars)
  show "parse_fetch_expr (show_flag ''main.(*Student).String'' demo_vars) =
     Inr (''main.(*Student).String'', map (\<lambda>x. (fst x, var_statement x)) demo_vars) \<and>
   new_fetch_args (map (\<lambda>x. (fst x, var_statement x)) demo_vars) = Inr (map var_fetch_arg demo_vars)"
    by (rule flag_roundtrip [OF demo_vars_ok]) (simp add: demo_vars_def)
qed

end
