(* ===== verification/Ftrace_Statements.thy ===== *)
theory Ftrace_Statements
  imports Ftrace_Flags
begin

text \<open>
  What a rule from the command line means: the printing of a value
  (\<open>SprintValue\<close> of \<open>src/internal/uprobe/fetcharg.go\<close>, \<open>renderEventArgsRecipes\<close> of
  \<open>src/internal/eventmanager/handler.go\<close>), the value an address denotes in the traced
  program's registers and memory, and that parser, encoder, BPF program and printer together
  deliver it.
\<close>

section \<open>Printing a value\<close>

definition go_string :: "u8 list \<Rightarrow> string" where
  "go_string bs = map (\<lambda>b. char_of (unat b)) bs"

definition sprint_value :: "(u8 list \<Rightarrow> string) \<Rightarrow> fetch_arg \<Rightarrow> u8 list \<Rightarrow> string" where
  "sprint_value sprint_float fa dat =
     (let dat = take (nat (fa_size fa)) dat; t = fa_type fa
      in if t = ''u8'' then show_int (int (unat (dat ! 0)))
         else if t = ''u16'' then show_int (int (unat (le64 (take 2 dat))))
         else if t = ''u32'' then show_int (int (unat (le64 (take 4 dat))))
         else if t = ''u64'' then show_int (int (unat (le64 (take 8 dat))))
         else if t = ''s8'' then show_int (sint (dat ! 0))
         else if t = ''s16'' then show_int (sint (ucast (le64 (take 2 dat)) :: 16 word))
         else if t = ''s32'' then show_int (sint (ucast (le64 (take 4 dat)) :: u32))
         else if t = ''s64'' then show_int (sint (le64 (take 8 dat)))
         else if t = ''f32'' \<or> t = ''f64'' then sprint_float dat
         else if t = ''bool'' then (if dat ! 0 \<noteq> 0 then ''true'' else ''false'')
         else if t \<in> set [''c8'', ''c16'', ''c32'', ''c64'', ''c128'', ''c256'', ''c512''] then go_string dat
         else '''')"

text \<open>
  The argument text of an event of a probe with hand-written rules; \<open>render_values\<close> stands
  for the renderer of automatically fetched values, which such a probe does not reach.
\<close>

definition unavailable :: string where
  "unavailable = ''<unavailable>''"

definition render_event_args :: "(u8 list \<Rightarrow> string) \<Rightarrow> fetch_arg list \<Rightarrow> event \<Rightarrow> string" where
  "render_event_args sprint_float fas e =
     (let expected = length fas; actual = unat (ev_arg_count e)
      in if actual < expected \<or> actual > length (ev_args e) then unavailable
         else concat (map (\<lambda>(i, fa).
                (if i > 0 then '', '' else []) @ fa_varname fa @ ''='' @
                (if ad_read_error (ev_args e ! i) \<noteq> 0 then unavailable
                 else sprint_value sprint_float fa (ad_data (ev_args e ! i))))
              (enumerate 0 fas)))"

lemma enumerate_join:
  assumes "\<And>i. i < length xs \<Longrightarrow> h (n + i) (xs ! i) = w (xs ! i)"
  shows "concat (map (\<lambda>(i, x). (if i > n then sep else []) @ h i x) (enumerate n xs)) = join sep (map w xs)"
proof -
  have tail: "concat (map (\<lambda>(i, x). (if i > n then sep else []) @ h i x) (enumerate (Suc m) ys)) =
      concat (map (\<lambda>x. sep @ w x) ys)"
    if "n \<le> m" "\<And>i. i < length ys \<Longrightarrow> h (Suc m + i) (ys ! i) = w (ys ! i)" for m ys
    using that
  proof (induction ys arbitrary: m)
    case (Cons y ys)
    have "h (Suc (Suc m) + i) (ys ! i) = w (ys ! i)" if "i < length ys" for i
      using Cons.prems(2) [of "Suc i"] that by simp
    then show ?case
      using Cons.IH [of "Suc m"] Cons.prems(1) Cons.prems(2) [of 0] by simp
  qed simp
  have j: "join sep (map w (y # ys)) = w y @ concat (map (\<lambda>x. sep @ w x) ys)" for y ys
    by (induction ys arbitrary: y) simp_all
  show ?thesis
  proof (cases xs)
    case (Cons y ys)
    have "h (Suc n + i) (ys ! i) = w (ys ! i)" if "i < length ys" for i
      using assms [of "Suc i"] that Cons by simp
    then show ?thesis
      using tail [of n ys] assms [of 0] j [of y ys] Cons by simp
  qed simp
qed

section \<open>Encoded rules\<close>

fun stack_rules :: "address \<Rightarrow> fetch_rule list" where
  "stack_rules (At r) = []"
| "stack_rules (Plus off a) =
     stack_rules a @ [\<lparr>ru_from = Stack, ru_register = [], ru_offset = off, ru_dereference = False\<rparr>]"
| "stack_rules (Load off a) =
     stack_rules a @ [\<lparr>ru_from = Stack, ru_register = [], ru_offset = off, ru_dereference = True\<rparr>]"

fun base_register :: "address \<Rightarrow> string" where
  "base_register (At r) = r"
| "base_register (Plus off a) = base_register a"
| "base_register (Load off a) = base_register a"

definition int16 :: "int \<Rightarrow> bool" where
  "int16 i \<longleftrightarrow> - (2 ^ 15) \<le> i \<and> i < 2 ^ 15"

definition fits :: "address \<Rightarrow> bool" where
  "fits a \<longleftrightarrow> length (stack_rules a) \<le> 7 \<and> list_all (\<lambda>r. int16 (ru_offset r)) (stack_rules a)"

lemma address_rules_split:
  "address_rules a =
     \<lparr>ru_from = Register, ru_register = base_register a, ru_offset = 0, ru_dereference = False\<rparr> # stack_rules a"
  by (induction a) simp_all

lemma stack_rules_stack: "list_all (\<lambda>r. ru_from r = Stack) (stack_rules a)"
  by (induction a) simp_all

definition step_of :: "fetch_rule \<Rightarrow> 16 word \<times> u8" where
  "step_of r = (word_of_int (ru_offset r), if ru_dereference r then 1 else 0)"

lemma encode_steps_stack:
  "list_all (\<lambda>r. ru_from r = Stack) rs \<Longrightarrow> length os = length ds \<Longrightarrow>
     encode_steps rs (length os) (os @ replicate (length rs + m) 0) (ds @ replicate (length rs + m) 0) =
       (os @ map (fst \<circ> step_of) rs @ replicate m 0, ds @ map (snd \<circ> step_of) rs @ replicate m 0)"
proof (induction rs arbitrary: os ds)
  case (Cons r rs)
  have "(os @ 0 # replicate (length rs + m) 0)[length os := x] = (os @ [x]) @ replicate (length rs + m) 0"
    for x :: "16 word"
    by simp
  moreover have "(ds @ 0 # replicate (length rs + m) 0)[length os := y] = (ds @ [y]) @ replicate (length rs + m) 0" for y :: u8
    using Cons.prems by simp
  ultimately show ?case
    using Cons.prems Cons.IH [of "os @ [fst (step_of r)]" "ds @ [snd (step_of r)]"]
    by (cases "ru_dereference r") (simp_all add: step_of_def)
qed simp

definition encoded :: "flag_var \<Rightarrow> arg_rule" where
  "encoded x =
     (case x of (v, a, ty, n) \<Rightarrow>
        \<lparr>ar_type = (if stack_rules a = [] then ARG_RULE_REG else ARG_RULE_MEMORY),
         ar_reg = register_constant (base_register a), ar_size = word_of_int n,
         ar_length = of_nat (length (stack_rules a)),
         ar_offsets = map (fst \<circ> step_of) (stack_rules a) @ replicate (8 - length (stack_rules a)) 0,
         ar_dereference = map (snd \<circ> step_of) (stack_rules a) @ replicate (8 - length (stack_rules a)) 0,
         ar_nil_check = 0, ar_iface_data = 0, ar_type_idx = 0\<rparr>)"

lemma var_encoded:
  assumes "length (stack_rules a) \<le> 7"
  shows "encode_rule (var_fetch_arg (v, a, ty, n)) = Inr (encoded (v, a, ty, n))"
proof -
  let ?r = "\<lparr>ru_from = Register, ru_register = base_register a, ru_offset = 0, ru_dereference = False\<rparr>"
  have "length (stack_rules a) + (8 - length (stack_rules a)) = 8" using assms by simp
  then have e: "encode_steps (?r # stack_rules a) 0 (replicate 8 0) (replicate 8 0) =
      (map (fst \<circ> step_of) (stack_rules a) @ replicate (8 - length (stack_rules a)) 0,
       map (snd \<circ> step_of) (stack_rules a) @ replicate (8 - length (stack_rules a)) 0)"
    using encode_steps_stack [OF stack_rules_stack [of a], of "[]" "[]" "8 - length (stack_rules a)"] by simp
  have l: "location_code (ru_from (last (?r # stack_rules a))) =
      (if stack_rules a = [] then ARG_RULE_REG else ARG_RULE_MEMORY)"
    using stack_rules_stack [of a]
    by (cases "stack_rules a" rule: rev_cases) (simp_all add: location_code_def rule_type_defs)
  show ?thesis
    using assms
    by (simp only: encode_rule_def var_fetch_arg_def encoded_def Let_def prod.case fetch_arg.simps
        address_rules_split e l) simp
qed

lemma vars_encoded:
  "list_all (\<lambda>(v, a, ty, n). length (stack_rules a) \<le> 7) vars \<Longrightarrow>
     encode_rules (map var_fetch_arg vars) = Inr (map encoded vars)"
  by (induction vars) (auto simp: var_encoded)

lemma encoded_steps:
  "length (stack_rules a) \<le> 7 \<Longrightarrow> arg_steps (encoded (v, a, ty, n)) = map step_of (stack_rules a)"
  by (simp add: arg_steps_def encoded_def unat_of_nat_small zip_append zip_map_map comp_def zip_same_conv_map)

lemma encoded_shape: "length (stack_rules a) \<le> 7 \<Longrightarrow> arg_rule_shape (encoded (v, a, ty, n))"
  by (simp add: arg_rule_shape_def encoded_def)

section \<open>Meaning of an address\<close>

fun eval_address :: "(u64 \<rightharpoonup> u8) \<Rightarrow> (string \<Rightarrow> u64) \<Rightarrow> address \<Rightarrow> u64 option" where
  "eval_address mem regs (At r) = Some (regs r)"
| "eval_address mem regs (Plus off a) = map_option (\<lambda>p. p + word_of_int off) (eval_address mem regs a)"
| "eval_address mem regs (Load off a) =
     Option.bind (eval_address mem regs a) (\<lambda>p. load64 mem (p + word_of_int off))"

text \<open>The bytes a variable denotes: of the register itself, zero-extended, or of memory.\<close>

definition denoted :: "(u64 \<rightharpoonup> u8) \<Rightarrow> (string \<Rightarrow> u64) \<Rightarrow> address \<Rightarrow> nat \<Rightarrow> u8 list option" where
  "denoted mem regs a n =
     (case a of
        At r \<Rightarrow> Some (take n (bytes64 (regs r) @ replicate 56 0))
      | _ \<Rightarrow> Option.bind (eval_address mem regs a) (\<lambda>p. load_bytes mem p n))"

definition register_value :: "pt_regs \<Rightarrow> string \<Rightarrow> u64" where
  "register_value ctx r =
     (if r = ''ax'' then ctx_ax ctx else if r = ''bx'' then ctx_bx ctx else if r = ''cx'' then ctx_cx ctx
      else if r = ''dx'' then ctx_dx ctx else if r = ''si'' then ctx_si ctx else if r = ''di'' then ctx_di ctx
      else if r = ''bp'' then ctx_bp ctx else if r = ''sp'' then ctx_sp ctx else if r = ''r8'' then ctx_r8 ctx
      else if r = ''r9'' then ctx_r9 ctx else if r = ''r10'' then ctx_r10 ctx else if r = ''r11'' then ctx_r11 ctx
      else if r = ''r12'' then ctx_r12 ctx else if r = ''r13'' then ctx_r13 ctx
      else if r = ''r14'' then ctx_r14 ctx else ctx_r15 ctx)"

lemma register_number:
  "r \<in> set register_names \<Longrightarrow>
     unat (register_constant r) < 16 \<and> dwarf_regs ctx ! unat (register_constant r) = register_value ctx r"
  by (auto simp: register_names_def register_constant_def register_constants_def register_value_def dwarf_regs_def)

lemma chase_append:
  "chase mem (xs @ ys) a = Option.bind (chase mem xs a) (chase mem ys)"
  by (induction mem xs a rule: chase.induct) (auto split: bind_splits)

lemma chase_Nil: "chase mem [] = Some"
  by (rule ext) simp

lemma scast_int16: "int16 i \<Longrightarrow> scast (word_of_int i :: 16 word) = (word_of_int i :: u64)"
  by (simp add: int16_def scast_eq sint_sbintrunc' signed_take_bit_int_eq_self)

lemma chase_address:
  "list_all (\<lambda>r. int16 (ru_offset r)) (stack_rules a) \<Longrightarrow>
     chase mem (map step_of (stack_rules a)) (regs (base_register a)) = eval_address mem regs a"
proof (induction a)
  case (Plus off a)
  then show ?case
    by (cases "eval_address mem regs a") (simp_all add: chase_append step_of_def scast_int16)
next
  case (Load off a)
  then show ?case
    by (cases "eval_address mem regs a") (simp_all add: chase_append step_of_def scast_int16 chase_Nil)
qed simp

section \<open>What a variable's leaf holds\<close>

lemma type_length: "(ty, n) \<in> set fetch_types \<Longrightarrow> 0 < n \<and> n \<le> 64"
  by (auto simp: fetch_types_def)

lemma size_byte: "0 \<le> n \<Longrightarrow> n \<le> 64 \<Longrightarrow> unat (word_of_int n :: u8) = nat n"
  by (simp add: unsigned_of_int take_bit_int_eq_self)

lemma leaf_denoted:
  fixes ctx v
  assumes mem: "answers (k_read_user env) mem" "reads_objects env"
    and x: "address_ok a" "(ty, n) \<in> set fetch_types" "fits a"
  defines "d \<equiv> fetch_leaf env ctx (encoded (v, a, ty, n))"
  shows "case denoted mem (register_value ctx) a (nat n) of
      None \<Rightarrow> ad_read_error d = 1
    | Some bs \<Rightarrow> ad_read_error d = 0 \<and> take (nat n) (ad_data d) = bs"
proof -
  let ?r = "encoded (v, a, ty, n)"
  have n: "0 < n" "n \<le> 64" using type_length [OF x(2)] by auto
  have len: "length (stack_rules a) \<le> 7" using x(3) by (simp add: fits_def)
  have base: "base_register a \<in> set register_names" using x(1) by (induction a) simp_all
  note reg = register_number [OF base, of ctx]
  show ?thesis
  proof (cases "stack_rules a")
    case Nil
    then obtain r where a: "a = At r" by (cases a) simp_all
    have ty: "ar_type ?r = ARG_RULE_REG" "ar_reg ?r = register_constant (base_register a)"
      using Nil by (simp_all add: encoded_def)
    have "d = zero_arg_data\<lparr>ad_data := bytes64 (register_value ctx (base_register a)) @ replicate 56 0\<rparr>"
      using mem(2) reg
      by (simp add: d_def fetch_leaf_def ty fetch_args_from_reg_def read_reg_def reg_field_dwarf
          reads_objects_bytes64 overlay_def zero_arg_data_def rule_type_defs)
    then show ?thesis by (simp add: a denoted_def zero_arg_data_def)
  next
    case (Cons s ss)
    then have den: "denoted mem (register_value ctx) a m =
        Option.bind (eval_address mem (register_value ctx) a) (\<lambda>p. load_bytes mem p m)" for m
      by (cases a) (simp_all add: denoted_def)
    have ty: "ar_type ?r = ARG_RULE_MEMORY" "ar_reg ?r = register_constant (base_register a)"
        "ar_nil_check ?r = 0" "min 64 (unat (ar_size ?r)) = nat n"
      using Cons n size_byte [of n] by (simp_all add: encoded_def)
    have ch: "chase mem (arg_steps ?r) (dwarf_regs ctx ! unat (ar_reg ?r)) =
        eval_address mem (register_value ctx) a"
      using chase_address [of a mem "register_value ctx"] x(3) reg
      by (simp add: encoded_steps [OF len] ty fits_def)
    have "case denoted mem (register_value ctx) a (nat n) of
        None \<Rightarrow> ad_read_error d = 1
      | Some bs \<Rightarrow> d = zero_arg_data\<lparr>ad_data := bs @ replicate (64 - nat n) 0\<rparr>"
      using memory_rule_leaf [OF mem encoded_shape [OF len] ty(1), of ctx] reg
      unfolding ch ty(4) den d_def by (simp add: ty)
    moreover have "length bs = nat n" if "denoted mem (register_value ctx) a (nat n) = Some bs" for bs
      using that unfolding den by (auto simp: bind_eq_Some_conv dest: length_load_bytes)
    ultimately show ?thesis
      by (cases "denoted mem (register_value ctx) a (nat n)") (simp_all add: zero_arg_data_def)
  qed
qed

lemma sprint_prefix:
  "nat (fa_size fa) = m \<Longrightarrow> sprint_value sf fa dat = sprint_value sf fa (take m dat)"
  by (simp add: sprint_value_def)

definition var_text :: "(u8 list \<Rightarrow> string) \<Rightarrow> (u64 \<rightharpoonup> u8) \<Rightarrow> (string \<Rightarrow> u64) \<Rightarrow> flag_var \<Rightarrow> string" where
  "var_text sf mem regs x =
     (case x of (v, a, ty, n) \<Rightarrow>
        v @ ''='' @ (case denoted mem regs a (nat n) of
                       None \<Rightarrow> unavailable
                     | Some bs \<Rightarrow> sprint_value sf (var_fetch_arg x) bs))"

definition var_fits :: "flag_var \<Rightarrow> bool" where
  "var_fits x = (case x of (v, a, ty, n) \<Rightarrow> fits a)"

lemma leaf_text:
  fixes ctx
  assumes "answers (k_read_user env) mem" "reads_objects env" "var_ok x" "var_fits x"
  defines "d \<equiv> fetch_leaf env ctx (encoded x)"
  shows "fa_varname (var_fetch_arg x) @ ''='' @
      (if ad_read_error d \<noteq> 0 then unavailable else sprint_value sf (var_fetch_arg x) (ad_data d)) =
    var_text sf mem (register_value ctx) x"
proof -
  obtain v a ty n where x: "x = (v, a, ty, n)" by (cases x)
  have "address_ok a" "(ty, n) \<in> set fetch_types" "fits a"
    using assms(3,4) by (auto simp: x var_ok_def var_fits_def)
  from leaf_denoted [OF assms(1,2) this, of ctx v]
  show ?thesis
    using sprint_prefix [of "var_fetch_arg x" "nat n" sf "ad_data d"]
    by (simp add: x d_def var_text_def var_fetch_arg_def split: option.splits)
qed

section \<open>From the flag to the printed text\<close>

definition vars_rules :: "flag_var list \<Rightarrow> arg_rules" where
  "vars_rules vars =
     \<lparr>ars_length = of_nat (length vars),
      ars_rules = map encoded vars @ replicate (8 - length vars) zero_arg_rule\<rparr>"

lemma rules_installed:
  assumes "list_all var_fits vars" "length vars \<le> 8" "arg_rules_map st pc = None" "card (dom (arg_rules_map st)) < 100"
  shows "set_arg_rules pc (map var_fetch_arg vars) st =
     Inr (st\<lparr>arg_rules_map := (arg_rules_map st)(pc \<mapsto> vars_rules vars)\<rparr>)"
proof -
  have "list_all (\<lambda>(v, a, ty, n). length (stack_rules a) \<le> 7) vars"
    using assms(1) by (auto simp: list_all_iff var_fits_def fits_def)
  then show ?thesis
    using assms(2-4)
    by (simp add: set_arg_rules_def vars_encoded update_no_exist_def vars_rules_def
        def_arg_rules_map_def map_def_def)
qed

lemma vars_rules_shape:
  assumes "list_all var_fits vars" "length vars \<le> 8"
  shows "arg_rules_shape (vars_rules vars)"
proof -
  have "arg_rule_shape zero_arg_rule" by (simp add: arg_rule_shape_def zero_arg_rule_def)
  then show ?thesis
    using assms
    by (auto simp: arg_rules_shape_def vars_rules_def list_all_iff var_fits_def fits_def intro: encoded_shape)
qed

lemma encoded_plain: "ar_iface_data (encoded x) = 0"
  by (simp add: encoded_def split: prod.split)

lemma vars_slot: "i < length vars \<Longrightarrow> ars_rules (vars_rules vars) ! i = encoded (vars ! i)"
  by (simp add: vars_rules_def nth_append)

lemma vars_fetched:
  assumes "reads_objects env" "recipes_shape st" "arg_rules_map st (ev_ip e) = Some (vars_rules vars)"
    "list_all var_fits vars" "length vars \<le> 8" "ev_args e = replicate 8 zero_arg_data"
  shows "fetch_args env ctx st e = filled e (map (\<lambda>x. fetch_leaf env ctx (encoded x)) vars)"
proof -
  have n: "unat (ars_length (vars_rules vars)) = length vars"
    using assms(5) by (simp add: vars_rules_def unat_of_nat_small)
  have b: "base_leaves env ctx (vars_rules vars) = map (\<lambda>x. fetch_leaf env ctx (encoded x)) vars"
    using assms(5) by (simp add: base_leaves_def n) (simp add: vars_rules_def)
  have slots: "type_slots_ok (vars_rules vars)"
    using assms(5) by (simp add: type_slots_ok_def n vars_slot encoded_plain)
  have "extra_leaves env st (vars_rules vars) base i = []" if "i < length vars" for base i
    using that by (simp add: extra_leaves_def Let_def vars_slot encoded_plain)
  then have "expected_leaves env ctx st (vars_rules vars) = map (\<lambda>x. fetch_leaf env ctx (encoded x)) vars"
    using assms(5) by (simp add: expected_leaves_def Let_def b)
  then show ?thesis
    using fetch_args_filled [OF assms(1-3) vars_rules_shape [OF assms(4,5)] slots assms(6)] by simp
qed

text \<open>C5: From the command line to the screen: a flag over at most eight variables, whose addresses
  have at most seven steps with offsets of 16 bits, is parsed into the function and the
  variables' statements, these parse, the loader installs their rules at a free probe address
  of a map with room, and when that probe is hit the arguments printed for the event are the
  variables by name and order with the values they denote: the register's bytes, or the bytes
  at the address in the traced program's memory, printed as the type says, and
  "<unavailable>" exactly when a dereference or the target lies in unmapped memory.\<close>

theorem flag_prints_denotation:
  assumes "answers (k_read_user env) mem" "reads_objects env" "recipes_shape st"
    and "list_all var_ok vars" "list_all var_fits vars" "vars \<noteq> []" "length vars \<le> 8"
    and "arg_rules_map st (ev_ip e) = None" "card (dom (arg_rules_map st)) < 100"
    and "ev_args e = replicate 8 zero_arg_data"
  shows "\<exists>exprs fas st'. parse_fetch_expr (show_flag f vars) = Inr (f, exprs) \<and>
     new_fetch_args exprs = Inr fas \<and> set_arg_rules (ev_ip e) fas st = Inr st' \<and>
     render_event_args sf fas (fetch_args env ctx st' e) =
       join '', '' (map (var_text sf mem (register_value ctx)) vars)"
proof -
  let ?st = "st\<lparr>arg_rules_map := (arg_rules_map st)(ev_ip e \<mapsto> vars_rules vars)\<rparr>"
  let ?leaf = "\<lambda>x. fetch_leaf env ctx (encoded x)"
  have fetched: "fetch_args env ctx ?st e = filled e (map ?leaf vars)"
    by (rule vars_fetched) (use assms in \<open>simp_all add: recipes_shape_def\<close>)
  define E where "E = filled e (map ?leaf vars)"
  have E: "ev_args E ! i = ?leaf (vars ! i)" if "i < length vars" for i
    using that by (simp add: E_def nth_append)
  have n: "unat (ev_arg_count E) = length vars" "length (ev_args E) = 8"
    using assms(7) by (simp_all add: E_def)
  let ?h = "\<lambda>i x. fa_varname (var_fetch_arg x) @ ''='' @
      (if ad_read_error (ev_args E ! i) \<noteq> 0 then unavailable
       else sprint_value sf (var_fetch_arg x) (ad_data (ev_args E ! i)))"
  have "?h (0 + i) (vars ! i) = var_text sf mem (register_value ctx) (vars ! i)" if "i < length vars" for i
    using leaf_text [OF assms(1,2), of "vars ! i" ctx sf] assms(4,5) that
    by (simp add: list_all_length E split: if_split_asm)
  then have "concat (map (\<lambda>(i, x). (if i > 0 then '', '' else []) @ ?h i x) (enumerate 0 vars)) =
      join '', '' (map (var_text sf mem (register_value ctx)) vars)"
    by (rule enumerate_join)
  moreover have "enumerate 0 (map var_fetch_arg vars) =
      map (\<lambda>(i, x). (i, var_fetch_arg x)) (enumerate 0 vars)"
    by (simp add: enumerate_eq_zip zip_map2)
  ultimately have "render_event_args sf (map var_fetch_arg vars) E =
      join '', '' (map (var_text sf mem (register_value ctx)) vars)"
    using assms(7) by (simp add: render_event_args_def comp_def split_def n cong: if_cong)
  then show ?thesis
    using flag_parsed [OF assms(4,6)] vars_parsed [OF assms(4)] rules_installed [OF assms(5,7-9)] fetched [folded E_def]
    by (intro exI [of _ "map (\<lambda>x. (fst x, var_statement x)) vars"] exI [of _ "map var_fetch_arg vars"]
        exI [of _ ?st]) simp
qed


definition print_vars :: "flag_var list" where
  "print_vars = [(''b'', Plus 8 (At ''ax''), ''u8'', 1), (''r'', At ''ax'', ''s16'', 2)]"

lemma print_text:
  "join '', '' (map (var_text (\<lambda>_. []) low_memory (register_value (demo_ctx 100 1008 2000))) print_vars) =
     ''b=8, r=8192''"
proof -
  have c: "digit_char 8 = CHR ''8''" "digit_char (Suc 0) = CHR ''1''" "digit_char 9 = CHR ''9''" "digit_char 2 = CHR ''2''"
    by code_simp+
  have r: "bytes64 0x2000 = [0, 0x20, 0, 0, 0, 0, 0, 0]"
    by (simp add: bytes64_def upt_rec)
  show ?thesis
    by (simp add: print_vars_def var_text_def denoted_def load_low sprint_value_def var_fetch_arg_def
        register_value_def demo_ctx_def show_int_def show_nat.simps r le64_Cons c)
qed

theorem flag_prints_denotation_witness:
  "\<exists>exprs fas st'. parse_fetch_expr (show_flag ''main.f'' print_vars) = Inr (''main.f'', exprs) \<and>
     new_fetch_args exprs = Inr fas \<and> set_arg_rules 100 fas demo_state = Inr st' \<and>
     render_event_args (\<lambda>_. []) fas
       (fetch_args low_env (demo_ctx 100 1008 2000) st' (zero_event\<lparr>ev_ip := 100\<rparr>)) =
       ''b=8, r=8192''"
  unfolding print_text [symmetric]
  using flag_prints_denotation [OF low_answers(1) low_objects, of demo_state print_vars
      "zero_event\<lparr>ev_ip := 100\<rparr>" "''main.f''" "\<lambda>_. []" "demo_ctx 100 1008 2000"]
  by (simp add: print_vars_def var_ok_def var_fits_def fits_def fetch_types_def register_names_def int64_def
      int16_def is_space_def recipes_shape_def demo_state_def zero_event_def)

end
