(* ===== verification/Ftrace_Misread.thy ===== *)
theory Ftrace_Misread
  imports Ftrace_Statements
begin

text \<open>
  The statements the parser accepts although the BPF program cannot carry them.
\<close>

section \<open>Statements that are accepted and misread\<close>

definition wrap16 :: "int \<Rightarrow> int" where
  "wrap16 i = sint (word_of_int i :: 16 word)"

fun wrap_address :: "address \<Rightarrow> address" where
  "wrap_address (At r) = At r"
| "wrap_address (Plus off a) = Plus (wrap16 off) (wrap_address a)"
| "wrap_address (Load off a) = Load (wrap16 off) (wrap_address a)"

lemma wrap16_word: "(word_of_int (wrap16 i) :: 16 word) = word_of_int i"
  by (simp add: wrap16_def)

lemma wrap_steps:
  "map step_of (stack_rules (wrap_address a)) = map step_of (stack_rules a)"
  "base_register (wrap_address a) = base_register a"
  by (induction a) (simp_all add: step_of_def wrap16_word)

lemma wrap_encoded: "encoded (v, wrap_address a, ty, n) = encoded (w, a, ty, n)"
proof -
  have "map (fst \<circ> step_of) (stack_rules (wrap_address a)) = map (fst \<circ> step_of) (stack_rules a)"
    "map (snd \<circ> step_of) (stack_rules (wrap_address a)) = map (snd \<circ> step_of) (stack_rules a)"
    using arg_cong [OF wrap_steps(1) [of a], of "map fst"] arg_cong [OF wrap_steps(1) [of a], of "map snd"]
    by simp_all
  moreover have len: "length (stack_rules (wrap_address a)) = length (stack_rules a)"
    using arg_cong [OF wrap_steps(1) [of a], of length] by simp
  moreover have "stack_rules (wrap_address a) = [] \<longleftrightarrow> stack_rules a = []"
    using len by (metis length_0_conv)
  ultimately show ?thesis by (simp add: encoded_def wrap_steps(2))
qed

lemma wrap16_range: "int16 (wrap16 i)"
  using sint_range_size [of "word_of_int i :: 16 word"]
  by (simp add: int16_def wrap16_def word_size)

lemma wrap_fits: "length (stack_rules a) \<le> 7 \<Longrightarrow> fits (wrap_address a)"
proof -
  have "list_all (\<lambda>r. int16 (ru_offset r)) (stack_rules (wrap_address a))"
    by (induction a) (simp_all add: wrap16_range)
  moreover have "length (stack_rules (wrap_address a)) = length (stack_rules a)"
    using arg_cong [OF wrap_steps(1) [of a], of length] by simp
  ultimately show "length (stack_rules a) \<le> 7 \<Longrightarrow> fits (wrap_address a)" by (simp add: fits_def)
qed

lemma only_offset:
  "new_fetch_arg v ''(+8):u64'' =
     Inr \<lparr>fa_varname = v, fa_statement = ''(+8):u64'', fa_type = ''u64'', fa_size = 8,
          fa_rules = [\<lparr>ru_from = Stack, ru_register = [], ru_offset = 8, ru_dereference = False\<rparr>],
          fa_nil_check = False, fa_iface_data = False, fa_type_index = 0\<rparr>"
  by (simp add: new_fetch_arg_def type_error_def parse_int_def parse_uint_def digit_value_def
      new_fetch_op_def swap_ends.simps)

lemma no_rules:
  "new_fetch_arg v ''():u8'' =
     Inr \<lparr>fa_varname = v, fa_statement = ''():u8'', fa_type = ''u8'', fa_size = 1, fa_rules = [],
          fa_nil_check = False, fa_iface_data = False, fa_type_index = 0\<rparr>"
  by (simp add: new_fetch_arg_def type_error_def parse_int_def parse_uint_def digit_value_def
      new_fetch_op_def swap_ends.simps)

text \<open>C37: What the parser accepts beyond what the program can carry, and what becomes of it. Offsets
  are parsed as 64-bit numbers but stored in 16 bits: the rule installed for an address is the
  one for the address with every offset reduced to a signed 16-bit number, so "+65536(%ax)"
  reads at ax itself. A statement without a register is taken to start at ax and loses a step:
  "(+8):u64" reads the word at ax. "():u8" is accepted and crashes the loader, and an empty
  type crashes the parser.\<close>

theorem statements_misread:
  "(length (stack_rules a) \<le> 7 \<longrightarrow>
      encode_rule (var_fetch_arg (v, a, ty, n)) = encode_rule (var_fetch_arg (v, wrap_address a, ty, n)) \<and>
      fits (wrap_address a)) \<and>
   wrap_address (Plus 65536 (At ''ax'')) = Plus 0 (At ''ax'') \<and>
   (\<exists>fa r. new_fetch_arg v ''(+8):u64'' = Inr fa \<and> encode_rule fa = Inr r \<and>
      ar_type r = ARG_RULE_MEMORY \<and> ar_reg r = register_constant ''ax'' \<and> arg_steps r = []) \<and>
   (\<exists>fa. new_fetch_arg v ''():u8'' = Inr fa \<and> set_arg_rules pc [fa] st = Inl Index_out_of_range) \<and>
   new_fetch_arg v ''(%ax):'' = Inl Index_out_of_range"
proof (intro conjI)
  show "length (stack_rules a) \<le> 7 \<longrightarrow>
      encode_rule (var_fetch_arg (v, a, ty, n)) = encode_rule (var_fetch_arg (v, wrap_address a, ty, n)) \<and>
      fits (wrap_address a)"
  proof
    assume "length (stack_rules a) \<le> 7"
    then show "encode_rule (var_fetch_arg (v, a, ty, n)) = encode_rule (var_fetch_arg (v, wrap_address a, ty, n)) \<and>
      fits (wrap_address a)"
      using wrap_fits [of a] by (simp add: var_encoded fits_def wrap_encoded [of v a ty n v])
  qed
  show "wrap_address (Plus 65536 (At ''ax'')) = Plus 0 (At ''ax'')"
    by (simp add: wrap16_def)
  show "\<exists>fa r. new_fetch_arg v ''(+8):u64'' = Inr fa \<and> encode_rule fa = Inr r \<and>
      ar_type r = ARG_RULE_MEMORY \<and> ar_reg r = register_constant ''ax'' \<and> arg_steps r = []"
    by (simp add: only_offset encode_rule_def location_code_def rule_type_defs register_constant_def
        register_constants_def arg_steps_def)
  show "\<exists>fa. new_fetch_arg v ''():u8'' = Inr fa \<and> set_arg_rules pc [fa] st = Inl Index_out_of_range"
    by (simp add: no_rules set_arg_rules_def encode_rule_def)
  show "new_fetch_arg v ''(%ax):'' = Inl Index_out_of_range"
    by (simp add: new_fetch_arg_def type_error_def)
qed

theorem statements_misread_witness:
  "encode_rule (var_fetch_arg (''x'', Load 65544 (At ''bx''), ''u8'', 1)) =
     encode_rule (var_fetch_arg (''x'', Load 8 (At ''bx''), ''u8'', 1))"
  using statements_misread [of "Load 65544 (At ''bx'')" "''x''" "''u8''" 1 0 demo_state]
  by (simp add: wrap16_def)

end
