(* ===== verification/Ftrace_Symbols.thy ===== *)
theory Ftrace_Symbols
  imports Ftrace_Misread
begin

text \<open>
  The symbol table of the traced binary (\<open>src/elf/symtab.go\<close>) and the binary search it
  uses. The table is a parameter, in the order \<open>Symbols\<close> sorts it.
\<close>

section \<open>Binary search\<close>

text \<open>
  \<open>sort.Search(n, f)\<close>: the loop with its bounds \<open>i\<close> and \<open>j\<close>.
\<close>

function search_loop :: "(nat \<Rightarrow> bool) \<Rightarrow> nat \<Rightarrow> nat \<Rightarrow> nat" where
  "search_loop f i j =
     (if i < j then
        let h = (i + j) div 2 in if \<not> f h then search_loop f (Suc h) j else search_loop f i h
      else i)"
  by pat_completeness auto
termination
  by (relation "measure (\<lambda>(f, i, j). j - i)") auto

declare search_loop.simps [simp del]

definition sort_search :: "nat \<Rightarrow> (nat \<Rightarrow> bool) \<Rightarrow> nat" where
  "sort_search n f = search_loop f 0 n"

lemma search_loop_least:
  assumes "\<And>k l. k \<le> l \<Longrightarrow> l < n \<Longrightarrow> f k \<Longrightarrow> f l"
    and "i \<le> j" "j \<le> n" "\<And>k. k < i \<Longrightarrow> \<not> f k" "j < n \<Longrightarrow> f j"
  shows "search_loop f i j \<le> n \<and> (\<forall>k < search_loop f i j. \<not> f k) \<and>
     (search_loop f i j < n \<longrightarrow> f (search_loop f i j))"
  using assms
proof (induction f i j rule: search_loop.induct)
  case (1 f i j)
  show ?case
  proof (cases "i < j")
    case ge: False
    have "search_loop f i j = i" using ge by (subst search_loop.simps) simp
    moreover have "i = j" using ge "1.prems"(2) by simp
    ultimately show ?thesis using "1.prems" by auto
  next
    case True
    let ?h = "(i + j) div 2"
    have h: "i \<le> ?h" "?h < j" using True by auto
    show ?thesis
    proof (cases "f ?h")
      case False
      have "search_loop f i j = search_loop f (Suc ?h) j"
        using True False by (subst search_loop.simps) (simp add: Let_def)
      moreover have "\<not> f k" if "k < Suc ?h" for k
        using False h that "1.prems"(1) [of k ?h] "1.prems"(3) by auto
      ultimately show ?thesis
        using "1.IH"(1) [OF True refl _ "1.prems"(1)] False h "1.prems" by simp
    next
      case True2: True
      have "search_loop f i j = search_loop f i ?h"
        using True True2 by (subst search_loop.simps) (simp add: Let_def)
      then show ?thesis
        using "1.IH"(2) [OF True refl _ "1.prems"(1)] True2 h "1.prems" by simp
    qed
  qed
qed

lemma sort_search_least:
  assumes "\<forall>k l. k \<le> l \<longrightarrow> l < n \<longrightarrow> f k \<longrightarrow> f l"
  shows "sort_search n f \<le> n" "k < sort_search n f \<Longrightarrow> \<not> f k" "sort_search n f < n \<Longrightarrow> f (sort_search n f)"
  using search_loop_least [of n f 0 n] assms by (auto simp: sort_search_def)

section \<open>Symbols\<close>

record elf_symbol =
  sy_name :: string
  sy_value :: u64
  sy_func :: bool

text \<open>\<open>Symbols\<close> hands out the table sorted by value; a name maps to its last symbol.\<close>

definition sym_names :: "elf_symbol list \<Rightarrow> string \<rightharpoonup> elf_symbol" where
  "sym_names symbols = fold (\<lambda>s m. m(sy_name s \<mapsto> s)) symbols Map.empty"

definition resolve_symbol :: "elf_symbol list \<Rightarrow> string \<Rightarrow> go_error + elf_symbol" where
  "resolve_symbol symbols name =
     (case sym_names symbols name of None \<Rightarrow> Inl Symbol_not_found | Some s \<Rightarrow> Inr s)"

text \<open>The two loops that collect the symbols with the value found, downwards and upwards.\<close>

fun same_below :: "elf_symbol list \<Rightarrow> u64 \<Rightarrow> nat \<Rightarrow> elf_symbol list" where
  "same_below symbols v 0 = []"
| "same_below symbols v (Suc i) =
     (if sy_value (symbols ! i) = v then symbols ! i # same_below symbols v i else [])"

function same_above :: "elf_symbol list \<Rightarrow> u64 \<Rightarrow> nat \<Rightarrow> elf_symbol list" where
  "same_above symbols v i =
     (if i < length symbols \<and> sy_value (symbols ! i) = v
      then symbols ! i # same_above symbols v (Suc i) else [])"
  by pat_completeness auto
termination
  by (relation "measure (\<lambda>(symbols, v, i). length symbols - i)") auto

declare same_above.simps [simp del]

definition resolve_address :: "elf_symbol list \<Rightarrow> u64 \<Rightarrow> go_error + elf_symbol list \<times> u64" where
  "resolve_address symbols addr =
     (if addr = 0 then Inl Symbol_not_found
      else let idx = sort_search (length symbols) (\<lambda>i. sy_value (symbols ! i) > addr)
           in if idx = 0 then Inl Symbol_not_found
              else let v = sy_value (symbols ! (idx - 1))
                   in Inr (same_below symbols v idx @ same_above symbols v idx, addr - v))"

definition sorted_symbols :: "elf_symbol list \<Rightarrow> bool" where
  "sorted_symbols symbols = sorted (map sy_value symbols)"

lemma same_below_filter:
  "sorted_symbols symbols \<Longrightarrow> i \<le> length symbols \<Longrightarrow> 0 < i \<Longrightarrow> v = sy_value (symbols ! (i - 1)) \<Longrightarrow>
     same_below symbols v i = rev (filter (\<lambda>s. sy_value s = v) (take i symbols))"
proof (induction i)
  case (Suc i)
  show ?case
  proof (cases "i = 0")
    case True
    then show ?thesis using Suc.prems by (cases symbols) simp_all
  next
    case False
    show ?thesis
    proof (cases "sy_value (symbols ! (i - 1)) = v")
      case True
      then show ?thesis using Suc False by (simp add: take_Suc_conv_app_nth)
    next
      case ne: False
      have "sy_value s \<noteq> v" if s: "s \<in> set (take i symbols)" for s
      proof -
        obtain k where k: "k < i" "s = symbols ! k" using s Suc.prems(2) by (auto simp: in_set_conv_nth)
        have "sy_value (symbols ! k) \<le> sy_value (symbols ! (i - 1))" "sy_value (symbols ! (i - 1)) \<le> v"
          using Suc.prems k sorted_nth_mono [of "map sy_value symbols" k "i - 1"]
            sorted_nth_mono [of "map sy_value symbols" "i - 1" i]
          by (auto simp: sorted_symbols_def)
        then show ?thesis using ne k by auto
      qed
      then have "filter (\<lambda>s. sy_value s = v) (take i symbols) = []" by (simp add: filter_empty_conv)
      moreover have "same_below symbols v i = []" using ne False by (cases i) simp_all
      ultimately show ?thesis using Suc.prems by (simp add: take_Suc_conv_app_nth)
    qed
  qed
qed simp

lemma same_above_none:
  "i < length symbols \<Longrightarrow> sy_value (symbols ! i) \<noteq> v \<Longrightarrow> same_above symbols v i = []"
  "length symbols \<le> i \<Longrightarrow> same_above symbols v i = []"
  by (subst same_above.simps, simp)+

text \<open>
  With the table sorted, an address resolves to all symbols at the greatest value at or
  below it and the distance from there, and to an error exactly when there is none.
\<close>

lemma resolve_address_floor:
  assumes "sorted_symbols symbols" "addr \<noteq> 0"
  shows "resolve_address symbols addr =
    (let below = filter (\<lambda>s. sy_value s \<le> addr) symbols
     in if below = [] then Inl Symbol_not_found
        else let v = sy_value (last below)
             in Inr (rev (filter (\<lambda>s. sy_value s = v) symbols), addr - v))"
proof -
  let ?f = "\<lambda>i. sy_value (symbols ! i) > addr"
  let ?n = "length symbols"
  define idx where "idx = sort_search (length symbols) ?f"
  have mono1: "?f l" if "k \<le> l" "l < ?n" "?f k" for k l
    using assms(1) that sorted_nth_mono [of "map sy_value symbols" k l]
    by (fastforce simp: sorted_symbols_def)
  then have mono: "\<forall>k l. k \<le> l \<longrightarrow> l < ?n \<longrightarrow> ?f k \<longrightarrow> ?f l" by blast
  note s = sort_search_least [of ?n ?f, OF mono, folded idx_def]
  have idx: "idx \<le> ?n" by (rule s(1))
  have lo: "sy_value (symbols ! k) \<le> addr" if "k < idx" for k
    using s(2) [of k] that by (simp add: not_less)
  have hi: "addr < sy_value (symbols ! k)" if "idx \<le> k" "k < ?n" for k
    using s(3) mono1 [of idx k] that by simp
  have split: "symbols = take idx symbols @ drop idx symbols" by simp
  have "filter (\<lambda>s. sy_value s \<le> addr) (take idx symbols) = take idx symbols"
    using lo idx by (fastforce simp: filter_id_conv in_set_conv_nth)
  moreover have "filter (\<lambda>s. sy_value s \<le> addr) (drop idx symbols) = []"
  proof -
    have "\<not> sy_value s \<le> addr" if "s \<in> set (drop idx symbols)" for s
      using that hi by (auto simp: in_set_conv_nth not_le)
    then show ?thesis by (simp add: filter_empty_conv)
  qed
  ultimately have below: "filter (\<lambda>s. sy_value s \<le> addr) symbols = take idx symbols"
    by (subst (1) split) (simp only: filter_append append_Nil2)
  show ?thesis
  proof (cases "idx = 0")
    case True
    then show ?thesis using assms(2) by (simp add: resolve_address_def Let_def idx_def [symmetric] below)
  next
    case False
    let ?v = "sy_value (symbols ! (idx - 1))"
    have ne: "take idx symbols \<noteq> []" using False idx by (cases symbols) auto
    have last: "sy_value (last (take idx symbols)) = ?v"
      using ne idx by (simp add: last_conv_nth min_absorb2)
    have v: "?v \<le> addr" using lo [of "idx - 1"] False by simp
    have above: "same_above symbols ?v idx = []"
    proof (cases "idx < ?n")
      case True
      then show ?thesis using hi [of idx] v by (intro same_above_none(1)) auto
    qed (simp add: same_above_none(2))
    have "filter (\<lambda>s. sy_value s = ?v) (drop idx symbols) = []"
    proof -
      have "sy_value s \<noteq> ?v" if "s \<in> set (drop idx symbols)" for s
      proof -
        obtain k where "k < length (drop idx symbols)" "s = drop idx symbols ! k"
          using \<open>s \<in> set (drop idx symbols)\<close> by (auto simp: in_set_conv_nth)
        then have "addr < sy_value s" using hi [of "idx + k"] by simp
        then show ?thesis using v by auto
      qed
      then show ?thesis by (simp add: filter_empty_conv)
    qed
    then have "filter (\<lambda>s. sy_value s = ?v) symbols = filter (\<lambda>s. sy_value s = ?v) (take idx symbols)"
      by (subst (1) split) (simp only: filter_append append_Nil2)
    then show ?thesis
      using False assms ne same_below_filter [OF assms(1) idx _ refl]
      by (simp add: resolve_address_def Let_def idx_def [symmetric] below last above [simplified])
  qed
qed

end
