(* ===== verification/Ftrace_Code.thy ===== *)
theory Ftrace_Code
  imports Ftrace_Symbols
begin

text \<open>
  The text of a function and its RET instructions (\<open>src/elf/text.go\<close>, \<open>src/elf/asm.go\<close>); the
  instruction decoder is a parameter.
\<close>

section \<open>The text of a function\<close>

text \<open>
  The \<open>.text\<close> section: its address, its offset in the file and its bytes.
\<close>

record text_section =
  te_addr :: u64
  te_offset :: u64
  te_bytes :: "u8 list"

definition func_offset :: "elf_symbol list \<Rightarrow> text_section \<Rightarrow> string \<Rightarrow> go_error + u64" where
  "func_offset symbols sec name =
     (case resolve_symbol symbols name of
        Inl err \<Rightarrow> Inl err
      | Inr s \<Rightarrow> Inr (sy_value s - te_addr sec + te_offset sec))"

text \<open>The range ends at the next greater value, and at 0 when there is none.\<close>

definition pc_range_in_symtab :: "elf_symbol list \<Rightarrow> string \<Rightarrow> go_error + u64 \<times> u64" where
  "pc_range_in_symtab symbols name =
     (case sym_names symbols name of
        None \<Rightarrow> Inl Symbol_not_found
      | Some s \<Rightarrow>
          if \<not> sy_func s then Inl Symbol_not_found
          else let idx = sort_search (length symbols) (\<lambda>i. sy_value (symbols ! i) > sy_value s)
               in Inr (sy_value s, if idx < length symbols then sy_value (symbols ! idx) else 0))"

text \<open>
  The bytes of a function with their address and file offset; \<open>dwarf_range\<close> is what the
  debug information says. A slice with bounds out of order or out of range panics.
\<close>

definition func_raw_instructions ::
  "elf_symbol list \<Rightarrow> text_section \<Rightarrow> (string \<rightharpoonup> u64 \<times> u64) \<Rightarrow> string \<Rightarrow> go_error + u8 list \<times> u64 \<times> u64" where
  "func_raw_instructions symbols sec dwarf_range name =
     (case (case dwarf_range name of Some r \<Rightarrow> Inr r | None \<Rightarrow> pc_range_in_symtab symbols name) of
        Inl err \<Rightarrow> Inl err
      | Inr (lowpc, highpc) \<Rightarrow>
          if lowpc < te_addr sec \<or> highpc > of_nat (length (te_bytes sec)) + te_addr sec
          then Inl Pc_range_too_large
          else let lo = unat (lowpc - te_addr sec); hi = unat (highpc - te_addr sec)
               in if \<not> (lo \<le> hi \<and> hi \<le> length (te_bytes sec)) then Inl Index_out_of_range
                  else Inr (take (hi - lo) (drop lo (te_bytes sec)), lowpc,
                            lowpc - te_addr sec + te_offset sec))"

text \<open>
  \<open>decode\<close> stands for \<open>x86asm.Decode\<close>: whether the instruction at the front is a RET and its
  length, or an error, which is skipped as one byte. The loop does not end on an instruction
  of length 0.
\<close>

definition decode_one :: "(u8 list \<rightharpoonup> bool \<times> nat) \<Rightarrow> u8 list \<Rightarrow> bool \<times> nat" where
  "decode_one decode bs = (case decode bs of None \<Rightarrow> (False, 1) | Some inst \<Rightarrow> inst)"

partial_function (option) instructions_loop ::
  "(u8 list \<rightharpoonup> bool \<times> nat) \<Rightarrow> u8 list \<Rightarrow> (bool \<times> nat) list option" where
  "instructions_loop decode bs =
     (let inst = decode_one decode bs; bs' = drop (snd inst) bs
      in if bs' = [] then Some [inst]
         else Option.bind (instructions_loop decode bs') (\<lambda>insts. Some (inst # insts)))"

definition resolve_instructions ::
  "(u8 list \<rightharpoonup> bool \<times> nat) \<Rightarrow> u8 list \<Rightarrow> (bool \<times> nat) list option" where
  "resolve_instructions decode bs = (if bs = [] then Some [] else instructions_loop decode bs)"

fun collect_rets :: "u64 \<Rightarrow> (bool \<times> nat) list \<Rightarrow> u64 list" where
  "collect_rets offset [] = []"
| "collect_rets offset ((is_ret, len) # insts) =
     (if is_ret then [offset] else []) @ collect_rets (offset + of_nat len) insts"

definition func_ret_offsets ::
  "elf_symbol list \<Rightarrow> text_section \<Rightarrow> (string \<rightharpoonup> u64 \<times> u64) \<Rightarrow> (u8 list \<rightharpoonup> bool \<times> nat) \<Rightarrow> string \<Rightarrow>
     (go_error + u64 list) option" where
  "func_ret_offsets symbols sec dwarf_range decode name =
     (case func_raw_instructions symbols sec dwarf_range name of
        Inl err \<Rightarrow> Some (Inl err)
      | Inr (raw, addr, offset) \<Rightarrow>
          map_option (\<lambda>insts. Inr (collect_rets offset insts)) (resolve_instructions decode raw))"

section \<open>Decoding ends\<close>

text \<open>The documented behaviour of the decoder: an instruction has at least one byte and lies
  in its input.\<close>

definition decodes_forward :: "(u8 list \<rightharpoonup> bool \<times> nat) \<Rightarrow> bool" where
  "decodes_forward decode \<longleftrightarrow>
     (\<forall>bs r n. bs \<noteq> [] \<longrightarrow> decode bs = Some (r, n) \<longrightarrow> 1 \<le> n \<and> n \<le> length bs)"

lemma decode_one_forward:
  "decodes_forward decode \<Longrightarrow> bs \<noteq> [] \<Longrightarrow>
     1 \<le> snd (decode_one decode bs) \<and> snd (decode_one decode bs) \<le> length bs"
  by (cases "decode bs") (auto simp: decodes_forward_def decode_one_def Suc_le_eq)

lemma instructions_loop_ends:
  assumes "decodes_forward decode" "bs \<noteq> []"
  shows "\<exists>insts. instructions_loop decode bs = Some insts \<and> sum_list (map snd insts) = length bs"
  using assms(2)
proof (induction bs rule: length_induct)
  case (1 bs)
  let ?n = "snd (decode_one decode bs)"
  have n: "1 \<le> ?n" "?n \<le> length bs" using decode_one_forward [OF assms(1) "1.prems"] by auto
  show ?case
  proof (cases "drop ?n bs = []")
    case True
    then show ?thesis using n by (subst instructions_loop.simps) simp
  next
    case False
    then obtain insts where "instructions_loop decode (drop ?n bs) = Some insts"
        "sum_list (map snd insts) = length bs - ?n"
      using "1.IH" [rule_format, of "drop ?n bs"] n "1.prems" by auto
    then show ?thesis using n False by (subst instructions_loop.simps) simp
  qed
qed

lemma ret_offsets_end:
  assumes "decodes_forward decode"
  shows "\<exists>r. func_ret_offsets symbols sec dwarf_range decode name = Some r"
proof -
  have "\<exists>insts. resolve_instructions decode raw = Some insts" for raw
    using instructions_loop_ends [OF assms, of raw] by (auto simp: resolve_instructions_def)
  then show ?thesis by (auto simp: func_ret_offsets_def split: sum.split prod.split)
qed

text \<open>
  A function without debug information whose symbol has the greatest value of the table: its
  range ends at 0 and the slice of the text panics.
\<close>

lemma last_function_panics:
  assumes "sorted_symbols symbols" "sym_names symbols name = Some s" "sy_func s"
    and "s = last symbols" "symbols \<noteq> []" "dwarf_range name = None"
    and "te_addr sec \<le> sy_value s" "0 < te_addr sec" "length (te_bytes sec) < unat (- te_addr sec)"
  shows "func_raw_instructions symbols sec dwarf_range name = Inl Index_out_of_range"
proof -
  let ?f = "\<lambda>i. sy_value (symbols ! i) > sy_value s"
  have none: "\<not> ?f i" if "i < length symbols" for i
  proof -
    have "map sy_value symbols ! i \<le> map sy_value symbols ! (length symbols - 1)"
      using assms(1,5) that by (intro sorted_nth_mono) (simp_all add: sorted_symbols_def)
    then show ?thesis using assms(4,5) that by (simp add: last_conv_nth)
  qed
  then have "\<forall>k l. k \<le> l \<longrightarrow> l < length symbols \<longrightarrow> ?f k \<longrightarrow> ?f l" by (meson le_less_trans)
  note least = sort_search_least [OF this]
  have "\<not> sort_search (length symbols) ?f < length symbols" using least(3) none by blast
  with least(1) have "sort_search (length symbols) ?f = length symbols" by simp
  then have "pc_range_in_symtab symbols name = Inr (sy_value s, 0)"
    using assms(2,3) by (simp add: pc_range_in_symtab_def Let_def)
  then show ?thesis
    using assms(6-9) by (simp add: func_raw_instructions_def Let_def not_less)
qed

end
