(* ===== verification/Ftrace_Dwarf.thy ===== *)
theory Ftrace_Dwarf
  imports Ftrace_Rules
begin

text \<open>
  The types of \<open>debug/dwarf\<close> as \<open>src/internal/uprobe/auto.go\<close> and \<open>value.go\<close> use them, and the
  questions these files ask about a type: what it is underneath, which of Go's composite
  types a struct stands for, how many ABI words and captures a value has. A type is the tree
  of what it holds by value; the type a pointer leads to is a number into the table of types
  of the binary (\<open>ty\<close>), because pointer types may be recursive.
\<close>

section \<open>Types\<close>

text \<open>
  One constructor for each \<open>dwarf.Type\<close> the code looks for, with \<open>Common().Name\<close> and the byte
  size; \<open>OtherType\<close> is everything else (arrays, void, complex numbers), with \<open>Size()\<close>.
\<close>

datatype dwarf_type =
    BoolType string int
  | FloatType string int
  | IntType string int
  | UintType string int
  | UcharType string int
  | CharType string int
  | EnumType string int
  | TypedefType string dwarf_type
  | QualType string dwarf_type
  | PtrType string int nat
  | StructType string int string "dwarf_field list"
  | FuncType string int
  | OtherType string int
and dwarf_field = Field (field_name: string) (byte_offset: int) (field_type: dwarf_type)

type_synonym type_table = "nat \<Rightarrow> dwarf_type"

fun type_size :: "dwarf_type \<Rightarrow> int" where
  "type_size (BoolType cn n) = n"
| "type_size (FloatType cn n) = n"
| "type_size (IntType cn n) = n"
| "type_size (UintType cn n) = n"
| "type_size (UcharType cn n) = n"
| "type_size (CharType cn n) = n"
| "type_size (EnumType cn n) = n"
| "type_size (TypedefType cn t) = type_size t"
| "type_size (QualType cn t) = type_size t"
| "type_size (PtrType cn n p) = n"
| "type_size (StructType cn n sn fs) = n"
| "type_size (FuncType cn n) = n"
| "type_size (OtherType cn n) = n"

fun common_name :: "dwarf_type \<Rightarrow> string" where
  "common_name (BoolType cn n) = cn"
| "common_name (FloatType cn n) = cn"
| "common_name (IntType cn n) = cn"
| "common_name (UintType cn n) = cn"
| "common_name (UcharType cn n) = cn"
| "common_name (CharType cn n) = cn"
| "common_name (EnumType cn n) = cn"
| "common_name (TypedefType cn t) = cn"
| "common_name (QualType cn t) = cn"
| "common_name (PtrType cn n p) = cn"
| "common_name (StructType cn n sn fs) = cn"
| "common_name (FuncType cn n) = cn"
| "common_name (OtherType cn n) = cn"

fun underlying :: "dwarf_type \<Rightarrow> dwarf_type" where
  "underlying (TypedefType cn t) = underlying t"
| "underlying (QualType cn t) = underlying t"
| "underlying t = t"

section \<open>Scalars\<close>

datatype value_kind = KindScalar | KindBool | KindFloat | KindPointer

definition bits_name :: "char \<Rightarrow> int \<Rightarrow> string" where
  "bits_name c n = c # show_int (n * 8)"

fun scalar_value :: "dwarf_type \<Rightarrow> (value_kind \<times> string \<times> int) option" where
  "scalar_value (BoolType cn n) = Some (KindBool, ''bool'', n)"
| "scalar_value (FloatType cn n) = Some (KindFloat, bits_name CHR ''f'' n, n)"
| "scalar_value (IntType cn n) = Some (KindScalar, bits_name CHR ''s'' n, n)"
| "scalar_value (UintType cn n) = Some (KindScalar, bits_name CHR ''u'' n, n)"
| "scalar_value (UcharType cn n) = Some (KindScalar, bits_name CHR ''u'' n, n)"
| "scalar_value (CharType cn n) = Some (KindScalar, bits_name CHR ''s'' n, n)"
| "scalar_value (EnumType cn n) = Some (KindScalar, bits_name CHR ''s'' n, n)"
| "scalar_value _ = None"

section \<open>Structs\<close>

definition has_prefix :: "string \<Rightarrow> string \<Rightarrow> bool" where
  "has_prefix p s \<longleftrightarrow> take (length p) s = p"

definition is_runtime_struct :: "string \<Rightarrow> bool" where
  "is_runtime_struct sn \<longleftrightarrow> sn = ''runtime.hmap'' \<or> sn = ''runtime.hchan''"

definition has_fields :: "dwarf_field list \<Rightarrow> string list \<Rightarrow> bool" where
  "has_fields fs names \<longleftrightarrow> map field_name fs = names"

definition is_string :: "string \<Rightarrow> bool" where
  "is_string sn \<longleftrightarrow> sn = ''string''"

definition is_slice :: "string \<Rightarrow> dwarf_field list \<Rightarrow> bool" where
  "is_slice sn fs \<longleftrightarrow> has_prefix ''[]'' sn \<or> has_fields fs [''array'', ''len'', ''cap'']"

definition is_interface :: "string \<Rightarrow> dwarf_field list \<Rightarrow> bool" where
  "is_interface sn fs \<longleftrightarrow>
     sn = ''runtime.iface'' \<or> sn = ''runtime.eface'' \<or>
     has_fields fs [''tab'', ''data''] \<or> has_fields fs [''_type'', ''data'']"

definition interface_is_non_empty :: "string \<Rightarrow> dwarf_field list \<Rightarrow> bool" where
  "interface_is_non_empty sn fs \<longleftrightarrow> sn = ''runtime.iface'' \<or> has_fields fs [''tab'', ''data'']"

text \<open>
  The switches of the code over a struct test for a string, then a slice, then an interface;
  the kinds in that order.
\<close>

datatype struct_kind = Go_string | Go_slice | Go_interface | Plain_struct

definition struct_kind :: "string \<Rightarrow> dwarf_field list \<Rightarrow> struct_kind" where
  "struct_kind sn fs =
     (if is_string sn then Go_string
      else if is_slice sn fs then Go_slice
      else if is_interface sn fs then Go_interface
      else Plain_struct)"

text \<open>
  The number of ABI words of a value, 0 when the type is not supported. The count of a struct
  without fields is 0, too.
\<close>

fun abi_word_count :: "dwarf_type \<Rightarrow> nat" and abi_field_words :: "dwarf_field list \<Rightarrow> nat \<Rightarrow> nat" where
  "abi_word_count (TypedefType cn t) = abi_word_count t"
| "abi_word_count (QualType cn t) = abi_word_count t"
| "abi_word_count (PtrType cn n p) = 1"
| "abi_word_count (StructType cn n sn fs) =
     (if is_string sn \<or> is_interface sn fs then 2
      else if is_slice sn fs then 3
      else abi_field_words fs 0)"
| "abi_word_count t = (if scalar_value t \<noteq> None then 1 else 0)"
| "abi_field_words [] n = n"
| "abi_field_words (Field fname off t # fs) n =
     (let w = abi_word_count t in if w = 0 then 0 else abi_field_words fs (n + w))"

text \<open>The number of memory leaves beyond the ABI words.\<close>

fun extra_captures :: "dwarf_type \<Rightarrow> bool \<Rightarrow> nat" and extra_field_captures :: "dwarf_field list \<Rightarrow> bool \<Rightarrow> nat" where
  "extra_captures (TypedefType cn t) in_memory = extra_captures t in_memory"
| "extra_captures (QualType cn t) in_memory = extra_captures t in_memory"
| "extra_captures (StructType cn n sn fs) in_memory =
     (case struct_kind sn fs of
        Go_string \<Rightarrow> 1
      | Go_slice \<Rightarrow> 1
      | Go_interface \<Rightarrow>
          if \<not> in_memory then 1 else 2 + (if interface_is_non_empty sn fs then 1 else 0)
      | Plain_struct \<Rightarrow> extra_field_captures fs in_memory)"
| "extra_captures t in_memory = 0"
| "extra_field_captures [] in_memory = 0"
| "extra_field_captures (Field fname off t # fs) in_memory =
     extra_captures t in_memory + extra_field_captures fs in_memory"

text \<open>
  \<open>typeName\<close> follows a chain of unnamed pointers; \<open>d\<close> bounds its length. \<open>str\<close> is the library's
  \<open>t.String()\<close>.
\<close>

fun type_name :: "(dwarf_type \<Rightarrow> string) \<Rightarrow> type_table \<Rightarrow> nat \<Rightarrow> dwarf_type \<Rightarrow> string" where
  "type_name str ty d t =
     (if common_name t \<noteq> [] then common_name t
      else case underlying t of
        PtrType cn n p \<Rightarrow> (case d of 0 \<Rightarrow> str t | Suc d' \<Rightarrow> CHR ''*'' # type_name str ty d' (ty p))
      | StructType cn n sn fs \<Rightarrow> if sn \<noteq> [] then sn else str t
      | _ \<Rightarrow> str t)"

declare type_name.simps [simp del]

text \<open>The code's approximation of Go's flag for types whose interface data word is the value.\<close>

definition type_is_direct :: "dwarf_type \<Rightarrow> bool" where
  "type_is_direct t =
     (case underlying t of
        PtrType cn n p \<Rightarrow> True
      | FuncType cn n \<Rightarrow> True
      | StructType cn n sn fs \<Rightarrow>
          if is_string sn \<or> is_slice sn fs \<or> is_interface sn fs then False
          else if is_runtime_struct sn then True
          else if n > 8 then False
          else if n = 8 \<and> fs \<noteq> [] \<and> (case underlying (field_type (hd fs)) of PtrType _ _ _ \<Rightarrow> True | _ \<Rightarrow> False)
          then True
          else n > 0 \<and> n \<le> 8 \<and> fs = []
      | u \<Rightarrow> type_size u > 0 \<and> type_size u \<le> 8)"

definition is_byte_type :: "dwarf_type \<Rightarrow> bool" where
  "is_byte_type elem =
     (case elem of
        UintType cn n \<Rightarrow> n = 1 | UcharType cn n \<Rightarrow> n = 1 | IntType cn n \<Rightarrow> n = 1 | CharType cn n \<Rightarrow> n = 1
      | _ \<Rightarrow> False)"

definition is_byte_elem_slice :: "type_table \<Rightarrow> string \<Rightarrow> dwarf_field list \<Rightarrow> bool" where
  "is_byte_elem_slice ty sn fs =
     (sn \<in> set [''[]uint8'', ''[]byte'', ''[]int8''] \<or>
      (fs \<noteq> [] \<and>
       is_byte_type
         (case underlying (field_type (hd fs)) of PtrType cn n p \<Rightarrow> underlying (ty p) | elem \<Rightarrow> elem)))"

section \<open>Laws\<close>

lemma underlying_idem [simp]: "underlying (underlying t) = underlying t"
  by (induction t rule: underlying.induct) simp_all

lemma underlying_cases:
  obtains (Ptr) cn n p where "underlying t = PtrType cn n p"
  | (Struct) cn n sn fs where "underlying t = StructType cn n sn fs"
  | (Other) "\<And>cn n p. underlying t \<noteq> PtrType cn n p" "\<And>cn n sn fs. underlying t \<noteq> StructType cn n sn fs"
      "\<And>cn u. underlying t \<noteq> TypedefType cn u" "\<And>cn u. underlying t \<noteq> QualType cn u"
  by (induction t rule: underlying.induct) auto

lemma abi_word_count_underlying: "abi_word_count (underlying t) = abi_word_count t"
  by (induction t rule: underlying.induct) simp_all

lemma extra_captures_underlying: "extra_captures (underlying t) m = extra_captures t m"
  by (induction t rule: underlying.induct) simp_all

lemma type_size_underlying [simp]: "type_size (underlying t) = type_size t"
  by (induction t rule: underlying.induct) simp_all

lemma scalar_value_underlying: "scalar_value t \<noteq> None \<Longrightarrow> underlying t = t"
  by (cases t) simp_all

text \<open>Once the chain of unnamed pointers has ended, more steps do not change the name.\<close>

fun name_settled :: "type_table \<Rightarrow> nat \<Rightarrow> dwarf_type \<Rightarrow> bool" where
  "name_settled ty d t \<longleftrightarrow>
     common_name t \<noteq> [] \<or>
     (case underlying t of
        PtrType cn n p \<Rightarrow> (case d of 0 \<Rightarrow> False | Suc d' \<Rightarrow> name_settled ty d' (ty p))
      | _ \<Rightarrow> True)"

declare name_settled.simps [simp del]

lemma type_name_settled:
  "name_settled ty d t \<Longrightarrow> type_name str ty (d + k) t = type_name str ty d t"
proof (induction ty d t rule: name_settled.induct)
  case (1 ty d t)
  show ?case
  proof (cases "common_name t = []")
    case False
    then show ?thesis by (simp add: type_name.simps)
  next
    case True
    show ?thesis
    proof (cases t rule: underlying_cases)
      case (Ptr cn n p)
      then obtain d' where d: "d = Suc d'"
        using 1(2) True by (subst (asm) name_settled.simps) (auto split: nat.splits)
      have "name_settled ty d' (ty p)"
        using 1(2) True by (subst (asm) name_settled.simps) (simp add: Ptr d)
      from 1(1) [OF Ptr d this]
      show ?thesis
        using True by (simp add: type_name.simps [of _ _ _ t] Ptr d)
    next
      case (Struct cn n sn fs)
      then show ?thesis by (simp add: type_name.simps)
    next
      case Other
      then show ?thesis by (cases "underlying t") (auto simp: type_name.simps [of _ _ _ t])
    qed
  qed
qed

lemma abi_field_words_eq:
  "abi_field_words fs k = (if \<exists>f \<in> set fs. abi_word_count (field_type f) = 0 then 0
     else k + sum_list (map (abi_word_count \<circ> field_type) fs))"
proof (induction fs arbitrary: k)
  case (Cons f fs)
  obtain fname off t where f: "f = Field fname off t" by (cases f)
  show ?case using Cons [of "k + abi_word_count t"] by (auto simp: f Let_def)
qed simp

end
