(* ===== verification/Ftrace_Auto.thy ===== *)
theory Ftrace_Auto
  imports Ftrace_Dwarf
begin

text \<open>
  The fetch planner of \<open>src/internal/uprobe/auto.go\<close>: it compiles the types of a function's
  parameters or results to fetch arguments, the ABI words of each value first and then the
  memory its rendering will need, and describes each value by how many of these leaves are its
  own.
\<close>

section \<open>Data\<close>

definition abi_regs :: "string list" where
  "abi_regs = [''ax'', ''bx'', ''cx'', ''di'', ''si'', ''r8'', ''r9'', ''r10'', ''r11'']"

definition auto_string_size :: int where "auto_string_size = 64"

definition blob_type :: string where "blob_type = CHR ''c'' # show_int (auto_string_size * 8)"

definition max_fetch_args :: nat where "max_fetch_args = 8"

record arg_spec =
  as_name :: string
  as_size :: int
  as_typ :: string
  as_reg :: string
  as_mem :: bool
  as_offset :: int
  as_deref :: bool
  as_nil_check :: bool
  as_rules :: "fetch_rule list"

definition reg_rule :: "string \<Rightarrow> fetch_rule" where
  "reg_rule reg = \<lparr>ru_from = Register, ru_register = reg, ru_offset = 0, ru_dereference = False\<rparr>"

definition stack_rule :: "int \<Rightarrow> bool \<Rightarrow> fetch_rule" where
  "stack_rule off deref = \<lparr>ru_from = Stack, ru_register = [], ru_offset = off, ru_dereference = deref\<rparr>"

definition spec_fetch_arg :: "arg_spec \<Rightarrow> fetch_arg" where
  "spec_fetch_arg s =
     (let rules = (if as_rules s = []
                   then reg_rule (as_reg s) # (if as_mem s then [stack_rule (as_offset s) (as_deref s)] else [])
                   else as_rules s)
      in \<lparr>fa_varname = as_name s, fa_statement = [], fa_type = as_typ s, fa_size = as_size s,
          fa_rules = rules, fa_nil_check = as_nil_check s, fa_iface_data = False, fa_type_index = 0\<rparr>)"

record mem_loc =
  ml_reg :: string
  ml_steps :: "fetch_rule list"
  ml_nil_check :: bool

definition loc_at :: "string \<Rightarrow> bool \<Rightarrow> mem_loc" where
  "loc_at reg nil_check = \<lparr>ml_reg = reg, ml_steps = [], ml_nil_check = nil_check\<rparr>"

definition loc_add :: "int \<Rightarrow> mem_loc \<Rightarrow> mem_loc" where
  "loc_add off l = (if off = 0 then l else l\<lparr>ml_steps := ml_steps l @ [stack_rule off False]\<rparr>)"

definition loc_deref :: "int \<Rightarrow> mem_loc \<Rightarrow> mem_loc" where
  "loc_deref off l = l\<lparr>ml_steps := ml_steps l @ [stack_rule off True]\<rparr>"

definition loc_spec :: "string \<Rightarrow> mem_loc \<Rightarrow> int \<Rightarrow> string \<Rightarrow> arg_spec" where
  "loc_spec name loc n typ =
     \<lparr>as_name = name, as_size = n, as_typ = typ, as_reg = [], as_mem = False, as_offset = 0,
      as_deref = False, as_nil_check = ml_nil_check loc,
      as_rules = reg_rule (ml_reg loc) #
        (if ml_steps loc = [] then [stack_rule 0 False] else ml_steps loc)\<rparr>"

definition blob_at :: "string \<Rightarrow> mem_loc \<Rightarrow> arg_spec" where
  "blob_at name loc = loc_spec name loc auto_string_size blob_type"

definition scalar_reg_spec :: "string \<Rightarrow> int \<Rightarrow> string \<Rightarrow> string \<Rightarrow> arg_spec" where
  "scalar_reg_spec name n typ reg =
     \<lparr>as_name = name, as_size = n, as_typ = typ, as_reg = reg, as_mem = False, as_offset = 0,
      as_deref = False, as_nil_check = False, as_rules = []\<rparr>"

text \<open>The type word of a non-empty interface: the second word of the itab in the register.\<close>

definition itab_spec :: "string \<Rightarrow> string \<Rightarrow> arg_spec" where
  "itab_spec name reg =
     \<lparr>as_name = name, as_size = 8, as_typ = ''u64'', as_reg = reg, as_mem = True, as_offset = 8,
      as_deref = False, as_nil_check = True, as_rules = []\<rparr>"

record auto_value =
  av_name :: string
  av_type :: dwarf_type
  av_word_count :: nat
  av_captures :: nat

definition leaf_count :: "auto_value \<Rightarrow> nat" where
  "leaf_count v = av_word_count v + av_captures v"

section \<open>The planner's state\<close>

record flat_ctx =
  fc_words :: "string list"
  fc_wi :: nat
  fc_out :: "arg_spec list"
  fc_broken :: bool

definition new_ctx :: flat_ctx where
  "new_ctx = \<lparr>fc_words = abi_regs, fc_wi = 0, fc_out = [], fc_broken = False\<rparr>"

definition ctx_full :: "flat_ctx \<Rightarrow> bool" where
  "ctx_full c \<longleftrightarrow> length (fc_out c) \<ge> max_fetch_args"

definition reserve :: "nat \<Rightarrow> flat_ctx \<Rightarrow> bool \<times> flat_ctx" where
  "reserve n c =
     (if length (fc_out c) + n \<le> max_fetch_args then (True, c) else (False, c\<lparr>fc_broken := True\<rparr>))"

definition next_word :: "flat_ctx \<Rightarrow> string \<times> flat_ctx" where
  "next_word c =
     (if fc_wi c \<ge> length (fc_words c) then ('''', c\<lparr>fc_broken := True\<rparr>)
      else (fc_words c ! fc_wi c, c\<lparr>fc_wi := fc_wi c + 1\<rparr>))"

definition emit :: "arg_spec \<Rightarrow> flat_ctx \<Rightarrow> flat_ctx" where
  "emit s c = c\<lparr>fc_out := fc_out c @ [s]\<rparr>"

definition build :: "flat_ctx \<Rightarrow> fetch_arg list" where
  "build c = map spec_fetch_arg (fc_out c)"

section \<open>Captures\<close>

text \<open>
  \<open>emitMemCaptures\<close>: the leaves of an object in memory at \<open>loc\<close>.
\<close>

fun emit_mem_captures :: "dwarf_type \<Rightarrow> string \<Rightarrow> mem_loc \<Rightarrow> flat_ctx \<Rightarrow> flat_ctx" and
    emit_field_captures :: "dwarf_field list \<Rightarrow> string \<Rightarrow> mem_loc \<Rightarrow> flat_ctx \<Rightarrow> flat_ctx" where
  "emit_mem_captures (TypedefType cn t) name loc c = emit_mem_captures t name loc c"
| "emit_mem_captures (QualType cn t) name loc c = emit_mem_captures t name loc c"
| "emit_mem_captures (StructType cn n sn fs) name loc c =
     (case struct_kind sn fs of
        Go_string \<Rightarrow> emit (blob_at (name @ ''.str'') (loc_deref 0 loc)) c
      | Go_slice \<Rightarrow> emit (blob_at (name @ ''.arr'') (loc_deref 0 loc)) c
      | Go_interface \<Rightarrow>
          (let c = (if interface_is_non_empty sn fs
                    then emit (loc_spec (name @ ''.type'') (loc_add 8 (loc_deref 0 loc)) 8 ''u64'') c
                    else c);
               c = emit (loc_spec (name @ ''.data'') (loc_add 8 loc) 8 ''u64'') c
           in emit (blob_at (name @ ''.value'') (loc_deref 8 loc)) c)
      | Plain_struct \<Rightarrow> emit_field_captures fs name loc c)"
| "emit_mem_captures t name loc c = c"
| "emit_field_captures [] name loc c = c"
| "emit_field_captures (Field fname off t # fs) name loc c =
     emit_field_captures fs name loc (emit_mem_captures t (name @ ''.'' @ fname) (loc_add off loc) c)"

record capture_job =
  cj_name :: string
  cj_type :: dwarf_type
  cj_loc :: mem_loc

text \<open>
  \<open>emitABI\<close>: the register words of a value passed in registers, and the captures to make once
  all words are fetched.
\<close>

fun emit_abi :: "dwarf_type \<Rightarrow> string \<Rightarrow> flat_ctx \<Rightarrow> capture_job list \<times> flat_ctx" and
    emit_abi_fields :: "dwarf_field list \<Rightarrow> string \<Rightarrow> flat_ctx \<Rightarrow> capture_job list \<times> flat_ctx" where
  "emit_abi (TypedefType cn t) name c = emit_abi t name c"
| "emit_abi (QualType cn t) name c = emit_abi t name c"
| "emit_abi (StructType cn n sn fs) name c =
     (case struct_kind sn fs of
        Go_string \<Rightarrow>
          (let (data, c) = next_word c; (ln, c) = next_word c;
               c = emit (scalar_reg_spec (name @ ''.data'') 8 ''u64'' data) c;
               c = emit (scalar_reg_spec (name @ ''.len'') 8 ''s64'' ln) c
           in ([\<lparr>cj_name = name @ ''.str'', cj_type = StructType cn n sn fs, cj_loc = loc_at data False\<rparr>], c))
      | Go_slice \<Rightarrow>
          (let (data, c) = next_word c; (ln, c) = next_word c; (cap, c) = next_word c;
               c = emit (scalar_reg_spec (name @ ''.data'') 8 ''u64'' data) c;
               c = emit (scalar_reg_spec (name @ ''.len'') 8 ''s64'' ln) c;
               c = emit (scalar_reg_spec (name @ ''.cap'') 8 ''s64'' cap) c
           in ([\<lparr>cj_name = name @ ''.arr'', cj_type = StructType cn n sn fs, cj_loc = loc_at data True\<rparr>], c))
      | Go_interface \<Rightarrow>
          (let (type_reg, c) = next_word c; (data_reg, c) = next_word c;
               c = (if interface_is_non_empty sn fs then emit (itab_spec (name @ ''.type'') type_reg) c
                    else emit (scalar_reg_spec (name @ ''.type'') 8 ''u64'' type_reg) c);
               c = emit (scalar_reg_spec (name @ ''.data'') 8 ''u64'' data_reg) c
           in ([\<lparr>cj_name = name, cj_type = StructType cn n sn fs, cj_loc = loc_at data_reg True\<rparr>], c))
      | Plain_struct \<Rightarrow> emit_abi_fields fs name c)"
| "emit_abi (PtrType cn n p) name c =
     (let (reg, c) = next_word c in ([], emit (scalar_reg_spec name 8 ''u64'' reg) c))"
| "emit_abi t name c =
     (let (reg, c) = next_word c
      in case scalar_value t of
           None \<Rightarrow> ([], emit (scalar_reg_spec name 8 ''u64'' reg) c)
         | Some (kind, typ, n) \<Rightarrow> ([], emit (scalar_reg_spec name n typ reg) c))"
| "emit_abi_fields [] name c = ([], c)"
| "emit_abi_fields (Field fname off t # fs) name c =
     (let (jobs, c) = emit_abi t (name @ ''.'' @ fname) c; (jobs', c) = emit_abi_fields fs name c
      in (jobs @ jobs', c))"

definition emit_reg_captures :: "capture_job \<Rightarrow> flat_ctx \<Rightarrow> flat_ctx" where
  "emit_reg_captures job c =
     (case underlying (cj_type job) of
        StructType cn n sn fs \<Rightarrow>
          (case struct_kind sn fs of
             Go_string \<Rightarrow> emit (blob_at (cj_name job) (cj_loc job)) c
           | Go_slice \<Rightarrow> emit (blob_at (cj_name job) (cj_loc job)) c
           | Go_interface \<Rightarrow> emit (blob_at (cj_name job @ ''.value'') (cj_loc job)) c
           | Plain_struct \<Rightarrow> c)
      | _ \<Rightarrow> c)"

section \<open>Planning a value\<close>

definition value_of :: "string \<Rightarrow> dwarf_type \<Rightarrow> nat \<Rightarrow> nat \<Rightarrow> auto_value" where
  "value_of name t w k = \<lparr>av_name = name, av_type = t, av_word_count = w, av_captures = k\<rparr>"

text \<open>
  \<open>planValue\<close>, one definition for each case of its switch. \<open>orig\<close> is the declared type. A value
  that is skipped, for whatever reason, is \<open>None\<close>.
\<close>

definition plan_object :: "dwarf_type \<Rightarrow> dwarf_type \<Rightarrow> string \<Rightarrow> flat_ctx \<Rightarrow> auto_value option \<times> flat_ctx" where
  "plan_object orig target name c =
     (let extras = extra_captures target True; (ok, c) = reserve (2 + extras) c
      in if \<not> ok then (None, c)
         else let (reg, c) = next_word c
              in if reg = [] then (None, c)
                 else let loc = loc_at reg True;
                          c = emit (scalar_reg_spec name 8 ''u64'' reg) c;
                          c = emit (blob_at (name @ ''.obj'') loc) c;
                          c = emit_mem_captures target name loc c
                      in (Some (value_of name orig 1 (1 + extras)), c))"

definition plan_pointer :: "dwarf_type \<Rightarrow> string \<Rightarrow> flat_ctx \<Rightarrow> auto_value option \<times> flat_ctx" where
  "plan_pointer orig name c =
     (let (reg, c) = next_word c
      in if reg = [] then (None, c)
         else (Some (value_of name orig 1 0), emit (scalar_reg_spec name 8 ''u64'' reg) c))"

definition plan_string :: "dwarf_type \<Rightarrow> string \<Rightarrow> flat_ctx \<Rightarrow> auto_value option \<times> flat_ctx" where
  "plan_string orig name c =
     (let (ok, c) = reserve 3 c
      in if \<not> ok then (None, c)
         else let (data, c) = next_word c; (ln, c) = next_word c
              in if data = [] \<or> ln = [] then (None, c)
                 else let c = emit (scalar_reg_spec (name @ ''.data'') 8 ''u64'' data) c;
                          c = emit (scalar_reg_spec (name @ ''.len'') 8 ''s64'' ln) c;
                          c = emit (blob_at (name @ ''.str'') (loc_at data False)) c
                      in (Some (value_of name orig 2 1), c))"

definition plan_slice :: "dwarf_type \<Rightarrow> string \<Rightarrow> flat_ctx \<Rightarrow> auto_value option \<times> flat_ctx" where
  "plan_slice orig name c =
     (let (ok, c) = reserve 4 c
      in if \<not> ok then (None, c)
         else let (data, c) = next_word c; (ln, c) = next_word c; (cap, c) = next_word c
              in if data = [] \<or> ln = [] \<or> cap = [] then (None, c)
                 else let c = emit (scalar_reg_spec (name @ ''.data'') 8 ''u64'' data) c;
                          c = emit (scalar_reg_spec (name @ ''.len'') 8 ''s64'' ln) c;
                          c = emit (scalar_reg_spec (name @ ''.cap'') 8 ''s64'' cap) c;
                          c = emit (blob_at (name @ ''.arr'') (loc_at data True)) c
                      in (Some (value_of name orig 3 1), c))"

definition plan_interface :: "bool \<Rightarrow> dwarf_type \<Rightarrow> string \<Rightarrow> flat_ctx \<Rightarrow> auto_value option \<times> flat_ctx" where
  "plan_interface non_empty orig name c =
     (let (ok, c) = reserve 3 c
      in if \<not> ok then (None, c)
         else let (type_reg, c) = next_word c; (data_reg, c) = next_word c
              in if type_reg = [] \<or> data_reg = [] then (None, c)
                 else let c = (if non_empty then emit (itab_spec (name @ ''.type'') type_reg) c
                               else emit (scalar_reg_spec (name @ ''.type'') 8 ''u64'' type_reg) c);
                          c = emit (scalar_reg_spec (name @ ''.data'') 8 ''u64'' data_reg) c;
                          c = emit (blob_at (name @ ''.value'') (loc_at data_reg True)) c
                      in (Some (value_of name orig 2 1), c))"

definition plan_struct :: "dwarf_type \<Rightarrow> dwarf_type \<Rightarrow> string \<Rightarrow> flat_ctx \<Rightarrow> auto_value option \<times> flat_ctx" where
  "plan_struct orig t name c =
     (let n = abi_word_count t; extras = extra_captures t False
      in if n = 0 then (None, c)
         else let (ok, c) = reserve (n + extras) c
              in if \<not> ok then (None, c)
                 else let (jobs, c) = emit_abi t name c;
                          c = fold emit_reg_captures jobs c
                      in (Some (value_of name orig n extras), c))"

definition plan_scalar :: "dwarf_type \<Rightarrow> dwarf_type \<Rightarrow> string \<Rightarrow> flat_ctx \<Rightarrow> auto_value option \<times> flat_ctx" where
  "plan_scalar orig t name c =
     (case scalar_value t of
        None \<Rightarrow> (None, c)
      | Some (kind, typ, n) \<Rightarrow>
          (let (reg, c) = next_word c
           in if reg = [] then (None, c)
              else (Some (value_of name orig 1 0), emit (scalar_reg_spec name n typ reg) c)))"

text \<open>The struct a pointer leads to, when its object is captured.\<close>

definition captured_target :: "type_table \<Rightarrow> nat \<Rightarrow> bool" where
  "captured_target ty p =
     (case underlying (ty p) of StructType cn n sn fs \<Rightarrow> \<not> is_runtime_struct sn | _ \<Rightarrow> False)"

definition plan_value :: "type_table \<Rightarrow> dwarf_type \<Rightarrow> string \<Rightarrow> flat_ctx \<Rightarrow> auto_value option \<times> flat_ctx" where
  "plan_value ty orig name c =
     (case underlying orig of
        PtrType cn n p \<Rightarrow>
          if captured_target ty p then plan_object orig (ty p) name c else plan_pointer orig name c
      | StructType cn n sn fs \<Rightarrow>
          (case struct_kind sn fs of
             Go_string \<Rightarrow> plan_string orig name c
           | Go_slice \<Rightarrow> plan_slice orig name c
           | Go_interface \<Rightarrow> plan_interface (interface_is_non_empty sn fs) orig name c
           | Plain_struct \<Rightarrow> plan_struct orig (StructType cn n sn fs) name c)
      | t \<Rightarrow> plan_scalar orig t name c)"

section \<open>Planning a function\<close>

record variable =
  va_name :: string
  va_type :: dwarf_type

text \<open>The loop over the variables; \<open>rename\<close> is the naming of the values.\<close>

fun plan_values :: "type_table \<Rightarrow> (string \<Rightarrow> string) \<Rightarrow> variable list \<Rightarrow> flat_ctx \<Rightarrow> auto_value list \<times> flat_ctx" where
  "plan_values ty rename [] c = ([], c)"
| "plan_values ty rename (v # vs) c =
     (if ctx_full c then ([], c)
      else let (node, c) = plan_value ty (va_type v) (rename (va_name v)) c;
               (values, c) = plan_values ty rename vs c
           in ((case node of None \<Rightarrow> values | Some x \<Rightarrow> x # values), c))"

definition has_suffix :: "string \<Rightarrow> string \<Rightarrow> bool" where
  "has_suffix sfx s \<longleftrightarrow> length sfx \<le> length s \<and> drop (length s - length sfx) s = sfx"

definition trim_suffix :: "string \<Rightarrow> string \<Rightarrow> string" where
  "trim_suffix sfx s = (if has_suffix sfx s then take (length s - length sfx) s else s)"

text \<open>The map \<open>typeIdx\<close>: the last type word of each prefix.\<close>

definition type_index :: "fetch_arg list \<Rightarrow> string \<rightharpoonup> nat" where
  "type_index args =
     fold (\<lambda>(i, a) m. if has_suffix ''.type'' (fa_varname a)
                      then m(trim_suffix ''.type'' (fa_varname a) \<mapsto> i) else m)
       (enumerate 0 args) Map.empty"

definition mark_iface_slots :: "fetch_arg list \<Rightarrow> fetch_arg list" where
  "mark_iface_slots args =
     map (\<lambda>a. if \<not> has_suffix ''.data'' (fa_varname a) then a
              else case type_index args (trim_suffix ''.data'' (fa_varname a)) of
                     None \<Rightarrow> a
                   | Some ti \<Rightarrow> a\<lparr>fa_iface_data := True, fa_type_index := int ti\<rparr>) args"

definition ret_name :: "string \<Rightarrow> string" where
  "ret_name name = (if has_prefix ''~r'' name then ''ret'' @ drop 2 name else name)"

definition derive_args :: "type_table \<Rightarrow> variable list \<Rightarrow> fetch_arg list \<times> auto_value list" where
  "derive_args ty vars =
     (let (values, c) = plan_values ty id vars new_ctx in (mark_iface_slots (build c), values))"

definition derive_rets :: "type_table \<Rightarrow> variable list \<Rightarrow> fetch_arg list \<times> auto_value list" where
  "derive_rets ty vars =
     (let (values, c) = plan_values ty ret_name vars new_ctx in (mark_iface_slots (build c), values))"

text \<open>
  \<open>autoFetchArgs\<close>: \<open>function_variables\<close> is the lookup in the debug information, which may fail.
\<close>

definition auto_fetch_args ::
  "type_table \<Rightarrow> (string \<Rightarrow> (variable list \<times> variable list) option) \<Rightarrow> string \<Rightarrow>
     (fetch_arg list \<times> auto_value list) \<times> (fetch_arg list \<times> auto_value list)" where
  "auto_fetch_args ty function_variables fn =
     (case function_variables fn of
        None \<Rightarrow> (([], []), ([], []))
      | Some (args, rets) \<Rightarrow> (derive_args ty args, derive_rets ty rets))"

record fetch_maps =
  fm_args :: "string \<Rightarrow> fetch_arg list"
  fm_rets :: "string \<Rightarrow> fetch_arg list"
  fm_arg_values :: "string \<Rightarrow> auto_value list"
  fm_ret_values :: "string \<Rightarrow> auto_value list"

definition fill_one ::
  "type_table \<Rightarrow> (string \<Rightarrow> (variable list \<times> variable list) option) \<Rightarrow> bool \<Rightarrow> bool \<Rightarrow> string \<Rightarrow>
     fetch_maps \<Rightarrow> fetch_maps" where
  "fill_one ty fv auto_args auto_rets fn m =
     (let need_entry = (auto_args \<and> fm_args m fn = []); need_ret = (auto_rets \<and> fm_rets m fn = [])
      in if \<not> need_entry \<and> \<not> need_ret then m
         else case auto_fetch_args ty fv fn of
           ((ea, ev), (ra, rv)) \<Rightarrow>
             (let m = (if need_entry \<and> ea \<noteq> []
                       then m\<lparr>fm_args := (fm_args m)(fn := ea), fm_arg_values := (fm_arg_values m)(fn := ev)\<rparr>
                       else m)
              in if need_ret \<and> ra \<noteq> []
                 then m\<lparr>fm_rets := (fm_rets m)(fn := ra), fm_ret_values := (fm_ret_values m)(fn := rv)\<rparr>
                 else m))"

definition fill_auto_fetch ::
  "type_table \<Rightarrow> (string \<Rightarrow> (variable list \<times> variable list) option) \<Rightarrow> string list \<Rightarrow> bool \<Rightarrow> bool \<Rightarrow>
     fetch_maps \<Rightarrow> fetch_maps" where
  "fill_auto_fetch ty fv funcnames auto_args auto_rets m =
     (if \<not> auto_args \<and> \<not> auto_rets then m
      else fold (fill_one ty fv auto_args auto_rets) funcnames m)"

end
