(* ===== verification/Ftrace_Uprobes.thy ===== *)
theory Ftrace_Uprobes
  imports Ftrace_Code Ftrace_Auto "HOL-Library.AList"
begin

text \<open>
  Which probes are attached: the wildcards of \<open>src/internal/uprobe/utils.go\<close>, the probe list
  of \<open>src/internal/uprobe/parser.go\<close> and the loader of \<open>src/internal/bpf/bpf.go\<close>, which
  fills the maps of the BPF program from it.
\<close>

section \<open>Wildcards\<close>

function match_wildcard :: "string \<Rightarrow> string \<Rightarrow> bool" where
  "match_wildcard pattern str =
     (if pattern = [] \<and> str = [] then True
      else if pattern = [] then False
      else if str = [] then list_all (\<lambda>p. p = CHR ''*'') pattern
      else if hd pattern = CHR ''*'' then
        list_ex (\<lambda>i. match_wildcard (tl pattern) (drop i str)) [0..<length str + 1]
      else hd pattern = hd str \<and> match_wildcard (tl pattern) (tl str))"
  by pat_completeness auto
termination
  by (relation "measure (\<lambda>(pattern, str). length pattern)") auto

declare match_wildcard.simps [simp del]

text \<open>The language of a pattern: a star stands for any word, another byte for itself.\<close>

inductive glob :: "string \<Rightarrow> string \<Rightarrow> bool" where
  "glob [] []"
| "c \<noteq> CHR ''*'' \<Longrightarrow> glob p s \<Longrightarrow> glob (c # p) (c # s)"
| "glob p s \<Longrightarrow> glob (CHR ''*'' # p) (u @ s)"

inductive_simps glob_Nil: "glob [] s"
inductive_cases glob_ConsE: "glob (c # p) s"

lemma glob_Cons:
  "glob (c # p) s \<longleftrightarrow>
     (if c = CHR ''*'' then \<exists>i \<le> length s. glob p (drop i s)
      else \<exists>t. s = c # t \<and> glob p t)"
proof (cases "c = CHR ''*''")
  case True
  have "\<exists>i \<le> length s. glob p (drop i s)" if "glob (c # p) s"
  proof -
    obtain u t where "s = u @ t" "glob p t" using \<open>glob (c # p) s\<close> True by (auto elim: glob_ConsE)
    then show ?thesis by (intro exI [of _ "length u"]) simp
  qed
  moreover have "glob (c # p) s" if "glob p (drop i s)" for i
    using glob.intros(3) [OF that, of "take i s"] True by simp
  ultimately show ?thesis using True by auto
next
  case False
  then show ?thesis by (auto elim: glob_ConsE intro: glob.intros)
qed

lemma glob_empty: "glob p [] \<longleftrightarrow> list_all (\<lambda>c. c = CHR ''*'') p"
  by (induction p) (auto simp: glob_Nil glob_Cons)

lemma match_glob: "match_wildcard p s \<longleftrightarrow> glob p s"
proof (induction p s rule: match_wildcard.induct)
  case (1 p s)
  show ?case
  proof (cases p)
    case Nil
    then show ?thesis by (subst match_wildcard.simps) (simp add: glob_Nil)
  next
    case (Cons c q)
    show ?thesis
    proof (cases "s = []")
      case True
      then show ?thesis using Cons by (subst match_wildcard.simps) (simp add: glob_empty)
    next
      case False
      show ?thesis
      proof (cases "c = CHR ''*''")
        case True
        have "match_wildcard q (drop i s) \<longleftrightarrow> glob q (drop i s)" if "i \<le> length s" for i
        proof -
          have "i = length s \<or> i < length s" using that by auto
          then show ?thesis using "1.IH"(1) [of i] False Cons True by simp
        qed
        moreover have "list_ex P [0..<length s + 1] \<longleftrightarrow> (\<exists>i \<le> length s. P i)" for P
          by (auto simp: list_ex_iff less_Suc_eq_le simp del: upt_Suc)
        ultimately show ?thesis
          using Cons False True by (subst match_wildcard.simps) (auto simp: glob_Cons simp del: upt_Suc)
      next
        case nostar: False
        have "match_wildcard q (tl s) \<longleftrightarrow> glob q (tl s)"
          using "1.IH"(2) False Cons nostar by simp
        then show ?thesis
          using Cons False nostar
          by (subst match_wildcard.simps) (cases s, auto simp: glob_Cons)
      qed
    qed
  qed
qed

text \<open>C36: Function names are selected by their wildcard language: MatchWildcard accepts a name exactly
  when it is the pattern with every star replaced by some word; in particular a pattern
  always selects the function it spells, stars of method receivers included.\<close>

theorem wildcard_language:
  "(match_wildcard p s \<longleftrightarrow> glob p s) \<and> match_wildcard p p"
proof -
  have "glob p p"
  proof (induction p)
    case (Cons c p)
    then show ?case
      using glob.intros(3) [of p p "''*''"] by (cases "c = CHR ''*''") (auto intro: glob.intros)
  qed (rule glob.intros)
  then show ?thesis by (simp add: match_glob)
qed

section \<open>Probes\<close>

datatype uprobe_location = AtEntry | AtRet | AtGoroutineExit

record uprobe =
  up_funcname :: string
  up_address :: u64
  up_abs_offset :: u64
  up_rel_offset :: u64
  up_location :: uprobe_location
  up_fetch_args :: "fetch_arg list"
  up_values :: "auto_value list"
  up_wanted :: bool

text \<open>The expressions of a flag by function; a map of the code whose keys are distinct.\<close>

type_synonym fetch_exprs = "(string \<times> (string \<times> string) list) list"

record parse_options =
  po_exclude_vendor :: bool
  po_wildcards :: "string list"
  po_func_names :: "string list"
  po_fetch_args :: fetch_exprs
  po_ret_fetch_args :: fetch_exprs
  po_auto_args :: bool
  po_auto_rets :: bool

definition contains :: "string \<Rightarrow> string \<Rightarrow> bool" where
  "contains s t = list_ex (\<lambda>i. take (length t) (drop i s) = t) [0..<length s + 1]"

definition attached :: "parse_options \<Rightarrow> elf_symbol \<Rightarrow> bool" where
  "attached opts s =
     (sy_func s \<and>
      list_ex (\<lambda>fn. match_wildcard fn (sy_name s) \<and>
                 \<not> (po_exclude_vendor opts \<and> contains (sy_name s) ''/vendor/''))
        (po_wildcards opts @ po_func_names opts))"

definition attach_funcs :: "parse_options \<Rightarrow> elf_symbol list \<Rightarrow> string list" where
  "attach_funcs opts symbols = map sy_name (filter (attached opts) symbols)"

definition wanted_funcs :: "parse_options \<Rightarrow> elf_symbol list \<Rightarrow> string list" where
  "wanted_funcs opts symbols =
     filter (\<lambda>name. po_func_names opts = [] \<or> list_ex (\<lambda>fn. match_wildcard fn name) (po_func_names opts))
       (attach_funcs opts symbols)"

text \<open>
  The flags \<open>--fargs\<close> and \<open>--frets\<close> in \<open>Tracer.Parse\<close>: the functions to trace, and the expressions of
  each; a later flag for a function replaces an earlier one.
\<close>

fun parse_flags :: "string list \<Rightarrow> fetch_exprs \<Rightarrow> go_error + string list \<times> fetch_exprs" where
  "parse_flags [] exprs = Inr ([], exprs)"
| "parse_flags (s # ss) exprs =
     (case parse_fetch_expr s of
        Inl err \<Rightarrow> Inl err
      | Inr (fn, vars) \<Rightarrow>
          (case parse_flags ss (if vars \<noteq> [] then AList.update fn vars exprs else exprs) of
             Inl err \<Rightarrow> Inl err
           | Inr (fns, exprs) \<Rightarrow> Inr (fn # fns, exprs)))"

definition tracer_parse ::
  "string list \<Rightarrow> string list \<Rightarrow> go_error + string list \<times> fetch_exprs \<times> fetch_exprs" where
  "tracer_parse fargs frets =
     (case parse_flags fargs [] of
        Inl err \<Rightarrow> Inl err
      | Inr (fns, args) \<Rightarrow>
          (case parse_flags frets [] of
             Inl err \<Rightarrow> Inl err
           | Inr (rns, rets) \<Rightarrow> Inr (fns @ rns, args, rets)))"

text \<open>\<open>parseFetchArgs\<close>; a missing function reads as no rules.\<close>

fun parse_fetch_args :: "fetch_exprs \<Rightarrow> go_error + (string \<Rightarrow> fetch_arg list)" where
  "parse_fetch_args [] = Inr (\<lambda>fn. [])"
| "parse_fetch_args ((fn, es) # ps) =
     (case new_fetch_args es of
        Inl err \<Rightarrow> Inl err
      | Inr fas \<Rightarrow>
          (case parse_fetch_args ps of
             Inl err \<Rightarrow> Inl err
           | Inr m \<Rightarrow> Inr (m(fn := fas))))"

text \<open>
  The loop over the functions. \<open>rets\<close> is \<open>FuncRetOffsets\<close>; \<open>fm\<close> has the rules of each function
  after the automatic ones were filled in. A function without RET offsets gets no probes.
\<close>

fun function_probes ::
  "elf_symbol list \<Rightarrow> text_section \<Rightarrow> (string \<Rightarrow> go_error + u64 list) \<Rightarrow> fetch_maps \<Rightarrow> string list \<Rightarrow>
     string list \<Rightarrow> go_error + uprobe list" where
  "function_probes symbols sec rets fm wanted [] = Inr []"
| "function_probes symbols sec rets fm wanted (fn # fns) =
     (case resolve_symbol symbols fn of
        Inl err \<Rightarrow> Inl err
      | Inr s \<Rightarrow>
          (case func_offset symbols sec fn of
             Inl err \<Rightarrow> Inl err
           | Inr ent_offset \<Rightarrow>
               (let w = (fn \<in> set wanted);
                    ent = \<lparr>up_funcname = fn, up_address = sy_value s, up_abs_offset = ent_offset,
                           up_rel_offset = 0, up_location = AtEntry, up_fetch_args = fm_args fm fn,
                           up_values = fm_arg_values fm fn, up_wanted = w\<rparr>;
                    ret = (\<lambda>off. \<lparr>up_funcname = fn, up_address = sy_value s + (off - ent_offset),
                             up_abs_offset = off, up_rel_offset = off - ent_offset, up_location = AtRet,
                             up_fetch_args = fm_rets fm fn, up_values = fm_ret_values fm fn, up_wanted = w\<rparr>);
                    probes = (case rets fn of
                                Inl err \<Rightarrow> []
                              | Inr offs \<Rightarrow> if offs = [] then [] else ent # map ret offs)
                in case function_probes symbols sec rets fm wanted fns of
                     Inl err \<Rightarrow> Inl err
                   | Inr ups \<Rightarrow> Inr (probes @ ups))))"

text \<open>\<open>ty\<close> and \<open>fv\<close> are the types and the variables of functions in the debug information.\<close>

definition parse_uprobes ::
  "type_table \<Rightarrow> (string \<Rightarrow> (variable list \<times> variable list) option) \<Rightarrow> elf_symbol list \<Rightarrow> text_section \<Rightarrow>
     (string \<Rightarrow> go_error + u64 list) \<Rightarrow> parse_options \<Rightarrow> go_error + uprobe list" where
  "parse_uprobes ty fv symbols sec rets opts =
     (case parse_fetch_args (po_fetch_args opts) of
        Inl err \<Rightarrow> Inl err
      | Inr fargs \<Rightarrow>
     (case parse_fetch_args (po_ret_fetch_args opts) of
        Inl err \<Rightarrow> Inl err
      | Inr frets \<Rightarrow>
     (let fm = fill_auto_fetch ty fv (attach_funcs opts symbols) (po_auto_args opts) (po_auto_rets opts)
                 \<lparr>fm_args = fargs, fm_rets = frets, fm_arg_values = (\<lambda>fn. []), fm_ret_values = (\<lambda>fn. [])\<rparr>
      in case resolve_symbol symbols ''runtime.goexit1'' of
        Inl err \<Rightarrow> Inl err
      | Inr s \<Rightarrow>
          (case func_offset symbols sec ''runtime.goexit1'' of
             Inl err \<Rightarrow> Inl err
           | Inr ent_offset \<Rightarrow>
               (case function_probes symbols sec rets fm (wanted_funcs opts symbols)
                       (attach_funcs opts symbols) of
                  Inl err \<Rightarrow> Inl err
                | Inr ups \<Rightarrow>
                    Inr (\<lparr>up_funcname = ''runtime.goexit1'', up_address = sy_value s, up_abs_offset = ent_offset,
                          up_rel_offset = 0, up_location = AtGoroutineExit, up_fetch_args = [],
                          up_values = [], up_wanted = False\<rparr> # ups))))))"

section \<open>Loading\<close>

record load_options =
  lo_goid_offset :: u64
  lo_g_offset :: u64
  lo_adaptive_sampling :: bool

fun try_each :: "('a \<Rightarrow> 's \<Rightarrow> go_error + 's) \<Rightarrow> 'a list \<Rightarrow> 's \<Rightarrow> go_error + 's" where
  "try_each f [] s = Inr s"
| "try_each f (x # xs) s = (case f x s of Inl err \<Rightarrow> Inl err | Inr s' \<Rightarrow> try_each f xs s')"

text \<open>
  \<open>BpfConfig\<close>; the device and inode of the pid namespace are 0 when they cannot be read.
\<close>

definition load_config :: "u64 \<Rightarrow> u64 \<Rightarrow> uprobe list \<Rightarrow> load_options \<Rightarrow> config" where
  "load_config dev ino ups opts =
     \<lparr>cfg_goid_offset = lo_goid_offset opts, cfg_g_offset = lo_g_offset opts, cfg_pidns_dev = dev,
      cfg_pidns_ino = ino, cfg_fetch_args = list_ex (\<lambda>u. 0 < length (up_fetch_args u)) ups,
      cfg_adaptive_sampling = lo_adaptive_sampling opts, cfg_padding = replicate 6 0\<rparr>"

definition set_wanted :: "u64 \<Rightarrow> bpf_state \<Rightarrow> go_error + bpf_state" where
  "set_wanted addr st =
     (case update_no_exist (md_max_entries def_should_trace_rip) (should_trace_rip st) addr True of
        Inl err \<Rightarrow> Inl err
      | Inr mp \<Rightarrow> Inr (st\<lparr>should_trace_rip := mp\<rparr>))"

definition set_wanted_ret :: "u64 \<Rightarrow> u64 \<Rightarrow> bpf_state \<Rightarrow> go_error + bpf_state" where
  "set_wanted_ret ret_address entry_address st =
     (case update_no_exist (md_max_entries def_should_trace_ret) (should_trace_ret st) ret_address entry_address of
        Inl err \<Rightarrow> Inl err
      | Inr mp \<Rightarrow> Inr (st\<lparr>should_trace_ret := mp\<rparr>))"

definition wanted_entry :: "uprobe \<Rightarrow> bool" where
  "wanted_entry u \<longleftrightarrow> up_wanted u \<and> up_location u = AtEntry"

definition wanted_ret :: "uprobe \<Rightarrow> bool" where
  "wanted_ret u \<longleftrightarrow> up_wanted u \<and> up_location u = AtRet"

text \<open>The map \<open>wantedEntries\<close> after the first loop; a missing name reads as 0.\<close>

definition wanted_entries :: "uprobe list \<Rightarrow> string \<Rightarrow> u64" where
  "wanted_entries ups name =
     (case fold (\<lambda>u m. m(up_funcname u \<mapsto> up_address u)) (filter wanted_entry ups) Map.empty name of
        None \<Rightarrow> 0 | Some a \<Rightarrow> a)"

definition load_entry :: "uprobe \<Rightarrow> bpf_state \<Rightarrow> go_error + bpf_state" where
  "load_entry u st = (if wanted_entry u then set_wanted (up_address u) st else Inr st)"

definition load_probe :: "bool \<Rightarrow> (string \<Rightarrow> u64) \<Rightarrow> uprobe \<Rightarrow> bpf_state \<Rightarrow> go_error + bpf_state" where
  "load_probe adaptive entry u st =
     (case (if up_fetch_args u \<noteq> [] then set_arg_rules (up_address u) (up_fetch_args u) st else Inr st) of
        Inl err \<Rightarrow> Inl err
      | Inr st \<Rightarrow>
          if adaptive \<and> wanted_ret u then set_wanted_ret (up_address u) (entry (up_funcname u)) st
          else Inr st)"

text \<open>\<open>st\<close> holds the maps as they were created.\<close>

definition load :: "u64 \<Rightarrow> u64 \<Rightarrow> uprobe list \<Rightarrow> load_options \<Rightarrow> bpf_state \<Rightarrow> go_error + config \<times> bpf_state" where
  "load dev ino ups opts st =
     (case try_each load_entry ups st of
        Inl err \<Rightarrow> Inl err
      | Inr st \<Rightarrow>
          (case try_each (load_probe (lo_adaptive_sampling opts) (wanted_entries ups)) ups st of
             Inl err \<Rightarrow> Inl err
           | Inr st \<Rightarrow> Inr (load_config dev ino ups opts, st)))"

end
