(* ===== verification/Ftrace_Manager.thy ===== *)
theory Ftrace_Manager
  imports Ftrace_Uprobes "HOL-Library.AList"
begin

text \<open>
  The event manager that turns the stream of events into call stacks and statistics
  (\<open>internal/eventmanager/eventmanager.go\<close>, \<open>handler.go\<close>): the state it keeps per process and
  goroutine, the memory limits of adaptive mode, the pairing of entries and returns, and the
  histograms with the bounded table of return values.

  A Go map whose iteration order matters (processes, return values) or whose size does is an
  association list, so the order of iteration is the order of the list; the other maps are
  functions. Rendering an event's arguments and learning types from it are parameters.
\<close>

section \<open>Aggregation tables\<close>

record retval_count =
  rv_count :: u64
  rv_weighted_count :: u64
  rv_weighted_error :: u64

record func_agg =
  ag_calls :: u64
  ag_weighted_calls :: u64
  ag_latencies :: "u64 list"
  ag_weighted_latencies :: "u64 list"
  ag_retvals :: "(string \<times> retval_count) list"

definition latency_buckets :: "64 word list" where
  "latency_buckets =
     [1000, 10000, 100000, 1000000, 10000000, 100000000, 1000000000, 10000000000]"

definition new_func_agg :: func_agg where
  "new_func_agg =
     \<lparr>ag_calls = 0, ag_weighted_calls = 0, ag_latencies = replicate (length latency_buckets + 1) 0,
      ag_weighted_latencies = replicate (length latency_buckets + 1) 0, ag_retvals = []\<rparr>"

text \<open>A duration is a signed number; the first bucket whose edge it does not exceed.\<close>

fun bucket_index :: "64 word list \<Rightarrow> nat \<Rightarrow> u64 \<Rightarrow> nat" where
  "bucket_index [] i elapsed = i"
| "bucket_index (edge # edges) i elapsed =
     (if elapsed \<le>s edge then i else bucket_index edges (Suc i) elapsed)"

text \<open>The first entry with the least weight, in the order the map is iterated.\<close>

fun least_retval :: "(string \<times> retval_count) list \<Rightarrow> (string \<times> retval_count) option \<Rightarrow> (string \<times> retval_count) option" where
  "least_retval [] best = best"
| "least_retval ((v, c) # rest) best =
     (case best of
        None \<Rightarrow> least_retval rest (Some (v, c))
      | Some (v', c') \<Rightarrow>
          if rv_weighted_count c < rv_weighted_count c' then least_retval rest (Some (v, c))
          else least_retval rest best)"

definition record_retval :: "string \<Rightarrow> u64 \<Rightarrow> func_agg \<Rightarrow> func_agg" where
  "record_retval retval weight a =
     (let weight = (if weight = 0 then 1 else weight)
      in case map_of (ag_retvals a) retval of
           Some c \<Rightarrow>
             a\<lparr>ag_retvals := AList.update retval
                 (c\<lparr>rv_count := rv_count c + 1, rv_weighted_count := rv_weighted_count c + weight\<rparr>) (ag_retvals a)\<rparr>
         | None \<Rightarrow>
             if length (ag_retvals a) < 64 then
               a\<lparr>ag_retvals := AList.update retval
                   \<lparr>rv_count = 1, rv_weighted_count = weight, rv_weighted_error = 0\<rparr> (ag_retvals a)\<rparr>
             else case least_retval (ag_retvals a) None of
               None \<Rightarrow> a
             | Some (v, m) \<Rightarrow>
                 a\<lparr>ag_retvals := AList.update retval
                     \<lparr>rv_count = 1, rv_weighted_count = rv_weighted_count m + weight,
                      rv_weighted_error = rv_weighted_count m\<rparr> (AList.delete v (ag_retvals a))\<rparr>)"

definition add_at :: "nat \<Rightarrow> u64 \<Rightarrow> u64 list \<Rightarrow> u64 list" where
  "add_at i n xs = xs[i := xs ! i + n]"

definition record_call :: "u64 \<Rightarrow> string \<Rightarrow> u64 \<Rightarrow> func_agg \<Rightarrow> func_agg" where
  "record_call elapsed retval weight a =
     (let weight = (if weight = 0 then 1 else weight);
          idx = bucket_index latency_buckets 0 elapsed;
          a = a\<lparr>ag_calls := ag_calls a + 1, ag_weighted_calls := ag_weighted_calls a + weight,
                ag_latencies := add_at idx 1 (ag_latencies a),
                ag_weighted_latencies := add_at idx weight (ag_weighted_latencies a)\<rparr>
      in if retval \<noteq> [] then record_retval retval weight a else a)"

section \<open>State\<close>

record mgr_event =
  me_event :: event
  me_uprobe :: uprobe
  me_args :: string

record pid_state =
  ps_events :: "(u64 \<times> mgr_event list) list"
  ps_stack :: "u64 \<rightharpoonup> u64 list"
  ps_invalid :: "u64 set"
  ps_last_seen :: u64
  ps_agg :: "string \<rightharpoonup> func_agg"

definition new_pid_state :: pid_state where
  "new_pid_state =
     \<lparr>ps_events = [], ps_stack = Map.empty, ps_invalid = {}, ps_last_seen = 0, ps_agg = Map.empty\<rparr>"

text \<open>
  \<open>'k\<close> is what the manager has learned about interface types, which the renderer uses and the
  learner extends; both are parameters. The probe table is keyed by name and offset.
\<close>

record 'k manager =
  mg_symbols :: "elf_symbol list"
  mg_uprobes :: "string \<rightharpoonup> uprobe"
  mg_drilldown :: string
  mg_aggregate :: bool
  mg_adaptive :: bool
  mg_pids :: "(u32 \<times> pid_state) list"
  mg_seq :: u64
  mg_max_pending :: u64
  mg_pending :: u64
  mg_dropped_stacks :: u64
  mg_dropped_incomplete :: u64
  mg_dropped_aborted :: u64
  mg_dropped_over_budget :: u64
  mg_evicted_pids :: u64
  mg_suppressed :: "(u32 \<times> u64) list"
  mg_learned :: 'k

record 'k services =
  sv_render :: "'k \<Rightarrow> uprobe \<Rightarrow> event \<Rightarrow> string"
  sv_learn :: "uprobe \<Rightarrow> event \<Rightarrow> 'k \<Rightarrow> 'k"

definition maxAggregatePIDs :: nat where "maxAggregatePIDs = 64"
definition maxAggregateSuppressed :: nat where "maxAggregateSuppressed = 10000"
definition estimatedEventBytes :: u64 where "estimatedEventBytes = 2048"
definition aggEventBudgetDiv :: u64 where "aggEventBudgetDiv = 4"

definition probe_name :: "string \<Rightarrow> u64 \<Rightarrow> string" where
  "probe_name name off = name @ CHR ''+'' # show_nat (unat off)"

definition new_manager ::
  "uprobe list \<Rightarrow> elf_symbol list \<Rightarrow> string \<Rightarrow> bool \<Rightarrow> bool \<Rightarrow> u64 \<Rightarrow> 'k \<Rightarrow> 'k manager" where
  "new_manager ups symbols drilldown aggregate adaptive memory_limit k =
     (let budget = memory_limit div aggEventBudgetDiv div estimatedEventBytes
      in \<lparr>mg_symbols = symbols,
          mg_uprobes = fold (\<lambda>u m. m(probe_name (up_funcname u) (up_rel_offset u) \<mapsto> u)) ups Map.empty,
          mg_drilldown = drilldown, mg_aggregate = aggregate, mg_adaptive = adaptive, mg_pids = [],
          mg_seq = 0, mg_max_pending = (if adaptive then if budget = 0 then 1 else budget else 0),
          mg_pending = 0, mg_dropped_stacks = 0, mg_dropped_incomplete = 0, mg_dropped_aborted = 0,
          mg_dropped_over_budget = 0, mg_evicted_pids = 0, mg_suppressed = [], mg_learned = k\<rparr>)"

fun first_uprobe :: "(string \<rightharpoonup> uprobe) \<Rightarrow> elf_symbol list \<Rightarrow> u64 \<Rightarrow> uprobe option" where
  "first_uprobe tbl [] off = None"
| "first_uprobe tbl (s # ss) off =
     (case tbl (probe_name (sy_name s) off) of Some u \<Rightarrow> Some u | None \<Rightarrow> first_uprobe tbl ss off)"

definition get_uprobe :: "'k manager \<Rightarrow> event \<Rightarrow> uprobe option" where
  "get_uprobe m e =
     (case resolve_address (mg_symbols m) (ev_ip e) of
        Inl err \<Rightarrow> None
      | Inr (syms, off) \<Rightarrow> first_uprobe (mg_uprobes m) syms off)"

section \<open>States of processes\<close>

definition goroutine_events :: "pid_state \<Rightarrow> u64 \<Rightarrow> mgr_event list" where
  "goroutine_events s goid = (case map_of (ps_events s) goid of None \<Rightarrow> [] | Some es \<Rightarrow> es)"

definition goroutine_stack :: "pid_state \<Rightarrow> u64 \<Rightarrow> u64 list" where
  "goroutine_stack s goid = (case ps_stack s goid of None \<Rightarrow> [] | Some st \<Rightarrow> st)"

definition stored_events :: "pid_state \<Rightarrow> nat" where
  "stored_events s = sum_list (map (\<lambda>(goid, es). length es) (ps_events s))"

definition release :: "nat \<Rightarrow> 'k manager \<Rightarrow> 'k manager" where
  "release n m =
     (let released = of_nat n :: u64
      in m\<lparr>mg_pending := if released \<ge> mg_pending m then 0 else mg_pending m - released\<rparr>)"

text \<open>The process seen least recently, the first of them in the order of the map.\<close>

fun oldest_pid :: "(u32 \<times> pid_state) list \<Rightarrow> (u32 \<times> pid_state) option \<Rightarrow> (u32 \<times> pid_state) option" where
  "oldest_pid [] best = best"
| "oldest_pid ((pid, s) # rest) best =
     (case best of
        None \<Rightarrow> oldest_pid rest (Some (pid, s))
      | Some (pid', s') \<Rightarrow>
          if ps_last_seen s < ps_last_seen s' then oldest_pid rest (Some (pid, s))
          else oldest_pid rest best)"

definition evict_oldest :: "'k manager \<Rightarrow> 'k manager" where
  "evict_oldest m =
     (case oldest_pid (mg_pids m) None of
        None \<Rightarrow> m
      | Some (pid, s) \<Rightarrow>
          (let m = release (stored_events s) m
           in m\<lparr>mg_pids := AList.delete pid (mg_pids m),
                mg_suppressed := filter (\<lambda>key. fst key \<noteq> pid) (mg_suppressed m),
                mg_evicted_pids := mg_evicted_pids m + 1\<rparr>))"

definition touch_pid :: "u32 \<Rightarrow> 'k manager \<Rightarrow> 'k manager" where
  "touch_pid pid m =
     (let m = m\<lparr>mg_seq := mg_seq m + 1\<rparr>
      in case map_of (mg_pids m) pid of
           Some s \<Rightarrow> m\<lparr>mg_pids := AList.update pid (s\<lparr>ps_last_seen := mg_seq m\<rparr>) (mg_pids m)\<rparr>
         | None \<Rightarrow>
             (let m = (if mg_adaptive m \<and> length (mg_pids m) \<ge> maxAggregatePIDs then evict_oldest m else m)
              in m\<lparr>mg_pids := AList.update pid (new_pid_state\<lparr>ps_last_seen := mg_seq m\<rparr>) (mg_pids m)\<rparr>))"

definition pid_state_of :: "u32 \<Rightarrow> 'k manager \<Rightarrow> pid_state" where
  "pid_state_of pid m = (case map_of (mg_pids m) pid of None \<Rightarrow> new_pid_state | Some s \<Rightarrow> s)"

definition put_pid_state :: "u32 \<Rightarrow> pid_state \<Rightarrow> 'k manager \<Rightarrow> 'k manager" where
  "put_pid_state pid s m = m\<lparr>mg_pids := AList.update pid s (mg_pids m)\<rparr>"

definition drop_stack :: "u32 \<Rightarrow> u64 \<Rightarrow> 'k manager \<Rightarrow> 'k manager" where
  "drop_stack pid goid m =
     (case map_of (mg_pids m) pid of
        None \<Rightarrow> m
      | Some s \<Rightarrow>
          (let m = (if mg_adaptive m then release (length (goroutine_events s goid)) m else m)
           in put_pid_state pid
                (s\<lparr>ps_events := AList.delete goid (ps_events s), ps_stack := (ps_stack s)(goid := None),
                   ps_invalid := ps_invalid s - {goid}\<rparr>) m))"

section \<open>Events\<close>

definition reset_stale_sample :: "event \<Rightarrow> 'k manager \<Rightarrow> 'k manager" where
  "reset_stale_sample e m =
     (if and (ev_trace_flags e) TRACE_START = 0 then m
      else case map_of (mg_pids m) (ev_pid e) of
        None \<Rightarrow> m
      | Some s \<Rightarrow>
          if goroutine_events s (ev_goid e) \<noteq> []
          then (drop_stack (ev_pid e) (ev_goid e) m)
                 \<lparr>mg_dropped_stacks := mg_dropped_stacks m + 1,
                  mg_dropped_incomplete := mg_dropped_incomplete m + 1\<rparr>
          else m)"

text \<open>
  The guards of adaptive mode: whether the event goes on, and the manager.
\<close>

definition admit_event :: "event \<Rightarrow> 'k manager \<Rightarrow> bool \<times> 'k manager" where
  "admit_event e m =
     (let key = (ev_pid e, ev_goid e)
      in if \<not> mg_adaptive m then (True, m)
         else let m = reset_stale_sample e m;
                  starts = and (ev_trace_flags e) TRACE_START \<noteq> 0;
                  ends = and (ev_trace_flags e) TRACE_END \<noteq> 0;
                  m' = m\<lparr>mg_suppressed := removeAll key (mg_suppressed m)\<rparr>
              in if key \<in> set (mg_suppressed m) \<and> \<not> starts then (False, if ends then m' else m)
                 else let m = (if key \<in> set (mg_suppressed m) then m' else m)
                      in if mg_pending m \<ge> mg_max_pending m then
                           let m = drop_stack (ev_pid e) (ev_goid e) m;
                               m = (if ends then m
                                    else m\<lparr>mg_suppressed :=
                                       List.insert key
                                         (if length (mg_suppressed m) \<ge> maxAggregateSuppressed then []
                                          else mg_suppressed m)\<rparr>)
                           in (False, m\<lparr>mg_dropped_stacks := mg_dropped_stacks m + 1,
                                        mg_dropped_over_budget := mg_dropped_over_budget m + 1\<rparr>)
                         else (True, m))"

definition is_repeated_entry :: "mgr_event list \<Rightarrow> event \<Rightarrow> bool" where
  "is_repeated_entry es e \<longleftrightarrow>
     es \<noteq> [] \<and> ev_location (me_event (last es)) = ev_location e \<and> ev_ip (me_event (last es)) = ev_ip e \<and>
     ev_bp (me_event (last es)) \<noteq> ev_caller_bp e"

definition update_observed_stack :: "bool \<Rightarrow> event \<Rightarrow> uprobe \<Rightarrow> pid_state \<Rightarrow> pid_state" where
  "update_observed_stack aggregate e u s =
     (let goid = ev_goid e; stack = goroutine_stack s goid
      in if ev_location e = ENTPOINT then s\<lparr>ps_stack := (ps_stack s)(goid \<mapsto> stack @ [ev_ip e])\<rparr>
         else if ev_location e = RETPOINT then
           (if aggregate \<and> (stack = [] \<or> last stack \<noteq> up_address u - up_rel_offset u)
            then s\<lparr>ps_invalid := insert goid (ps_invalid s)\<rparr>
            else if stack \<noteq> [] then s\<lparr>ps_stack := (ps_stack s)(goid \<mapsto> butlast stack)\<rparr>
            else s)
         else s)"

definition store_event :: "'k services \<Rightarrow> uprobe \<Rightarrow> event \<Rightarrow> 'k manager \<Rightarrow> 'k manager" where
  "store_event sv u e m =
     (let s = pid_state_of (ev_pid e) m; goid = ev_goid e;
          entry = \<lparr>me_event = e, me_uprobe = u, me_args = sv_render sv (mg_learned m) u e\<rparr>;
          m = m\<lparr>mg_learned := sv_learn sv u e (mg_learned m)\<rparr>;
          s = s\<lparr>ps_events := AList.update goid (goroutine_events s goid @ [entry]) (ps_events s)\<rparr>;
          m = (if mg_adaptive m then m\<lparr>mg_pending := mg_pending m + 1\<rparr> else m)
      in put_pid_state (ev_pid e) (update_observed_stack (mg_aggregate m) e u s) m)"

definition add_event :: "'k services \<Rightarrow> event \<Rightarrow> 'k manager \<Rightarrow> bool \<times> 'k manager" where
  "add_event sv e m =
     (case admit_event e m of
        (ok, m) \<Rightarrow>
          if \<not> ok then (False, m)
          else case get_uprobe m e of
            None \<Rightarrow> (False, m)
          | Some u \<Rightarrow>
              (let m = touch_pid (ev_pid e) m; s = pid_state_of (ev_pid e) m; goid = ev_goid e;
                   es = goroutine_events s goid
               in if es = [] \<and> ev_location e \<noteq> ENTPOINT then (False, m)
                  else if es = [] \<and> mg_adaptive m \<and> and (ev_trace_flags e) TRACE_START = 0 then (False, m)
                  else if is_repeated_entry es e then
                    (True, put_pid_state (ev_pid e)
                       (s\<lparr>ps_events := AList.update goid (butlast es @ [(last es)\<lparr>me_event := e\<rparr>]) (ps_events s)\<rparr>) m)
                  else (True, store_event sv u e m)))"

definition close_stack :: "event \<Rightarrow> 'k manager \<Rightarrow> bool \<times> 'k manager" where
  "close_stack e m =
     (let m = touch_pid (ev_pid e) m; s = pid_state_of (ev_pid e) m
      in if mg_aggregate m \<and> mg_adaptive m then (and (ev_trace_flags e) TRACE_END \<noteq> 0, m)
         else (goroutine_stack s (ev_goid e) = [] \<and> goroutine_events s (ev_goid e) \<noteq> [], m))"

section \<open>Aggregating a stack\<close>

record frame =
  fr_entry_ip :: u64
  fr_start :: u64
  fr_weight :: u64

record call_record =
  cr_func :: string
  cr_elapsed :: u64
  cr_retval :: string
  cr_weight :: u64

text \<open>
  The loop of \<open>AggregateStack\<close> over the events with its frames, innermost last: the records
  it makes; it stops at a return that does not fit.
\<close>

fun aggregate_loop :: "mgr_event list \<Rightarrow> frame list \<Rightarrow> call_record list" where
  "aggregate_loop [] frames = []"
| "aggregate_loop (me # mes) frames =
     (let e = me_event me
      in if ev_location e = ENTPOINT then
           (let weight = ucast (ev_sample_denominator e) :: u64
            in aggregate_loop mes
                 (frames @ [\<lparr>fr_entry_ip = ev_ip e, fr_start = ev_time_ns e,
                             fr_weight = (if weight = 0 then 1 else weight)\<rparr>]))
         else if ev_location e = RETPOINT then
           (if frames = [] \<or> fr_entry_ip (last frames) \<noteq> up_address (me_uprobe me) - up_rel_offset (me_uprobe me)
            then []
            else \<lparr>cr_func = up_funcname (me_uprobe me), cr_elapsed = ev_time_ns e - fr_start (last frames),
                  cr_retval = me_args me, cr_weight = fr_weight (last frames)\<rparr>
                 # aggregate_loop mes (butlast frames))
         else aggregate_loop mes frames)"

definition record_agg :: "call_record \<Rightarrow> (string \<rightharpoonup> func_agg) \<Rightarrow> string \<rightharpoonup> func_agg" where
  "record_agg r agg =
     (let a = (case agg (cr_func r) of None \<Rightarrow> new_func_agg | Some a \<Rightarrow> a)
      in agg(cr_func r \<mapsto> record_call (cr_elapsed r) (cr_retval r) (cr_weight r) a))"

definition aggregate_stack :: "u32 \<Rightarrow> u64 \<Rightarrow> 'k manager \<Rightarrow> 'k manager" where
  "aggregate_stack pid goid m =
     (let m = touch_pid pid m; s = pid_state_of pid m
      in put_pid_state pid
           (s\<lparr>ps_agg := fold record_agg (aggregate_loop (goroutine_events s goid) []) (ps_agg s)\<rparr>) m)"

section \<open>Handling an event\<close>

text \<open>
  Printing writes to the terminal and looks the process up once; it fails when an address on
  the way does not resolve.
\<close>

definition print_error :: "'k manager \<Rightarrow> mgr_event list \<Rightarrow> go_error option" where
  "print_error m mes =
     (let bad = (\<lambda>a. isl (resolve_address (mg_symbols m) a))
      in if list_ex (\<lambda>me. let e = me_event me
                          in bad (ev_ip e) \<or> ev_location e = ENTPOINT \<and> ev_caller_ip e \<noteq> 0 \<and> bad (ev_caller_ip e)) mes
         then Some Symbol_not_found else None)"

definition print_stack :: "u32 \<Rightarrow> u64 \<Rightarrow> 'k manager \<Rightarrow> go_error option \<times> 'k manager" where
  "print_stack pid goid m =
     (let m = touch_pid pid m in (print_error m (goroutine_events (pid_state_of pid m) goid), m))"

definition needs_print :: "event \<Rightarrow> 'k manager \<Rightarrow> go_error + bool" where
  "needs_print e m =
     (if mg_drilldown m = [] then Inr True
      else case resolve_address (mg_symbols m) (ev_ip e) of
        Inl err \<Rightarrow> Inl err
      | Inr (syms, off) \<Rightarrow> Inr (sy_name (hd syms) = mg_drilldown m))"

definition finish_stack :: "event \<Rightarrow> 'k manager \<Rightarrow> go_error option \<times> 'k manager" where
  "finish_stack e m =
     (if mg_aggregate m then
        (let m = touch_pid (ev_pid e) m; s = pid_state_of (ev_pid e) m
         in if ev_goid e \<in> ps_invalid s \<or> goroutine_stack s (ev_goid e) \<noteq> []
            then (None, m\<lparr>mg_dropped_stacks := mg_dropped_stacks m + 1,
                          mg_dropped_incomplete := mg_dropped_incomplete m + 1\<rparr>)
            else (None, aggregate_stack (ev_pid e) (ev_goid e) m))
      else case needs_print e m of
        Inl err \<Rightarrow> (Some err, m)
      | Inr needed \<Rightarrow> if needed then print_stack (ev_pid e) (ev_goid e) m else (None, m))"

definition handle :: "'k services \<Rightarrow> event \<Rightarrow> 'k manager \<Rightarrow> go_error option \<times> 'k manager" where
  "handle sv e m =
     (if ev_location e = GOROUTINE_EXIT then
        (None, drop_stack (ev_pid e) (ev_goid e)
                 (m\<lparr>mg_suppressed := removeAll (ev_pid e, ev_goid e) (mg_suppressed m)\<rparr>))
      else if mg_adaptive m \<and> and (ev_trace_flags e) TRACE_ABORT \<noteq> 0 then
        (let m = drop_stack (ev_pid e) (ev_goid e)
                   (m\<lparr>mg_suppressed := removeAll (ev_pid e, ev_goid e) (mg_suppressed m)\<rparr>)
         in (None, m\<lparr>mg_dropped_stacks := mg_dropped_stacks m + 1,
                     mg_dropped_aborted := mg_dropped_aborted m + 1\<rparr>))
      else case add_event sv e m of
        (added, m) \<Rightarrow>
          if \<not> added then (None, m)
          else case close_stack e m of
            (fin, m) \<Rightarrow>
              if \<not> fin then (None, m)
              else case finish_stack e m of
                (err, m) \<Rightarrow> (err, drop_stack (ev_pid e) (ev_goid e) m))"

end
