(* ===== verification/Ftrace_Budget.thy ===== *)
theory Ftrace_Budget
  imports Ftrace_Manager
begin

text \<open>
  The memory bounds of the event manager under adaptive sampling: the counter of pending
  events is exact and bounded through every operation, so one invariant holds for any
  sequence of events.
\<close>

section \<open>Weights of association lists\<close>

definition weight :: "('v \<Rightarrow> nat) \<Rightarrow> ('k \<times> 'v) list \<Rightarrow> nat" where
  "weight w al = sum_list (map (\<lambda>(k, v). w v) al)"

definition weight_at :: "('v \<Rightarrow> nat) \<Rightarrow> ('k \<times> 'v) list \<Rightarrow> 'k \<Rightarrow> nat" where
  "weight_at w al k = (case map_of al k of None \<Rightarrow> 0 | Some v \<Rightarrow> w v)"

lemma weight_simps [simp]: "weight w [] = 0" "weight w ((k, v) # al) = w v + weight w al"
  by (simp_all add: weight_def)

lemma weight_update:
  "weight w (AList.update k v al) + weight_at w al k = weight w al + w v"
  by (induction al) (auto simp: weight_at_def)

lemma weight_absent: "k \<notin> fst ` set al \<Longrightarrow> weight_at w al k = 0"
  by (simp add: weight_at_def map_of_eq_None_iff [symmetric])

lemma delete_absent: "k \<notin> fst ` set al \<Longrightarrow> AList.delete k al = al"
  by (induction al) auto

lemma weight_delete:
  "distinct (map fst al) \<Longrightarrow> weight w (AList.delete k al) + weight_at w al k = weight w al"
proof (induction al)
  case (Cons p al)
  obtain l v where p: "p = (l, v)" by (cases p)
  show ?case
  proof (cases "l = k")
    case True
    then show ?thesis using Cons.prems by (simp add: p weight_at_def delete_absent)
  next
    case False
    then have "weight_at w (p # al) k = weight_at w al k" by (simp add: p weight_at_def)
    then show ?thesis using False Cons by (simp add: p)
  qed
qed (simp add: weight_at_def)

lemma weight_at_le: "weight_at w al k \<le> weight w al"
  by (induction al) (auto simp: weight_at_def)

lemma length_delete: "distinct (map fst al) \<Longrightarrow> k \<in> fst ` set al \<Longrightarrow> Suc (length (AList.delete k al)) = length al"
  by (induction al) (auto simp: delete_absent)

lemma length_update: "length (AList.update k v al) = (if k \<in> fst ` set al then length al else Suc (length al))"
  by (induction al) auto

lemma map_of_update [simp]: "map_of (AList.update k v al) = (map_of al)(k \<mapsto> v)"
  by (rule AList.update_conv')

lemma list_all_alist_update:
  "list_all (\<lambda>p. P (snd p)) al \<Longrightarrow> P v \<Longrightarrow> list_all (\<lambda>p. P (snd p)) (AList.update k v al)"
  by (induction al) auto

lemma list_all_alist_delete:
  "list_all (\<lambda>p. P (snd p)) al \<Longrightarrow> list_all (\<lambda>p. P (snd p)) (AList.delete k al)"
  by (induction al) auto

section \<open>The budget\<close>

lemma stored_weight: "stored_events s = weight length (ps_events s)"
  by (simp add: stored_events_def weight_def)

definition total_events :: "'k manager \<Rightarrow> nat" where
  "total_events m = weight stored_events (mg_pids m)"

definition pid_ok :: "pid_state \<Rightarrow> bool" where
  "pid_ok s \<longleftrightarrow> distinct (map fst (ps_events s))"

definition processes_ok :: "'k manager \<Rightarrow> bool" where
  "processes_ok m \<longleftrightarrow>
     distinct (map fst (mg_pids m)) \<and> list_all (\<lambda>p. pid_ok (snd p)) (mg_pids m) \<and>
     length (mg_pids m) \<le> 64"

definition manager_ok :: "'k manager \<Rightarrow> bool" where
  "manager_ok m \<longleftrightarrow>
     mg_adaptive m \<and> processes_ok m \<and> unat (mg_pending m) = total_events m \<and>
     mg_pending m \<le> mg_max_pending m \<and> distinct (mg_suppressed m) \<and> length (mg_suppressed m) \<le> 10000"

lemma goroutine_weight: "length (goroutine_events s goid) = weight_at length (ps_events s) goid"
  by (simp add: goroutine_events_def weight_at_def split: option.split)

lemma pid_weight: "map_of (mg_pids m) pid = Some s \<Longrightarrow> weight_at stored_events (mg_pids m) pid = stored_events s"
  by (simp add: weight_at_def)

lemma release_pending:
  assumes "unat (mg_pending m) = rest + n"
  shows "unat (mg_pending (release n m)) = rest"
proof -
  have "unat (mg_pending m) < 2 ^ 64" using unsigned_less [of "mg_pending m"] by simp
  then have "n < 2 ^ 64" using assms by simp
  then have n: "unat (of_nat n :: u64) = n" by (simp add: unat_of_nat take_bit_nat_eq_self)
  show ?thesis
    using assms n by (auto simp: release_def Let_def word_le_nat_alt unat_sub)
qed

lemma release_fields [simp]:
  "mg_adaptive (release n m) = mg_adaptive m" "mg_pids (release n m) = mg_pids m"
  "mg_max_pending (release n m) = mg_max_pending m" "mg_suppressed (release n m) = mg_suppressed m"
  "mg_aggregate (release n m) = mg_aggregate m" "mg_symbols (release n m) = mg_symbols m"
  "mg_uprobes (release n m) = mg_uprobes m" "mg_learned (release n m) = mg_learned m" "mg_seq (release n m) = mg_seq m"
  by (simp_all add: release_def Let_def)

lemma pid_in_table:
  assumes "processes_ok m" "map_of (mg_pids m) pid = Some s"
  shows "pid_ok s"
proof -
  have "(pid, s) \<in> set (mg_pids m)" using assms(2) by (rule map_of_SomeD)
  then show ?thesis using assms(1) by (auto simp: processes_ok_def list_all_iff)
qed

lemma put_table:
  assumes "processes_ok m" "map_of (mg_pids m) pid = Some s0" "pid_ok s"
  shows "processes_ok (put_pid_state pid s m)"
proof -
  have "pid \<in> fst ` set (mg_pids m)" using assms(2) by (metis domI dom_map_of_conv_image_fst)
  then show ?thesis
    using assms by (simp add: processes_ok_def put_pid_state_def distinct_update length_update list_all_alist_update)
qed

lemma put_total:
  assumes "map_of (mg_pids m) pid = Some s0"
  shows "total_events (put_pid_state pid s m) + stored_events s0 = total_events m + stored_events s"
  using weight_update [of stored_events pid s "mg_pids m"] pid_weight [OF assms]
  by (simp add: total_events_def put_pid_state_def)

lemma stored_le: "map_of (mg_pids m) pid = Some s \<Longrightarrow> stored_events s \<le> total_events m"
  using weight_at_le [of stored_events "mg_pids m" pid] by (simp add: total_events_def pid_weight)


lemma other_fields [simp]:
  "total_events (m\<lparr>mg_suppressed := xs\<rparr>) = total_events m" "processes_ok (m\<lparr>mg_suppressed := xs\<rparr>) = processes_ok m"
  "total_events (m\<lparr>mg_dropped_stacks := n\<rparr>) = total_events m" "processes_ok (m\<lparr>mg_dropped_stacks := n\<rparr>) = processes_ok m"
  "total_events (m\<lparr>mg_dropped_incomplete := n\<rparr>) = total_events m" "processes_ok (m\<lparr>mg_dropped_incomplete := n\<rparr>) = processes_ok m"
  "total_events (m\<lparr>mg_dropped_aborted := n\<rparr>) = total_events m" "processes_ok (m\<lparr>mg_dropped_aborted := n\<rparr>) = processes_ok m"
  "total_events (m\<lparr>mg_dropped_over_budget := n\<rparr>) = total_events m" "processes_ok (m\<lparr>mg_dropped_over_budget := n\<rparr>) = processes_ok m"
  "total_events (m\<lparr>mg_evicted_pids := n\<rparr>) = total_events m" "processes_ok (m\<lparr>mg_evicted_pids := n\<rparr>) = processes_ok m"
  "total_events (m\<lparr>mg_seq := n\<rparr>) = total_events m" "processes_ok (m\<lparr>mg_seq := n\<rparr>) = processes_ok m"
  "total_events (m\<lparr>mg_learned := k\<rparr>) = total_events m" "processes_ok (m\<lparr>mg_learned := k\<rparr>) = processes_ok m"
  "total_events (m\<lparr>mg_pending := p\<rparr>) = total_events m" "processes_ok (m\<lparr>mg_pending := p\<rparr>) = processes_ok m"
  "total_events (release k0 m) = total_events m" "processes_ok (release k0 m) = processes_ok m"
  by (simp_all add: total_events_def processes_ok_def)

lemma put_fields [simp]:
  "mg_adaptive (put_pid_state pid s m) = mg_adaptive m" "mg_pending (put_pid_state pid s m) = mg_pending m"
  "mg_max_pending (put_pid_state pid s m) = mg_max_pending m" "mg_suppressed (put_pid_state pid s m) = mg_suppressed m"
  "mg_aggregate (put_pid_state pid s m) = mg_aggregate m" "mg_symbols (put_pid_state pid s m) = mg_symbols m"
  "mg_uprobes (put_pid_state pid s m) = mg_uprobes m" "mg_learned (put_pid_state pid s m) = mg_learned m"
  "map_of (mg_pids (put_pid_state pid s m)) = (map_of (mg_pids m))(pid \<mapsto> s)"
  by (simp_all add: put_pid_state_def)

text \<open>Replacing the state of a process by one that stores as many events, or fewer that were released.\<close>

lemma put_ok:
  assumes "manager_ok m" "map_of (mg_pids m) pid = Some s0" "pid_ok s" "stored_events s = stored_events s0"
  shows "manager_ok (put_pid_state pid s m)"
  using assms put_table [of m pid s0 s] put_total [OF assms(2), of s] by (simp add: manager_ok_def)

lemma release_le: "mg_pending (release n m) \<le> mg_pending m"
  by (auto simp: release_def Let_def word_le_nat_alt unat_sub)

lemma put_release_ok:
  assumes "manager_ok m" "map_of (mg_pids m) pid = Some s0" "pid_ok s" "stored_events s + n = stored_events s0"
  shows "manager_ok (put_pid_state pid s (release n m))"
proof -
  have t: "total_events (put_pid_state pid s (release n m)) + n = total_events m"
    using put_total [of "release n m" pid s0 s] assms(2,4) by simp
  then have "unat (mg_pending (release n m)) = total_events (put_pid_state pid s (release n m))"
    using assms(1) by (intro release_pending) (simp add: manager_ok_def)
  moreover have "processes_ok (put_pid_state pid s (release n m))"
    using assms(1-3) by (intro put_table) (simp_all add: manager_ok_def)
  moreover have "mg_pending (release n m) \<le> mg_max_pending m"
    using release_le [of n m] assms(1) by (auto simp: manager_ok_def)
  ultimately show ?thesis using assms(1) by (simp add: manager_ok_def)
qed

lemma drop_stack_ok: "manager_ok m \<Longrightarrow> manager_ok (drop_stack pid goid m)"
proof (cases "map_of (mg_pids m) pid")
  case (Some s)
  assume m: "manager_ok m"
  let ?s = "s\<lparr>ps_events := AList.delete goid (ps_events s), ps_stack := (ps_stack s)(goid := None),
      ps_invalid := ps_invalid s - {goid}\<rparr>"
  have s: "pid_ok s" using pid_in_table [OF _ Some] m by (simp add: manager_ok_def)
  have "manager_ok (put_pid_state pid ?s (release (length (goroutine_events s goid)) m))"
  proof (rule put_release_ok [OF m Some])
    show "pid_ok ?s" using s by (simp add: pid_ok_def distinct_delete)
    show "stored_events ?s + length (goroutine_events s goid) = stored_events s"
      using weight_delete [of "ps_events s" length goid] s
      by (simp add: stored_weight goroutine_weight pid_ok_def)
  qed
  then show ?thesis using m Some by (simp add: drop_stack_def manager_ok_def)
qed (simp add: drop_stack_def)

lemma oldest_in_table:
  "oldest_pid ps best = Some p \<Longrightarrow> p \<in> set ps \<or> best = Some p"
  by (induction ps best rule: oldest_pid.induct) (auto split: option.splits prod.splits if_splits)

lemma oldest_exists: "ps \<noteq> [] \<Longrightarrow> oldest_pid ps best \<noteq> None"
proof -
  have "oldest_pid ps best \<noteq> None" if "best \<noteq> None" for ps best
    using that by (induction ps best rule: oldest_pid.induct) (auto split: option.splits)
  then show "ps \<noteq> [] \<Longrightarrow> ?thesis"
    by (cases ps) (auto split: option.splits prod.splits)
qed

lemma evict_ok:
  assumes "manager_ok m" "mg_pids m \<noteq> []"
  shows "manager_ok (evict_oldest m)" "length (mg_pids (evict_oldest m)) < length (mg_pids m)"
    "set (mg_pids (evict_oldest m)) \<subseteq> set (mg_pids m)"
proof -
  obtain pid s where o: "oldest_pid (mg_pids m) None = Some (pid, s)"
    using oldest_exists [OF assms(2), of None] by auto
  then have "(pid, s) \<in> set (mg_pids m)" using oldest_in_table by fastforce
  then have s: "map_of (mg_pids m) pid = Some s"
    using assms(1) by (simp add: manager_ok_def processes_ok_def)
  have d: "distinct (map fst (mg_pids m))" using assms(1) by (simp add: manager_ok_def processes_ok_def)
  let ?m = "release (stored_events s) m"
  have ev: "evict_oldest m = ?m\<lparr>mg_pids := AList.delete pid (mg_pids m),
      mg_suppressed := filter (\<lambda>key. fst key \<noteq> pid) (mg_suppressed m),
      mg_evicted_pids := mg_evicted_pids ?m + 1\<rparr>"
    by (simp add: evict_oldest_def o Let_def)
  have t: "weight stored_events (AList.delete pid (mg_pids m)) + stored_events s = total_events m"
    using weight_delete [OF d, of stored_events pid] pid_weight [OF s] by (simp add: total_events_def)
  then have "unat (mg_pending ?m) = weight stored_events (AList.delete pid (mg_pids m))"
    using assms(1) by (intro release_pending) (simp add: manager_ok_def)
  moreover have l: "Suc (length (AList.delete pid (mg_pids m))) = length (mg_pids m)"
    by (rule length_delete [OF d]) (use s in \<open>force dest: map_of_SomeD\<close>)
  moreover have "mg_pending ?m \<le> mg_max_pending m"
    using release_le [of "stored_events s" m] assms(1) by (auto simp: manager_ok_def)
  moreover have "length (filter (\<lambda>key. fst key \<noteq> pid) (mg_suppressed m)) \<le> 10000"
    using assms(1) by (auto simp: manager_ok_def intro: le_trans [OF length_filter_le])
  ultimately show "manager_ok (evict_oldest m)"
    using assms(1) d
    by (simp add: ev manager_ok_def processes_ok_def total_events_def distinct_delete list_all_alist_delete)
  show "length (mg_pids (evict_oldest m)) < length (mg_pids m)" using l by (simp add: ev)
  show "set (mg_pids (evict_oldest m)) \<subseteq> set (mg_pids m)" by (auto simp: ev AList.delete_eq)
qed


lemma seq_ok [simp]: "manager_ok (m\<lparr>mg_seq := n\<rparr>) = manager_ok m"
  by (simp add: manager_ok_def)

lemma counters_ok [simp]:
  "manager_ok (m\<lparr>mg_dropped_stacks := a\<rparr>) = manager_ok m" "manager_ok (m\<lparr>mg_dropped_incomplete := a\<rparr>) = manager_ok m"
  "manager_ok (m\<lparr>mg_dropped_aborted := a\<rparr>) = manager_ok m" "manager_ok (m\<lparr>mg_dropped_over_budget := a\<rparr>) = manager_ok m"
  "manager_ok (m\<lparr>mg_learned := k\<rparr>) = manager_ok m"
  by (simp_all add: manager_ok_def)

lemma new_pid_ok: "pid_ok (new_pid_state\<lparr>ps_last_seen := n\<rparr>)" "stored_events (new_pid_state\<lparr>ps_last_seen := n\<rparr>) = 0"
  by (simp_all add: pid_ok_def new_pid_state_def stored_events_def)

lemma insert_pid_ok:
  assumes "manager_ok m" "map_of (mg_pids m) pid = None" "length (mg_pids m) < 64" "pid_ok s" "stored_events s = 0"
  shows "manager_ok (put_pid_state pid s m)"
proof -
  have a: "pid \<notin> fst ` set (mg_pids m)" using assms(2) by (simp add: map_of_eq_None_iff)
  have "weight stored_events (AList.update pid s (mg_pids m)) = weight stored_events (mg_pids m)"
    using weight_update [of stored_events pid s "mg_pids m"] weight_absent [OF a, of stored_events] assms(5) by simp
  then show ?thesis
    using assms a
    by (simp add: manager_ok_def processes_ok_def total_events_def put_pid_state_def distinct_update length_update
        list_all_alist_update)
qed

lemma touch_ok:
  assumes "manager_ok m"
  shows "manager_ok (touch_pid pid m)" "\<exists>s. map_of (mg_pids (touch_pid pid m)) pid = Some s"
proof -
  let ?m = "m\<lparr>mg_seq := mg_seq m + 1\<rparr>"
  have "manager_ok (touch_pid pid m) \<and> (\<exists>s. map_of (mg_pids (touch_pid pid m)) pid = Some s)"
  proof (cases "map_of (mg_pids m) pid")
    case (Some s)
    then have t: "touch_pid pid m = put_pid_state pid (s\<lparr>ps_last_seen := mg_seq m + 1\<rparr>) ?m"
      by (simp add: touch_pid_def put_pid_state_def Let_def)
    have "pid_ok s" using pid_in_table [OF _ Some] assms by (simp add: manager_ok_def)
    then show ?thesis
      unfolding t using put_ok [of ?m pid s "s\<lparr>ps_last_seen := mg_seq m + 1\<rparr>"] assms Some
      by (simp add: pid_ok_def stored_events_def)
  next
    case None
    let ?n = "if mg_adaptive ?m \<and> length (mg_pids ?m) \<ge> maxAggregatePIDs then evict_oldest ?m else ?m"
    have n: "manager_ok ?n \<and> length (mg_pids ?n) < 64 \<and> map_of (mg_pids ?n) pid = None"
    proof (cases "length (mg_pids m) \<ge> 64")
      case False
      then show ?thesis using assms None by (simp add: maxAggregatePIDs_def)
    next
      case True
      then have "mg_pids ?m \<noteq> []" by auto
      note e = evict_ok [of ?m, OF _ this]
      have "length (mg_pids m) \<le> 64" using assms by (simp add: manager_ok_def processes_ok_def)
      then show ?thesis
        using e assms None True
        by (auto simp: maxAggregatePIDs_def manager_ok_def map_of_eq_None_iff)
    qed
    have t: "touch_pid pid m = put_pid_state pid (new_pid_state\<lparr>ps_last_seen := mg_seq ?n\<rparr>) ?n"
      using None by (simp add: touch_pid_def put_pid_state_def Let_def)
    show ?thesis
      unfolding t using n new_pid_ok by (simp add: insert_pid_ok)
  qed
  then show "manager_ok (touch_pid pid m)" "\<exists>s. map_of (mg_pids (touch_pid pid m)) pid = Some s"
    by simp_all
qed

lemma suppressed_ok:
  "manager_ok m \<Longrightarrow> distinct xs \<Longrightarrow> length xs \<le> 10000 \<Longrightarrow> manager_ok (m\<lparr>mg_suppressed := xs\<rparr>)"
  by (simp add: manager_ok_def)

lemma unsuppress_ok: "manager_ok m \<Longrightarrow> manager_ok (m\<lparr>mg_suppressed := removeAll k (mg_suppressed m)\<rparr>)"
proof (rule suppressed_ok)
  assume m: "manager_ok m"
  have "length (removeAll k (mg_suppressed m)) \<le> length (mg_suppressed m)" by (simp add: removeAll_filter_not_eq)
  moreover have "length (mg_suppressed m) \<le> 10000" using m by (simp add: manager_ok_def)
  ultimately show "length (removeAll k (mg_suppressed m)) \<le> 10000" by linarith
qed (simp_all add: manager_ok_def distinct_removeAll)

lemma drop_stack_fields [simp]: "mg_suppressed (drop_stack pid goid m) = mg_suppressed m"
  "mg_adaptive (drop_stack pid goid m) = mg_adaptive m" "mg_max_pending (drop_stack pid goid m) = mg_max_pending m"
  "mg_symbols (drop_stack pid goid m) = mg_symbols m" "mg_uprobes (drop_stack pid goid m) = mg_uprobes m"
  "mg_aggregate (drop_stack pid goid m) = mg_aggregate m"
  by (simp_all add: drop_stack_def split: option.split)

lemma reset_stale_ok: "manager_ok m \<Longrightarrow> manager_ok (reset_stale_sample e m)"
  using drop_stack_ok [of m] by (simp add: reset_stale_sample_def split: option.split)

lemma reset_stale_fields [simp]: "mg_adaptive (reset_stale_sample e m) = mg_adaptive m"
  by (simp add: reset_stale_sample_def split: option.split)

lemma admit_ok:
  assumes "manager_ok m" "admit_event e m = (ok, m')"
  shows "manager_ok m'" "ok \<Longrightarrow> mg_pending m' < mg_max_pending m'"
proof -
  let ?k = "(ev_pid e, ev_goid e)"
  let ?m = "reset_stale_sample e m"
  let ?n = "if ?k \<in> set (mg_suppressed ?m) then ?m\<lparr>mg_suppressed := removeAll ?k (mg_suppressed ?m)\<rparr> else ?m"
  have a: "mg_adaptive m" using assms(1) by (simp add: manager_ok_def)
  have m: "manager_ok ?m" by (rule reset_stale_ok [OF assms(1)])
  have n: "manager_ok ?n" using m unsuppress_ok [OF m] by simp
  have d: "manager_ok (drop_stack (ev_pid e) (ev_goid e) ?n)" by (rule drop_stack_ok [OF n])
  have ins: "manager_ok (x\<lparr>mg_suppressed := List.insert ?k (if length (mg_suppressed x) \<ge> maxAggregateSuppressed then [] else mg_suppressed x)\<rparr>)"
    if "manager_ok x" for x :: "'a manager"
    using that by (intro suppressed_ok) (auto simp: manager_ok_def maxAggregateSuppressed_def List.insert_def)
  show "manager_ok m'" "ok \<Longrightarrow> mg_pending m' < mg_max_pending m'"
    using assms(2) a m n d ins [OF d] unsuppress_ok [OF m, of ?k]
    by (auto simp: admit_event_def Let_def not_le split: if_splits)
qed


lemma touch_fields [simp]:
  "mg_adaptive (touch_pid pid m) = mg_adaptive m" "mg_max_pending (touch_pid pid m) = mg_max_pending m"
  "mg_symbols (touch_pid pid m) = mg_symbols m" "mg_uprobes (touch_pid pid m) = mg_uprobes m"
  "mg_aggregate (touch_pid pid m) = mg_aggregate m" "mg_learned (touch_pid pid m) = mg_learned m"
  by (simp_all add: touch_pid_def Let_def evict_oldest_def split: option.split prod.split)

lemma touch_pending: "mg_pending (touch_pid pid m) \<le> mg_pending m"
proof -
  have "mg_pending (release n (m\<lparr>mg_seq := x\<rparr>)) \<le> mg_pending m" for n x
    using release_le [of n "m\<lparr>mg_seq := x\<rparr>"] by simp
  then show ?thesis
    by (simp add: touch_pid_def Let_def evict_oldest_def split: option.split prod.split)
qed

lemma observed_stack_events [simp]:
  "ps_events (update_observed_stack a e u s) = ps_events s" "ps_agg (update_observed_stack a e u s) = ps_agg s"
  by (simp_all add: update_observed_stack_def Let_def)

lemma events_update:
  assumes "pid_ok s"
  shows "pid_ok (s\<lparr>ps_events := AList.update goid es (ps_events s)\<rparr>)"
    "stored_events (s\<lparr>ps_events := AList.update goid es (ps_events s)\<rparr>) + length (goroutine_events s goid) =
       stored_events s + length es"
  using assms weight_update [of length goid es "ps_events s"]
  by (simp_all add: pid_ok_def distinct_update stored_weight goroutine_weight)

lemma pid_state_of_Some: "map_of (mg_pids m) pid = Some s \<Longrightarrow> pid_state_of pid m = s"
  by (simp add: pid_state_of_def)

lemma pending_step_ok:
  assumes "manager_ok m" "mg_pending m < mg_max_pending m" "map_of (mg_pids m) pid = Some s0"
    and "pid_ok s" "stored_events s = Suc (stored_events s0)"
  shows "manager_ok (put_pid_state pid s (m\<lparr>mg_pending := mg_pending m + 1\<rparr>))"
proof -
  have "unat (mg_max_pending m) < 2 ^ 64" using unsigned_less [of "mg_max_pending m"] by simp
  then have u: "unat (mg_pending m + 1) = Suc (unat (mg_pending m))"
    using assms(2) by (simp add: word_less_nat_alt unat_word_ariths)
  have "total_events (put_pid_state pid s (m\<lparr>mg_pending := mg_pending m + 1\<rparr>)) = Suc (total_events m)"
    using put_total [of "m\<lparr>mg_pending := mg_pending m + 1\<rparr>" pid s0 s] assms(3,5) by simp
  moreover have "processes_ok (put_pid_state pid s (m\<lparr>mg_pending := mg_pending m + 1\<rparr>))"
    using assms(1,3,4) by (intro put_table) (simp_all add: manager_ok_def)
  ultimately show ?thesis
    using assms(1,2) u by (simp add: manager_ok_def word_le_nat_alt word_less_nat_alt)
qed

lemma store_event_ok:
  assumes "manager_ok m" "mg_pending m < mg_max_pending m" "map_of (mg_pids m) (ev_pid e) = Some s"
  shows "manager_ok (store_event sv u e m)"
proof -
  let ?es = "goroutine_events s (ev_goid e) @ [\<lparr>me_event = e, me_uprobe = u, me_args = sv_render sv (mg_learned m) u e\<rparr>]"
  let ?s = "update_observed_stack (mg_aggregate m) e u (s\<lparr>ps_events := AList.update (ev_goid e) ?es (ps_events s)\<rparr>)"
  have s: "pid_ok s" using pid_in_table [OF _ assms(3)] assms(1) by (simp add: manager_ok_def)
  have a: "mg_adaptive m" using assms(1) by (simp add: manager_ok_def)
  let ?m = "m\<lparr>mg_learned := sv_learn sv u e (mg_learned m)\<rparr>"
  have "manager_ok (put_pid_state (ev_pid e) ?s (?m\<lparr>mg_pending := mg_pending ?m + 1\<rparr>))"
  proof (rule pending_step_ok)
    show "pid_ok ?s" "stored_events ?s = Suc (stored_events s)"
      using events_update [OF s, of "ev_goid e" ?es] by (simp_all add: pid_ok_def stored_events_def)
  qed (use assms in simp_all)
  then show ?thesis by (simp add: store_event_def Let_def pid_state_of_Some [OF assms(3)] a)
qed

lemma add_ok:
  assumes "manager_ok m" "add_event sv e m = (ok, m')"
  shows "manager_ok m'"
proof -
  obtain a m1 where ad: "admit_event e m = (a, m1)" by (cases "admit_event e m")
  note m1 = admit_ok [OF assms(1) ad]
  show ?thesis
  proof (cases "a \<and> get_uprobe m1 e \<noteq> None")
    case False
    then show ?thesis using assms(2) m1 by (auto simp: add_event_def ad split: option.splits)
  next
    case True
    then obtain u where u: "get_uprobe m1 e = Some u" by auto
    let ?m2 = "touch_pid (ev_pid e) m1"
    obtain s where s: "map_of (mg_pids ?m2) (ev_pid e) = Some s" using touch_ok(2) [OF m1(1)] by blast
    have m2: "manager_ok ?m2" by (rule touch_ok(1) [OF m1(1)])
    have p: "pid_ok s" using pid_in_table [OF _ s] m2 by (simp add: manager_ok_def)
    have lt: "mg_pending ?m2 < mg_max_pending ?m2"
      using touch_pending [of "ev_pid e" m1] m1(2) True by auto
    let ?es = "goroutine_events s (ev_goid e)"
    let ?es' = "butlast ?es @ [(last ?es)\<lparr>me_event := e\<rparr>]"
    have rep: "manager_ok (put_pid_state (ev_pid e)
        (s\<lparr>ps_events := AList.update (ev_goid e) ?es' (ps_events s)\<rparr>) ?m2)" if "?es \<noteq> []"
    proof (rule put_ok [OF m2 s])
      show "pid_ok (s\<lparr>ps_events := AList.update (ev_goid e) ?es' (ps_events s)\<rparr>)"
        by (rule events_update(1) [OF p])
      show "stored_events (s\<lparr>ps_events := AList.update (ev_goid e) ?es' (ps_events s)\<rparr>) = stored_events s"
        using events_update(2) [OF p, of "ev_goid e" ?es'] that by simp
    qed
    show ?thesis
      using assms(2) True u m2 rep store_event_ok [OF m2 lt s, of sv u]
      by (auto simp: add_event_def ad Let_def pid_state_of_Some [OF s] is_repeated_entry_def split: if_splits)
  qed
qed

lemma aggregate_stack_ok: "manager_ok m \<Longrightarrow> manager_ok (aggregate_stack pid goid m)"
proof -
  assume m: "manager_ok m"
  let ?m = "touch_pid pid m"
  obtain s where s: "map_of (mg_pids ?m) pid = Some s" using touch_ok(2) [OF m] by blast
  have "pid_ok s" using pid_in_table [OF _ s] touch_ok(1) [OF m, of pid] by (simp add: manager_ok_def)
  then show ?thesis
    using put_ok [OF touch_ok(1) [OF m] s]
    by (simp add: aggregate_stack_def Let_def pid_state_of_Some [OF s] pid_ok_def stored_events_def)
qed

lemma finish_ok: "manager_ok m \<Longrightarrow> manager_ok (snd (finish_stack e m))"
  by (auto simp: finish_stack_def Let_def touch_ok aggregate_stack_ok print_stack_def split: sum.split)

lemma handle_ok: "manager_ok m \<Longrightarrow> manager_ok (snd (handle sv e m))"
proof -
  assume m: "manager_ok m"
  obtain added m1 where ad: "add_event sv e m = (added, m1)" by (cases "add_event sv e m")
  have m1: "manager_ok m1" by (rule add_ok [OF m ad])
  obtain fin m2 where cl: "close_stack e m1 = (fin, m2)" by (cases "close_stack e m1")
  have m2: "manager_ok m2"
    using cl touch_ok(1) [OF m1, of "ev_pid e"] by (auto simp: close_stack_def Let_def split: if_splits)
  have fin: "manager_ok (drop_stack (ev_pid e) (ev_goid e) (snd (finish_stack e m2)))"
    by (rule drop_stack_ok [OF finish_ok [OF m2]])
  have u: "manager_ok (drop_stack (ev_pid e) (ev_goid e)
      (m\<lparr>mg_suppressed := removeAll (ev_pid e, ev_goid e) (mg_suppressed m)\<rparr>))"
    by (rule drop_stack_ok [OF unsuppress_ok [OF m]])
  show ?thesis
    using u m1 m2 fin by (auto simp: handle_def ad cl Let_def split: prod.split)
qed

interpretation budget: invariant_machine "\<lambda>e m. snd (handle sv e m)" "\<lambda>e. True" manager_ok for sv
  by unfold_locales (rule handle_ok)

lemma new_manager_ok: "manager_ok (new_manager ups symbols drilldown aggregate True limit k)"
  by (simp add: manager_ok_def new_manager_def processes_ok_def total_events_def Let_def)

text \<open>What no event changes.\<close>

lemma reset_stale_static [simp]:
  "mg_max_pending (reset_stale_sample e m) = mg_max_pending m" "mg_symbols (reset_stale_sample e m) = mg_symbols m"
  "mg_uprobes (reset_stale_sample e m) = mg_uprobes m" "mg_aggregate (reset_stale_sample e m) = mg_aggregate m"
  by (simp_all add: reset_stale_sample_def split: option.split)

lemma admit_static:
  "admit_event e m = (ok, m') \<Longrightarrow> mg_max_pending m' = mg_max_pending m \<and> mg_symbols m' = mg_symbols m \<and>
     mg_uprobes m' = mg_uprobes m \<and> mg_aggregate m' = mg_aggregate m \<and> mg_adaptive m' = mg_adaptive m"
  by (auto simp: admit_event_def Let_def split: if_splits)

lemma store_static:
  "mg_max_pending (store_event sv u e m) = mg_max_pending m" "mg_symbols (store_event sv u e m) = mg_symbols m"
  "mg_uprobes (store_event sv u e m) = mg_uprobes m" "mg_aggregate (store_event sv u e m) = mg_aggregate m"
  "mg_adaptive (store_event sv u e m) = mg_adaptive m"
  by (simp_all add: store_event_def Let_def)

lemma add_static:
  "add_event sv e m = (ok, m') \<Longrightarrow> mg_max_pending m' = mg_max_pending m \<and> mg_symbols m' = mg_symbols m \<and>
     mg_uprobes m' = mg_uprobes m \<and> mg_aggregate m' = mg_aggregate m \<and> mg_adaptive m' = mg_adaptive m"
  by (cases "admit_event e m")
    (auto simp: add_event_def Let_def store_static dest!: admit_static split: if_splits option.splits)

lemma finish_static:
  "mg_max_pending (snd (finish_stack e m)) = mg_max_pending m" "mg_symbols (snd (finish_stack e m)) = mg_symbols m"
  "mg_uprobes (snd (finish_stack e m)) = mg_uprobes m" "mg_aggregate (snd (finish_stack e m)) = mg_aggregate m"
  "mg_adaptive (snd (finish_stack e m)) = mg_adaptive m"
  by (simp_all add: finish_stack_def Let_def aggregate_stack_def print_stack_def split: sum.split)

lemma handle_max: "mg_max_pending (snd (handle sv e m)) = mg_max_pending m"
proof -
  obtain added m1 where ad: "add_event sv e m = (added, m1)" by (cases "add_event sv e m")
  obtain fin m2 where cl: "close_stack e m1 = (fin, m2)" by (cases "close_stack e m1")
  have "mg_max_pending m2 = mg_max_pending m1"
    using cl by (auto simp: close_stack_def Let_def split: if_splits)
  then show ?thesis
    using add_static [OF ad] by (simp add: handle_def ad cl Let_def finish_static split: prod.split)
      (metis finish_static(1) snd_conv)
qed

lemma run_max: "mg_max_pending (fold (\<lambda>e m. snd (handle sv e m)) es m) = mg_max_pending m"
  by (induction es arbitrary: m) (simp_all add: handle_max)

text \<open>C12: The consumer's memory is bounded under adaptive sampling, for any sequence of events: the
  pending counter is exactly the number of events stored, which never exceeds a 1/8192 of the
  memory limit (or one event), there are never more than 64 processes and 10000 suppressed
  goroutines, and every goroutine and process is stored once. Aborts, stale samples, evicted
  processes, repeated entries and events over the budget are all accounted for.\<close>

theorem manager_bounded:
  fixes sv :: "'k services" and es ups symbols drilldown aggregate limit k
  defines "m \<equiv> fold (\<lambda>e m. snd (handle sv e m)) es (new_manager ups symbols drilldown aggregate True limit k)"
  shows "unat (mg_pending m) = total_events m \<and>
    total_events m \<le> max 1 (unat limit div 8192) \<and>
    length (mg_pids m) \<le> 64 \<and> length (mg_suppressed m) \<le> 10000 \<and>
    distinct (map fst (mg_pids m)) \<and> distinct (mg_suppressed m)"
proof -
  have ok: "manager_ok m"
    unfolding m_def by (rule budget.inv_run [OF _ new_manager_ok]) (simp add: list_all_iff)
  have "unat limit div 4 div 2048 = unat limit div 8192" by (simp add: div_mult2_eq [symmetric])
  then have "unat (mg_max_pending m) \<le> max 1 (unat limit div 8192)"
    unfolding m_def run_max
    by (simp add: new_manager_def Let_def unat_div aggEventBudgetDiv_def estimatedEventBytes_def)
  then show ?thesis
    using ok by (auto simp: manager_ok_def processes_ok_def word_le_nat_alt)
qed

end
