(* ===== verification/Ftrace_View.thy ===== *)
theory Ftrace_View
  imports Ftrace_Budget
begin

text \<open>
  The event manager as one goroutine sees it: the events, stack and validity stored for it and
  the statistics of its process. Events of other goroutines leave this view alone; the
  goroutine's own events change it as \<open>observe\<close> says.
\<close>

section \<open>The view of a goroutine\<close>

definition goroutine_view :: "'k manager \<Rightarrow> u32 \<times> u64 \<Rightarrow> mgr_event list \<times> u64 list \<times> bool" where
  "goroutine_view m k =
     (let s = pid_state_of (fst k) m
      in (goroutine_events s (snd k), goroutine_stack s (snd k), snd k \<in> ps_invalid s))"

definition agg_of :: "'k manager \<Rightarrow> u32 \<Rightarrow> string \<rightharpoonup> func_agg" where
  "agg_of m pid = ps_agg (pid_state_of pid m)"

definition pid_keys :: "'k manager \<Rightarrow> u32 set" where
  "pid_keys m = fst ` set (mg_pids m)"

definition has_room :: "'k manager \<Rightarrow> u32 \<Rightarrow> bool" where
  "has_room m pid \<longleftrightarrow> distinct (map fst (mg_pids m)) \<and> card (insert pid (pid_keys m)) \<le> 64"

definition forget :: "u64 \<Rightarrow> pid_state \<Rightarrow> pid_state" where
  "forget goid s =
     s\<lparr>ps_events := AList.delete goid (ps_events s), ps_stack := (ps_stack s)(goid := None),
       ps_invalid := ps_invalid s - {goid}\<rparr>"

lemma pid_state_put [simp]:
  "pid_state_of p (put_pid_state q s m) = (if p = q then s else pid_state_of p m)"
  by (simp add: pid_state_of_def)

lemma pid_state_fields [simp]:
  "pid_state_of p (m\<lparr>mg_suppressed := x1\<rparr>) = pid_state_of p m" "pid_state_of p (m\<lparr>mg_dropped_stacks := x2\<rparr>) = pid_state_of p m"
  "pid_state_of p (m\<lparr>mg_dropped_incomplete := x3\<rparr>) = pid_state_of p m" "pid_state_of p (m\<lparr>mg_dropped_aborted := x4\<rparr>) = pid_state_of p m"
  "pid_state_of p (m\<lparr>mg_dropped_over_budget := x5\<rparr>) = pid_state_of p m" "pid_state_of p (m\<lparr>mg_learned := x6\<rparr>) = pid_state_of p m"
  "pid_state_of p (m\<lparr>mg_pending := x7\<rparr>) = pid_state_of p m" "pid_state_of p (m\<lparr>mg_seq := x8\<rparr>) = pid_state_of p m"
  "pid_state_of p (release n m) = pid_state_of p m"
  by (simp_all add: pid_state_of_def)

lemma pid_keys_fields [simp]:
  "pid_keys (m\<lparr>mg_suppressed := x1\<rparr>) = pid_keys m" "pid_keys (m\<lparr>mg_dropped_stacks := x2\<rparr>) = pid_keys m"
  "pid_keys (m\<lparr>mg_dropped_incomplete := x3\<rparr>) = pid_keys m" "pid_keys (m\<lparr>mg_dropped_aborted := x4\<rparr>) = pid_keys m"
  "pid_keys (m\<lparr>mg_dropped_over_budget := x5\<rparr>) = pid_keys m" "pid_keys (m\<lparr>mg_learned := x6\<rparr>) = pid_keys m"
  "pid_keys (m\<lparr>mg_pending := x7\<rparr>) = pid_keys m" "pid_keys (m\<lparr>mg_seq := x8\<rparr>) = pid_keys m"
  "pid_keys (release n m) = pid_keys m" "pid_keys (put_pid_state q s m) = insert q (pid_keys m)"
  by (simp_all add: pid_keys_def put_pid_state_def dom_update)

lemma absent_pid: "pid \<notin> pid_keys m \<longleftrightarrow> map_of (mg_pids m) pid = None"
  by (simp add: pid_keys_def map_of_eq_None_iff)

lemma forget_new [simp]: "forget goid new_pid_state = new_pid_state"
  by (simp add: forget_def new_pid_state_def)

lemma pid_state_drop [simp]:
  "pid_state_of p (drop_stack q goid m) = (if p = q then forget goid (pid_state_of p m) else pid_state_of p m)"
proof (cases "map_of (mg_pids m) q")
  case None
  then show ?thesis by (simp add: drop_stack_def) (simp add: pid_state_of_def)
next
  case (Some s)
  then show ?thesis by (simp add: drop_stack_def forget_def pid_state_of_Some)
qed

lemma drop_keys [simp]: "pid_keys (drop_stack q goid m) = pid_keys m"
  using absent_pid [of q m] by (auto simp: drop_stack_def split: option.split)

lemma forget_fields [simp]:
  "goroutine_events (forget goid s) g = (if g = goid then [] else goroutine_events s g)"
  "goroutine_stack (forget goid s) g = (if g = goid then [] else goroutine_stack s g)"
  "g \<in> ps_invalid (forget goid s) \<longleftrightarrow> g \<noteq> goid \<and> g \<in> ps_invalid s"
  "ps_agg (forget goid s) = ps_agg s"
  by (auto simp: forget_def goroutine_events_def goroutine_stack_def AList.delete_conv')

lemma view_drop [simp]:
  "goroutine_view (drop_stack (fst k) (snd k) m) k = ([], [], False)"
  "k \<noteq> (pid, goid) \<Longrightarrow> goroutine_view (drop_stack pid goid m) k = goroutine_view m k"
  "agg_of (drop_stack pid goid m) p = agg_of m p"
  by (cases k; auto simp: goroutine_view_def agg_of_def Let_def)+

text \<open>Looking up a process only marks when it was last seen, unless the table is full.\<close>

lemma touch_room:
  assumes "has_room m pid"
  shows "\<exists>n. pid_state_of p (touch_pid pid m) = pid_state_of p m\<lparr>ps_last_seen := n\<rparr>"
    and "pid_keys (touch_pid pid m) = insert pid (pid_keys m)"
    and "mg_suppressed (touch_pid pid m) = mg_suppressed m"
    and "mg_pending (touch_pid pid m) = mg_pending m"
proof -
  have t: "touch_pid pid m = put_pid_state pid (pid_state_of pid m\<lparr>ps_last_seen := mg_seq m + 1\<rparr>) (m\<lparr>mg_seq := mg_seq m + 1\<rparr>)"
  proof (cases "map_of (mg_pids m) pid")
    case None
    then have "card (insert pid (pid_keys m)) = Suc (card (pid_keys m))"
      using absent_pid [of pid m] by (simp add: pid_keys_def)
    moreover have "card (pid_keys m) = length (mg_pids m)" if "distinct (map fst (mg_pids m))"
      using distinct_card [OF that] by (simp add: pid_keys_def)
    ultimately have "length (mg_pids m) < 64" using assms by (simp add: has_room_def)
    then show ?thesis
      using None by (simp add: touch_pid_def put_pid_state_def pid_state_of_def Let_def maxAggregatePIDs_def)
  qed (simp add: touch_pid_def put_pid_state_def pid_state_of_def Let_def)
  show "\<exists>n. pid_state_of p (touch_pid pid m) = pid_state_of p m\<lparr>ps_last_seen := n\<rparr>"
  proof (cases "p = pid")
    case False
    then have "pid_state_of p (touch_pid pid m) = pid_state_of p m\<lparr>ps_last_seen := ps_last_seen (pid_state_of p m)\<rparr>"
      by (simp add: t)
    then show ?thesis by blast
  qed (auto simp: t)
  show "pid_keys (touch_pid pid m) = insert pid (pid_keys m)"
    and "mg_suppressed (touch_pid pid m) = mg_suppressed m"
    and "mg_pending (touch_pid pid m) = mg_pending m"
    by (simp_all add: t)
qed

lemma seen_fields [simp]:
  "goroutine_events (s\<lparr>ps_last_seen := n\<rparr>) g = goroutine_events s g"
  "goroutine_stack (s\<lparr>ps_last_seen := n\<rparr>) g = goroutine_stack s g"
  by (simp_all add: goroutine_events_def goroutine_stack_def)

lemma view_touch [simp]:
  assumes "has_room m pid"
  shows "goroutine_view (touch_pid pid m) k = goroutine_view m k"
    and "agg_of (touch_pid pid m) p = agg_of m p"
    and "goroutine_events (pid_state_of p (touch_pid pid m)) g = goroutine_events (pid_state_of p m) g"
    and "goroutine_stack (pid_state_of p (touch_pid pid m)) g = goroutine_stack (pid_state_of p m) g"
    and "ps_invalid (pid_state_of p (touch_pid pid m)) = ps_invalid (pid_state_of p m)"
    and "ps_agg (pid_state_of p (touch_pid pid m)) = ps_agg (pid_state_of p m)"
proof -
  have *: "goroutine_events (pid_state_of p (touch_pid pid m)) g = goroutine_events (pid_state_of p m) g \<and>
    goroutine_stack (pid_state_of p (touch_pid pid m)) g = goroutine_stack (pid_state_of p m) g \<and>
    ps_invalid (pid_state_of p (touch_pid pid m)) = ps_invalid (pid_state_of p m) \<and>
    ps_agg (pid_state_of p (touch_pid pid m)) = ps_agg (pid_state_of p m)" for p g
    using touch_room(1) [OF assms, of p] by auto
  then show "goroutine_view (touch_pid pid m) k = goroutine_view m k"
    and "agg_of (touch_pid pid m) p = agg_of m p"
    and "goroutine_events (pid_state_of p (touch_pid pid m)) g = goroutine_events (pid_state_of p m) g"
    and "goroutine_stack (pid_state_of p (touch_pid pid m)) g = goroutine_stack (pid_state_of p m) g"
    and "ps_invalid (pid_state_of p (touch_pid pid m)) = ps_invalid (pid_state_of p m)"
    and "ps_agg (pid_state_of p (touch_pid pid m)) = ps_agg (pid_state_of p m)"
    by (simp_all add: goroutine_view_def agg_of_def Let_def)
qed

lemma ok_room: "manager_ok m \<Longrightarrow> has_room m pid = (card (insert pid (pid_keys m)) \<le> 64)"
  by (simp add: has_room_def manager_ok_def processes_ok_def)

lemma touch_has_room: "manager_ok m \<Longrightarrow> has_room m pid \<Longrightarrow> has_room (touch_pid pid m) pid"
  by (simp add: ok_room touch_ok touch_room(2))

section \<open>Admission\<close>

definition sample_key :: "event \<Rightarrow> u32 \<times> u64" where
  "sample_key e = (ev_pid e, ev_goid e)"

text \<open>What an operation leaves of the goroutine \<open>k\<close> when its event is of another one.\<close>

definition keeps :: "u32 \<times> u64 \<Rightarrow> 'k manager \<Rightarrow> 'k manager \<Rightarrow> bool" where
  "keeps k m m' \<longleftrightarrow>
     goroutine_view m' k = goroutine_view m k \<and>
     (\<exists>xs. agg_of m' (fst k) = fold record_agg xs (agg_of m (fst k))) \<and>
     (k \<notin> set (mg_suppressed m) \<longrightarrow> k \<notin> set (mg_suppressed m'))"

lemma keeps_trans: "keeps k m m' \<Longrightarrow> keeps k m' m'' \<Longrightarrow> keeps k m m''"
  unfolding keeps_def by (metis fold_append comp_apply)

lemma keepsI:
  "goroutine_view m' k = goroutine_view m k \<Longrightarrow> agg_of m' (fst k) = agg_of m (fst k) \<Longrightarrow>
     (k \<notin> set (mg_suppressed m) \<Longrightarrow> k \<notin> set (mg_suppressed m')) \<Longrightarrow> keeps k m m'"
  unfolding keeps_def by (metis fold_simps(1))

lemma keeps_refl [simp]: "keeps k m m"
  by (rule keepsI) simp_all

lemma view_fields [simp]:
  "goroutine_view (m\<lparr>mg_suppressed := x1\<rparr>) k = goroutine_view m k" "goroutine_view (m\<lparr>mg_dropped_stacks := x2\<rparr>) k = goroutine_view m k"
  "goroutine_view (m\<lparr>mg_dropped_incomplete := x3\<rparr>) k = goroutine_view m k" "goroutine_view (m\<lparr>mg_dropped_aborted := x4\<rparr>) k = goroutine_view m k"
  "goroutine_view (m\<lparr>mg_dropped_over_budget := x5\<rparr>) k = goroutine_view m k" "goroutine_view (m\<lparr>mg_learned := x6\<rparr>) k = goroutine_view m k"
  "goroutine_view (m\<lparr>mg_pending := x7\<rparr>) k = goroutine_view m k"
  "agg_of (m\<lparr>mg_suppressed := x1\<rparr>) p = agg_of m p" "agg_of (m\<lparr>mg_dropped_stacks := x2\<rparr>) p = agg_of m p"
  "agg_of (m\<lparr>mg_dropped_incomplete := x3\<rparr>) p = agg_of m p" "agg_of (m\<lparr>mg_dropped_aborted := x4\<rparr>) p = agg_of m p"
  "agg_of (m\<lparr>mg_dropped_over_budget := x5\<rparr>) p = agg_of m p" "agg_of (m\<lparr>mg_learned := x6\<rparr>) p = agg_of m p"
  "agg_of (m\<lparr>mg_pending := x7\<rparr>) p = agg_of m p"
  by (simp_all add: goroutine_view_def agg_of_def)

lemma stale_suppressed [simp]: "mg_suppressed (reset_stale_sample e m) = mg_suppressed m"
  by (simp add: reset_stale_sample_def split: option.split)

lemma stale_keys [simp]: "pid_keys (reset_stale_sample e m) = pid_keys m"
  by (simp add: reset_stale_sample_def split: option.split)

lemma stale_keeps: "sample_key e \<noteq> k \<Longrightarrow> keeps k m (reset_stale_sample e m)"
  by (rule keepsI) (auto simp: reset_stale_sample_def sample_key_def split: option.split)

lemma admit_keeps:
  assumes "sample_key e \<noteq> k" "mg_adaptive m" "admit_event e m = (ok, m')"
  shows "keeps k m m'"
proof -
  have "k \<noteq> (ev_pid e, ev_goid e)" using assms(1) by (auto simp: sample_key_def)
  then have "keeps k (reset_stale_sample e m) m'"
    using assms(2,3) by (intro keepsI) (auto simp: admit_event_def Let_def split: if_splits)
  then show ?thesis by (rule keeps_trans [OF stale_keeps [OF assms(1)]])
qed

lemma admit_keys: "admit_event e m = (ok, m') \<Longrightarrow> pid_keys m' = pid_keys m"
  by (auto simp: admit_event_def Let_def split: if_splits)


section \<open>Events of other goroutines\<close>

lemma put_keeps:
  assumes "k \<noteq> (pid, goid)"
    and "\<And>g. g \<noteq> goid \<Longrightarrow> goroutine_events s g = goroutine_events (pid_state_of pid m) g"
    and "\<And>g. g \<noteq> goid \<Longrightarrow> goroutine_stack s g = goroutine_stack (pid_state_of pid m) g"
    and "\<And>g. g \<noteq> goid \<Longrightarrow> g \<in> ps_invalid s \<longleftrightarrow> g \<in> ps_invalid (pid_state_of pid m)"
    and "ps_agg s = ps_agg (pid_state_of pid m)"
  shows "keeps k m (put_pid_state pid s m)"
  using assms by (intro keepsI) (cases k; auto simp: goroutine_view_def agg_of_def Let_def)+

lemma events_update_other [simp]:
  "g \<noteq> goid \<Longrightarrow> goroutine_events (s\<lparr>ps_events := AList.update goid es (ps_events s)\<rparr>) g = goroutine_events s g"
  by (simp add: goroutine_events_def)

lemma stack_of_events [simp]: "goroutine_stack (s\<lparr>ps_events := al\<rparr>) g = goroutine_stack s g"
  by (simp add: goroutine_stack_def)

lemma observed_other:
  "g \<noteq> ev_goid e \<Longrightarrow> goroutine_stack (update_observed_stack a e u s) g = goroutine_stack s g"
  "g \<noteq> ev_goid e \<Longrightarrow> g \<in> ps_invalid (update_observed_stack a e u s) \<longleftrightarrow> g \<in> ps_invalid s"
  by (simp_all add: update_observed_stack_def goroutine_stack_def Let_def)

lemma observed_events [simp]: "goroutine_events (update_observed_stack a e u s) g = goroutine_events s g"
  by (simp add: goroutine_events_def)

lemma store_keeps:
  assumes "sample_key e \<noteq> k"
  shows "keeps k m (store_event sv u e m)"
proof -
  let ?m = "m\<lparr>mg_learned := sv_learn sv u e (mg_learned m)\<rparr>"
  let ?n = "if mg_adaptive ?m then ?m\<lparr>mg_pending := mg_pending ?m + 1\<rparr> else ?m"
  let ?es = "goroutine_events (pid_state_of (ev_pid e) m) (ev_goid e) @
    [\<lparr>me_event = e, me_uprobe = u, me_args = sv_render sv (mg_learned m) u e\<rparr>]"
  let ?s = "pid_state_of (ev_pid e) m"
  let ?t = "update_observed_stack (mg_aggregate ?n) e u (?s\<lparr>ps_events := AList.update (ev_goid e) ?es (ps_events ?s)\<rparr>)"
  have n: "keeps k m ?n" by (rule keepsI) simp_all
  have "keeps k ?n (put_pid_state (ev_pid e) ?t ?n)"
  proof (rule put_keeps)
    show "k \<noteq> (ev_pid e, ev_goid e)" using assms by (auto simp: sample_key_def)
  qed (simp_all add: observed_other)
  then show ?thesis using keeps_trans [OF n] by (simp add: store_event_def Let_def cong: if_cong)
qed

lemma touch_keeps: "has_room m pid \<Longrightarrow> keeps k m (touch_pid pid m)"
  by (rule keepsI) (simp_all add: touch_room)

lemma admit_room:
  assumes "manager_ok m" "has_room m pid" "admit_event e m = (ok, m')"
  shows "has_room m' pid"
  using assms admit_ok(1) [OF assms(1,3)] by (simp add: ok_room admit_keys [OF assms(3)])

lemma add_keeps:
  assumes "sample_key e \<noteq> k" "manager_ok m" "has_room m (ev_pid e)" "add_event sv e m = (ok, m')"
  shows "keeps k m m'"
proof -
  obtain a m1 where ad: "admit_event e m = (a, m1)" by (cases "admit_event e m")
  have ok: "manager_ok m1" by (rule admit_ok(1) [OF assms(2) ad])
  have room: "has_room m1 (ev_pid e)" by (rule admit_room [OF assms(2,3) ad])
  have k1: "keeps k m m1" using admit_keeps [OF assms(1) _ ad] assms(2) by (simp add: manager_ok_def)
  let ?m = "touch_pid (ev_pid e) m1"
  have k2: "keeps k m ?m" by (rule keeps_trans [OF k1 touch_keeps [OF room]])
  have rep: "keeps k m (put_pid_state (ev_pid e) (s\<lparr>ps_events := AList.update (ev_goid e) es (ps_events s)\<rparr>) ?m)"
    if "s = pid_state_of (ev_pid e) ?m" for s es
  proof (rule keeps_trans [OF k2 put_keeps])
    show "k \<noteq> (ev_pid e, ev_goid e)" using assms(1) by (auto simp: sample_key_def)
  qed (use that in simp_all)
  have st: "keeps k m (store_event sv u e ?m)" for u
    by (rule keeps_trans [OF k2 store_keeps [OF assms(1)]])
  show ?thesis
    using assms(4) k1 k2 rep st by (auto simp: add_event_def ad Let_def split: if_splits option.splits)
qed

lemma add_keys:
  assumes "manager_ok m" "has_room m (ev_pid e)" "add_event sv e m = (ok, m')"
  shows "pid_keys m' \<subseteq> insert (ev_pid e) (pid_keys m)"
proof -
  obtain a m1 where ad: "admit_event e m = (a, m1)" by (cases "admit_event e m")
  note room = admit_room [OF assms(1,2) ad]
  have "pid_keys (store_event sv u e x) = insert (ev_pid e) (pid_keys x)" for u x
    by (simp add: store_event_def Let_def cong: if_cong)
  then show ?thesis
    using assms(3) touch_room(2) [OF room] admit_keys [OF ad]
    by (auto simp: add_event_def ad Let_def split: if_splits option.splits)
qed

lemma close_touches:
  "close_stack e m = (b, m') \<Longrightarrow> m' = touch_pid (ev_pid e) m"
  by (auto simp: close_stack_def Let_def split: if_splits)

lemma aggregate_keeps:
  assumes "manager_ok m" "has_room m pid" "k \<noteq> (pid, goid)"
  shows "keeps k m (aggregate_stack pid goid m)"
proof -
  let ?m = "touch_pid pid m" and ?s = "pid_state_of pid (touch_pid pid m)"
  let ?agg = "fold record_agg (aggregate_loop (goroutine_events ?s goid) []) (ps_agg ?s)"
  have "goroutine_view (put_pid_state pid (?s\<lparr>ps_agg := ?agg\<rparr>) ?m) k = goroutine_view ?m k"
    by (simp add: goroutine_view_def goroutine_events_def goroutine_stack_def Let_def)
  moreover have "\<exists>xs. agg_of (put_pid_state pid (?s\<lparr>ps_agg := ?agg\<rparr>) ?m) (fst k) = fold record_agg xs (agg_of ?m (fst k))"
  proof (cases "fst k = pid")
    case True
    then show ?thesis by (auto simp: agg_of_def)
  next
    case False
    then have "agg_of (put_pid_state pid (?s\<lparr>ps_agg := ?agg\<rparr>) ?m) (fst k) = fold record_agg [] (agg_of ?m (fst k))"
      by (simp add: agg_of_def)
    then show ?thesis by blast
  qed
  ultimately have "keeps k ?m (put_pid_state pid (?s\<lparr>ps_agg := ?agg\<rparr>) ?m)" by (simp add: keeps_def)
  then show ?thesis
    using keeps_trans [OF touch_keeps [OF assms(2)]] by (simp add: aggregate_stack_def Let_def)
qed

lemma finish_keeps:
  assumes "sample_key e \<noteq> k" "manager_ok m" "has_room m (ev_pid e)" "mg_aggregate m"
  shows "keeps k m (snd (finish_stack e m))"
proof -
  let ?m = "touch_pid (ev_pid e) m"
  have k: "k \<noteq> (ev_pid e, ev_goid e)" using assms(1) by (auto simp: sample_key_def)
  note t = touch_keeps [OF assms(3), of k]
  have "keeps k m (?m\<lparr>mg_dropped_stacks := x, mg_dropped_incomplete := y\<rparr>)" for x y
    by (rule keeps_trans [OF t]) (rule keepsI; simp)
  moreover have "keeps k m (aggregate_stack (ev_pid e) (ev_goid e) ?m)"
    by (rule keeps_trans [OF t aggregate_keeps])
      (use assms k in \<open>simp_all add: touch_ok touch_has_room\<close>)
  ultimately show ?thesis using assms(4) by (simp add: finish_stack_def Let_def)
qed

lemma drop_keeps: "sample_key e \<noteq> k \<Longrightarrow> keeps k m (drop_stack (ev_pid e) (ev_goid e) m)"
  by (rule keepsI) (auto simp: sample_key_def)

lemma handle_keeps:
  assumes "sample_key e \<noteq> k" "manager_ok m" "has_room m (ev_pid e)" "mg_aggregate m"
  shows "keeps k m (snd (handle sv e m))"
proof -
  obtain added m1 where ad: "add_event sv e m = (added, m1)" by (cases "add_event sv e m")
  have ok1: "manager_ok m1" by (rule add_ok [OF assms(2) ad])
  have k1: "keeps k m m1" by (rule add_keeps [OF assms(1-3) ad])
  have "pid_keys m1 \<subseteq> insert (ev_pid e) (pid_keys m)" by (rule add_keys [OF assms(2,3) ad])
  then have "card (insert (ev_pid e) (pid_keys m1)) \<le> card (insert (ev_pid e) (pid_keys m))"
    by (intro card_mono) (auto simp: pid_keys_def)
  then have room1: "has_room m1 (ev_pid e)" using assms(2,3) ok1 by (simp add: ok_room)
  obtain b m2 where cl: "close_stack e m1 = (b, m2)" by (cases "close_stack e m1")
  have m2: "m2 = touch_pid (ev_pid e) m1" by (rule close_touches [OF cl])
  have k2: "keeps k m m2" unfolding m2 by (rule keeps_trans [OF k1 touch_keeps [OF room1]])
  have ag2: "mg_aggregate m2" using add_static [OF ad] assms(4) by (simp add: m2)
  have k3: "keeps k m (snd (finish_stack e m2))"
    by (rule keeps_trans [OF k2 finish_keeps])
      (use assms(1) ok1 room1 ag2 in \<open>simp_all add: m2 touch_ok touch_has_room\<close>)
  note d = keeps_trans [OF k3 drop_keeps [OF assms(1)]]
  have s: "keeps k m (m\<lparr>mg_suppressed := removeAll x (mg_suppressed m)\<rparr>)" for x
    by (rule keepsI) simp_all
  note x = keeps_trans [OF s drop_keeps [OF assms(1)]]
  have x': "keeps k m (drop_stack (ev_pid e) (ev_goid e) (m\<lparr>mg_suppressed := removeAll y (mg_suppressed m)\<rparr>)
      \<lparr>mg_dropped_stacks := n, mg_dropped_aborted := n'\<rparr>)" for y n n'
    by (rule keeps_trans [OF x]) (rule keepsI; simp)
  show ?thesis
    using k1 k2 d x x' by (auto simp: handle_def ad cl Let_def split: prod.split)
qed

section \<open>Events of the goroutine itself\<close>

definition observe :: "event \<Rightarrow> uprobe \<Rightarrow> string \<Rightarrow> mgr_event list \<times> u64 list \<times> bool \<Rightarrow> mgr_event list \<times> u64 list \<times> bool" where
  "observe e u args v =
     (case v of (es, stack, bad) \<Rightarrow>
        if is_repeated_entry es e then (butlast es @ [(last es)\<lparr>me_event := e\<rparr>], stack, bad)
        else let fits = stack \<noteq> [] \<and> last stack = up_address u - up_rel_offset u
             in (es @ [\<lparr>me_event = e, me_uprobe = u, me_args = args\<rparr>],
                 (if ev_location e = ENTPOINT then stack @ [ev_ip e]
                  else if ev_location e = RETPOINT \<and> fits then butlast stack else stack),
                 bad \<or> ev_location e = RETPOINT \<and> \<not> fits))"

definition starts :: "event \<Rightarrow> bool" where
  "starts e \<longleftrightarrow> and (ev_trace_flags e) TRACE_START \<noteq> 0"

definition settled :: "mgr_event list \<times> u64 list \<times> bool \<Rightarrow> bool" where
  "settled v \<longleftrightarrow> (fst v = [] \<longrightarrow> v = ([], [], False))"

lemma drop_pending: "mg_pending (drop_stack pid goid m) \<le> mg_pending m"
  by (auto simp: drop_stack_def release_le split: option.split)

lemma drop_learned [simp]: "mg_learned (drop_stack pid goid m) = mg_learned m"
  by (simp add: drop_stack_def split: option.split)

lemma stale_own:
  assumes "sample_key e = k" "settled (goroutine_view m k)"
  shows "goroutine_view (reset_stale_sample e m) k = (if starts e then ([], [], False) else goroutine_view m k)"
    and "agg_of (reset_stale_sample e m) p = agg_of m p"
    and "mg_pending (reset_stale_sample e m) \<le> mg_pending m"
    and "mg_learned (reset_stale_sample e m) = mg_learned m"
proof -
  have k: "k = (ev_pid e, ev_goid e)" using assms(1) by (simp add: sample_key_def)
  have d: "goroutine_view (drop_stack (ev_pid e) (ev_goid e) m) k = ([], [], False)"
    using view_drop(1) [of k m] by (simp add: k)
  have e: "goroutine_view m k = ([], [], False)"
    if "goroutine_events (pid_state_of (ev_pid e) m) (ev_goid e) = []"
    using assms(2) that by (simp add: settled_def goroutine_view_def Let_def k)
  have "goroutine_events new_pid_state g = []" for g by (simp add: goroutine_events_def new_pid_state_def)
  then show "goroutine_view (reset_stale_sample e m) k = (if starts e then ([], [], False) else goroutine_view m k)"
    using d e by (auto simp: reset_stale_sample_def starts_def pid_state_of_def split: option.split)
  show "agg_of (reset_stale_sample e m) p = agg_of m p"
    "mg_pending (reset_stale_sample e m) \<le> mg_pending m"
    "mg_learned (reset_stale_sample e m) = mg_learned m"
    using drop_pending [of "ev_pid e" "ev_goid e" m]
    by (auto simp: reset_stale_sample_def split: option.split)
qed

lemma admit_own:
  assumes "sample_key e = k" "manager_ok m" "mg_pending m < mg_max_pending m" "settled (goroutine_view m k)"
    and "\<not> starts e \<Longrightarrow> k \<notin> set (mg_suppressed m)"
  obtains m' where "admit_event e m = (True, m')"
    "goroutine_view m' k = (if starts e then ([], [], False) else goroutine_view m k)"
    "\<And>p. agg_of m' p = agg_of m p" "k \<notin> set (mg_suppressed m')" "mg_pending m' \<le> mg_pending m"
    "mg_learned m' = mg_learned m"
proof -
  let ?m = "reset_stale_sample e m"
  let ?n = "if k \<in> set (mg_suppressed ?m) then ?m\<lparr>mg_suppressed := removeAll k (mg_suppressed ?m)\<rparr> else ?m"
  note st = stale_own [OF assms(1,4)]
  have "mg_pending ?m < mg_max_pending ?m" using st(3) assms(3) by simp
  then have "admit_event e m = (True, ?n)"
    using assms(1,2,5) by (auto simp: admit_event_def Let_def sample_key_def starts_def manager_ok_def)
  then show thesis by (rule that) (use st in auto)
qed

lemma get_uprobe_cong:
  "mg_symbols m' = mg_symbols m \<Longrightarrow> mg_uprobes m' = mg_uprobes m \<Longrightarrow> get_uprobe m' e = get_uprobe m e"
  by (simp add: get_uprobe_def split: sum.split)

lemma goroutine_events_update [simp]:
  "goroutine_events (s\<lparr>ps_events := AList.update g es al\<rparr>) g = es"
  by (simp add: goroutine_events_def)

lemma store_own:
  assumes "sample_key e = k" "mg_aggregate m" "goroutine_view m k = (es, stack, bad)" "\<not> is_repeated_entry es e"
  shows "goroutine_view (store_event sv u e m) k = observe e u (sv_render sv (mg_learned m) u e) (es, stack, bad)"
    and "agg_of (store_event sv u e m) p = agg_of m p"
    and "mg_suppressed (store_event sv u e m) = mg_suppressed m"
    and "unat (mg_pending (store_event sv u e m)) \<le> Suc (unat (mg_pending m))"
    and "mg_learned (store_event sv u e m) = sv_learn sv u e (mg_learned m)"
proof -
  let ?s = "pid_state_of (ev_pid e) m"
  have v: "es = goroutine_events ?s (ev_goid e)" "stack = goroutine_stack ?s (ev_goid e)"
      "bad \<longleftrightarrow> ev_goid e \<in> ps_invalid ?s" and k: "k = (ev_pid e, ev_goid e)"
    using assms(1,3) by (auto simp: goroutine_view_def sample_key_def Let_def)
  show "goroutine_view (store_event sv u e m) k = observe e u (sv_render sv (mg_learned m) u e) (es, stack, bad)"
    using assms(2,4)
    by (auto simp: store_event_def observe_def goroutine_view_def k v Let_def update_observed_stack_def
        goroutine_stack_def goroutine_events_def location_defs)
  show "agg_of (store_event sv u e m) p = agg_of m p" "mg_suppressed (store_event sv u e m) = mg_suppressed m"
    "mg_learned (store_event sv u e m) = sv_learn sv u e (mg_learned m)"
    by (simp_all add: store_event_def agg_of_def Let_def cong: if_cong)
  show "unat (mg_pending (store_event sv u e m)) \<le> Suc (unat (mg_pending m))"
    by (simp add: store_event_def Let_def unat_word_ariths)
qed

lemma add_own:
  assumes k: "sample_key e = k" and ok: "manager_ok m" "has_room m (ev_pid e)" "mg_aggregate m"
    and pend: "mg_pending m < mg_max_pending m" and v: "settled (goroutine_view m k)"
    and sup: "\<not> starts e \<Longrightarrow> k \<notin> set (mg_suppressed m)"
    and u: "get_uprobe m e = Some u" "sv_learn sv u e (mg_learned m) = mg_learned m"
    and first: "starts e \<or> fst (goroutine_view m k) = [] \<Longrightarrow> ev_location e = ENTPOINT \<and> starts e"
  obtains m' where "add_event sv e m = (True, m')"
    "goroutine_view m' k = observe e u (sv_render sv (mg_learned m) u e)
       (if starts e then ([], [], False) else goroutine_view m k)"
    "\<And>p. agg_of m' p = agg_of m p" "k \<notin> set (mg_suppressed m')"
    "unat (mg_pending m') \<le> Suc (unat (mg_pending m))" "mg_learned m' = mg_learned m"
proof -
  obtain m1 where ad: "admit_event e m = (True, m1)"
      and v1: "goroutine_view m1 k = (if starts e then ([], [], False) else goroutine_view m k)"
      and r1: "\<And>p. agg_of m1 p = agg_of m p" "k \<notin> set (mg_suppressed m1)" "mg_pending m1 \<le> mg_pending m"
      "mg_learned m1 = mg_learned m"
    using admit_own [OF k ok(1) pend v sup] by metis
  note stat = admit_static [OF ad]
  note room = admit_room [OF ok(1,2) ad]
  let ?m = "touch_pid (ev_pid e) m1"
  note t = view_touch [OF room] touch_room(3,4) [OF room]
  obtain es stack bad where w: "goroutine_view m1 k = (es, stack, bad)" by (cases "goroutine_view m1 k")
  have es: "goroutine_events (pid_state_of (ev_pid e) ?m) (ev_goid e) = es"
    using w k t(3) by (auto simp: goroutine_view_def sample_key_def Let_def)
  have u1: "get_uprobe m1 e = Some u" using u(1) stat get_uprobe_cong [of m1 m e] by simp
  have "fst (goroutine_view m1 k) = es" using w by simp
  then have nonempty: "es = [] \<longrightarrow> ev_location e = ENTPOINT \<and> starts e"
    using first v1 by (cases "starts e") auto
  show thesis
  proof (cases "is_repeated_entry es e")
    case True
    let ?m' = "put_pid_state (ev_pid e) (pid_state_of (ev_pid e) ?m
        \<lparr>ps_events := AList.update (ev_goid e) (butlast es @ [(last es)\<lparr>me_event := e\<rparr>])
           (ps_events (pid_state_of (ev_pid e) ?m))\<rparr>) ?m"
    have "add_event sv e m = (True, ?m')"
      using u1 es nonempty True by (simp add: add_event_def ad Let_def starts_def)
    moreover have "goroutine_view ?m' k = observe e u (sv_render sv (mg_learned m) u e) (es, stack, bad)"
      using True w k t(1) [of k]
      by (auto simp: observe_def goroutine_view_def sample_key_def Let_def)
    moreover have "agg_of ?m' p = agg_of m p" for p using r1(1) t(2) [of p] by (auto simp: agg_of_def)
    moreover have "unat (mg_pending ?m') \<le> Suc (unat (mg_pending m))"
      using r1(3) t(8) by (simp add: word_le_nat_alt)
    ultimately show thesis using that [of ?m'] v1 w r1 t(7) by simp
  next
    case False
    have "mg_aggregate ?m" using stat ok(3) by simp
    note st = store_own [OF k this _ False, of stack bad sv u]
    have "goroutine_view ?m k = (es, stack, bad)" using w t(1) by simp
    note st = st [OF this]
    have "add_event sv e m = (True, store_event sv u e ?m)"
      using u1 es nonempty False by (auto simp add: add_event_def ad Let_def starts_def)
    moreover have "mg_learned ?m = mg_learned m" using r1(4) by simp
    moreover have "unat (mg_pending (store_event sv u e ?m)) \<le> Suc (unat (mg_pending m))"
      using st(4) r1(3) t(8) by (simp add: word_le_nat_alt)
    ultimately show thesis using that [of "store_event sv u e ?m"] v1 w r1(1,2) t(2,7) st u(2) by simp
  qed
qed

text \<open>An event inside a sample, and the event that ends it.\<close>

lemma handle_inside:
  assumes "sample_key e = k" "manager_ok m" "has_room m (ev_pid e)" "mg_aggregate m"
    and "mg_pending m < mg_max_pending m" "settled (goroutine_view m k)"
    and "\<not> starts e \<Longrightarrow> k \<notin> set (mg_suppressed m)"
    and "get_uprobe m e = Some u" "sv_learn sv u e (mg_learned m) = mg_learned m"
    and "starts e \<or> fst (goroutine_view m k) = [] \<Longrightarrow> ev_location e = ENTPOINT \<and> starts e"
    and "ev_location e \<noteq> GOROUTINE_EXIT" "and (ev_trace_flags e) TRACE_ABORT = 0"
  defines "v \<equiv> observe e u (sv_render sv (mg_learned m) u e)
       (if starts e then ([], [], False) else goroutine_view m k)"
  shows "and (ev_trace_flags e) TRACE_END = 0 \<Longrightarrow>
      goroutine_view (snd (handle sv e m)) k = v \<and> agg_of (snd (handle sv e m)) (fst k) = agg_of m (fst k) \<and>
      k \<notin> set (mg_suppressed (snd (handle sv e m)))"
    and "and (ev_trace_flags e) TRACE_END \<noteq> 0 \<Longrightarrow> snd v = ([], False) \<Longrightarrow>
      goroutine_view (snd (handle sv e m)) k = ([], [], False) \<and>
      agg_of (snd (handle sv e m)) (fst k) = fold record_agg (aggregate_loop (fst v) []) (agg_of m (fst k))"
proof -
  obtain m1 where ad: "add_event sv e m = (True, m1)" and v1: "goroutine_view m1 k = v"
    and r1: "\<And>p. agg_of m1 p = agg_of m p" "k \<notin> set (mg_suppressed m1)"
    using add_own [OF assms(1-10)] unfolding v_def by metis
  have k: "fst k = ev_pid e" "snd k = ev_goid e" using assms(1) by (auto simp: sample_key_def)
  have ok1: "manager_ok m1" by (rule add_ok [OF assms(2) ad])
  have "pid_keys m1 \<subseteq> insert (ev_pid e) (pid_keys m)" by (rule add_keys [OF assms(2,3) ad])
  then have "card (insert (ev_pid e) (pid_keys m1)) \<le> card (insert (ev_pid e) (pid_keys m))"
    by (intro card_mono) (auto simp: pid_keys_def)
  then have room1: "has_room m1 (ev_pid e)" using assms(2,3) ok1 by (simp add: ok_room)
  let ?m2 = "touch_pid (ev_pid e) m1"
  have stat: "mg_aggregate m1" "mg_adaptive m1"
    using add_static [OF ad] assms(2,4) by (simp_all add: manager_ok_def)
  have cl: "close_stack e m1 = (and (ev_trace_flags e) TRACE_END \<noteq> 0, ?m2)"
    using stat by (simp add: close_stack_def Let_def)
  note h = assms(11,12) ad cl
  show "and (ev_trace_flags e) TRACE_END = 0 \<Longrightarrow>
      goroutine_view (snd (handle sv e m)) k = v \<and> agg_of (snd (handle sv e m)) (fst k) = agg_of m (fst k) \<and>
      k \<notin> set (mg_suppressed (snd (handle sv e m)))"
    using h v1 r1 view_touch(1,2) [OF room1] touch_room(3) [OF room1] by (simp add: handle_def)
  assume en: "and (ev_trace_flags e) TRACE_END \<noteq> 0" and sv: "snd v = ([], False)"
  have room2: "has_room ?m2 (ev_pid e)" by (rule touch_has_room [OF ok1 room1])
  have ok2: "manager_ok ?m2" by (rule touch_ok(1) [OF ok1])
  let ?m3 = "touch_pid (ev_pid e) ?m2"
  have room3: "has_room ?m3 (ev_pid e)" by (rule touch_has_room [OF ok2 room2])
  have v3: "goroutine_view ?m3 k = v" "agg_of ?m3 (fst k) = agg_of m (fst k)"
    using v1 r1(1) view_touch(1,2) [OF room1] view_touch(1,2) [OF room2] by simp_all
  have fin: "finish_stack e ?m2 = (None, aggregate_stack (ev_pid e) (ev_goid e) ?m3)"
    using v3(1) sv stat(1) by (auto simp: finish_stack_def goroutine_view_def Let_def k)
  have "agg_of (aggregate_stack (ev_pid e) (ev_goid e) ?m3) (fst k) =
      fold record_agg (aggregate_loop (fst v) []) (agg_of m (fst k))"
    using v3 view_touch(3,6) [OF room3]
    by (auto simp: aggregate_stack_def agg_of_def goroutine_view_def Let_def k)
  moreover have "snd (handle sv e m) = drop_stack (ev_pid e) (ev_goid e) (aggregate_stack (ev_pid e) (ev_goid e) ?m3)"
    using h en fin by (simp add: handle_def)
  ultimately show "goroutine_view (snd (handle sv e m)) k = ([], [], False) \<and>
      agg_of (snd (handle sv e m)) (fst k) = fold record_agg (aggregate_loop (fst v) []) (agg_of m (fst k))"
    using view_drop(1) [of k] by (simp add: k)
qed

end
