(* ===== verification/Ftrace_Load.thy ===== *)
theory Ftrace_Load
  imports Ftrace_Uprobes
begin

text \<open>
  What loading does to the maps, as a function of the probe list, and the structure of the
  lists the parser builds.
\<close>

section \<open>Loops that may fail\<close>

lemma try_each_filter:
  "try_each (\<lambda>x s. if P x then f x s else Inr s) xs s = try_each f (filter P xs) s"
  by (induction xs arbitrary: s) (auto split: sum.split)

lemma try_each_insert:
  assumes "finite (dom m)" "card (dom m) \<le> cap"
  shows "try_each (\<lambda>x m. update_no_exist cap m (k x) (v x)) xs m = Inr m' \<longleftrightarrow>
    distinct (map k xs) \<and> k ` set xs \<inter> dom m = {} \<and> card (dom m) + length xs \<le> cap \<and>
    m' = m ++ map_of (map (\<lambda>x. (k x, v x)) xs)"
  using assms
proof (induction xs arbitrary: m)
  case (Cons x xs)
  let ?m = "m(k x \<mapsto> v x)"
  show ?case
  proof (cases "m (k x) = None \<and> card (dom m) < cap")
    case False
    then show ?thesis
      using Cons.prems by (auto simp: update_no_exist_def domIff not_less dom_def)
  next
    case True
    then have c: "card (dom ?m) = Suc (card (dom m))" "finite (dom ?m)"
      using Cons.prems by (auto simp: domIff)
    have step: "try_each (\<lambda>x m. update_no_exist cap m (k x) (v x)) (x # xs) m =
        try_each (\<lambda>x m. update_no_exist cap m (k x) (v x)) xs ?m"
      using True by (simp add: update_no_exist_def)
    have e2: "m ++ map_of (map (\<lambda>x. (k x, v x)) (x # xs)) = (m ++ map_of (map (\<lambda>x. (k x, v x)) xs))(k x \<mapsto> v x)"
      by (simp add: map_add_def fun_eq_iff)
    have e: "?m ++ map_of ys = (m ++ map_of ys)(k x \<mapsto> v x)" if "k x \<notin> fst ` set ys" for ys
      using that by (simp add: map_add_upd_left dom_map_of_conv_image_fst)
    have d: "k ` set xs \<inter> dom ?m = {} \<longleftrightarrow> k x \<notin> k ` set xs \<and> k ` set xs \<inter> dom m = {}"
      by auto
    have i: "k ` set (x # xs) \<inter> dom m = {} \<longleftrightarrow> k ` set xs \<inter> dom m = {}"
      using True by (auto simp: domIff)
    have le: "card (dom ?m) \<le> cap" using True c by simp
    show ?thesis
      unfolding step Cons.IH [OF c(2) le] d i e2
      using c(1) e [of "map (\<lambda>x. (k x, v x)) xs"] by (auto simp: image_image)
  qed
qed (auto simp: )

lemma try_each_guard:
  "(\<exists>s'. try_each (\<lambda>x s. if G x then f x s else Inl (err x)) xs s = Inr s') \<longrightarrow> list_all G xs"
  "list_all G xs \<Longrightarrow> try_each (\<lambda>x s. if G x then f x s else Inl (err x)) xs s = try_each f xs s"
  by (induction xs arbitrary: s) (auto split: sum.splits)

section \<open>The state after loading\<close>

definition encodable :: "uprobe \<Rightarrow> bool" where
  "encodable u \<longleftrightarrow> length (up_fetch_args u) \<le> 8 \<and> \<not> isl (encode_rules (up_fetch_args u))"

definition probe_rules :: "uprobe \<Rightarrow> arg_rules" where
  "probe_rules u =
     (let rs = projr (encode_rules (up_fetch_args u))
      in \<lparr>ars_length = of_nat (length (up_fetch_args u)),
          ars_rules = rs @ replicate (8 - length rs) zero_arg_rule\<rparr>)"

definition probe_error :: "uprobe \<Rightarrow> go_error" where
  "probe_error u =
     (if length (up_fetch_args u) > 8 then Too_many_fetch_args else projl (encode_rules (up_fetch_args u)))"

definition fetching :: "uprobe list \<Rightarrow> uprobe list" where
  "fetching ups = filter (\<lambda>u. up_fetch_args u \<noteq> []) ups"

definition loadable :: "uprobe list \<Rightarrow> bool \<Rightarrow> bool" where
  "loadable ups adaptive \<longleftrightarrow>
     (let entries = filter wanted_entry ups; rets = filter (\<lambda>u. adaptive \<and> wanted_ret u) ups; args = fetching ups
      in distinct (map up_address entries) \<and> length entries \<le> 10000 \<and>
         distinct (map up_address rets) \<and> length rets \<le> 10000 \<and>
         distinct (map up_address args) \<and> length args \<le> 100 \<and> list_all encodable args)"

definition loaded :: "uprobe list \<Rightarrow> bool \<Rightarrow> bpf_state \<Rightarrow> bpf_state" where
  "loaded ups adaptive st =
     st\<lparr>should_trace_rip := map_of (map (\<lambda>u. (up_address u, True)) (filter wanted_entry ups)),
        should_trace_ret := map_of (map (\<lambda>u. (up_address u, wanted_entries ups (up_funcname u)))
                                      (filter (\<lambda>u. adaptive \<and> wanted_ret u) ups)),
        arg_rules_map := map_of (map (\<lambda>u. (up_address u, probe_rules u)) (fetching ups))\<rparr>"

lemma set_arg_rules_encodable:
  "set_arg_rules (up_address u) (up_fetch_args u) st =
     (if encodable u
      then (case update_no_exist 100 (arg_rules_map st) (up_address u) (probe_rules u) of
              Inl err \<Rightarrow> Inl err | Inr mp \<Rightarrow> Inr (st\<lparr>arg_rules_map := mp\<rparr>))
      else Inl (probe_error u))"
  by (cases "encode_rules (up_fetch_args u)")
    (auto simp: set_arg_rules_def encodable_def probe_rules_def probe_error_def def_arg_rules_map_def map_def_def Let_def)

text \<open>Each loop works on one map, or on two that do not meet.\<close>

lemma entries_loop:
  "try_each load_entry ups st =
     (case try_each (\<lambda>u m. update_no_exist 10000 m (up_address u) True) (filter wanted_entry ups) (should_trace_rip st) of
        Inl err \<Rightarrow> Inl err | Inr m \<Rightarrow> Inr (st\<lparr>should_trace_rip := m\<rparr>))"
proof (induction ups arbitrary: st)
  case (Cons u ups)
  show ?case
  proof (cases "wanted_entry u")
    case False
    then show ?thesis using Cons by (simp add: load_entry_def)
  next
    case True
    then show ?thesis
      using Cons
      by (simp add: load_entry_def set_wanted_def def_should_trace_rip_def map_def_def split: sum.split)
  qed
qed simp

definition put_rules :: "uprobe \<Rightarrow> (u64 \<rightharpoonup> arg_rules) \<Rightarrow> go_error + (u64 \<rightharpoonup> arg_rules)" where
  "put_rules u m =
     (if encodable u then update_no_exist 100 m (up_address u) (probe_rules u) else Inl (probe_error u))"

definition put_ret :: "(string \<Rightarrow> u64) \<Rightarrow> uprobe \<Rightarrow> (u64 \<rightharpoonup> u64) \<Rightarrow> go_error + (u64 \<rightharpoonup> u64)" where
  "put_ret entry u m = update_no_exist 10000 m (up_address u) (entry (up_funcname u))"

lemma probes_loop:
  "try_each (load_probe adaptive entry) ups st = Inr st' \<longleftrightarrow>
     (\<exists>ma mr. try_each put_rules (fetching ups) (arg_rules_map st) = Inr ma \<and>
        try_each (put_ret entry) (filter (\<lambda>u. adaptive \<and> wanted_ret u) ups) (should_trace_ret st) = Inr mr \<and>
        st' = st\<lparr>arg_rules_map := ma, should_trace_ret := mr\<rparr>)"
proof (induction ups arbitrary: st)
  case Nil
  then show ?case by (auto simp: fetching_def)
next
  case (Cons u ups)
  have a: "(if up_fetch_args u \<noteq> [] then set_arg_rules (up_address u) (up_fetch_args u) st else Inr st) =
      (if up_fetch_args u \<noteq> []
       then (case put_rules u (arg_rules_map st) of Inl err \<Rightarrow> Inl err | Inr m \<Rightarrow> Inr (st\<lparr>arg_rules_map := m\<rparr>))
       else Inr st)"
    by (simp add: set_arg_rules_encodable put_rules_def)
  have r: "set_wanted_ret (up_address u) (entry (up_funcname u)) s =
      (case put_ret entry u (should_trace_ret s) of Inl err \<Rightarrow> Inl err | Inr m \<Rightarrow> Inr (s\<lparr>should_trace_ret := m\<rparr>))" for s
    by (simp add: set_wanted_ret_def put_ret_def def_should_trace_ret_def map_def_def)
  have f: "fetching (u # ups) = (if up_fetch_args u \<noteq> [] then u # fetching ups else fetching ups)"
    by (simp add: fetching_def)
  note l = load_probe_def [of adaptive entry u st, unfolded a r]
  show ?case
    unfolding try_each.simps(2) l f
    using Cons
    by (cases "up_fetch_args u \<noteq> []"; cases "adaptive \<and> wanted_ret u";
        cases "put_rules u (arg_rules_map st)"; cases "put_ret entry u (should_trace_ret st)")
      auto
qed

definition fresh :: "bpf_state \<Rightarrow> bool" where
  "fresh st \<longleftrightarrow>
     should_trace_rip st = Map.empty \<and> should_trace_ret st = Map.empty \<and> arg_rules_map st = Map.empty \<and>
     should_trace_goid st = Map.empty"

lemma put_rules_loop:
  "try_each put_rules us Map.empty = Inr ma \<longleftrightarrow>
     list_all encodable us \<and> distinct (map up_address us) \<and> length us \<le> 100 \<and>
     ma = map_of (map (\<lambda>u. (up_address u, probe_rules u)) us)"
proof -
  have p: "put_rules = (\<lambda>u m. if encodable u then update_no_exist 100 m (up_address u) (probe_rules u)
      else Inl (probe_error u))"
    by (simp add: put_rules_def fun_eq_iff)
  show ?thesis
  proof (cases "list_all encodable us")
    case True
    then show ?thesis
      using try_each_insert [of "Map.empty" 100 up_address probe_rules us ma]
      unfolding p try_each_guard(2) [OF True] by simp
  next
    case False
    then show ?thesis
      using try_each_guard(1) [of encodable "\<lambda>u m. update_no_exist 100 m (up_address u) (probe_rules u)"
          probe_error us Map.empty]
      unfolding p by auto
  qed
qed

lemma load_result:
  assumes "fresh st"
  shows "load dev ino ups opts st = Inr r \<longleftrightarrow>
    loadable ups (lo_adaptive_sampling opts) \<and>
    r = (load_config dev ino ups opts, loaded ups (lo_adaptive_sampling opts) st)"
proof -
  let ?ad = "lo_adaptive_sampling opts" and ?entry = "wanted_entries ups"
  let ?es = "filter wanted_entry ups" and ?rs = "filter (\<lambda>u. lo_adaptive_sampling opts \<and> wanted_ret u) ups"
  let ?me = "map_of (map (\<lambda>u. (up_address u, True)) ?es)"
  have f: "should_trace_rip st = Map.empty" "should_trace_ret st = Map.empty" "arg_rules_map st = Map.empty"
    using assms by (simp_all add: fresh_def)
  have e: "try_each (\<lambda>u m. update_no_exist 10000 m (up_address u) True) ?es Map.empty = Inr m \<longleftrightarrow>
      distinct (map up_address ?es) \<and> length ?es \<le> 10000 \<and> m = ?me" for m
    using try_each_insert [of "Map.empty" 10000 up_address "\<lambda>_. True" ?es m] by simp
  have rt: "try_each (put_ret ?entry) ?rs Map.empty = Inr m \<longleftrightarrow>
      distinct (map up_address ?rs) \<and> length ?rs \<le> 10000 \<and>
      m = map_of (map (\<lambda>u. (up_address u, ?entry (up_funcname u))) ?rs)" for m
    using try_each_insert [of "Map.empty" 10000 up_address "\<lambda>u. ?entry (up_funcname u)" ?rs m]
    by (simp add: put_ret_def [abs_def])
  have probes: "try_each (load_probe ?ad ?entry) ups (st\<lparr>should_trace_rip := m\<rparr>) = Inr st' \<longleftrightarrow>
      (list_all encodable (fetching ups) \<and> distinct (map up_address (fetching ups)) \<and> length (fetching ups) \<le> 100) \<and>
      (distinct (map up_address ?rs) \<and> length ?rs \<le> 10000) \<and>
      st' = st\<lparr>should_trace_rip := m, arg_rules_map := map_of (map (\<lambda>u. (up_address u, probe_rules u)) (fetching ups)),
        should_trace_ret := map_of (map (\<lambda>u. (up_address u, ?entry (up_funcname u))) ?rs)\<rparr>" for m st'
    unfolding probes_loop using f by (auto simp: put_rules_loop rt)
  show ?thesis
  proof (cases "try_each (\<lambda>u m. update_no_exist 10000 m (up_address u) True) ?es Map.empty")
    case (Inl err)
    then have "\<not> (distinct (map up_address ?es) \<and> length ?es \<le> 10000)"
      using e [of ?me] by auto
    then show ?thesis using Inl f by (auto simp: load_def entries_loop loadable_def Let_def)
  next
    case (Inr m)
    then have d: "distinct (map up_address ?es)" "length ?es \<le> 10000" "m = ?me"
      using e [of m] by auto
    show ?thesis
    proof (cases "try_each (load_probe ?ad ?entry) ups (st\<lparr>should_trace_rip := m\<rparr>)")
      case Inl2: (Inl err)
      then have "\<not> loadable ups ?ad"
        using probes [of m "st\<lparr>should_trace_rip := m,
            arg_rules_map := map_of (map (\<lambda>u. (up_address u, probe_rules u)) (fetching ups)),
            should_trace_ret := map_of (map (\<lambda>u. (up_address u, ?entry (up_funcname u))) ?rs)\<rparr>"]
        by (auto simp: loadable_def Let_def)
      then show ?thesis using Inl2 Inr f by (simp add: load_def entries_loop)
    next
      case Inr2: (Inr st')
      then have p: "loadable ups ?ad" "st' = loaded ups ?ad st"
        using probes [of m st'] d by (simp_all add: loadable_def loaded_def Let_def)
      then show ?thesis using Inr2 Inr f by (auto simp: load_def entries_loop)
    qed
  qed
qed

text \<open>C26: Loading succeeds exactly for the probe lists the maps can hold, and installs exactly them:
  distinct addresses within each of the three maps, at most 10000 wanted entries and wanted
  returns and at most 100 probes with rules, every rule list encodable. Then each wanted entry
  is in should_trace_rip, each RET of a wanted function leads to the function's entry (only
  under adaptive sampling), each probe with rules has them under its address, nothing else is
  in the three maps, and the configuration says whether any probe fetches arguments.\<close>

theorem load_outcome:
  assumes "fresh st"
  shows "load dev ino ups opts st = Inr r \<longleftrightarrow>
    loadable ups (lo_adaptive_sampling opts) \<and>
    r = (load_config dev ino ups opts, loaded ups (lo_adaptive_sampling opts) st)"
  by (rule load_result [OF assms])

section \<open>Probe lists of the parser\<close>

definition probe_table :: "(string \<Rightarrow> u64) \<Rightarrow> (string \<Rightarrow> bool) \<Rightarrow> uprobe list \<Rightarrow> bool" where
  "probe_table entry wanted ups \<longleftrightarrow>
     (\<forall>u \<in> set ups. up_location u \<noteq> AtGoroutineExit \<longrightarrow>
        up_wanted u = wanted (up_funcname u) \<and>
        (up_location u = AtEntry \<longrightarrow> up_address u = entry (up_funcname u)) \<and>
        (up_location u = AtRet \<longrightarrow>
           (\<exists>e \<in> set ups. up_location e = AtEntry \<and> up_funcname e = up_funcname u)))"

definition symbol_value :: "elf_symbol list \<Rightarrow> string \<Rightarrow> u64" where
  "symbol_value symbols name = (case resolve_symbol symbols name of Inl err \<Rightarrow> 0 | Inr s \<Rightarrow> sy_value s)"

lemma probe_table_append:
  "probe_table entry wanted us \<Longrightarrow> probe_table entry wanted vs \<Longrightarrow> probe_table entry wanted (us @ vs)"
  unfolding probe_table_def by (simp add: ball_Un) (metis UnI1 UnI2)

lemma function_probes_table:
  "function_probes symbols sec rets fm wanted fns = Inr ups \<Longrightarrow>
     probe_table (symbol_value symbols) (\<lambda>name. name \<in> set wanted) ups"
proof (induction fns arbitrary: ups)
  case Nil
  then show ?case by (simp add: probe_table_def)
next
  case (Cons fn fns)
  obtain s off rest where r: "resolve_symbol symbols fn = Inr s" "func_offset symbols sec fn = Inr off"
      "function_probes symbols sec rets fm wanted fns = Inr rest"
    using Cons.prems by (auto simp: Let_def split: sum.splits)
  note rest = Cons.IH [OF r(3)]
  show ?case
  proof (cases "rets fn")
    case (Inl err)
    then show ?thesis using Cons.prems r rest by (simp add: Let_def)
  next
    case (Inr offs)
    then show ?thesis
      using Cons.prems r
      by (auto simp: Let_def rest intro!: probe_table_append [OF _ rest, simplified])
        (auto simp: probe_table_def symbol_value_def)
  qed
qed

end
