(* ===== verification/Ftrace_Traced.thy ===== *)
theory Ftrace_Traced
  imports Ftrace_Load Ftrace_Calls
begin

text \<open>
  The loader and the programs together: calls that run between the probes the parser found
  meet what the tracing of a call asks of the maps.
\<close>

section \<open>Calls between probes\<close>

text \<open>
  A call whose entry and RET are probes of the same function, and so are those of the probed
  calls it makes; a moved stack does not place the caller's frame where the callee's was.
\<close>

definition probed_site :: "uprobe list \<Rightarrow> u64 \<Rightarrow> u64 \<Rightarrow> bool" where
  "probed_site ups ip r =
     list_ex (\<lambda>e. list_ex (\<lambda>x. up_location e = AtEntry \<and> up_location x = AtRet \<and>
        up_funcname e = up_funcname x \<and> up_address e = ip \<and> up_address x = r) ups) ups"

fun probed_call :: "uprobe list \<Rightarrow> call \<Rightarrow> bool" where
  "probed_call ups (Call ip r bp moved calls) \<longleftrightarrow>
     ip \<noteq> 0 \<and> probed_site ups ip r \<and>
     (case moved of None \<Rightarrow> True | Some (bp', caller_bp') \<Rightarrow> caller_bp' \<noteq> bp) \<and>
     list_all (probed_call ups) calls"

lemma parsed_table:
  assumes "parse_uprobes ty fv symbols sec rets opts = Inr ups"
  shows "probe_table (symbol_value symbols) (\<lambda>name. name \<in> set (wanted_funcs opts symbols)) ups"
proof -
  have one: "probe_table entry wanted [u]" if "up_location u = AtGoroutineExit" for entry wanted u
    using that by (simp add: probe_table_def)
  obtain g rest fm where r: "function_probes symbols sec rets fm (wanted_funcs opts symbols)
      (attach_funcs opts symbols) = Inr rest" and ups: "ups = g # rest" "up_location g = AtGoroutineExit"
    using assms by (auto simp: parse_uprobes_def Let_def split: sum.splits)
  show ?thesis
    using probe_table_append [OF one [OF ups(2)] function_probes_table [OF r]] by (simp add: ups)
qed

lemma fold_entries:
  "(\<forall>u \<in> set us. up_address u = entry (up_funcname u)) \<Longrightarrow>
     fold (\<lambda>u m. m(up_funcname u \<mapsto> up_address u)) us m name =
       (if name \<in> up_funcname ` set us then Some (entry name) else m name)"
  by (induction us arbitrary: m) auto

lemma wanted_entries_table:
  assumes "probe_table entry wanted ups" "u \<in> set ups" "wanted_ret u"
  shows "wanted_entries ups (up_funcname u) = entry (up_funcname u)"
proof -
  have "\<forall>e \<in> set (filter wanted_entry ups). up_address e = entry (up_funcname e)"
    using assms(1) by (auto simp: probe_table_def wanted_entry_def)
  moreover have "up_funcname u \<in> up_funcname ` set (filter wanted_entry ups)"
  proof -
    obtain e where e: "e \<in> set ups" "up_location e = AtEntry" "up_funcname e = up_funcname u"
      using assms by (auto simp: probe_table_def wanted_ret_def)
    moreover have "up_wanted e" using assms e by (auto simp: probe_table_def wanted_ret_def)
    ultimately have "e \<in> set (filter wanted_entry ups)" by (simp add: wanted_entry_def)
    then show ?thesis using e(3) by (metis imageI)
  qed
  ultimately show ?thesis
    using fold_entries [of "filter wanted_entry ups" entry Map.empty "up_funcname u"]
    by (simp add: wanted_entries_def del: set_filter)
qed

lemma loaded_ret:
  assumes "probe_table entry wanted ups" "distinct (map up_address ups)" "u \<in> set ups" "up_location u = AtRet"
  shows "should_trace_ret (loaded ups True st) (up_address u) =
    (if up_wanted u then Some (entry (up_funcname u)) else None)"
proof -
  let ?rs = "filter (\<lambda>u. True \<and> wanted_ret u) ups"
  have inj: "inj_on up_address (set ups)" using assms(2) by (simp add: distinct_map)
  show ?thesis
  proof (cases "up_wanted u")
    case True
    then have w: "wanted_ret u" using assms(4) by (simp add: wanted_ret_def)
    have "distinct (map up_address ?rs)" using assms(2) by (simp add: distinct_map_filter)
    then have "map_of (map (\<lambda>u. (up_address u, wanted_entries ups (up_funcname u))) ?rs) (up_address u) =
        Some (wanted_entries ups (up_funcname u))"
      using w assms(3) by (intro map_of_is_SomeI) (auto simp: comp_def)
    then show ?thesis using True wanted_entries_table [OF assms(1,3) w] by (simp add: loaded_def)
  next
    case False
    then have "up_address u \<notin> up_address ` set ?rs"
      using inj assms(3) by (auto simp: wanted_ret_def inj_on_def)
    then show ?thesis using False by (simp add: loaded_def map_of_eq_None_iff image_image)
  qed
qed

lemma probed_site_ret:
  assumes t: "probe_table entry wanted ups" "distinct (map up_address ups)"
    and root: "e0 \<in> set ups" "wanted_entry e0"
    and site: "probed_site ups ip r"
  shows "should_trace_ret (loaded ups True st) r = Some (up_address e0) \<longleftrightarrow> ip = up_address e0"
proof -
  obtain e x where e: "e \<in> set ups" "x \<in> set ups" "up_location e = AtEntry" "up_location x = AtRet"
      "up_funcname e = up_funcname x" "up_address e = ip" "up_address x = r"
    using site by (auto simp: probed_site_def list_ex_iff)
  have w: "up_wanted x = up_wanted e" "entry (up_funcname x) = ip"
    using t(1) e by (auto simp: probe_table_def)
  have "inj_on up_address (set ups)" using t(2) by (simp add: distinct_map)
  then have "ip = up_address e0 \<Longrightarrow> e = e0" using e(1,6) root(1) by (auto dest: inj_onD)
  then show ?thesis
    using loaded_ret [OF t e(2,4), of st] w e(7) root(2) by (auto simp: wanted_entry_def)
qed

lemma probed_call_ok:
  assumes "probe_table entry wanted ups" "distinct (map up_address ups)" "e0 \<in> set ups" "wanted_entry e0"
  shows "probed_call ups call \<Longrightarrow> call_ok (should_trace_ret (loaded ups True st)) (up_address e0) call"
proof (induction call)
  case (Call ip r bp moved calls)
  then show ?case
    using probed_site_ret [OF assms, of ip r st] by (auto simp: list_all_iff split: option.splits)
qed



section \<open>A program\<close>

text \<open>
  Two wanted functions at 100 and 300 and one more that is attached, at 200; each returns ten
  bytes behind its entry.
\<close>

definition demo_symbols :: "elf_symbol list" where
  "demo_symbols =
     [\<lparr>sy_name = ''runtime.goexit1'', sy_value = 50, sy_func = True\<rparr>,
      \<lparr>sy_name = ''main.f'', sy_value = 100, sy_func = True\<rparr>,
      \<lparr>sy_name = ''main.g'', sy_value = 200, sy_func = True\<rparr>,
      \<lparr>sy_name = ''main.h'', sy_value = 300, sy_func = True\<rparr>]"

definition demo_text :: text_section where
  "demo_text = \<lparr>te_addr = 0, te_offset = 4096, te_bytes = []\<rparr>"

definition demo_rets :: "string \<Rightarrow> go_error + u64 list" where
  "demo_rets fn =
     (if fn = ''main.f'' then Inr [4206] else if fn = ''main.g'' then Inr [4306] else Inr [4406])"

definition demo_options :: parse_options where
  "demo_options =
     \<lparr>po_exclude_vendor = False, po_wildcards = [''main.g''], po_func_names = [''main.f'', ''*.h''],
      po_fetch_args = [], po_ret_fetch_args = [], po_auto_args = False, po_auto_rets = False\<rparr>"

definition demo_probe :: "string \<Rightarrow> u64 \<Rightarrow> u64 \<Rightarrow> uprobe_location \<Rightarrow> bool \<Rightarrow> uprobe" where
  "demo_probe fn a rel loc w =
     \<lparr>up_funcname = fn, up_address = a + rel, up_abs_offset = a + rel + 4096, up_rel_offset = rel,
      up_location = loc, up_fetch_args = [], up_values = [], up_wanted = w\<rparr>"

definition demo_probes :: "uprobe list" where
  "demo_probes =
     [demo_probe ''runtime.goexit1'' 50 0 AtGoroutineExit False,
      demo_probe ''main.f'' 100 0 AtEntry True, demo_probe ''main.f'' 100 10 AtRet True,
      demo_probe ''main.g'' 200 0 AtEntry False, demo_probe ''main.g'' 200 10 AtRet False,
      demo_probe ''main.h'' 300 0 AtEntry True, demo_probe ''main.h'' 300 10 AtRet True]"

lemma demo_matches:
  "match_wildcard ''main.g'' ''runtime.goexit1'' = False"
  "match_wildcard ''main.g'' ''main.f'' = False"
  "match_wildcard ''main.g'' ''main.g'' = True"
  "match_wildcard ''main.g'' ''main.h'' = False"
  "match_wildcard ''main.f'' ''runtime.goexit1'' = False"
  "match_wildcard ''main.f'' ''main.f'' = True"
  "match_wildcard ''main.f'' ''main.g'' = False"
  "match_wildcard ''main.f'' ''main.h'' = False"
  "match_wildcard ''*.h'' ''runtime.goexit1'' = False"
  "match_wildcard ''*.h'' ''main.f'' = False"
  "match_wildcard ''*.h'' ''main.g'' = False"
  "match_wildcard ''*.h'' ''main.h'' = True"
  by code_simp+

lemma demo_parsed:
  "parse_uprobes (\<lambda>p. OtherType ''void'' 0) (\<lambda>fn. None) demo_symbols demo_text demo_rets demo_options = Inr demo_probes"
  by (simp add: parse_uprobes_def fill_auto_fetch_def resolve_symbol_def sym_names_def func_offset_def demo_symbols_def
      demo_text_def attach_funcs_def wanted_funcs_def attached_def demo_options_def demo_matches
      demo_rets_def demo_probes_def demo_probe_def contains_def Let_def)


definition demo_fresh :: bpf_state where
  "demo_fresh = demo_state\<lparr>should_trace_rip := Map.empty, should_trace_ret := Map.empty\<rparr>"

definition demo_load_options :: load_options where
  "demo_load_options = \<lparr>lo_goid_offset = 160, lo_g_offset = -8, lo_adaptive_sampling = True\<rparr>"

lemma demo_entries: "wanted_entries demo_probes ''main.f'' = 100" "wanted_entries demo_probes ''main.h'' = 300"
  by (simp_all add: wanted_entries_def demo_probes_def demo_probe_def wanted_entry_def)

lemma demo_loaded_state: "loaded demo_probes True demo_fresh = demo_state"
  by (simp add: loaded_def demo_entries) (simp add: demo_probes_def demo_probe_def wanted_entry_def wanted_ret_def
      fetching_def demo_fresh_def demo_state_def demo_entries [unfolded demo_probes_def demo_probe_def, simplified], auto simp: fun_eq_iff)

lemma demo_loaded: "load 0 0 demo_probes demo_load_options demo_fresh = Inr (demo_cfg, demo_state)"
proof -
  have "fresh demo_fresh" by (simp add: fresh_def demo_fresh_def demo_state_def)
  moreover have "loadable demo_probes True"
    by (simp add: loadable_def fetching_def Let_def) (simp add: demo_probes_def demo_probe_def wanted_entry_def wanted_ret_def)
  moreover have "load_config 0 0 demo_probes demo_load_options = demo_cfg"
    by (simp add: load_config_def demo_probes_def demo_probe_def demo_load_options_def demo_cfg_def)
  ultimately show ?thesis
    by (simp add: load_result demo_loaded_state demo_load_options_def)
qed

theorem load_outcome_witness:
  "load 0 0 demo_probes demo_load_options demo_fresh = Inr (demo_cfg, demo_state) \<longleftrightarrow>
     loadable demo_probes (lo_adaptive_sampling demo_load_options) \<and>
     (demo_cfg, demo_state) = (load_config 0 0 demo_probes demo_load_options,
        loaded demo_probes (lo_adaptive_sampling demo_load_options) demo_fresh)"
  by (rule load_outcome) (simp add: fresh_def demo_fresh_def demo_state_def)


end
