(* ===== verification/Ftrace_Aggregate.thy ===== *)
theory Ftrace_Aggregate
  imports Ftrace_View Ftrace_Traced
begin

text \<open>
  A sampled root call on its way from the probes to the statistics: the event stream of the
  BPF program, among the events of other goroutines, taken by the event manager in aggregate
  mode. The tree of calls of \<open>Ftrace_Calls\<close> comes back as one record per call.
\<close>

section \<open>Runs of the manager\<close>

definition manager_run :: "'k services \<Rightarrow> event list \<Rightarrow> 'k manager \<Rightarrow> 'k manager" where
  "manager_run sv = fold (\<lambda>e m. snd (handle sv e m))"

lemma manager_run_simps [simp]:
  "manager_run sv [] m = m" "manager_run sv (e # es) m = manager_run sv es (snd (handle sv e m))"
  by (simp_all add: manager_run_def)

lemma manager_run_append: "manager_run sv (as @ bs) m = manager_run sv bs (manager_run sv as m)"
  by (simp add: manager_run_def)

text \<open>
  What the manager needs to take the events as they come: the budget, a place in the process
  table, and no event that shows a type still to be learned.
\<close>

definition ready :: "'k services \<Rightarrow> event list \<Rightarrow> 'k manager \<Rightarrow> bool" where
  "ready sv es m \<longleftrightarrow>
     manager_ok m \<and> mg_aggregate m \<and> card (pid_keys m \<union> ev_pid ` set es) \<le> 64 \<and>
     unat (mg_pending m) + length es \<le> unat (mg_max_pending m) \<and>
     list_all (\<lambda>e. \<forall>u. sv_learn sv u e (mg_learned m) = mg_learned m) es"

text \<open>An operation that adds at most one event, of process \<open>pid\<close>.\<close>

definition grows :: "u32 \<Rightarrow> nat \<Rightarrow> 'k manager \<Rightarrow> 'k manager \<Rightarrow> bool" where
  "grows pid n m m' \<longleftrightarrow>
     unat (mg_pending m') \<le> n + unat (mg_pending m) \<and> pid_keys m' \<subseteq> insert pid (pid_keys m) \<and>
     mg_learned m' = mg_learned m"

lemma grows_trans: "grows pid n m m' \<Longrightarrow> grows pid 0 m' m'' \<Longrightarrow> grows pid n m m''"
  by (auto simp: grows_def)

lemma grows_trans': "grows pid 0 m m' \<Longrightarrow> grows pid n m' m'' \<Longrightarrow> grows pid n m m''"
  by (auto simp: grows_def)

lemma grows_weaken: "grows pid 0 m m' \<Longrightarrow> grows pid n m m'"
  by (auto simp: grows_def)

lemma grows_fields [simp]:
  "grows pid n m m" "grows pid n m (x\<lparr>mg_suppressed := s\<rparr>) = grows pid n m x" "grows pid n m (x\<lparr>mg_dropped_stacks := a\<rparr>) = grows pid n m x"
  "grows pid n m (x\<lparr>mg_dropped_incomplete := a\<rparr>) = grows pid n m x" "grows pid n m (x\<lparr>mg_dropped_aborted := a\<rparr>) = grows pid n m x"
  "grows pid n m (x\<lparr>mg_dropped_over_budget := a\<rparr>) = grows pid n m x"
  "grows pid n m (put_pid_state pid st x) = grows pid n m x"
  by (auto simp: grows_def)

lemma drop_grows: "grows pid n m x \<Longrightarrow> grows pid n m (drop_stack p g x)"
  using drop_pending [of p g x] by (auto simp: grows_def word_le_nat_alt)

lemma touch_grows: "has_room x pid \<Longrightarrow> grows pid n m x \<Longrightarrow> grows pid n m (touch_pid pid x)"
  by (auto simp: grows_def touch_room)

lemma admit_grows:
  assumes "admit_event e m = (ok, m')"
  shows "grows (ev_pid e) 0 m m'"
proof -
  have "grows (ev_pid e) 0 m (reset_stale_sample e m)"
    by (simp add: reset_stale_sample_def drop_grows split: option.split)
  then show ?thesis
    using assms by (auto simp: admit_event_def Let_def drop_grows split: if_splits)
qed

lemma store_grows:
  assumes "sv_learn sv u e (mg_learned m) = mg_learned m"
  shows "grows (ev_pid e) 1 m (store_event sv u e m)"
  using assms by (auto simp: store_event_def grows_def Let_def unat_word_ariths)

lemma add_grows:
  assumes "manager_ok m" "has_room m (ev_pid e)" "\<And>u. sv_learn sv u e (mg_learned m) = mg_learned m"
    and "add_event sv e m = (ok, m')"
  shows "grows (ev_pid e) 1 m m'"
proof -
  obtain a m1 where ad: "admit_event e m = (a, m1)" by (cases "admit_event e m")
  have g1: "grows (ev_pid e) n m m1" for n by (rule grows_weaken [OF admit_grows [OF ad]])
  let ?m = "touch_pid (ev_pid e) m1"
  have g2: "grows (ev_pid e) n m ?m" for n
    by (rule touch_grows [OF admit_room [OF assms(1,2) ad] g1])
  have "grows (ev_pid e) 1 ?m (store_event sv u e ?m)" for u
    using assms(3) g2 [of 0] by (intro store_grows) (simp add: grows_def)
  then have "grows (ev_pid e) 1 m (store_event sv u e ?m)" for u
    by (rule grows_trans' [OF g2])
  then show ?thesis
    using assms(4) g1 g2 by (auto simp: add_event_def ad Let_def split: if_splits option.splits)
qed

lemma finish_grows:
  assumes "manager_ok m" "has_room m (ev_pid e)" "mg_aggregate m"
  shows "grows (ev_pid e) 0 m (snd (finish_stack e m))"
proof -
  let ?m = "touch_pid (ev_pid e) m"
  have "grows (ev_pid e) 0 m (touch_pid (ev_pid e) ?m)" "grows (ev_pid e) 0 m ?m"
    using assms by (simp_all add: touch_grows touch_has_room)
  then show ?thesis using assms(3) by (simp add: finish_stack_def Let_def aggregate_stack_def)
qed

lemma handle_grows:
  assumes "manager_ok m" "has_room m (ev_pid e)" "mg_aggregate m" "\<And>u. sv_learn sv u e (mg_learned m) = mg_learned m"
  shows "grows (ev_pid e) 1 m (snd (handle sv e m))" "mg_aggregate (snd (handle sv e m))"
    "get_uprobe (snd (handle sv e m)) = get_uprobe m"
proof -
  obtain added m1 where ad: "add_event sv e m = (added, m1)" by (cases "add_event sv e m")
  have ok1: "manager_ok m1" by (rule add_ok [OF assms(1) ad])
  have g1: "grows (ev_pid e) 1 m m1" by (rule add_grows [OF assms(1,2,4) ad])
  have "card (insert (ev_pid e) (pid_keys m1)) \<le> card (insert (ev_pid e) (pid_keys m))"
    using g1 by (intro card_mono) (auto simp: pid_keys_def grows_def)
  then have room1: "has_room m1 (ev_pid e)" using assms(1,2) ok1 by (simp add: ok_room)
  obtain b m2 where cl: "close_stack e m1 = (b, m2)" by (cases "close_stack e m1")
  have m2: "m2 = touch_pid (ev_pid e) m1" by (rule close_touches [OF cl])
  have g2: "grows (ev_pid e) 1 m m2" unfolding m2 by (rule touch_grows [OF room1 g1])
  note stat = add_static [OF ad]
  have "grows (ev_pid e) 0 m2 (snd (finish_stack e m2))"
    using ok1 room1 stat assms(3) by (intro finish_grows) (simp_all add: m2 touch_ok touch_has_room)
  then have g3: "grows (ev_pid e) 1 m (snd (finish_stack e m2))" by (rule grows_trans [OF g2])
  show "grows (ev_pid e) 1 m (snd (handle sv e m))"
    using g1 g2 g3 by (auto simp: handle_def ad cl Let_def drop_grows split: prod.split)
  have s: "mg_symbols (snd (handle sv e m)) = mg_symbols m \<and> mg_uprobes (snd (handle sv e m)) = mg_uprobes m \<and>
      mg_aggregate (snd (handle sv e m)) = mg_aggregate m"
    using stat finish_static [of e m2] by (auto simp: handle_def ad cl Let_def m2 split: prod.split)
  then show "mg_aggregate (snd (handle sv e m))" using assms(3) by simp
  show "get_uprobe (snd (handle sv e m)) = get_uprobe m"
    using s get_uprobe_cong by blast
qed

lemma ready_step:
  assumes "ready sv (e # es) m"
  shows "has_room m (ev_pid e)" "mg_pending m < mg_max_pending m"
    "ready sv es (snd (handle sv e m))" "mg_learned (snd (handle sv e m)) = mg_learned m"
    "get_uprobe (snd (handle sv e m)) = get_uprobe m"
proof -
  have ok: "manager_ok m" "mg_aggregate m" using assms by (simp_all add: ready_def)
  have "card (insert (ev_pid e) (pid_keys m)) \<le> card (pid_keys m \<union> ev_pid ` set (e # es))"
    by (intro card_mono) (auto simp: pid_keys_def)
  then show room: "has_room m (ev_pid e)" using assms ok by (simp add: ok_room ready_def)
  have learn: "sv_learn sv u e (mg_learned m) = mg_learned m" for u using assms by (simp add: ready_def)
  note g = handle_grows [OF ok(1) room ok(2) learn]
  show "mg_pending m < mg_max_pending m" using assms by (simp add: ready_def word_less_nat_alt)
  show "mg_learned (snd (handle sv e m)) = mg_learned m" using g(1) by (simp add: grows_def)
  have "pid_keys (snd (handle sv e m)) \<union> ev_pid ` set es \<subseteq> pid_keys m \<union> ev_pid ` set (e # es)"
    using g(1) by (auto simp: grows_def)
  then have "card (pid_keys (snd (handle sv e m)) \<union> ev_pid ` set es) \<le> card (pid_keys m \<union> ev_pid ` set (e # es))"
    by (intro card_mono) (auto simp: pid_keys_def)
  then show "ready sv es (snd (handle sv e m))"
    using assms g ok handle_ok [OF ok(1), of sv e] by (simp add: ready_def grows_def handle_max)
  show "get_uprobe (snd (handle sv e m)) = get_uprobe m" by (rule g(3))
qed

lemma ready_run:
  "ready sv (as @ bs) m \<Longrightarrow> ready sv bs (manager_run sv as m) \<and>
     mg_learned (manager_run sv as m) = mg_learned m \<and> get_uprobe (manager_run sv as m) = get_uprobe m"
proof (induction as arbitrary: m)
  case (Cons e es)
  then show ?case using ready_step [of sv e "es @ bs" m] by simp
qed simp

lemma others_run:
  "ready sv (es @ fs) m \<Longrightarrow> filter (\<lambda>e. sample_key e = k) es = [] \<Longrightarrow> keeps k m (manager_run sv es m)"
proof (induction es arbitrary: m)
  case (Cons e es)
  have "keeps k m (snd (handle sv e m))"
    using ready_step [of sv e "es @ fs" m] Cons.prems
    by (intro handle_keeps) (auto simp: ready_def split: if_splits)
  moreover have "keeps k (snd (handle sv e m)) (manager_run sv es (snd (handle sv e m)))"
    using Cons ready_step [of sv e "es @ fs" m] by (auto split: if_splits)
  ultimately show ?case unfolding manager_run_simps by (rule keeps_trans)
qed simp

section \<open>A sample as a tree\<close>

text \<open>
  The events of one call: its entry, the entry repeated after a move of the stack, the calls
  it makes and its return; as the BPF program reports them for a call of the traced program.
\<close>

datatype traced = Traced event "event option" "traced list" event

fun traced_events :: "traced \<Rightarrow> event list" where
  "traced_events (Traced e again subs x) =
     e # (case again of None \<Rightarrow> [] | Some e' \<Rightarrow> [e']) @ concat (map traced_events subs) @ [x]"

fun shows_call :: "u64 \<Rightarrow> call \<Rightarrow> traced \<Rightarrow> bool" where
  "shows_call cbp (Call ip r bp moved calls) (Traced e again subs x) \<longleftrightarrow>
     reports e (At_entry ip bp cbp) \<and>
     (case (moved, again) of
        (None, None) \<Rightarrow> True
      | (Some (bp', cbp'), Some e') \<Rightarrow> reports e' (At_entry ip bp' cbp')
      | _ \<Rightarrow> False) \<and>
     list_all2 (shows_call (frame_bp (Call ip r bp moved calls))) calls subs \<and>
     reports x (At_return r)"

text \<open>The entry that counts is the last one.\<close>

definition kept :: "event \<Rightarrow> event option \<Rightarrow> event" where
  "kept e again = (case again of None \<Rightarrow> e | Some e' \<Rightarrow> e')"

text \<open>What the statistics record of it: one record per call, in the order the calls return.\<close>

fun records_of :: "(u64 \<Rightarrow> uprobe) \<Rightarrow> (event \<Rightarrow> string) \<Rightarrow> traced \<Rightarrow> call_record list" where
  "records_of probe text (Traced e again subs x) =
     concat (map (records_of probe text) subs) @
     [\<lparr>cr_func = up_funcname (probe (ev_ip x)),
       cr_elapsed = ev_time_ns x - ev_time_ns (kept e again), cr_retval = text x,
       cr_weight = (let w = ucast (ev_sample_denominator (kept e again)) in if w = 0 then 1 else w)\<rparr>]"

fun stored_of :: "(u64 \<Rightarrow> uprobe) \<Rightarrow> (event \<Rightarrow> string) \<Rightarrow> traced \<Rightarrow> mgr_event list" where
  "stored_of probe text (Traced e again subs x) =
     \<lparr>me_event = kept e again, me_uprobe = probe (ev_ip e), me_args = text e\<rparr> #
     concat (map (stored_of probe text) subs) @
     [\<lparr>me_event = x, me_uprobe = probe (ev_ip x), me_args = text x\<rparr>]"

text \<open>The probes of a call: one at its entry, one at its RET that belongs to the function.\<close>

fun call_probes :: "(u64 \<Rightarrow> uprobe option) \<Rightarrow> call \<Rightarrow> bool" where
  "call_probes at (Call ip r bp moved calls) \<longleftrightarrow>
     at ip \<noteq> None \<and>
     (case at r of None \<Rightarrow> False | Some u \<Rightarrow> up_address u - up_rel_offset u = ip) \<and>
     list_all (call_probes at) calls"

lemma aggregate_stored:
  assumes "shows_call cbp call t" "call_probes at call"
  shows "aggregate_loop (stored_of (\<lambda>a. the (at a)) text t @ rest) frames =
    records_of (\<lambda>a. the (at a)) text t @ aggregate_loop rest frames"
  using assms
proof (induction call arbitrary: cbp t rest frames)
  case (Call ip r bp moved calls)
  obtain e again subs x where t: "t = Traced e again subs x" by (cases t)
  let ?s = "stored_of (\<lambda>a. the (at a)) text" and ?r = "records_of (\<lambda>a. the (at a)) text"
  have subs: "aggregate_loop (concat (map ?s subs) @ rest') frames' =
      concat (map ?r subs) @ aggregate_loop rest' frames'"
    if "list_all2 (shows_call b) cs subs" "set cs \<subseteq> set calls" for b cs subs rest' frames'
    using that
  proof (induction arbitrary: rest' frames' rule: list_all2_induct)
    case (Cons c cs s ss)
    then show ?case using Call.IH [of c] Call.prems(2) by (simp add: list_all_iff)
  qed simp
  obtain u where u: "at r = Some u" "up_address u - up_rel_offset u = ip"
    using Call.prems(2) by (auto split: option.splits)
  have k: "ev_location (kept e again) = ENTPOINT" "ev_ip (kept e again) = ip"
    using Call.prems(1) by (auto simp: t kept_def split: option.splits)
  have x: "ev_location x = RETPOINT" "ev_ip x = r" using Call.prems(1) by (simp_all add: t)
  have "list_all2 (shows_call (frame_bp (Call ip r bp moved calls))) calls subs"
    using Call.prems(1) by (simp add: t)
  note subs = subs [OF this order_refl]
  show ?case
    using k x u by (simp add: t subs Let_def location_defs)
qed

section \<open>Watching a sample\<close>

definition watch :: "(u64 \<Rightarrow> uprobe option) \<Rightarrow> (event \<Rightarrow> string) \<Rightarrow> event \<Rightarrow>
    mgr_event list \<times> u64 list \<times> bool \<Rightarrow> mgr_event list \<times> u64 list \<times> bool" where
  "watch at text e v = observe e (the (at (ev_ip e))) (text e) v"

text \<open>The last stored event does not make an entry of caller \<open>cbp\<close> look repeated.\<close>

definition fits_caller :: "mgr_event list \<Rightarrow> u64 \<Rightarrow> bool" where
  "fits_caller es cbp \<longleftrightarrow> es = [] \<or>
     (ev_location (me_event (last es)) = ENTPOINT \<longrightarrow> ev_bp (me_event (last es)) = cbp) \<and>
     (ev_location (me_event (last es)) = RETPOINT \<longrightarrow> ev_bp (me_event (last es)) = 0)"

lemma observe_entry:
  "reports e (At_entry ip bp cbp) \<Longrightarrow> fits_caller es cbp \<Longrightarrow>
     observe e u args (es, stack, bad) = (es @ [\<lparr>me_event = e, me_uprobe = u, me_args = args\<rparr>], stack @ [ip], bad)"
  by (auto simp: observe_def is_repeated_entry_def fits_caller_def Let_def location_defs)

lemma observe_again:
  "reports e (At_entry ip bp cbp) \<Longrightarrow> reports e' (At_entry ip bp' cbp') \<Longrightarrow> cbp' \<noteq> bp \<Longrightarrow>
     observe e' u args (es @ [\<lparr>me_event = e, me_uprobe = u', me_args = args'\<rparr>], stack, bad) =
       (es @ [\<lparr>me_event = e', me_uprobe = u', me_args = args'\<rparr>], stack, bad)"
  by (simp add: observe_def is_repeated_entry_def)

lemma observe_return:
  "reports x (At_return r) \<Longrightarrow> fits_caller es cbp \<Longrightarrow> up_address u - up_rel_offset u = ip \<Longrightarrow>
     observe x u args (es, stack @ [ip], bad) = (es @ [\<lparr>me_event = x, me_uprobe = u, me_args = args\<rparr>], stack, bad)"
  by (auto simp: observe_def is_repeated_entry_def fits_caller_def Let_def location_defs)

lemma watch_call:
  assumes "shows_call cbp call t" "call_ok rets root call" "call_probes at call" "fits_caller es cbp"
  shows "fold (watch at text) (traced_events t) (es, stack, bad) =
      (es @ stored_of (\<lambda>a. the (at a)) text t, stack, bad) \<and>
    fits_caller (es @ stored_of (\<lambda>a. the (at a)) text t) c"
  using assms
proof (induction call arbitrary: cbp t es stack c)
  case (Call ip r bp moved calls)
  let ?call = "Call ip r bp moved calls" and ?s = "stored_of (\<lambda>a. the (at a)) text"
  obtain e again subs x where t: "t = Traced e again subs x" by (cases t)
  have e: "reports e (At_entry ip bp cbp)" and x: "reports x (At_return r)"
      and subs: "list_all2 (shows_call (frame_bp ?call)) calls subs"
    using Call.prems(1) by (simp_all add: t del: reports.simps)
  let ?k = "\<lparr>me_event = kept e again, me_uprobe = the (at ip), me_args = text e\<rparr>"
  have entry: "fold (watch at text) (e # (case again of None \<Rightarrow> [] | Some e' \<Rightarrow> [e'])) (es, stack, bad) =
      (es @ [?k], stack @ [ip], bad)"
    and k: "fits_caller (es @ [?k]) (frame_bp ?call)"
  proof -
    have ip: "ev_ip e = ip" using e by simp
    consider "moved = None" "again = None" |
      bp' cbp' e' where "moved = Some (bp', cbp')" "again = Some e'" "reports e' (At_entry ip bp' cbp')" "cbp' \<noteq> bp"
      using Call.prems(1,2) by (auto simp: t split: option.splits)
    then have "fold (watch at text) (e # (case again of None \<Rightarrow> [] | Some e' \<Rightarrow> [e'])) (es, stack, bad) =
      (es @ [?k], stack @ [ip], bad) \<and> fits_caller (es @ [?k]) (frame_bp ?call)"
    proof cases
      case 1
      then show ?thesis
        using observe_entry [OF e Call.prems(4)] e
        by (simp add: watch_def kept_def ip fits_caller_def frame_bp_def location_defs)
    next
      case 2
      then show ?thesis
        using observe_entry [OF e Call.prems(4)] observe_again [OF e 2(3,4)] 
        by (simp add: watch_def kept_def ip fits_caller_def frame_bp_def location_defs)
    qed
    then show "fold (watch at text) (e # (case again of None \<Rightarrow> [] | Some e' \<Rightarrow> [e'])) (es, stack, bad) =
      (es @ [?k], stack @ [ip], bad)" "fits_caller (es @ [?k]) (frame_bp ?call)" by blast+
  qed
  have forest: "fold (watch at text) (concat (map traced_events ts)) (fs, stack', bad) =
      (fs @ concat (map ?s ts), stack', bad) \<and> fits_caller (fs @ concat (map ?s ts)) b"
    if "list_all2 (shows_call b) cs ts" "set cs \<subseteq> set calls" "fits_caller fs b" for b cs ts fs stack'
    using that
  proof (induction arbitrary: fs rule: list_all2_induct)
    case (Cons c cs s ts)
    have "call_ok rets root c" "call_probes at c" "c \<in> set calls"
      using Cons.prems(1) Call.prems(2,3) by (auto simp: list_all_iff)
    then have "fold (watch at text) (traced_events s) (fs, stack', bad) = (fs @ ?s s, stack', bad) \<and> fits_caller (fs @ ?s s) b"
      using Call.IH [of c b s fs stack' b] Cons by simp
    then show ?case using Cons.IH [of "fs @ ?s s"] Cons.prems by simp
  qed simp
  note subs = forest [OF subs order_refl k, of "stack @ [ip]"]
  obtain u where u: "at r = Some u" "up_address u - up_rel_offset u = ip"
    using Call.prems(3) by (auto split: option.splits)
  have ret: "ev_ip x = r" "ev_ip e = ip" using x e by simp_all
  have "watch at text x (es @ [?k] @ concat (map ?s subs), stack @ [ip], bad) =
      ((es @ [?k] @ concat (map ?s subs)) @ [\<lparr>me_event = x, me_uprobe = the (at r), me_args = text x\<rparr>], stack, bad)"
    using observe_return [OF x, of "es @ [?k] @ concat (map ?s subs)" "frame_bp ?call" u ip] subs u
    by (simp add: watch_def ret)
  then show ?case
    using entry subs x by (simp add: t ret fits_caller_def location_defs)
qed

section \<open>The manager on the events of a goroutine\<close>

lemma observe_nonempty: "fst (observe e u args v) \<noteq> []"
  by (simp add: observe_def Let_def split: prod.split)

definition probe_at :: "'k manager \<Rightarrow> u64 \<Rightarrow> uprobe option" where
  "probe_at m ip = get_uprobe m (zero_event\<lparr>ev_ip := ip\<rparr>)"

lemma get_uprobe_at: "get_uprobe m e = probe_at m (ev_ip e)"
  by (simp add: probe_at_def get_uprobe_def)

definition event_text :: "'k services \<Rightarrow> 'k manager \<Rightarrow> event \<Rightarrow> string" where
  "event_text sv m e = sv_render sv (mg_learned m) (the (probe_at m (ev_ip e))) e"

lemma ready_same:
  assumes "ready sv (e # es) m"
  shows "probe_at (snd (handle sv e m)) = probe_at m" "event_text sv (snd (handle sv e m)) = event_text sv m"
  using ready_step(4,5) [OF assms] by (simp_all add: probe_at_def event_text_def fun_eq_iff)

lemma ready_learns: "ready sv (e # es) m \<Longrightarrow> sv_learn sv u e (mg_learned m) = mg_learned m"
  by (simp add: ready_def)

lemma inside_run:
  assumes "ready sv (es @ fs) m" "fst (goroutine_view m k) \<noteq> []" "k \<notin> set (mg_suppressed m)"
    and "list_all (\<lambda>e. ev_trace_flags e = 0 \<and> ev_location e \<noteq> GOROUTINE_EXIT \<and> probe_at m (ev_ip e) \<noteq> None)
           (filter (\<lambda>e. sample_key e = k) es)"
  shows "goroutine_view (manager_run sv es m) k =
      fold (watch (probe_at m) (event_text sv m)) (filter (\<lambda>e. sample_key e = k) es) (goroutine_view m k) \<and>
    fst (goroutine_view (manager_run sv es m) k) \<noteq> [] \<and>
    (\<exists>xs. agg_of (manager_run sv es m) (fst k) = fold record_agg xs (agg_of m (fst k))) \<and>
    k \<notin> set (mg_suppressed (manager_run sv es m))"
  using assms
proof (induction es arbitrary: m)
  case Nil
  show ?case using Nil.prems by (simp add: exI [of _ "[]"])
next
  case (Cons e es)
  let ?m = "snd (handle sv e m)"
  have r: "ready sv (e # es @ fs) m" using Cons.prems(1) by simp
  note st = ready_step [OF r] and same = ready_same [OF r]
  have ok: "manager_ok m" "mg_aggregate m" using r by (simp_all add: ready_def)
  have step: "goroutine_view ?m k = (if sample_key e = k then watch (probe_at m) (event_text sv m) e (goroutine_view m k)
        else goroutine_view m k) \<and>
      (\<exists>xs. agg_of ?m (fst k) = fold record_agg xs (agg_of m (fst k))) \<and> k \<notin> set (mg_suppressed ?m)"
  proof (cases "sample_key e = k")
    case True
    have f: "ev_trace_flags e = 0" "ev_location e \<noteq> GOROUTINE_EXIT" "probe_at m (ev_ip e) \<noteq> None"
      using Cons.prems(4) True by simp_all
    then obtain u where u: "probe_at m (ev_ip e) = Some u" by auto
    have ns: "\<not> starts e" using f by (simp add: starts_def)
    have "goroutine_view ?m k = observe e u (sv_render sv (mg_learned m) u e) (goroutine_view m k) \<and>
        agg_of ?m (fst k) = agg_of m (fst k) \<and> k \<notin> set (mg_suppressed ?m)"
      using handle_inside(1) [OF True ok(1) st(1) ok(2) st(2) _ Cons.prems(3) _ ready_learns [OF r], of u]
        f u ns Cons.prems(2) by (simp add: settled_def get_uprobe_at)
    then show ?thesis using True u by (auto simp: watch_def event_text_def intro: exI [of _ "[]"])
  next
    case False
    then show ?thesis
      using handle_keeps [OF False ok(1) st(1) ok(2), of sv] Cons.prems(3) by (simp add: keeps_def)
  qed
  have ne: "fst (goroutine_view ?m k) \<noteq> []"
    using step Cons.prems(2) observe_nonempty by (simp add: watch_def)
  have "list_all (\<lambda>e. ev_trace_flags e = 0 \<and> ev_location e \<noteq> GOROUTINE_EXIT \<and> probe_at ?m (ev_ip e) \<noteq> None)
           (filter (\<lambda>e. sample_key e = k) es)"
    using Cons.prems(4) by (simp add: same split: if_splits)
  note IH = Cons.IH [OF st(3) ne _ this]
  obtain xs where xs: "agg_of ?m (fst k) = fold record_agg xs (agg_of m (fst k))" using step by blast
  obtain ys where "agg_of (manager_run sv es ?m) (fst k) = fold record_agg ys (agg_of ?m (fst k))" using IH step by blast
  then have "agg_of (manager_run sv es ?m) (fst k) = fold record_agg (xs @ ys) (agg_of m (fst k))" by (simp add: xs)
  then have "\<exists>zs. agg_of (manager_run sv es ?m) (fst k) = fold record_agg zs (agg_of m (fst k))" by blast
  moreover have "goroutine_view (manager_run sv (e # es) m) k =
      fold (watch (probe_at m) (event_text sv m)) (filter (\<lambda>e. sample_key e = k) (e # es)) (goroutine_view m k)"
    using IH step by (cases "sample_key e = k") (simp_all add: same)
  ultimately show ?case using IH step by (intro conjI) (unfold manager_run_simps, blast+)
qed

lemma filter_split:
  "filter P xs = as @ bs \<Longrightarrow> \<exists>us vs. xs = us @ vs \<and> filter P us = as \<and> filter P vs = bs"
proof (induction xs arbitrary: as)
  case (Cons x xs)
  show ?case
  proof (cases "P x \<and> as \<noteq> []")
    case True
    then obtain as' where "as = x # as'" "filter P xs = as' @ bs" using Cons.prems by (cases as) auto
    then show ?thesis using Cons.IH [of as'] True by (metis append_Cons filter.simps(2))
  next
    case False
    show ?thesis
    proof (cases "P x")
      case True
      then show ?thesis using False Cons.prems by (intro exI [of _ "[]"] exI [of _ "x # xs"]) simp
    next
      case False
      then obtain us vs where "xs = us @ vs" "filter P us = as" "filter P vs = bs"
        using Cons.IH [of as] Cons.prems by auto
      then show ?thesis using False by (intro exI [of _ "x # us"] exI [of _ vs]) simp
    qed
  qed
qed simp

text \<open>One sample among the events of other goroutines: aggregated once, and forgotten.\<close>

lemma sample_run:
  assumes "ready sv es m" "settled (goroutine_view m k)"
    and own: "filter (\<lambda>e. sample_key e = k) es = e # mid @ [x]"
    and e: "ev_trace_flags e = TRACE_START" "ev_location e = ENTPOINT" "probe_at m (ev_ip e) \<noteq> None"
    and mid: "list_all (\<lambda>e. ev_trace_flags e = 0 \<and> ev_location e \<noteq> GOROUTINE_EXIT \<and> probe_at m (ev_ip e) \<noteq> None) mid"
    and x: "ev_trace_flags x = TRACE_END" "ev_location x \<noteq> GOROUTINE_EXIT" "probe_at m (ev_ip x) \<noteq> None"
    and seen: "fold (watch (probe_at m) (event_text sv m)) (e # mid @ [x]) ([], [], False) = (L, [], False)"
  shows "goroutine_view (manager_run sv es m) k = ([], [], False) \<and>
    (\<exists>xs ys. agg_of (manager_run sv es m) (fst k) =
       fold record_agg (xs @ aggregate_loop L [] @ ys) (agg_of m (fst k)))"
proof -
  let ?own = "\<lambda>e. sample_key e = k"
  obtain a r where es1: "es = a @ e # r" "filter ?own a = []" "filter ?own r = mid @ [x]" "?own e"
    using own by (auto simp: filter_eq_Cons_iff)
  obtain b r' where r: "r = b @ r'" "filter ?own b = mid" "filter ?own r' = [x]"
    using filter_split [OF es1(3)] by blast
  obtain b' c where es2: "r' = b' @ x # c" "filter ?own b' = []" "filter ?own c = []" "?own x"
    using r(3) by (auto simp: filter_eq_Cons_iff)
  have es: "es = a @ e # (b @ b') @ x # c" "filter ?own (b @ b') = mid"
    using es1(1) r(1,2) es2(1,2) by simp_all
  let ?m1 = "manager_run sv a m"
  let ?m2 = "snd (handle sv e ?m1)"
  let ?m3 = "manager_run sv (b @ b') ?m2"
  let ?m4 = "snd (handle sv x ?m3)"
  have k1: "keeps k m ?m1" using others_run [of sv a "e # (b @ b') @ x # c" m k] assms(1) es es1(2) by simp
  have r1: "ready sv (e # (b @ b') @ x # c) ?m1"
    and same1: "probe_at ?m1 = probe_at m" "event_text sv ?m1 = event_text sv m"
    using ready_run [of sv a "e # (b @ b') @ x # c" m] assms(1) es(1)
    by (simp_all add: probe_at_def event_text_def fun_eq_iff)
  note st1 = ready_step [OF r1] and same2 = ready_same [OF r1, unfolded same1]
  have ok1: "manager_ok ?m1" "mg_aggregate ?m1" using r1 by (simp_all add: ready_def)
  obtain u where u: "probe_at m (ev_ip e) = Some u" using e(3) by auto
  have t1: "sv_render sv (mg_learned ?m1) u e = event_text sv m e"
    using fun_cong [OF same1(2), of e] u by (simp add: event_text_def same1(1))
  have se: "starts e" using e(1) by (simp add: starts_def flag_defs)
  have v1: "settled (goroutine_view ?m1 k)" using k1 assms(2) by (simp add: keeps_def)
  have h1: "goroutine_view ?m2 k = watch (probe_at m) (event_text sv m) e ([], [], False) \<and>
      agg_of ?m2 (fst k) = agg_of ?m1 (fst k) \<and> k \<notin> set (mg_suppressed ?m2)"
    using handle_inside(1) [OF es1(4) ok1(1) st1(1) ok1(2) st1(2) v1 _ _ ready_learns [OF r1], of u] u e se t1
    by (simp add: get_uprobe_at watch_def same1(1) flag_defs location_defs)
  have r2: "ready sv ((b @ b') @ x # c) ?m2" by (rule st1(3))
  have "fst (goroutine_view ?m2 k) \<noteq> []" using h1 observe_nonempty by (simp add: watch_def)
  note in_run = inside_run [OF r2 this]
  have h2: "goroutine_view ?m3 k = fold (watch (probe_at m) (event_text sv m)) mid (goroutine_view ?m2 k) \<and>
      fst (goroutine_view ?m3 k) \<noteq> [] \<and>
      (\<exists>xs. agg_of ?m3 (fst k) = fold record_agg xs (agg_of ?m2 (fst k))) \<and>
      k \<notin> set (mg_suppressed ?m3)"
    using in_run h1 mid unfolding es(2) same2 by blast
  have r3: "ready sv (x # c) ?m3"
    and same3: "probe_at ?m3 = probe_at m" "event_text sv ?m3 = event_text sv m"
    using ready_run [OF r2] same2 by (simp_all add: probe_at_def event_text_def fun_eq_iff)
  note st3 = ready_step [OF r3]
  have ok3: "manager_ok ?m3" "mg_aggregate ?m3" using r3 by (simp_all add: ready_def)
  obtain w where w: "probe_at m (ev_ip x) = Some w" using x(3) by auto
  have sx: "\<not> starts x" using x(1) by (simp add: starts_def flag_defs)
  have v3: "observe x w (sv_render sv (mg_learned ?m3) w x) (goroutine_view ?m3 k) = (L, [], False)"
  proof -
    have t3: "sv_render sv (mg_learned ?m3) w x = event_text sv m x"
      using fun_cong [OF same3(2), of x] w by (simp add: event_text_def same3(1))
    have "watch (probe_at m) (event_text sv m) x (goroutine_view ?m3 k) = (L, [], False)"
      using seen h1 h2 by simp
    then show ?thesis using w by (simp add: watch_def t3)
  qed
  have h3: "goroutine_view ?m4 k = ([], [], False) \<and>
      agg_of ?m4 (fst k) = fold record_agg (aggregate_loop L []) (agg_of ?m3 (fst k))"
  proof -
    have q2: "fst (goroutine_view ?m3 k) \<noteq> []" and q3: "k \<notin> set (mg_suppressed ?m3)" using h2 by blast+
    have q1: "settled (goroutine_view ?m3 k)" using q2 by (simp add: settled_def)
    have "get_uprobe ?m3 x = Some w" using w by (simp add: get_uprobe_at same3(1))
    note h = handle_inside(2) [OF es2(4) ok3(1) st3(1) ok3(2) st3(2) q1 q3 this ready_learns [OF r3]]
    have fl: "and (ev_trace_flags x) TRACE_ABORT = 0" "and (ev_trace_flags x) TRACE_END \<noteq> 0"
      by (simp_all add: x(1) flag_defs)
    show ?thesis using h [OF _ x(2) fl] q2 sx v3 by simp
  qed
  have k4: "keeps k ?m4 (manager_run sv c ?m4)"
    using others_run [of sv c "[]" ?m4 k] st3(3) es2(3) by simp
  have run: "manager_run sv es m = manager_run sv c ?m4" by (simp add: es(1) manager_run_append)
  obtain x1 where "agg_of ?m1 (fst k) = fold record_agg x1 (agg_of m (fst k))" using k1 by (auto simp: keeps_def)
  moreover obtain x2 where "agg_of ?m3 (fst k) = fold record_agg x2 (agg_of ?m2 (fst k))" using h2 by blast
  moreover obtain x3 where "agg_of (manager_run sv c ?m4) (fst k) = fold record_agg x3 (agg_of ?m4 (fst k))"
    using k4 by (auto simp: keeps_def)
  ultimately have "agg_of (manager_run sv es m) (fst k) =
      fold record_agg ((x1 @ x2) @ aggregate_loop L [] @ x3) (agg_of m (fst k))"
    using h1 h3 by (simp add: run)
  moreover have "goroutine_view (manager_run sv es m) k = ([], [], False)"
    using h3 k4 by (simp add: run keeps_def)
  ultimately show ?thesis by blast
qed

section \<open>From the traced program to the statistics\<close>

lemma shown_tree:
  "list_all2 reports evs (script cbp call) \<Longrightarrow> \<exists>t. traced_events t = evs \<and> shows_call cbp call t"
proof (induction call arbitrary: cbp evs)
  case (Call ip r bp moved calls)
  let ?call = "Call ip r bp moved calls"
  have forest: "\<exists>ts. concat (map traced_events ts) = es \<and> list_all2 (shows_call b) cs ts"
    if "list_all2 reports es (concat (map (script b) cs))" "set cs \<subseteq> set calls" for b cs es
    using that
  proof (induction cs arbitrary: es)
    case Nil
    then show ?case by simp
  next
    case (Cons c cs)
    obtain es1 es2 where es: "es = es1 @ es2" "list_all2 reports es1 (script b c)"
        "list_all2 reports es2 (concat (map (script b) cs))"
      using Cons.prems(1) by (auto simp: list_all2_append2)
    obtain t where "traced_events t = es1" "shows_call b c t" using Call.IH [of c es1 b] es(2) Cons.prems(2) by auto
    moreover obtain ts where "concat (map traced_events ts) = es2" "list_all2 (shows_call b) cs ts"
      using Cons.IH [OF es(3)] Cons.prems(2) by auto
    ultimately show ?case using es(1) by (intro exI [of _ "t # ts"]) simp
  qed
  obtain e es where e: "evs = e # es" "reports e (At_entry ip bp cbp)"
      "list_all2 reports es ((case moved of None \<Rightarrow> [] | Some (bp', caller_bp') \<Rightarrow> [At_entry ip bp' caller_bp'])
         @ concat (map (script (frame_bp ?call)) calls) @ [At_return r])"
    using Call.prems by (auto simp: list_all2_Cons2)
  obtain as fs x where s: "es = as @ fs @ [x]"
      "list_all2 reports as (case moved of None \<Rightarrow> [] | Some (bp', caller_bp') \<Rightarrow> [At_entry ip bp' caller_bp'])"
      "list_all2 reports fs (concat (map (script (frame_bp ?call)) calls))" "reports x (At_return r)"
    using e(3) by (auto simp: list_all2_append2 list_all2_Cons2 simp del: reports.simps)
  obtain ts where ts: "concat (map traced_events ts) = fs" "list_all2 (shows_call (frame_bp ?call)) calls ts"
    using forest [OF s(3)] by blast
  show ?case
  proof (cases moved)
    case None
    then show ?thesis using e s ts by (intro exI [of _ "Traced e None ts x"]) simp
  next
    case (Some mv)
    then obtain e' where "as = [e']" "reports e' (At_entry ip (fst mv) (snd mv))"
      using s(2) by (auto simp: list_all2_Cons2 split: prod.splits simp del: reports.simps)
    then show ?thesis
      using e s ts Some by (intro exI [of _ "Traced e (Some e') ts x"]) (simp split: prod.split)
  qed
qed

lemma list_all2_in_right: "list_all2 P xs ys \<Longrightarrow> y \<in> set ys \<Longrightarrow> \<exists>x. x \<in> set xs \<and> P x y"
  by (induction rule: list_all2_induct) auto

lemma shown_probes:
  "shows_call cbp call t \<Longrightarrow> call_probes at call \<Longrightarrow>
     list_all (\<lambda>e. ev_location e \<noteq> GOROUTINE_EXIT \<and> at (ev_ip e) \<noteq> None) (traced_events t)"
proof (induction call arbitrary: cbp t)
  case (Call ip r bp moved calls)
  obtain e again subs x where t: "t = Traced e again subs x" by (cases t)
  have "list_all2 (shows_call (frame_bp (Call ip r bp moved calls))) calls subs" using Call.prems(1) by (simp add: t)
  then have "list_all (\<lambda>s. list_all (\<lambda>e. ev_location e \<noteq> GOROUTINE_EXIT \<and> at (ev_ip e) \<noteq> None) (traced_events s)) subs"
  proof -
    assume subs: "list_all2 (shows_call (frame_bp (Call ip r bp moved calls))) calls subs"
    have "list_all (\<lambda>e. ev_location e \<noteq> GOROUTINE_EXIT \<and> at (ev_ip e) \<noteq> None) (traced_events s)"
      if s: "s \<in> set subs" for s
    proof -
      obtain c where c: "c \<in> set calls" "shows_call (frame_bp (Call ip r bp moved calls)) c s"
        using list_all2_in_right [OF subs s] by blast
      then show ?thesis using Call.IH [OF c] Call.prems(2) by (simp add: list_all_iff)
    qed
    then show ?thesis by (simp add: list_all_iff)
  qed
  then show ?case
    using Call.prems by (auto simp: t list_all_iff location_defs split: option.splits)
qed

text \<open>A root call that the BPF program admits, and its hits among those of other goroutines.\<close>

definition admitted_root :: "config \<Rightarrow> bpf_state \<Rightarrow> goid_key \<Rightarrow> u64 \<Rightarrow> call \<Rightarrow> hit list \<Rightarrow> bool" where
  "admitted_root cfg st k cbp call hs \<longleftrightarrow>
     cfg_adaptive_sampling cfg \<and> call_ok (should_trace_ret st) (c_ip call) call \<and>
     length (script cbp call) \<le> 4096 \<and> should_trace_goid st k = None \<and>
     should_trace_rip st (c_ip call) \<noteq> None \<and>
     (case filter (\<lambda>h. key_of cfg h = k) hs of
        [] \<Rightarrow> False
      | h # own \<Rightarrow>
          map point_of (h # own) = map Some (script cbp call) \<and> list_all (reliable st) (h # own) \<and>
          should_sample (hit_env h) (current_sample_denominator st) \<and> k_update_rc (hit_env h) = 0)"

lemma admitted_stream:
  assumes "admitted_root cfg st k cbp call hs"
  shows "map ev_trace_flags (stream_of cfg k (map Hit hs) st) =
           TRACE_START # replicate (length (script cbp call) - 2) 0 @ [TRACE_END] \<and>
         list_all2 reports (stream_of cfg k (map Hit hs) st) (script cbp call) \<and>
         list_all (\<lambda>e. ev_sample_denominator e = current_sample_denominator st)
           (stream_of cfg k (map Hit hs) st)"
proof -
  obtain h own where own: "filter (\<lambda>h. key_of cfg h = k) hs = h # own"
    using assms by (auto simp: admitted_root_def split: list.splits)
  note f = assms [unfolded admitted_root_def own list.case]
  have "map ev_trace_flags (stream_of cfg k (map Hit hs) st) =
           TRACE_START # replicate (length (script cbp call) - 2) 0 @ [TRACE_END] \<and>
         list_all2 reports (stream_of cfg k (map Hit hs) st) (script cbp call) \<and>
         list_all (\<lambda>e. ev_sample_denominator e = current_sample_denominator st)
           (stream_of cfg k (map Hit hs) st) \<and>
         should_trace_goid (fold (hit_step cfg) hs st) k = None"
    by (rule root_call_stream [OF _ _ _ _ own]) (use f in blast)+
  then show ?thesis by blast
qed

lemma record_weights:
  "list_all (\<lambda>e. ev_sample_denominator e = d) (traced_events t) \<Longrightarrow>
     list_all (\<lambda>r. cr_weight r = (if d = 0 then 1 else ucast d)) (records_of probe text t)"
proof (induction t)
  case (Traced e again subs x)
  have "ucast (d :: u32) = (0 :: u64) \<longleftrightarrow> d = 0"
  proof -
    have "unat d < 2 ^ 64" using unsigned_less [of d, where ?'a = nat] by simp
    then have "unat (ucast d :: u64) = unat d" by (simp add: unsigned_ucast_eq take_bit_nat_eq_self)
    then show ?thesis by (metis unsigned_0 unat_eq_0)
  qed
  moreover have "ev_sample_denominator (kept e again) = d"
    using Traced.prems by (auto simp: kept_def split: option.splits)
  moreover have "list_all (\<lambda>r. cr_weight r = (if d = 0 then 1 else ucast d)) (records_of probe text s)"
    if "s \<in> set subs" for s
    by (rule Traced.IH [OF that]) (use that Traced.prems in \<open>auto simp: list_all_iff\<close>)
  ultimately show ?case by (auto simp: list_all_iff Let_def)
qed


lemma stream_length: "length (stream cfg (map Hit hs) st) \<le> length hs"
proof (induction hs arbitrary: st)
  case (Cons h hs)
  have "length (enqueued cfg (Hit h) st) \<le> 1"
  proof -
    have "length (opt_list y) \<le> 1" for y :: "event option" by (cases y) simp_all
    then show ?thesis unfolding enqueued_hit by simp
  qed
  then show ?case using Cons [of "hit_step cfg h st"] by (simp del: enqueued.simps)
qed simp

lemma new_manager_ready:
  assumes "length es \<le> 64" "length es \<le> unat limit div 8192"
    and "list_all (\<lambda>e. \<forall>u. sv_learn sv u e k = k) es"
  shows "ready sv es (new_manager ups symbols drilldown True True limit k)"
proof -
  have "card (ev_pid ` set es) \<le> 64"
    using assms(1) card_image_le [of "set es" ev_pid] card_length [of es] by simp
  moreover have "unat (limit div 4 div 2048) = unat limit div 8192" by (simp add: unat_div div_mult2_eq [symmetric])
  then have "length es \<le> unat (mg_max_pending (new_manager ups symbols drilldown True True limit k))"
    using assms(2) by (auto simp: new_manager_def Let_def aggEventBudgetDiv_def estimatedEventBytes_def)
  ultimately show ?thesis
    using assms(3) new_manager_ok [of ups symbols drilldown True limit k]
    by (simp add: ready_def) (simp add: new_manager_def Let_def pid_keys_def)
qed

definition demo_services :: "unit services" where
  "demo_services = \<lparr>sv_render = \<lambda>k u e. ''~r0=1'', sv_learn = \<lambda>u e k. k\<rparr>"

definition demo_manager :: "unit manager" where
  "demo_manager = new_manager demo_probes demo_symbols [] True True 1073741824 ()"

lemma demo_probe_at:
  "map_option up_address (probe_at demo_manager 100) = Some 100"
  "map_option (\<lambda>u. up_address u - up_rel_offset u) (probe_at demo_manager 110) = Some 100"
  "map_option up_address (probe_at demo_manager 200) = Some 200"
  "map_option (\<lambda>u. up_address u - up_rel_offset u) (probe_at demo_manager 210) = Some 200"
  by code_simp+

lemma demo_call_probes: "call_probes (probe_at demo_manager) demo_call"
  using demo_probe_at by (auto simp: demo_call_def split: option.split)


end
