(* ===== verification/Ftrace_Retvals.thy ===== *)
theory Ftrace_Retvals
  imports Ftrace_Budget
begin

text \<open>
  The bounded table of return values of a function (\<open>recordRetval\<close>): what its counters and
  errors mean for the values recorded.
\<close>

section \<open>The frequent return values\<close>

type_synonym recorded = "string \<times> u64"

definition weight_of :: "u64 \<Rightarrow> nat" where
  "weight_of w = (if w = 0 then 1 else unat w)"

definition true_weight :: "recorded list \<Rightarrow> string \<Rightarrow> nat" where
  "true_weight xs v = sum_list (map (\<lambda>(v', w). if v' = v then weight_of w else 0) xs)"

definition total_weight :: "recorded list \<Rightarrow> nat" where
  "total_weight xs = sum_list (map (\<lambda>(v', w). weight_of w) xs)"

definition record_retvals :: "recorded list \<Rightarrow> func_agg" where
  "record_retvals xs = fold (\<lambda>(v, w). record_retval v w) xs new_func_agg"

definition counted_weight :: "retval_count \<Rightarrow> nat" where
  "counted_weight c = unat (rv_weighted_count c)"

text \<open>
  What the table means after the values \<open>xs\<close>: the counters add up to the total weight, each
  is between the true weight of its value and that weight plus its error, a value that is not
  in the table weighs no more than any counter, and the errors are at most a 64th of the total.
\<close>

definition table_means :: "recorded list \<Rightarrow> (string \<times> retval_count) list \<Rightarrow> bool" where
  "table_means xs al \<longleftrightarrow>
     distinct (map fst al) \<and> length al \<le> 64 \<and> weight counted_weight al = total_weight xs \<and>
     (\<forall>v c. map_of al v = Some c \<longrightarrow>
        true_weight xs v \<le> counted_weight c \<and>
        counted_weight c \<le> true_weight xs v + unat (rv_weighted_error c) \<and>
        64 * unat (rv_weighted_error c) \<le> total_weight xs) \<and>
     (\<forall>v. map_of al v = None \<longrightarrow>
        (if length al < 64 then true_weight xs v = 0
         else (\<forall>v' c. map_of al v' = Some c \<longrightarrow> true_weight xs v \<le> counted_weight c)))"

lemma snoc_weights:
  "true_weight (xs @ [(v', w)]) v = true_weight xs v + (if v' = v then weight_of w else 0)"
  "total_weight (xs @ [(v', w)]) = total_weight xs + weight_of w"
  by (simp_all add: true_weight_def total_weight_def)

lemma add_weight:
  assumes "unat c + weight_of w < 2 ^ 64"
  shows "unat (c + (if w = 0 then 1 else w)) = unat c + weight_of w"
proof -
  have "unat (if w = 0 then 1 else w) = weight_of w" by (simp add: weight_of_def)
  then show ?thesis using assms unat_add_lem [of c "if w = 0 then 1 else w", THEN iffD1] by simp
qed

lemma weight_at_counter:
  "map_of al v = Some c \<Longrightarrow> counted_weight c \<le> weight counted_weight al"
  using weight_at_le [of counted_weight al v] by (simp add: weight_at_def)

lemma least_min:
  "least_retval al best = Some (v, c) \<Longrightarrow>
     ((v, c) \<in> set al \<or> best = Some (v, c)) \<and>
     (\<forall>(v', c') \<in> set al. rv_weighted_count c \<le> rv_weighted_count c') \<and>
     (\<forall>v' c'. best = Some (v', c') \<longrightarrow> rv_weighted_count c \<le> rv_weighted_count c')"
proof (induction al best rule: least_retval.induct)
  case (2 v' c' rest best)
  then show ?case by (auto split: option.splits prod.splits if_splits) (force simp: not_less)+
qed auto

lemma least_exists: "al \<noteq> [] \<or> best \<noteq> None \<Longrightarrow> least_retval al best \<noteq> None"
  by (induction al best rule: least_retval.induct) (auto split: option.splits)

lemma min_share:
  assumes "\<forall>(v, c) \<in> set al. n \<le> counted_weight c"
  shows "length al * n \<le> weight counted_weight al"
  using assms by (induction al) auto

lemma means_absent:
  assumes "table_means xs al" "map_of al v = None" "\<not> length al < 64" "map_of al v' = Some c"
  shows "true_weight xs v \<le> counted_weight c"
proof -
  have "if length al < 64 then true_weight xs v = 0
         else (\<forall>v' c. map_of al v' = Some c \<longrightarrow> true_weight xs v \<le> counted_weight c)"
    using assms(1,2) unfolding table_means_def by blast
  then show ?thesis using assms(3,4) by simp
qed

lemma means_present:
  "table_means xs al \<Longrightarrow> map_of al v = Some c \<Longrightarrow>
     true_weight xs v \<le> counted_weight c \<and> counted_weight c \<le> true_weight xs v + unat (rv_weighted_error c) \<and>
     64 * unat (rv_weighted_error c) \<le> total_weight xs"
  by (simp add: table_means_def)

text \<open>An update keeps the meaning if the new counter is right and no counter gets smaller.\<close>

lemma means_update:
  assumes m: "table_means xs al" and room: "map_of al v \<noteq> None \<or> length al < 64"
    and wt: "counted_weight c' = weight_at counted_weight al v + weight_of w"
    and new: "true_weight xs v \<le> weight_at counted_weight al v"
      "weight_at counted_weight al v \<le> true_weight xs v + unat (rv_weighted_error c')"
      "64 * unat (rv_weighted_error c') \<le> total_weight xs"
  shows "table_means (xs @ [(v, w)]) (AList.update v c' al)"
proof -
  let ?al = "AList.update v c' al" and ?xs = "xs @ [(v, w)]"
  have "v \<in> fst ` set al \<longleftrightarrow> map_of al v \<noteq> None" by (simp add: map_of_eq_None_iff)
  then have len: "length al \<le> length ?al" "length ?al \<le> 64"
    using room m by (auto simp: length_update table_means_def)
  have "weight counted_weight ?al = total_weight ?xs"
    using weight_update [of counted_weight v c' al] m wt by (simp add: table_means_def snoc_weights)
  moreover have "true_weight ?xs v' \<le> counted_weight c \<and>
      counted_weight c \<le> true_weight ?xs v' + unat (rv_weighted_error c) \<and>
      64 * unat (rv_weighted_error c) \<le> total_weight ?xs" if "map_of ?al v' = Some c" for v' c
    using that means_present [OF m, of v' c] wt new by (simp add: snoc_weights split: if_splits)
  moreover have "true_weight ?xs v' = 0" if "map_of ?al v' = None" "length ?al < 64" for v'
    using that m len(1) by (simp add: table_means_def snoc_weights split: if_splits)
  moreover have "true_weight ?xs v' \<le> counted_weight c"
    if v': "map_of ?al v' = None" "\<not> length ?al < 64" "map_of ?al v'' = Some c" for v' v'' c
  proof (cases "length al < 64")
    case True
    then show ?thesis using v'(1) m by (simp add: table_means_def snoc_weights split: if_splits)
  next
    case False
    have ne: "v' \<noteq> v" "map_of al v' = None" using v'(1) by (simp_all split: if_splits)
    obtain c0 where c0: "map_of al v = Some c0" using room False by auto
    show ?thesis
      using means_absent [OF m ne(2) False] v'(3) c0 wt ne(1)
      by (cases "v'' = v") (fastforce simp: snoc_weights weight_at_def)+
  qed
  moreover have "distinct (map fst ?al)" using m by (simp add: table_means_def distinct_update)
  ultimately show ?thesis using len(2) unfolding table_means_def by simp
qed

lemma means_hit:
  assumes m: "table_means xs al" and c: "map_of al v = Some c"
    and c': "counted_weight c' = counted_weight c + weight_of w" "rv_weighted_error c' = rv_weighted_error c"
  shows "table_means (xs @ [(v, w)]) (AList.update v c' al)"
  using means_present [OF m c] c c' by (intro means_update [OF m]) (simp_all add: weight_at_def)

lemma means_new:
  assumes m: "table_means xs al" and c: "map_of al v = None" "length al < 64"
    and c': "counted_weight c' = weight_of w" "rv_weighted_error c' = 0"
  shows "table_means (xs @ [(v, w)]) (AList.update v c' al)"
  using m c c' by (intro means_update [OF m]) (simp_all add: weight_at_def table_means_def)

lemma means_replace:
  assumes m: "table_means xs al" and v: "map_of al v = None" "\<not> length al < 64"
    and d: "least_retval al None = Some (u, d)"
    and c': "counted_weight c' = counted_weight d + weight_of w" "unat (rv_weighted_error c') = counted_weight d"
  shows "table_means (xs @ [(v, w)]) (AList.update v c' (AList.delete u al))"
proof -
  have al: "distinct (map fst al)" "length al = 64" using m v(2) by (simp_all add: table_means_def)
  have in_al: "(u, d) \<in> set al" and least: "\<And>v' c. (v', c) \<in> set al \<Longrightarrow> counted_weight d \<le> counted_weight c"
    using least_min [OF d] by (auto simp: counted_weight_def word_le_nat_alt)
  have u: "map_of al u = Some d" using in_al al(1) by simp
  have uv: "u \<noteq> v" using u v(1) by auto
  have min: "counted_weight d \<le> counted_weight c" if "map_of al v' = Some c" for v' c
    using least map_of_SomeD [OF that] by blast
  let ?al = "AList.delete u al"
  have map: "map_of ?al = (map_of al)(u := None)" by (rule AList.delete_conv')
  have len: "Suc (length ?al) = 64" using length_delete [OF al(1)] in_al al(2) by force
  have nin: "v \<notin> fst ` set ?al" using v(1) uv map by (simp add: map_of_eq_None_iff [symmetric])
  have wt: "weight counted_weight ?al + counted_weight d = total_weight xs"
    using weight_delete [OF al(1), of counted_weight u] m u by (simp add: weight_at_def table_means_def)
  have "weight counted_weight (AList.update v c' ?al) = total_weight xs + weight_of w"
    using weight_update [of counted_weight v c' ?al] wt c'(1) v(1) uv by (simp add: weight_at_def map)
  moreover have d64: "64 * counted_weight d \<le> total_weight xs"
    using min_share [of al "counted_weight d"] least m al(2) by (auto simp: table_means_def)
  let ?al' = "AList.update v c' ?al" and ?xs = "xs @ [(v, w)]"
  have "true_weight xs v \<le> counted_weight d" by (rule means_absent [OF m v u])
  then have "true_weight ?xs v' \<le> counted_weight c \<and>
      counted_weight c \<le> true_weight ?xs v' + unat (rv_weighted_error c) \<and>
      64 * unat (rv_weighted_error c) \<le> total_weight ?xs" if "map_of ?al' v' = Some c" for v' c
    using that means_present [OF m, of v' c] d64 c' by (auto simp: map snoc_weights split: if_splits)
  moreover have "true_weight ?xs v' \<le> counted_weight c"
    if "map_of ?al' v' = None" "map_of ?al' v'' = Some c" for v' v'' c
  proof -
    have "v' \<noteq> v" "v' = u \<or> map_of al v' = None" using that(1) by (auto simp: map split: if_splits)
    then have "true_weight ?xs v' \<le> counted_weight d"
      using means_present [OF m u] means_absent [OF m _ v(2) u, of v'] by (auto simp: snoc_weights)
    moreover have "counted_weight d \<le> counted_weight c"
      using that(2) min [of v'' c] c'(1) by (auto simp: map split: if_splits)
    ultimately show ?thesis by simp
  qed
  moreover have "length ?al' = 64" using len nin by (simp add: length_update)
  moreover have "distinct (map fst ?al')" using al(1) by (simp add: distinct_update distinct_delete)
  ultimately show ?thesis unfolding table_means_def by (simp add: snoc_weights)
qed

lemma record_retval_means:
  assumes m: "table_means xs (ag_retvals a)" and n: "total_weight xs + weight_of w < 2 ^ 64"
  shows "table_means (xs @ [(v, w)]) (ag_retvals (record_retval v w a))"
proof (cases "map_of (ag_retvals a) v")
  case (Some c)
  have "counted_weight c + weight_of w < 2 ^ 64"
    using weight_at_counter [OF Some] m n by (simp add: table_means_def)
  then have w: "counted_weight (c\<lparr>rv_count := n, rv_weighted_count := rv_weighted_count c + (if w = 0 then 1 else w)\<rparr>) =
      counted_weight c + weight_of w" for n
    using add_weight [of "rv_weighted_count c" w] by (simp add: counted_weight_def)
  show ?thesis
    using means_hit [OF m Some w] Some by (simp add: record_retval_def Let_def cong: if_cong)
next
  case None
  show ?thesis
  proof (cases "length (ag_retvals a) < 64")
    case True
    have "counted_weight \<lparr>rv_count = 1, rv_weighted_count = (if w = 0 then 1 else w), rv_weighted_error = 0\<rparr> = weight_of w"
      by (simp add: counted_weight_def weight_of_def)
    note new = means_new [OF m None True this]
    show ?thesis using new None True by (simp add: record_retval_def Let_def cong: if_cong)
  next
    case False
    then have "ag_retvals a \<noteq> []" by auto
    then obtain u d where d: "least_retval (ag_retvals a) None = Some (u, d)"
      using least_exists [of "ag_retvals a" None] by (cases "least_retval (ag_retvals a) None") auto
    have u: "map_of (ag_retvals a) u = Some d"
      using least_min [OF d] m by (simp add: table_means_def)
    have "counted_weight d + weight_of w < 2 ^ 64"
      using weight_at_counter [OF u] m n by (simp add: table_means_def)
    then have c: "counted_weight \<lparr>rv_count = 1, rv_weighted_count = rv_weighted_count d + (if w = 0 then 1 else w),
        rv_weighted_error = rv_weighted_count d\<rparr> = counted_weight d + weight_of w"
      using add_weight [of "rv_weighted_count d" w] by (simp add: counted_weight_def)
    note r = means_replace [OF m None False d c]
    show ?thesis using r None False d by (simp add: record_retval_def Let_def counted_weight_def cong: if_cong)
  qed
qed

lemma record_retvals_means: "total_weight xs < 2 ^ 64 \<Longrightarrow> table_means xs (ag_retvals (record_retvals xs))"
proof (induction xs rule: rev_induct)
  case Nil
  show ?case by (simp add: table_means_def record_retvals_def new_func_agg_def total_weight_def true_weight_def)
next
  case (snoc r xs)
  obtain v w where r: "r = (v, w)" by (cases r)
  have "table_means (xs @ [(v, w)]) (ag_retvals (record_retval v w (record_retvals xs)))"
    using snoc by (intro record_retval_means) (simp_all add: r snoc_weights)
  then show ?case by (simp add: r record_retvals_def)
qed

text \<open>
  What can be relied on: the counters add up to the whole weight, each is between the true
  weight of its value and that weight plus its error, which is at most a 64th of the whole,
  and a recorded value that is missing makes up at most a 64th of the whole.
\<close>

definition honest_table :: "recorded list \<Rightarrow> (string \<times> retval_count) list \<Rightarrow> bool" where
  "honest_table xs al \<longleftrightarrow>
     weight counted_weight al = total_weight xs \<and>
     list_all (\<lambda>(v, c). true_weight xs v \<le> counted_weight c \<and>
        counted_weight c \<le> true_weight xs v + unat (rv_weighted_error c) \<and>
        64 * unat (rv_weighted_error c) \<le> total_weight xs) al \<and>
     list_all (\<lambda>(v, w). if map_of al v = None then 64 * true_weight xs v \<le> total_weight xs else True) xs"

text \<open>C20: The table of return values of a function stays small and honest: whatever values are
  recorded with whatever weights, it has at most 64 entries, one per value, whose counters
  add up to the whole recorded weight; the counter of a value is at least its true weight and
  exceeds it by at most its error, which is at most a 64th of the whole; so a value that makes
  up more than a 64th of the weight is never missing. Weights count as in the code (0 as 1)
  and are assumed not to overflow the counters.\<close>

theorem retvals_space_saving:
  assumes "total_weight xs < 2 ^ 64"
  shows "distinct (map fst (ag_retvals (record_retvals xs))) \<and>
     length (ag_retvals (record_retvals xs)) \<le> 64 \<and> honest_table xs (ag_retvals (record_retvals xs))"
proof -
  let ?al = "ag_retvals (record_retvals xs)"
  have m: "table_means xs ?al" by (rule record_retvals_means [OF assms(1)])
  have "64 * true_weight xs v \<le> total_weight xs" if "map_of ?al v = None" for v
  proof (cases "length ?al < 64")
    case True
    then show ?thesis using m that by (simp add: table_means_def)
  next
    case False
    have "\<forall>(v', c) \<in> set ?al. true_weight xs v \<le> counted_weight c"
      using means_absent [OF m that False] m by (auto simp: table_means_def)
    then show ?thesis using min_share [of ?al "true_weight xs v"] m False by (simp add: table_means_def)
  qed
  then show ?thesis using m by (auto simp: table_means_def honest_table_def list_all_iff)
qed

text \<open>64 values of weight one fill the table; two more take the places of others.\<close>

definition demo_retvals :: "recorded list" where
  "demo_retvals = map (\<lambda>n. (show_nat n, 0)) [0..<64] @ [(''nil'', 5), (''EOF'', 7)]"

theorem retvals_space_saving_witness:
  "distinct (map fst (ag_retvals (record_retvals demo_retvals))) \<and>
   length (ag_retvals (record_retvals demo_retvals)) \<le> 64 \<and>
   honest_table demo_retvals (ag_retvals (record_retvals demo_retvals))"
proof (rule retvals_space_saving)
  show "total_weight demo_retvals < 2 ^ 64"
    by (simp add: total_weight_def demo_retvals_def weight_of_def comp_def sum_list_triv)
qed

end
