(* ===== verification/Ftrace_Plan.thy ===== *)
theory Ftrace_Plan
  imports Ftrace_Auto
begin

text \<open>
  What the planner of \<open>Ftrace_Auto\<close> produces: the leaves it emits as a function of the types and
  of the registers left, its normal form, and that its words follow the calling convention.
\<close>

section \<open>What is emitted\<close>

text \<open>The captures of an object in memory and the words of a register value, as lists.\<close>

fun mem_specs :: "dwarf_type \<Rightarrow> string \<Rightarrow> mem_loc \<Rightarrow> arg_spec list" and
    mem_field_specs :: "dwarf_field list \<Rightarrow> string \<Rightarrow> mem_loc \<Rightarrow> arg_spec list" where
  "mem_specs (TypedefType cn t) name loc = mem_specs t name loc"
| "mem_specs (QualType cn t) name loc = mem_specs t name loc"
| "mem_specs (StructType cn n sn fs) name loc =
     (case struct_kind sn fs of
        Go_string \<Rightarrow> [blob_at (name @ ''.str'') (loc_deref 0 loc)]
      | Go_slice \<Rightarrow> [blob_at (name @ ''.arr'') (loc_deref 0 loc)]
      | Go_interface \<Rightarrow>
          (if interface_is_non_empty sn fs
           then [loc_spec (name @ ''.type'') (loc_add 8 (loc_deref 0 loc)) 8 ''u64''] else []) @
          [loc_spec (name @ ''.data'') (loc_add 8 loc) 8 ''u64'', blob_at (name @ ''.value'') (loc_deref 8 loc)]
      | Plain_struct \<Rightarrow> mem_field_specs fs name loc)"
| "mem_specs t name loc = []"
| "mem_field_specs [] name loc = []"
| "mem_field_specs (Field fname off t # fs) name loc =
     mem_specs t (name @ ''.'' @ fname) (loc_add off loc) @ mem_field_specs fs name loc"

definition emits :: "arg_spec list \<Rightarrow> flat_ctx \<Rightarrow> flat_ctx" where
  "emits ss c = c\<lparr>fc_out := fc_out c @ ss\<rparr>"

lemma emits_simps [simp]:
  "fc_words (emits ss c) = fc_words c" "fc_wi (emits ss c) = fc_wi c" "fc_out (emits ss c) = fc_out c @ ss"
  "emits ts (emits ss c) = emits (ss @ ts) c" "emits [] c = c"
  by (simp_all add: emits_def)

lemma emit_emits: "emit s c = emits [s] c"
  by (simp add: emit_def emits_def)

lemma emit_captures_specs:
  "emit_mem_captures t name loc c = emits (mem_specs t name loc) c"
  "emit_field_captures fs name loc c = emits (mem_field_specs fs name loc) c"
  by (induction t name loc c and fs name loc c rule: emit_mem_captures_emit_field_captures.induct)
    (auto simp: emit_emits Let_def split: struct_kind.split)

lemma length_mem_specs:
  "length (mem_specs t name loc) = extra_captures t True"
  "length (mem_field_specs fs name loc) = extra_field_captures fs True"
  by (induction t name loc and fs name loc rule: mem_specs_mem_field_specs.induct)
    (auto split: struct_kind.split)

text \<open>The words of a value in registers, given the registers left, and its captures.\<close>

fun abi_specs :: "dwarf_type \<Rightarrow> string \<Rightarrow> string list \<Rightarrow> arg_spec list" and
    abi_field_specs :: "dwarf_field list \<Rightarrow> string \<Rightarrow> string list \<Rightarrow> arg_spec list" where
  "abi_specs (TypedefType cn t) name rs = abi_specs t name rs"
| "abi_specs (QualType cn t) name rs = abi_specs t name rs"
| "abi_specs (StructType cn n sn fs) name rs =
     (case struct_kind sn fs of
        Go_string \<Rightarrow>
          [scalar_reg_spec (name @ ''.data'') 8 ''u64'' (rs ! 0), scalar_reg_spec (name @ ''.len'') 8 ''s64'' (rs ! 1)]
      | Go_slice \<Rightarrow>
          [scalar_reg_spec (name @ ''.data'') 8 ''u64'' (rs ! 0), scalar_reg_spec (name @ ''.len'') 8 ''s64'' (rs ! 1),
           scalar_reg_spec (name @ ''.cap'') 8 ''s64'' (rs ! 2)]
      | Go_interface \<Rightarrow>
          [if interface_is_non_empty sn fs then itab_spec (name @ ''.type'') (rs ! 0)
           else scalar_reg_spec (name @ ''.type'') 8 ''u64'' (rs ! 0),
           scalar_reg_spec (name @ ''.data'') 8 ''u64'' (rs ! 1)]
      | Plain_struct \<Rightarrow> abi_field_specs fs name rs)"
| "abi_specs (PtrType cn n p) name rs = [scalar_reg_spec name 8 ''u64'' (rs ! 0)]"
| "abi_specs t name rs =
     (case scalar_value t of
        None \<Rightarrow> [scalar_reg_spec name 8 ''u64'' (rs ! 0)]
      | Some (kind, typ, n) \<Rightarrow> [scalar_reg_spec name n typ (rs ! 0)])"
| "abi_field_specs [] name rs = []"
| "abi_field_specs (Field fname off t # fs) name rs =
     (let ws = abi_specs t (name @ ''.'' @ fname) rs in ws @ abi_field_specs fs name (drop (length ws) rs))"

fun reg_specs :: "dwarf_type \<Rightarrow> string \<Rightarrow> string list \<Rightarrow> arg_spec list" and
    reg_field_specs :: "dwarf_field list \<Rightarrow> string \<Rightarrow> string list \<Rightarrow> arg_spec list" where
  "reg_specs (TypedefType cn t) name rs = reg_specs t name rs"
| "reg_specs (QualType cn t) name rs = reg_specs t name rs"
| "reg_specs (StructType cn n sn fs) name rs =
     (case struct_kind sn fs of
        Go_string \<Rightarrow> [blob_at (name @ ''.str'') (loc_at (rs ! 0) False)]
      | Go_slice \<Rightarrow> [blob_at (name @ ''.arr'') (loc_at (rs ! 0) True)]
      | Go_interface \<Rightarrow> [blob_at (name @ ''.value'') (loc_at (rs ! 1) True)]
      | Plain_struct \<Rightarrow> reg_field_specs fs name rs)"
| "reg_specs t name rs = []"
| "reg_field_specs [] name rs = []"
| "reg_field_specs (Field fname off t # fs) name rs =
     reg_specs t (name @ ''.'' @ fname) rs @
       reg_field_specs fs name (drop (length (abi_specs t (name @ ''.'' @ fname) rs)) rs)"

text \<open>The number of words emitted for a value.\<close>

fun reg_words :: "dwarf_type \<Rightarrow> nat" and reg_field_words :: "dwarf_field list \<Rightarrow> nat" where
  "reg_words (TypedefType cn t) = reg_words t"
| "reg_words (QualType cn t) = reg_words t"
| "reg_words (StructType cn n sn fs) =
     (case struct_kind sn fs of
        Go_string \<Rightarrow> 2 | Go_slice \<Rightarrow> 3 | Go_interface \<Rightarrow> 2 | Plain_struct \<Rightarrow> reg_field_words fs)"
| "reg_words t = 1"
| "reg_field_words [] = 0"
| "reg_field_words (Field fname off t # fs) = reg_words t + reg_field_words fs"

lemma length_abi_specs [simp]:
  "length (abi_specs t name rs) = reg_words t"
  "length (abi_field_specs fs name rs) = reg_field_words fs"
  by (induction t name rs and fs name rs rule: abi_specs_abi_field_specs.induct)
    (auto simp: Let_def split: struct_kind.split option.split prod.split)

lemma length_reg_specs:
  "length (reg_specs t name rs) = extra_captures t False"
  "length (reg_field_specs fs name rs) = extra_field_captures fs False"
  by (induction t name rs and fs name rs rule: reg_specs_reg_field_specs.induct)
    (auto split: struct_kind.split)

definition skip :: "nat \<Rightarrow> flat_ctx \<Rightarrow> flat_ctx" where
  "skip n c = c\<lparr>fc_wi := fc_wi c + n\<rparr>"

lemma skip_simps [simp]:
  "fc_words (skip n c) = fc_words c" "fc_wi (skip n c) = fc_wi c + n" "fc_out (skip n c) = fc_out c"
  "skip m (skip n c) = skip (n + m) c" "skip 0 c = c" "emits ss (skip n c) = skip n (emits ss c)"
  by (simp_all add: skip_def emits_def add.assoc)

lemma next_word_skip:
  "fc_wi c < length (fc_words c) \<Longrightarrow> next_word c = (fc_words c ! fc_wi c, skip (Suc 0) c)"
  by (simp add: next_word_def skip_def)

definition words_left :: "flat_ctx \<Rightarrow> string list" where
  "words_left c = drop (fc_wi c) (fc_words c)"

lemma words_left_simps [simp]:
  "words_left (emits ss c) = words_left c" "words_left (skip n c) = drop n (words_left c)"
  by (simp_all add: words_left_def add.commute)

lemma next_word_left:
  "words_left c \<noteq> [] \<Longrightarrow> next_word c = (words_left c ! 0, skip 1 c)"
  by (simp add: words_left_def next_word_skip)

lemma next_word_some:
  "Suc 0 \<le> length (words_left c) \<Longrightarrow> next_word c = (words_left c ! 0, skip 1 c)"
  by (rule next_word_left) auto

lemma emit_abi_specs:
  shows "reg_words t \<le> length (words_left c) \<Longrightarrow>
      snd (emit_abi t name c) = emits (abi_specs t name (words_left c)) (skip (reg_words t) c) \<and>
      fold emit_reg_captures (fst (emit_abi t name c)) d = emits (reg_specs t name (words_left c)) d"
    and "reg_field_words fs \<le> length (words_left c) \<Longrightarrow>
      snd (emit_abi_fields fs name c) = emits (abi_field_specs fs name (words_left c)) (skip (reg_field_words fs) c) \<and>
      fold emit_reg_captures (fst (emit_abi_fields fs name c)) d = emits (reg_field_specs fs name (words_left c)) d"
proof (induction t name c and fs name c arbitrary: d and d rule: emit_abi_emit_abi_fields.induct)
  case (3 cn n sn fs name c)
  have left: "k < length (words_left c) \<Longrightarrow> next_word (skip k c) = (words_left c ! k, skip (Suc k) c)" for k
    by (subst next_word_left) simp_all
  have step1: "next_word c = (words_left c ! 0, skip 1 c)" if "1 < length (words_left c)"
    using that by (intro next_word_left) auto
  have step2: "1 < length (words_left c) \<Longrightarrow> next_word (skip 1 c) = (words_left c ! 1, skip 2 c)"
    using left [of 1] by (simp add: numeral_2_eq_2)
  have step3: "2 < length (words_left c) \<Longrightarrow> next_word (skip 2 c) = (words_left c ! 2, skip 3 c)"
    using left [of 2] by (simp add: numeral_2_eq_2 numeral_3_eq_3)
  note step = step1 step2 [simplified One_nat_def] step3
  show ?case
  proof (cases "struct_kind sn fs")
    case Go_string
    then have "1 < length (words_left c)" using 3 by simp
    with Go_string show ?thesis
      by (simp add: Let_def emit_emits emit_reg_captures_def step)
  next
    case Go_slice
    then have "1 < length (words_left c)" "2 < length (words_left c)" using 3 by simp_all
    with Go_slice show ?thesis
      by (simp add: Let_def emit_emits emit_reg_captures_def step)
  next
    case Go_interface
    then have "1 < length (words_left c)" using 3 by simp
    with Go_interface show ?thesis
      by (cases "interface_is_non_empty sn fs") (simp_all add: Let_def emit_emits emit_reg_captures_def step)
  next
    case Plain_struct
    then show ?thesis using 3 by simp
  qed
next
  case (7 fname off t fs name c)
  let ?nm = "name @ ''.'' @ fname"
  have t: "snd (emit_abi t ?nm c) = emits (abi_specs t ?nm (words_left c)) (skip (reg_words t) c)"
      "fold emit_reg_captures (fst (emit_abi t ?nm c)) d = emits (reg_specs t ?nm (words_left c)) d" for d
    using 7(1) 7(3) by auto
  obtain jobs c1 where e: "emit_abi t ?nm c = (jobs, c1)" by fastforce
  then have c1: "c1 = emits (abi_specs t ?nm (words_left c)) (skip (reg_words t) c)" using t(1) by simp
  have fs: "snd (emit_abi_fields fs name c1) = emits (abi_field_specs fs name (words_left c1)) (skip (reg_field_words fs) c1)"
      "fold emit_reg_captures (fst (emit_abi_fields fs name c1)) d = emits (reg_field_specs fs name (words_left c1)) d" for d
    using 7(2) [OF e [symmetric] refl] 7(3) by (auto simp: c1)
  show ?case
    using t fs by (simp add: case_prod_beta c1 Let_def add.commute)
qed (auto simp: Let_def case_prod_beta emit_emits next_word_some split: option.split)


text \<open>
  A struct that is named like a string or a slice and has the fields of an interface is one of
  them for some of the switches and the other for the rest; no Go type is like that.
\<close>

fun sane_type :: "dwarf_type \<Rightarrow> bool" and sane_fields :: "dwarf_field list \<Rightarrow> bool" where
  "sane_type (TypedefType cn t) = sane_type t"
| "sane_type (QualType cn t) = sane_type t"
| "sane_type (StructType cn n sn fs) =
     (\<not> ((is_string sn \<or> is_slice sn fs) \<and> is_interface sn fs) \<and> sane_fields fs)"
| "sane_type t = True"
| "sane_fields [] = True"
| "sane_fields (Field fname off t # fs) = (sane_type t \<and> sane_fields fs)"

lemma sane_underlying: "sane_type (underlying t) = sane_type t"
  by (induction t rule: underlying.induct) simp_all

lemma reg_words_underlying: "reg_words (underlying t) = reg_words t"
  by (induction t rule: underlying.induct) simp_all

lemma abi_words_emitted:
  shows "sane_type t \<Longrightarrow> abi_word_count t \<noteq> 0 \<Longrightarrow> reg_words t = abi_word_count t"
    and "sane_fields fs \<Longrightarrow> abi_field_words fs k \<noteq> 0 \<or> fs = [] \<Longrightarrow> abi_field_words fs k = k + reg_field_words fs"
proof (induction t and fs k rule: abi_word_count_abi_field_words.induct)
  case (4 cn n sn fs)
  then show ?case
    by (cases "fs = []") (auto simp: struct_kind_def split: if_splits)
next
  case (7 fname off t fs n)
  then show ?case
    by (cases "fs = []") (auto simp: Let_def split: if_splits)
qed simp_all

section \<open>The leaves of one value\<close>

definition object_specs :: "dwarf_type \<Rightarrow> string \<Rightarrow> string \<Rightarrow> arg_spec list" where
  "object_specs target name reg =
     blob_at (name @ ''.obj'') (loc_at reg True) # mem_specs target name (loc_at reg True)"

text \<open>The memory leaves of a value behind its words, given the registers left.\<close>

definition capture_specs :: "type_table \<Rightarrow> dwarf_type \<Rightarrow> string \<Rightarrow> string list \<Rightarrow> arg_spec list" where
  "capture_specs ty t name rs =
     (case underlying t of
        PtrType cn n p \<Rightarrow> if captured_target ty p then object_specs (ty p) name (rs ! 0) else []
      | u \<Rightarrow> reg_specs u name rs)"

definition value_specs :: "type_table \<Rightarrow> dwarf_type \<Rightarrow> string \<Rightarrow> string list \<Rightarrow> arg_spec list" where
  "value_specs ty t name rs = abi_specs (underlying t) name rs @ capture_specs ty t name rs"

definition value_captures :: "type_table \<Rightarrow> dwarf_type \<Rightarrow> nat" where
  "value_captures ty t =
     (case underlying t of
        PtrType cn n p \<Rightarrow> if captured_target ty p then 1 + extra_captures (ty p) True else 0
      | u \<Rightarrow> extra_captures u False)"

lemma length_capture_specs [simp]: "length (capture_specs ty t name rs) = value_captures ty t"
  by (cases "underlying t")
    (simp_all add: capture_specs_def value_captures_def object_specs_def length_mem_specs length_reg_specs
      del: reg_specs.simps)

definition ctx_ok :: "flat_ctx \<Rightarrow> bool" where
  "ctx_ok c \<longleftrightarrow> fc_words c = abi_regs \<and> fc_wi c \<le> length (fc_out c) \<and> length (fc_out c) \<le> 8"

definition broken :: "flat_ctx \<Rightarrow> flat_ctx" where
  "broken c = c\<lparr>fc_broken := True\<rparr>"

lemma broken_simps [simp]:
  "fc_words (broken c) = fc_words c" "fc_wi (broken c) = fc_wi c" "fc_out (broken c) = fc_out c"
  by (simp_all add: broken_def)

lemma reserve_cases:
  "reserve n c = (if length (fc_out c) + n \<le> 8 then (True, c) else (False, broken c))"
  by (simp add: reserve_def broken_def max_fetch_args_def)

lemma ctx_ok_left: "ctx_ok c \<Longrightarrow> 9 - length (fc_out c) \<le> length (words_left c)"
  unfolding ctx_ok_def words_left_def by (auto simp: abi_regs_def)

lemma ctx_ok_word: "ctx_ok c \<Longrightarrow> i < length (words_left c) \<Longrightarrow> words_left c ! i \<in> set abi_regs"
  by (metis ctx_ok_def words_left_def nth_mem in_set_dropD)

lemma abi_regs_non_empty: "r \<in> set abi_regs \<Longrightarrow> r \<noteq> []"
  by (auto simp: abi_regs_def)

lemma word_non_empty: "ctx_ok c \<Longrightarrow> i < length (words_left c) \<Longrightarrow> words_left c ! i \<noteq> []"
  by (rule abi_regs_non_empty) (rule ctx_ok_word)

text \<open>
  The normal form of the planner: a value is skipped without consuming anything, or its leaves
  are appended and its words consumed.
\<close>

definition planned :: "type_table \<Rightarrow> dwarf_type \<Rightarrow> string \<Rightarrow> flat_ctx \<Rightarrow> auto_value option \<times> flat_ctx" where
  "planned ty t name c =
     (Some (value_of name t (reg_words t) (value_captures ty t)),
      emits (value_specs ty t name (words_left c)) (skip (reg_words t) c))"

definition plannable :: "dwarf_type \<Rightarrow> bool" where
  "plannable t \<longleftrightarrow> abi_word_count t \<noteq> 0"

text \<open>
  The leaf budget: what the value needs must fit behind the leaves so far. The code tests the
  budget of a pointer without object and of a scalar only through the loop's test.
\<close>

definition value_leaves :: "type_table \<Rightarrow> dwarf_type \<Rightarrow> nat" where
  "value_leaves ty t = reg_words t + value_captures ty t"

lemma emits_skip_simps: "emits ts (skip n (emits ss c)) = emits (ss @ ts) (skip n c)"
  by simp

lemma plan_object_eq:
  assumes "ctx_ok c" "underlying t = PtrType cn n p" "captured_target ty p"
  shows "plan_object t (ty p) name c =
    (if length (fc_out c) + value_leaves ty t \<le> 8 then planned ty t name c else (None, broken c))"
proof -
  have rw: "reg_words t = 1" "value_captures ty t = 1 + extra_captures (ty p) True"
    using reg_words_underlying [of t] assms(2,3) by (simp_all add: value_captures_def)
  show ?thesis
  proof (cases "length (fc_out c) + value_leaves ty t \<le> 8")
    case False
    then show ?thesis by (simp add: plan_object_def reserve_cases value_leaves_def rw Let_def)
  next
    case True
    then have l: "Suc 0 \<le> length (words_left c)" using ctx_ok_left [OF assms(1)] by (simp add: value_leaves_def rw)
    then have "words_left c ! 0 \<noteq> []" by (intro word_non_empty [OF assms(1)]) auto
    with True l show ?thesis
      by (simp add: plan_object_def reserve_cases value_leaves_def rw Let_def next_word_some planned_def
          value_specs_def capture_specs_def assms object_specs_def emit_emits emit_captures_specs)
  qed
qed

lemma plan_pointer_eq:
  assumes "ctx_ok c" "\<not> ctx_full c" "underlying t = PtrType cn n p" "\<not> captured_target ty p"
  shows "plan_pointer t name c = planned ty t name c"
proof -
  have rw: "reg_words t = 1" "value_captures ty t = 0"
    using reg_words_underlying [of t] assms(3,4) by (simp_all add: value_captures_def)
  have l: "Suc 0 \<le> length (words_left c)" using ctx_ok_left [OF assms(1)] assms(2) by (simp add: ctx_full_def max_fetch_args_def)
  then have "words_left c ! 0 \<noteq> []" by (intro word_non_empty [OF assms(1)]) auto
  with l show ?thesis
    by (simp add: plan_pointer_def Let_def next_word_some planned_def rw value_specs_def capture_specs_def assms emit_emits)
qed


lemma plan_scalar_eq:
  assumes "ctx_ok c" "\<not> ctx_full c" "plannable t" "\<And>cn n p. underlying t \<noteq> PtrType cn n p"
    "\<And>cn n sn fs. underlying t \<noteq> StructType cn n sn fs"
  shows "plan_scalar t (underlying t) name c = planned ty t name c"
proof -
  have l: "Suc 0 \<le> length (words_left c)" using ctx_ok_left [OF assms(1)] assms(2) by (simp add: ctx_full_def max_fetch_args_def)
  then have ne: "words_left c ! 0 \<noteq> []" by (intro word_non_empty [OF assms(1)]) auto
  obtain k tn n where s: "scalar_value (underlying t) = Some (k, tn, n)"
    using assms(3-5) abi_word_count_underlying [of t]
    by (cases t rule: underlying_cases; cases "underlying t") (auto simp: plannable_def)
  have rw: "reg_words t = 1" "value_captures ty t = 0"
    "abi_specs (underlying t) name rs = [scalar_reg_spec name n tn (rs ! 0)]"
    "capture_specs ty t name rs = []" for rs
    using reg_words_underlying [of t] s by (cases "underlying t"; simp add: value_captures_def capture_specs_def)+
  show ?thesis
    using ne by (simp add: plan_scalar_def s Let_def next_word_some [OF l] planned_def rw value_specs_def emit_emits)
qed

lemma plan_scalar_none:
  assumes "\<not> plannable t" "\<And>cn n p. underlying t \<noteq> PtrType cn n p" "\<And>cn n sn fs. underlying t \<noteq> StructType cn n sn fs"
  shows "plan_scalar t (underlying t) name c = (None, c)"
  using assms abi_word_count_underlying [of t]
  by (cases t rule: underlying_cases; cases "underlying t") (auto simp: plannable_def plan_scalar_def)

lemma struct_specs:
  assumes "underlying t = StructType cn n sn fs"
  shows "reg_words t = reg_words (StructType cn n sn fs)"
    "value_captures ty t = extra_captures (StructType cn n sn fs) False"
    "value_specs ty t name rs = abi_specs (StructType cn n sn fs) name rs @ reg_specs (StructType cn n sn fs) name rs"
  using reg_words_underlying [of t] unfolding value_captures_def value_specs_def capture_specs_def assms
  by simp_all

lemma plan_struct_eq:
  assumes "ctx_ok c" "underlying t = StructType cn n sn fs" "sane_type t" "plannable t"
  shows "plan_struct t (StructType cn n sn fs) name c =
    (if length (fc_out c) + value_leaves ty t \<le> 8 then planned ty t name c else (None, broken c))"
proof -
  let ?s = "StructType cn n sn fs"
  have n: "abi_word_count ?s \<noteq> 0" "sane_type ?s"
    using assms(2-4) sane_underlying [of t] abi_word_count_underlying [of t] by (simp_all add: plannable_def)
  note w = abi_words_emitted(1) [OF n(2,1)]
  note st = struct_specs [OF assms(2)]
  have vl: "value_leaves ty t = abi_word_count ?s + extra_captures ?s False"
    by (simp only: value_leaves_def st w)
  show ?thesis
  proof (cases "length (fc_out c) + value_leaves ty t \<le> 8")
    case False
    then show ?thesis using n by (simp add: plan_struct_def reserve_cases vl Let_def del: abi_word_count.simps extra_captures.simps)
  next
    case True
    then have l: "reg_words ?s \<le> length (words_left c)"
      using ctx_ok_left [OF assms(1)] by (simp add: vl w del: reg_words.simps abi_word_count.simps extra_captures.simps)
    note e = emit_abi_specs(1) [OF l, of name]
    obtain jobs c1 where j: "emit_abi ?s name c = (jobs, c1)" by fastforce
    have "fold emit_reg_captures jobs c1 = emits (value_specs ty t name (words_left c)) (skip (reg_words t) c)"
      using e j by (simp add: st del: reg_words.simps abi_specs.simps reg_specs.simps emit_abi.simps)
    moreover have "length (fc_out c) + (abi_word_count ?s + extra_captures ?s False) \<le> 8" using True by (simp only: vl)
    ultimately show ?thesis
      using n(1) by (simp only: plan_struct_def reserve_cases planned_def Let_def prod.case j if_True if_False st w vl) simp
  qed
qed

text \<open>Consecutive words of a context with enough of them left.\<close>

lemma next_word_nth:
  "k < length (words_left c) \<Longrightarrow> next_word (skip k c) = (words_left c ! k, skip (Suc k) c)"
  by (subst next_word_left) simp_all

lemma plan_string_eq:
  assumes "ctx_ok c" "underlying t = StructType cn n sn fs" "struct_kind sn fs = Go_string"
  shows "plan_string t name c =
    (if length (fc_out c) + value_leaves ty t \<le> 8 then planned ty t name c else (None, broken c))"
proof -
  note st = struct_specs [OF assms(2)]
  have rw: "reg_words t = 2" "value_captures ty t = 1" using assms(3) by (simp_all add: st)
  show ?thesis
  proof (cases "length (fc_out c) + value_leaves ty t \<le> 8")
    case False
    then show ?thesis by (simp add: plan_string_def reserve_cases value_leaves_def rw Let_def)
  next
    case True
    then have l: "0 < length (words_left c)" "1 < length (words_left c)"
      using ctx_ok_left [OF assms(1)] by (auto simp: value_leaves_def rw)
    note ne = l [THEN word_non_empty [OF assms(1)]] and nx = next_word_nth [OF l(1)] next_word_nth [OF l(2)]
    show ?thesis
      using True ne nx assms(3)
      by (simp add: plan_string_def reserve_cases value_leaves_def rw planned_def st emit_emits numeral_2_eq_2)
  qed
qed

lemma plan_slice_eq:
  assumes "ctx_ok c" "underlying t = StructType cn n sn fs" "struct_kind sn fs = Go_slice"
  shows "plan_slice t name c =
    (if length (fc_out c) + value_leaves ty t \<le> 8 then planned ty t name c else (None, broken c))"
proof -
  note st = struct_specs [OF assms(2)]
  have rw: "reg_words t = 3" "value_captures ty t = 1" using assms(3) by (simp_all add: st)
  show ?thesis
  proof (cases "length (fc_out c) + value_leaves ty t \<le> 8")
    case False
    then show ?thesis by (simp add: plan_slice_def reserve_cases value_leaves_def rw Let_def)
  next
    case True
    then have l: "0 < length (words_left c)" "1 < length (words_left c)" "2 < length (words_left c)"
      using ctx_ok_left [OF assms(1)] by (auto simp: value_leaves_def rw)
    note ne = l [THEN word_non_empty [OF assms(1)]]
      and nx = next_word_nth [OF l(1)] next_word_nth [OF l(2)] next_word_nth [OF l(3)]
    show ?thesis
      using True ne nx assms(3)
      by (simp add: plan_slice_def reserve_cases value_leaves_def rw planned_def st emit_emits numeral_2_eq_2 numeral_3_eq_3)
  qed
qed

lemma plan_interface_eq:
  assumes "ctx_ok c" "underlying t = StructType cn n sn fs" "struct_kind sn fs = Go_interface"
  shows "plan_interface (interface_is_non_empty sn fs) t name c =
    (if length (fc_out c) + value_leaves ty t \<le> 8 then planned ty t name c else (None, broken c))"
proof -
  note st = struct_specs [OF assms(2)]
  have rw: "reg_words t = 2" "value_captures ty t = 1" using assms(3) by (simp_all add: st)
  show ?thesis
  proof (cases "length (fc_out c) + value_leaves ty t \<le> 8")
    case False
    then show ?thesis by (simp add: plan_interface_def reserve_cases value_leaves_def rw Let_def)
  next
    case True
    then have l: "0 < length (words_left c)" "1 < length (words_left c)"
      using ctx_ok_left [OF assms(1)] by (auto simp: value_leaves_def rw)
    note ne = l [THEN word_non_empty [OF assms(1)]] and nx = next_word_nth [OF l(1)] next_word_nth [OF l(2)]
    show ?thesis
      using True ne nx assms(3)
      by (cases "interface_is_non_empty sn fs")
        (simp_all add: plan_interface_def reserve_cases value_leaves_def rw planned_def st emit_emits numeral_2_eq_2)
  qed
qed

lemma kind_words:
  assumes "underlying t = StructType cn n sn fs" "struct_kind sn fs \<noteq> Plain_struct"
  shows "plannable t"
  using assms abi_word_count_underlying [of t]
  by (auto simp: plannable_def struct_kind_def split: if_splits)

text \<open>
  A value is planned when its type is supported and its leaves fit; then its words and captures
  are appended, and nothing else happens. A value that is skipped consumes no register.
\<close>

lemma plan_value_normal:
  assumes "ctx_ok c" "\<not> ctx_full c" "sane_type t"
  shows "plan_value ty t name c =
    (if plannable t \<and> length (fc_out c) + value_leaves ty t \<le> 8 then planned ty t name c
     else (None, if plannable t then broken c else c))"
proof (cases t rule: underlying_cases)
  case (Ptr cn n p)
  have pl: "plannable t" using abi_word_count_underlying [of t] Ptr by (simp add: plannable_def)
  show ?thesis
  proof (cases "captured_target ty p")
    case True
    then show ?thesis using plan_object_eq [OF assms(1) Ptr True, of name] Ptr pl by (simp add: plan_value_def)
  next
    case False
    have "value_leaves ty t = 1"
      using reg_words_underlying [of t] Ptr False by (simp add: value_leaves_def value_captures_def)
    then show ?thesis
      using plan_pointer_eq [OF assms(1,2) Ptr False, of name] Ptr pl False assms(2)
      by (simp add: plan_value_def ctx_full_def max_fetch_args_def)
  qed
next
  case (Struct cn n sn fs)
  show ?thesis
  proof (cases "struct_kind sn fs")
    case Go_string
    then show ?thesis using plan_string_eq [OF assms(1) Struct Go_string, of name ty] kind_words [OF Struct] Struct
      by (simp add: plan_value_def)
  next
    case Go_slice
    then show ?thesis using plan_slice_eq [OF assms(1) Struct Go_slice, of name ty] kind_words [OF Struct] Struct
      by (simp add: plan_value_def)
  next
    case Go_interface
    then show ?thesis using plan_interface_eq [OF assms(1) Struct Go_interface, of name ty] kind_words [OF Struct] Struct
      by (simp add: plan_value_def)
  next
    case Plain_struct
    show ?thesis
    proof (cases "plannable t")
      case True
      then show ?thesis using plan_struct_eq [OF assms(1) Struct assms(3) True, of name ty] Struct Plain_struct
        by (simp add: plan_value_def)
    next
      case False
      then have "abi_word_count (StructType cn n sn fs) = 0"
        using abi_word_count_underlying [of t] Struct by (simp add: plannable_def)
      then show ?thesis using False Struct Plain_struct
        by (simp add: plan_value_def plan_struct_def Let_def del: abi_word_count.simps)
    qed
  qed
next
  case Other
  have v: "plan_value ty t name c = plan_scalar t (underlying t) name c"
    using Other by (cases "underlying t") (auto simp: plan_value_def)
  show ?thesis
  proof (cases "plannable t")
    case True
    have "reg_words (underlying t) = 1" "value_captures ty t = 0"
      using Other by (cases "underlying t"; auto simp: value_captures_def)+
    then have "value_leaves ty t = 1" by (simp add: value_leaves_def reg_words_underlying)
    then show ?thesis
      using True assms(2) plan_scalar_eq [OF assms(1,2) True Other(1,2), of name]
      by (simp add: v ctx_full_def max_fetch_args_def)
  next
    case False
    then show ?thesis using plan_scalar_none [OF False Other(1,2), of name c] by (simp add: v)
  qed
qed

section \<open>The plan of a function\<close>

text \<open>The values planned and their leaves, given the registers left and the leaves so far.\<close>

fun plan_spec :: "type_table \<Rightarrow> (string \<Rightarrow> string) \<Rightarrow> variable list \<Rightarrow> string list \<Rightarrow> nat \<Rightarrow>
    (auto_value \<times> arg_spec list) list" where
  "plan_spec ty rename [] rs k = []"
| "plan_spec ty rename (v # vs) rs k =
     (let t = va_type v; name = rename (va_name v)
      in if k \<ge> 8 then []
         else if plannable t \<and> k + value_leaves ty t \<le> 8
         then (value_of name t (reg_words t) (value_captures ty t), value_specs ty t name rs) #
              plan_spec ty rename vs (drop (reg_words t) rs) (k + value_leaves ty t)
         else plan_spec ty rename vs rs k)"

lemma reg_words_le: "reg_words t \<le> value_leaves ty t"
  by (simp add: value_leaves_def)

lemma length_value_specs [simp]: "length (value_specs ty t name rs) = value_leaves ty t"
  by (simp add: value_specs_def value_leaves_def reg_words_underlying)

lemma ctx_ok_planned:
  assumes "ctx_ok c" "length (fc_out c) + value_leaves ty t \<le> 8"
  shows "ctx_ok (snd (planned ty t name c))"
  using assms reg_words_le [of t ty] by (simp add: planned_def ctx_ok_def)

lemma plan_values_spec:
  assumes "ctx_ok c" "list_all (\<lambda>v. sane_type (va_type v)) vs"
  shows "fst (plan_values ty rename vs c) = map fst (plan_spec ty rename vs (words_left c) (length (fc_out c))) \<and>
    fc_out (snd (plan_values ty rename vs c)) =
      fc_out c @ concat (map snd (plan_spec ty rename vs (words_left c) (length (fc_out c))))"
  using assms
proof (induction vs arbitrary: c)
  case (Cons v vs)
  let ?t = "va_type v" and ?name = "rename (va_name v)"
  show ?case
  proof (cases "ctx_full c")
    case True
    then show ?thesis by (simp add: ctx_full_def max_fetch_args_def Let_def)
  next
    case False
    then have k: "length (fc_out c) < 8" by (simp add: ctx_full_def max_fetch_args_def)
    have sane: "sane_type ?t" "list_all (\<lambda>v. sane_type (va_type v)) vs" using Cons.prems(2) by simp_all
    note nf = plan_value_normal [OF Cons.prems(1) False sane(1), of ty ?name]
    show ?thesis
    proof (cases "plannable ?t \<and> length (fc_out c) + value_leaves ty ?t \<le> 8")
      case True
      note ok = ctx_ok_planned [OF Cons.prems(1) conjunct2 [OF True], of ?name]
      show ?thesis
        using Cons.IH [OF ok sane(2)] True False k
        by (simp add: nf Let_def case_prod_beta) (simp add: planned_def)
    next
      case no: False
      have ok: "ctx_ok (if plannable ?t then broken c else c)" "words_left (broken c) = words_left c"
        using Cons.prems(1) by (simp_all add: ctx_ok_def words_left_def)
      show ?thesis
        using Cons.IH [OF ok(1) sane(2)] no False k ok(2)
        by (cases "plannable ?t") (simp_all add: nf Let_def case_prod_beta)
    qed
  qed
qed simp

definition fn_plan :: "type_table \<Rightarrow> (string \<Rightarrow> string) \<Rightarrow> variable list \<Rightarrow> (auto_value \<times> arg_spec list) list" where
  "fn_plan ty rename vs = plan_spec ty rename vs abi_regs 0"

definition plan_args :: "(auto_value \<times> arg_spec list) list \<Rightarrow> fetch_arg list" where
  "plan_args plan = mark_iface_slots (map spec_fetch_arg (concat (map snd plan)))"

lemma new_ctx_simps [simp]: "ctx_ok new_ctx" "words_left new_ctx = abi_regs" "fc_out new_ctx = []"
  by (simp_all add: ctx_ok_def new_ctx_def words_left_def)

lemma derive_plan:
  assumes "list_all (\<lambda>v. sane_type (va_type v)) vars"
  shows "derive_args ty vars = (plan_args (fn_plan ty id vars), map fst (fn_plan ty id vars))"
    and "derive_rets ty vars = (plan_args (fn_plan ty ret_name vars), map fst (fn_plan ty ret_name vars))"
  using plan_values_spec [OF new_ctx_simps(1) assms, of ty id] plan_values_spec [OF new_ctx_simps(1) assms, of ty ret_name]
  by (simp_all add: derive_args_def derive_rets_def case_prod_beta fn_plan_def plan_args_def build_def)

lemma leaf_count_value: "leaf_count (value_of name t (reg_words t) (value_captures ty t)) = value_leaves ty t"
  by (simp add: value_of_def leaf_count_def value_leaves_def)

lemma plan_block_leaves:
  "(v, ss) \<in> set (plan_spec ty rename vs rs k) \<Longrightarrow> length ss = leaf_count v"
  by (induction vs arbitrary: rs k)
    (auto simp: Let_def leaf_count_value split: if_splits)

lemma plan_total:
  "k \<le> 8 \<Longrightarrow> k + sum_list (map (leaf_count \<circ> fst) (plan_spec ty rename vs rs k)) \<le> 8"
proof (induction vs arbitrary: rs k)
  case (Cons v vs)
  then show ?case
    using Cons.IH [of "k + value_leaves ty (va_type v)" "drop (reg_words (va_type v)) rs"]
    by (auto simp: Let_def leaf_count_value comp_def add.assoc)
qed simp

lemma length_plan_args: "length (plan_args plan) = sum_list (map (length \<circ> snd) plan)"
  by (simp add: plan_args_def mark_iface_slots_def length_concat)

lemma plan_leaf_counts:
  "map (length \<circ> snd) (plan_spec ty rename vs rs k) = map (leaf_count \<circ> fst) (plan_spec ty rename vs rs k)"
  by (rule map_cong) (auto dest: plan_block_leaves)

section \<open>Registers\<close>

definition spec_base :: "arg_spec \<Rightarrow> string" where
  "spec_base s = (if as_rules s = [] then as_reg s else ru_register (hd (as_rules s)))"

lemma spec_base_simps [simp]:
  "spec_base (scalar_reg_spec name n t r) = r" "spec_base (itab_spec name r) = r"
  "spec_base (loc_spec name loc n t) = ml_reg loc" "spec_base (blob_at name loc) = ml_reg loc"
  by (simp_all add: spec_base_def scalar_reg_spec_def itab_spec_def loc_spec_def blob_at_def reg_rule_def)

lemma loc_simps [simp]:
  "ml_reg (loc_at r nc) = r" "ml_reg (loc_add off l) = ml_reg l" "ml_reg (loc_deref off l) = ml_reg l"
  "ml_nil_check (loc_at r nc) = nc" "ml_nil_check (loc_add off l) = ml_nil_check l"
  "ml_nil_check (loc_deref off l) = ml_nil_check l" "ml_steps (loc_at r nc) = []"
  by (simp_all add: loc_at_def loc_add_def loc_deref_def)

lemma first_rule: "fa_rules (spec_fetch_arg s) \<noteq> [] \<and> ru_register (hd (fa_rules (spec_fetch_arg s))) = spec_base s"
  by (simp add: spec_fetch_arg_def spec_base_def Let_def reg_rule_def)

lemma mem_specs_base:
  "set (map spec_base (mem_specs t name loc)) \<subseteq> {ml_reg loc}"
  "set (map spec_base (mem_field_specs fs name loc)) \<subseteq> {ml_reg loc}"
  by (induction t name loc and fs name loc rule: mem_specs_mem_field_specs.induct)
    (auto split: struct_kind.split)

lemma take_first: "Suc 0 \<le> length rs \<Longrightarrow> [rs ! 0] = take (Suc 0) rs"
  by (cases rs) simp_all

lemma abi_specs_base:
  "reg_words t \<le> length rs \<Longrightarrow> map spec_base (abi_specs t name rs) = take (reg_words t) rs"
  "reg_field_words fs \<le> length rs \<Longrightarrow> map spec_base (abi_field_specs fs name rs) = take (reg_field_words fs) rs"
proof (induction t name rs and fs name rs rule: abi_specs_abi_field_specs.induct)
  case (3 cn n sn fs name rs)
  then show ?case
    by (cases "struct_kind sn fs"; cases rs; cases "tl rs"; cases "tl (tl rs)") (simp_all add: numeral_2_eq_2 numeral_3_eq_3)
next
  case (7 fname off t fs name rs)
  then show ?case by (simp add: Let_def take_add)
qed (simp_all add: Let_def take_first split: option.split prod.split)

lemma reg_specs_base:
  "reg_words t \<le> length rs \<Longrightarrow> set (map spec_base (reg_specs t name rs)) \<subseteq> set rs"
  "reg_field_words fs \<le> length rs \<Longrightarrow> set (map spec_base (reg_field_specs fs name rs)) \<subseteq> set rs"
proof (induction t name rs and fs name rs rule: reg_specs_reg_field_specs.induct)
  case (3 cn n sn fs name rs)
  then show ?case by (cases "struct_kind sn fs") (auto intro!: nth_mem)
next
  case (6 fname off t fs name rs)
  then have "set (map spec_base (reg_field_specs fs name (drop (reg_words t) rs))) \<subseteq> set (drop (reg_words t) rs)"
    by simp
  then show ?case using 6 set_drop_subset [of "reg_words t" rs] by auto
qed simp_all


lemma value_specs_base:
  assumes "reg_words t \<le> length rs"
  shows "map spec_base (take (reg_words t) (value_specs ty t name rs)) = take (reg_words t) rs"
    "set (map spec_base (value_specs ty t name rs)) \<subseteq> set rs"
proof -
  have l: "reg_words (underlying t) \<le> length rs" using assms by (simp add: reg_words_underlying)
  note w = abi_specs_base(1) [OF l, of name]
  have t: "take (reg_words t) (value_specs ty t name rs) = abi_specs (underlying t) name rs"
    by (simp add: value_specs_def reg_words_underlying)
  show "map spec_base (take (reg_words t) (value_specs ty t name rs)) = take (reg_words t) rs"
    unfolding t w by (simp add: reg_words_underlying)
  have "set (map spec_base (capture_specs ty t name rs)) \<subseteq> set rs"
  proof (cases t rule: underlying_cases)
    case (Ptr cn n p)
    then have "rs \<noteq> []" using l by auto
    then show ?thesis
      using Ptr mem_specs_base(1) [of "ty p" name "loc_at (rs ! 0) True"]
      by (auto simp: capture_specs_def object_specs_def)
  next
    case (Struct cn n sn fs)
    then show ?thesis using reg_specs_base(1) [OF l, of name] by (simp add: capture_specs_def del: reg_specs.simps)
  next
    case Other
    then have "capture_specs ty t name rs = []" by (cases "underlying t") (auto simp: capture_specs_def)
    then show ?thesis by simp
  qed
  moreover have "set (map spec_base (abi_specs (underlying t) name rs)) \<subseteq> set rs"
    unfolding w by (rule set_take_subset)
  ultimately show "set (map spec_base (value_specs ty t name rs)) \<subseteq> set rs"
    by (simp add: value_specs_def)
qed

text \<open>The registers of the words of all planned values are the ABI registers in order.\<close>

lemma plan_words:
  assumes "9 \<le> length rs + k" "k \<le> 8"
  shows "concat (map (\<lambda>(v, ss). map spec_base (take (av_word_count v) ss)) (plan_spec ty rename vs rs k)) =
      take (sum_list (map (av_word_count \<circ> fst) (plan_spec ty rename vs rs k))) rs \<and>
    list_all (\<lambda>(v, ss). set (map spec_base ss) \<subseteq> set rs) (plan_spec ty rename vs rs k)"
  using assms
proof (induction vs arbitrary: rs k)
  case (Cons v vs)
  let ?t = "va_type v"
  show ?case
  proof (cases "k < 8 \<and> plannable ?t \<and> k + value_leaves ty ?t \<le> 8")
    case False
    then show ?thesis using Cons by (auto simp: Let_def)
  next
    case True
    let ?w = "reg_words ?t" and ?k = "k + value_leaves ty ?t"
    have w: "?w \<le> length rs" using True Cons.prems reg_words_le [of ?t ty] by arith
    have p: "9 \<le> length (drop ?w rs) + ?k" "?k \<le> 8"
      using True Cons.prems reg_words_le [of ?t ty] by simp_all
    note ih = Cons.IH [OF p]
    show ?thesis
      using True ih value_specs_base [OF w, of ty "rename (va_name v)"] set_drop_subset [of ?w rs]
      by (simp add: Let_def value_of_def take_add list_all_iff) blast
  qed
qed simp


lemma mark_fields [simp]:
  "map fa_rules (mark_iface_slots args) = map fa_rules args"
  "map fa_size (mark_iface_slots args) = map fa_size args"
  "map fa_nil_check (mark_iface_slots args) = map fa_nil_check args"
  "map fa_varname (mark_iface_slots args) = map fa_varname args"
  "length (mark_iface_slots args) = length args"
  by (simp_all add: mark_iface_slots_def split: option.split)

lemma plan_args_base:
  "list_all (\<lambda>a. fa_rules a \<noteq> [] \<and> ru_register (hd (fa_rules a)) \<in> S) (plan_args plan) \<longleftrightarrow>
     list_all (\<lambda>(v, ss). set (map spec_base ss) \<subseteq> S) plan"
proof -
  have "list_all (\<lambda>a. fa_rules a \<noteq> [] \<and> ru_register (hd (fa_rules a)) \<in> S) (plan_args plan) \<longleftrightarrow>
      list_all (\<lambda>rs. rs \<noteq> [] \<and> ru_register (hd rs) \<in> S) (map fa_rules (plan_args plan))"
    by (simp add: list.pred_map comp_def)
  also have "\<dots> \<longleftrightarrow> list_all (\<lambda>(v, ss). set (map spec_base ss) \<subseteq> S) plan"
    unfolding plan_args_def mark_fields by (fastforce simp: list_all_iff first_rule)
  finally show ?thesis .
qed

section \<open>Interface slots\<close>

lemma type_index_found:
  "type_index args p = Some i \<Longrightarrow>
     i < length args \<and> has_suffix ''.type'' (fa_varname (args ! i)) \<and> trim_suffix ''.type'' (fa_varname (args ! i)) = p"
proof (induction args arbitrary: i rule: rev_induct)
  case (snoc a args)
  have "type_index (args @ [a]) =
      (if has_suffix ''.type'' (fa_varname a)
       then (type_index args)(trim_suffix ''.type'' (fa_varname a) \<mapsto> length args) else type_index args)"
    by (simp add: type_index_def enumerate_append_eq)
  with snoc show ?case
    by (auto simp: nth_append fun_upd_apply split: if_splits)
qed (simp add: type_index_def)

lemma marked_slot:
  assumes "a \<in> set (mark_iface_slots args)" "fa_iface_data a" "list_all (\<lambda>a. \<not> fa_iface_data a) args"
  shows "0 \<le> fa_type_index a \<and> nat (fa_type_index a) < length args"
  using assms by (auto simp: mark_iface_slots_def list_all_iff dest!: type_index_found split: if_splits option.splits)

section \<open>The plan and the calling convention\<close>

text \<open>The registers of the words of the values, read off the fetch arguments block by block.\<close>

fun word_registers :: "auto_value list \<Rightarrow> fetch_arg list \<Rightarrow> string list" where
  "word_registers [] args = []"
| "word_registers (v # vs) args =
     map (\<lambda>a. ru_register (hd (fa_rules a))) (take (av_word_count v) args) @
       word_registers vs (drop (leaf_count v) args)"

definition slots_in_range :: "fetch_arg list \<Rightarrow> bool" where
  "slots_in_range args \<longleftrightarrow>
     list_all (\<lambda>a. if fa_iface_data a then 0 \<le> fa_type_index a \<and> fa_type_index a < int (length args) else True) args"

definition abi_base :: "fetch_arg \<Rightarrow> bool" where
  "abi_base a \<longleftrightarrow> fa_rules a \<noteq> [] \<and> ru_register (hd (fa_rules a)) \<in> set abi_regs"

lemma word_registers_rules:
  "map fa_rules args = map fa_rules args' \<Longrightarrow> word_registers vs args = word_registers vs args'"
proof (induction vs arbitrary: args args')
  case (Cons v vs)
  have f: "map (\<lambda>a. ru_register (hd (fa_rules a))) (take n xs) = map (\<lambda>rs. ru_register (hd rs)) (take n (map fa_rules xs))"
    for n xs by (simp add: take_map)
  have "map fa_rules (drop (leaf_count v) args) = map fa_rules (drop (leaf_count v) args')"
    using Cons.prems by (metis drop_map)
  from Cons.IH [OF this] show ?case by (simp add: f Cons.prems)
qed simp

lemma word_registers_plan:
  "list_all (\<lambda>(v, ss). length ss = leaf_count v) plan \<Longrightarrow>
     word_registers (map fst plan) (map spec_fetch_arg (concat (map snd plan))) =
       concat (map (\<lambda>(v, ss). map spec_base (take (av_word_count v) ss)) plan)"
proof (induction plan)
  case (Cons p plan)
  obtain v ss where p: "p = (v, ss)" by (cases p)
  have l: "length ss = leaf_count v" "av_word_count v \<le> leaf_count v" using Cons.prems by (simp_all add: p leaf_count_def)
  have "map (\<lambda>a. ru_register (hd (fa_rules a))) (take n (map spec_fetch_arg ss)) = map spec_base (take n ss)" for n
    by (simp add: take_map first_rule)
  with Cons l show ?case by (simp add: p)
qed simp

lemma plan_slots: "slots_in_range (plan_args plan)"
proof -
  have "list_all (\<lambda>a. \<not> fa_iface_data a) (map spec_fetch_arg ss)" for ss
    by (simp add: list_all_iff spec_fetch_arg_def Let_def)
  from marked_slot [OF _ _ this] show ?thesis
    by (fastforce simp: slots_in_range_def plan_args_def list_all_iff)
qed

lemma plan_complete:
  assumes "length (plan_spec ty rename vs rs k) = length vs" "list_all (\<lambda>v. sane_type (va_type v)) vs"
  shows "map (av_word_count \<circ> fst) (plan_spec ty rename vs rs k) = map (abi_word_count \<circ> va_type) vs"
  using assms
proof (induction vs arbitrary: rs k)
  case (Cons v vs)
  have le: "length (plan_spec ty rename us rs k) \<le> length us" for us rs k
    by (induction us arbitrary: rs k) (auto simp: Let_def le_SucI)
  show ?case
  proof (cases "k < 8 \<and> plannable (va_type v) \<and> k + value_leaves ty (va_type v) \<le> 8")
    case True
    then show ?thesis using Cons abi_words_emitted(1) [of "va_type v"]
      by (simp add: Let_def value_of_def plannable_def)
  next
    case False
    then have "length (plan_spec ty rename (v # vs) rs k) \<le> length vs"
      using le [of vs rs k] by (auto simp: Let_def)
    then show ?thesis using Cons.prems(1) by simp
  qed
qed simp

definition follows_abi :: "variable list \<Rightarrow> fetch_arg list \<Rightarrow> auto_value list \<Rightarrow> bool" where
  "follows_abi vars args values \<longleftrightarrow>
     length args \<le> 8 \<and> sum_list (map leaf_count values) = length args \<and>
     list_all abi_base args \<and> slots_in_range args \<and>
     word_registers values args = take (sum_list (map av_word_count values)) abi_regs \<and>
     (if length values = length vars
      then map av_word_count values = map (abi_word_count \<circ> va_type) vars else True)"

lemma plan_follows_abi:
  assumes "list_all (\<lambda>v. sane_type (va_type v)) vars"
  shows "follows_abi vars (plan_args (fn_plan ty rename vars)) (map fst (fn_plan ty rename vars))"
proof -
  let ?p = "fn_plan ty rename vars"
  have start: "9 \<le> length abi_regs + 0" "(0 :: nat) \<le> 8" by (simp_all add: abi_regs_def)
  note words = plan_words [OF start, of ty rename vars, folded fn_plan_def]
  have blocks: "list_all (\<lambda>(v, ss). length ss = leaf_count v) ?p"
    by (auto simp: list_all_iff fn_plan_def dest: plan_block_leaves)
  have len: "length (plan_args ?p) = sum_list (map (leaf_count \<circ> fst) ?p)"
    unfolding length_plan_args fn_plan_def plan_leaf_counts by (rule refl)
  have "word_registers (map fst ?p) (plan_args ?p) =
      word_registers (map fst ?p) (map spec_fetch_arg (concat (map snd ?p)))"
    by (rule word_registers_rules) (simp add: plan_args_def)
  also have "\<dots> = take (sum_list (map (av_word_count \<circ> fst) ?p)) abi_regs"
    using word_registers_plan [OF blocks] words by simp
  finally have regs: "word_registers (map fst ?p) (plan_args ?p) = take (sum_list (map (av_word_count \<circ> fst) ?p)) abi_regs" .
  have base: "list_all abi_base (plan_args ?p)"
    using conjunct2 [OF words] plan_args_base [of "set abi_regs" ?p] by (simp add: abi_base_def [abs_def])
  have "length (plan_args ?p) \<le> 8"
    using plan_total [of 0 ty rename vars abi_regs] unfolding len unfolding fn_plan_def by simp
  then show ?thesis
    using len regs base plan_slots [of ?p] plan_complete [of ty rename vars abi_regs 0] assms
    by (simp add: follows_abi_def comp_def fn_plan_def)
qed



section \<open>Examples\<close>

definition int_type :: dwarf_type where "int_type = IntType ''int'' 8"

definition string_type :: dwarf_type where
  "string_type = StructType [] 16 ''string'' [Field ''str'' 0 (PtrType [] 8 0), Field ''len'' 8 int_type]"

definition error_type :: dwarf_type where
  "error_type =
     TypedefType ''error''
       (StructType [] 16 ''runtime.iface'' [Field ''tab'' 0 (PtrType [] 8 0), Field ''data'' 8 (PtrType [] 8 0)])"

text \<open>\<open>struct { Code int; Detail error }\<close> and a struct of seven strings.\<close>

definition mesh_error :: dwarf_type where
  "mesh_error = StructType [] 24 ''main.MeshError'' [Field ''Code'' 0 int_type, Field ''Detail'' 8 error_type]"

definition big_struct :: dwarf_type where
  "big_struct = StructType [] 112 ''main.Big'' (map (\<lambda>i. Field [digit_char i] (16 * int i) string_type) [0..<7])"

definition demo_types :: type_table where
  "demo_types p = (if p = 1 then mesh_error else if p = 2 then big_struct else OtherType ''void'' 0)"

definition auto_vars :: "variable list" where
  "auto_vars = [\<lparr>va_name = ''s'', va_type = string_type\<rparr>, \<lparr>va_name = ''n'', va_type = int_type\<rparr>,
     \<lparr>va_name = ''err'', va_type = error_type\<rparr>]"

lemma auto_vars_sane: "list_all (\<lambda>v. sane_type (va_type v)) auto_vars"
  by code_simp

lemma auto_vars_registers:
  "word_registers (snd (derive_args demo_types auto_vars)) (fst (derive_args demo_types auto_vars)) =
     [''ax'', ''bx'', ''cx'', ''di'', ''si'']"
  by code_simp


text \<open>
  \<open>f(p *Big, n int)\<close>: the object of \<open>p\<close> needs more leaves than there are, so \<open>p\<close> is skipped; but its
  register is not skipped with it, and \<open>n\<close> is read from \<open>ax\<close>, which holds \<open>p\<close>. The calling
  convention has \<open>n\<close> in \<open>bx\<close>.
\<close>

definition skip_vars :: "variable list" where
  "skip_vars = [\<lparr>va_name = ''p'', va_type = PtrType [] 8 2\<rparr>, \<lparr>va_name = ''n'', va_type = int_type\<rparr>]"

lemma skipped_value_keeps_register:
  "derive_args demo_types skip_vars =
     ([\<lparr>fa_varname = ''n'', fa_statement = [], fa_type = ''s64'', fa_size = 8, fa_rules = [reg_rule ''ax''],
        fa_nil_check = False, fa_iface_data = False, fa_type_index = 0\<rparr>],
      [value_of ''n'' int_type 1 0])"
  by code_simp

end
