(* ===== verification/Ftrace_Snapshot.thy ===== *)
theory Ftrace_Snapshot
  imports Ftrace_Plan
begin

text \<open>
  The probe snapshot of \<open>src/internal/uprobe/value.go\<close>: the copies of memory an event carries,
  bound to the addresses they were read from, and \<open>recipe.go\<close>, the extra copies for a concrete
  interface type. A missing \<open>memory\<close> in the code's slices is a shorter list here: \<open>data[n:]\<close> of
  a slice with fewer than n bytes is only taken where the code tests the length first.
\<close>

section \<open>Leaves and chunks\<close>

record leaf_data =
  ld_data :: "u8 list"
  ld_is_nil :: bool
  ld_unavailable :: bool

definition word_bytes :: "leaf_data \<Rightarrow> u8 list" where
  "word_bytes leaf = take 8 (ld_data leaf)"

definition concat_leaves :: "leaf_data list \<Rightarrow> u8 list" where
  "concat_leaves leaves = concat (map word_bytes leaves)"

text \<open>At most eight bytes, the missing ones zero.\<close>

definition read_uint :: "u8 list \<Rightarrow> u64" where
  "read_uint data = le64 (take 8 data)"

type_synonym snapshot = "(u64 \<times> u8 list) list"

definition snap_put :: "u64 \<Rightarrow> leaf_data \<Rightarrow> snapshot \<Rightarrow> snapshot" where
  "snap_put addr leaf snap =
     (if addr = 0 \<or> ld_unavailable leaf \<or> ld_is_nil leaf \<or> ld_data leaf = [] then snap
      else snap @ [(addr, ld_data leaf)])"

text \<open>The first chunk that holds the address decides; a chunk that ends too early is an error.\<close>

fun snap_read :: "snapshot \<Rightarrow> u64 \<Rightarrow> nat \<Rightarrow> u8 list option" where
  "snap_read [] addr n = None"
| "snap_read ((a, data) # snap) addr n =
     (if addr \<ge> a \<and> addr < a + of_nat (length data)
      then let bs = take n (drop (unat (addr - a)) data) in if length bs = n then Some bs else None
      else snap_read snap addr n)"

section \<open>Recipes\<close>

record rel_copy =
  rc_size :: int
  rc_steps :: "fetch_rule list"

definition max_type_recipe_rules :: nat where "max_type_recipe_rules = 4"

definition append_step :: "fetch_rule list \<Rightarrow> int \<Rightarrow> bool \<Rightarrow> fetch_rule list" where
  "append_step steps off deref = (if off = 0 \<and> \<not> deref then steps else steps @ [stack_rule off deref])"

fun rel_mem_captures :: "dwarf_type \<Rightarrow> fetch_rule list \<Rightarrow> rel_copy list" and
    rel_field_captures :: "dwarf_field list \<Rightarrow> fetch_rule list \<Rightarrow> rel_copy list" where
  "rel_mem_captures (TypedefType cn t) steps = rel_mem_captures t steps"
| "rel_mem_captures (QualType cn t) steps = rel_mem_captures t steps"
| "rel_mem_captures (StructType cn n sn fs) steps =
     (case struct_kind sn fs of
        Go_string \<Rightarrow> [\<lparr>rc_size = auto_string_size, rc_steps = append_step steps 0 True\<rparr>]
      | Go_slice \<Rightarrow> [\<lparr>rc_size = auto_string_size, rc_steps = append_step steps 0 True\<rparr>]
      | Go_interface \<Rightarrow> []
      | Plain_struct \<Rightarrow> rel_field_captures fs steps)"
| "rel_mem_captures t steps = []"
| "rel_field_captures [] steps = []"
| "rel_field_captures (Field fname off t # fs) steps =
     rel_mem_captures t (append_step steps off False) @ rel_field_captures fs steps"

definition compile_type_recipe :: "type_table \<Rightarrow> dwarf_type \<Rightarrow> rel_copy list" where
  "compile_type_recipe ty t =
     (let t = underlying t;
          rules = (if type_is_direct t
                   then case t of PtrType cn n p \<Rightarrow> rel_mem_captures (ty p) [] | _ \<Rightarrow> []
                   else rel_mem_captures t [])
      in take max_type_recipe_rules rules)"

text \<open>\<open>SetTypeRecipe\<close> of \<open>src/internal/bpf/bpf.go\<close>: the rules as the program's map holds them.\<close>

definition zero_rel_rule :: rel_rule where
  "zero_rel_rule =
     \<lparr>rr_size = 0, rr_length = 0, rr_nil_check = 0, rr_pad = 0, rr_offsets = replicate 8 0,
      rr_dereference = replicate 8 0\<rparr>"

definition encode_copy :: "rel_copy \<Rightarrow> rel_rule" where
  "encode_copy r =
     (let steps = take 8 (rc_steps r)
      in \<lparr>rr_size = word_of_int (rc_size r), rr_length = of_nat (length (rc_steps r)), rr_nil_check = 1,
          rr_pad = 0, rr_offsets = map (\<lambda>s. word_of_int (ru_offset s)) steps @ replicate (8 - length steps) 0,
          rr_dereference = map (\<lambda>s. if ru_dereference s then 1 else 0) steps @ replicate (8 - length steps) 0\<rparr>)"

definition encode_recipe :: "rel_copy list \<Rightarrow> type_recipe" where
  "encode_recipe rules =
     (let n = min 4 (length rules)
      in \<lparr>tr_length = of_nat n, tr_pad = replicate 7 0,
          tr_rules = map encode_copy (take 4 rules) @ replicate (4 - n) zero_rel_rule\<rparr>)"

definition set_type_recipe :: "u64 \<Rightarrow> rel_copy list \<Rightarrow> bpf_state \<Rightarrow> bpf_state" where
  "set_type_recipe type_addr rules st = install_type_recipe type_addr (encode_recipe rules) st"

section \<open>Binding the copies\<close>

definition bind_iface_captures :: "u8 list \<Rightarrow> leaf_data list \<Rightarrow> snapshot \<Rightarrow> snapshot" where
  "bind_iface_captures header captures snap =
     (if length header < 16 \<or> captures = [] then snap
      else snap_put (read_uint (drop 8 header)) (hd captures) snap)"

fun eval_rel :: "snapshot \<Rightarrow> u64 \<Rightarrow> fetch_rule list \<Rightarrow> u64" where
  "eval_rel snap addr [] = addr"
| "eval_rel snap addr (s # steps) =
     (if ru_dereference s
      then case snap_read snap (addr + word_of_int (ru_offset s)) 8 of
             None \<Rightarrow> 0
           | Some p \<Rightarrow> eval_rel snap (read_uint p) steps
      else eval_rel snap (addr + word_of_int (ru_offset s)) steps)"

text \<open>The loop over the rules of a recipe: the next leaf of the event and the snapshot.\<close>

fun apply_copies :: "rel_copy list \<Rightarrow> u64 \<Rightarrow> leaf_data list \<Rightarrow> nat \<times> snapshot \<Rightarrow> nat \<times> snapshot" where
  "apply_copies [] data_ptr all (cur, snap) = (cur, snap)"
| "apply_copies (r # rs) data_ptr all (cur, snap) =
     (if cur \<ge> length all then (cur, snap)
      else apply_copies rs data_ptr all
             (Suc cur, snap_put (eval_rel snap data_ptr (rc_steps r)) (all ! cur) snap))"

type_synonym recipes = "u64 \<rightharpoonup> rel_copy list"

definition apply_recipe_extras ::
  "u64 \<Rightarrow> u64 \<Rightarrow> leaf_data list \<Rightarrow> recipes \<Rightarrow> nat \<times> snapshot \<Rightarrow> nat \<times> snapshot" where
  "apply_recipe_extras type_addr data_ptr all recipes s =
     (if type_addr = 0 then s
      else case recipes type_addr of None \<Rightarrow> s | Some rec \<Rightarrow> apply_copies rec data_ptr all s)"

definition field_mem :: "int \<Rightarrow> u8 list \<Rightarrow> u8 list" where
  "field_mem off mem = (if 0 \<le> off then drop (nat off) mem else [])"

fun apply_nested_recipes ::
  "dwarf_type \<Rightarrow> u8 list \<Rightarrow> recipes \<Rightarrow> leaf_data list \<Rightarrow> nat \<times> snapshot \<Rightarrow> nat \<times> snapshot" and
    apply_field_recipes ::
  "dwarf_field list \<Rightarrow> u8 list \<Rightarrow> recipes \<Rightarrow> leaf_data list \<Rightarrow> nat \<times> snapshot \<Rightarrow> nat \<times> snapshot" where
  "apply_nested_recipes (TypedefType cn t) mem recipes all s = apply_nested_recipes t mem recipes all s"
| "apply_nested_recipes (QualType cn t) mem recipes all s = apply_nested_recipes t mem recipes all s"
| "apply_nested_recipes (StructType cn n sn fs) mem recipes all s =
     (if is_interface sn fs then
        (let type_addr = (if length mem \<ge> 8 then read_uint mem else 0);
             type_addr =
               (if interface_is_non_empty sn fs \<and> type_addr \<noteq> 0
                then case snap_read (snd s) (type_addr + 8) 8 of None \<Rightarrow> type_addr | Some p \<Rightarrow> read_uint p
                else type_addr);
             data_ptr = (if length mem \<ge> 16 then read_uint (drop 8 mem) else 0)
         in apply_recipe_extras type_addr data_ptr all recipes s)
      else if is_string sn \<or> is_slice sn fs then s
      else apply_field_recipes fs mem recipes all s)"
| "apply_nested_recipes t mem recipes all s = s"
| "apply_field_recipes [] mem recipes all s = s"
| "apply_field_recipes (Field fname off t # fs) mem recipes all s =
     apply_field_recipes fs mem recipes all (apply_nested_recipes t (field_mem off mem) recipes all s)"

text \<open>
  \<open>consumeMemCaptures\<close> and \<open>consumeRegCaptures\<close>; the address argument of the first is not used
  by the code.
\<close>

fun consume_mem_captures :: "dwarf_type \<Rightarrow> u8 list \<Rightarrow> leaf_data list \<times> snapshot \<Rightarrow> leaf_data list \<times> snapshot" and
    consume_mem_fields :: "dwarf_field list \<Rightarrow> u8 list \<Rightarrow> leaf_data list \<times> snapshot \<Rightarrow> leaf_data list \<times> snapshot" where
  "consume_mem_captures (TypedefType cn t) mem s = consume_mem_captures t mem s"
| "consume_mem_captures (QualType cn t) mem s = consume_mem_captures t mem s"
| "consume_mem_captures (StructType cn n sn fs) mem (captures, snap) =
     (case struct_kind sn fs of
        Go_interface \<Rightarrow>
          (if length captures < (if interface_is_non_empty sn fs then 3 else 2) then (captures, snap)
           else let (captures, snap) =
                      (if interface_is_non_empty sn fs
                       then (tl captures,
                             if length mem \<ge> 8 then snap_put (read_uint mem + 8) (hd captures) snap else snap)
                       else (captures, snap));
                    data_ptr = (if length mem \<ge> 16 then read_uint (drop 8 mem) else 0);
                    captures = tl captures
                in if captures = [] then (captures, snap)
                   else (tl captures, snap_put data_ptr (hd captures) snap))
      | Plain_struct \<Rightarrow> consume_mem_fields fs mem (captures, snap)
      | _ \<Rightarrow>
          if captures = [] then (captures, snap)
          else (tl captures, if length mem \<ge> 8 then snap_put (read_uint mem) (hd captures) snap else snap))"
| "consume_mem_captures t mem s = s"
| "consume_mem_fields [] mem s = s"
| "consume_mem_fields (Field fname off t # fs) mem s =
     consume_mem_fields fs mem (consume_mem_captures t (field_mem off mem) s)"

fun consume_reg_captures :: "dwarf_type \<Rightarrow> u8 list \<Rightarrow> leaf_data list \<times> snapshot \<Rightarrow> leaf_data list \<times> snapshot" and
    consume_reg_fields :: "dwarf_field list \<Rightarrow> u8 list \<Rightarrow> leaf_data list \<times> snapshot \<Rightarrow> leaf_data list \<times> snapshot" where
  "consume_reg_captures (TypedefType cn t) img s = consume_reg_captures t img s"
| "consume_reg_captures (QualType cn t) img s = consume_reg_captures t img s"
| "consume_reg_captures (StructType cn n sn fs) img (captures, snap) =
     (case struct_kind sn fs of
        Go_interface \<Rightarrow> (tl captures, bind_iface_captures img captures snap)
      | Plain_struct \<Rightarrow> consume_reg_fields fs img (captures, snap)
      | _ \<Rightarrow>
          if captures = [] then (captures, snap)
          else (tl captures, if length img \<ge> 8 then snap_put (read_uint img) (hd captures) snap else snap))"
| "consume_reg_captures t img s = s"
| "consume_reg_fields [] img s = s"
| "consume_reg_fields (Field fname off t # fs) img s =
     consume_reg_fields fs img (consume_reg_captures t (field_mem off img) s)"

section \<open>The memory image of a value in registers\<close>

definition write_at :: "int \<Rightarrow> u8 list \<Rightarrow> u8 list \<Rightarrow> u8 list" where
  "write_at base bs img = take (nat base) img @ bs @ drop (nat base + length bs) img"

fun scatter_walk :: "dwarf_type \<Rightarrow> int \<Rightarrow> u8 list \<Rightarrow> u8 list \<times> nat \<Rightarrow> u8 list \<times> nat" and
    scatter_fields :: "dwarf_field list \<Rightarrow> int \<Rightarrow> u8 list \<Rightarrow> u8 list \<times> nat \<Rightarrow> u8 list \<times> nat" where
  "scatter_walk (TypedefType cn t) base words s = scatter_walk t base words s"
| "scatter_walk (QualType cn t) base words s = scatter_walk t base words s"
| "scatter_walk (StructType cn n sn fs) base words (img, consume) =
     (if is_string sn \<or> is_slice sn fs \<or> is_interface sn fs
      then let m = abi_word_count (StructType cn n sn fs) * 8
           in (if consume + m \<le> length words \<and> base + int m \<le> int (length img)
               then write_at base (take m (drop consume words)) img else img,
               consume + m)
      else scatter_fields fs base words (img, consume))"
| "scatter_walk t base words (img, consume) =
     (let sz = type_size t; sz = nat (if sz \<le> 0 then 8 else if sz > 8 then 8 else sz)
      in (if consume + sz \<le> length words \<and> base + int sz \<le> int (length img)
          then write_at base (take sz (drop consume words)) img else img,
          consume + 8))"
| "scatter_fields [] base words s = s"
| "scatter_fields (Field fname off t # fs) base words s =
     scatter_fields fs base words (scatter_walk t (base + off) words s)"

definition scatter_words :: "dwarf_type \<Rightarrow> u8 list \<Rightarrow> u8 list" where
  "scatter_words t words =
     (if type_size t \<le> 0 then words
      else fst (scatter_walk t 0 words (replicate (nat (type_size t)) 0, 0)))"

end
