(* ===== verification/Ftrace_Render.thy ===== *)
theory Ftrace_Render
  imports Ftrace_Snapshot
begin

text \<open>
  The renderer of \<open>src/internal/uprobe/value.go\<close>: it walks a type over the bytes of a value and the
  memory behind it and writes it like a debugger. What it takes from Go's library beyond ASCII
  and integers is a parameter.
\<close>

section \<open>The library\<close>

text \<open>
  \<open>re_runtime\<close> is the value's \<open>RuntimeType\<close>, nil without an ELF file; \<open>re_string\<close> is
  \<open>dwarf.Type.String\<close>, \<open>re_float\<close> is \<open>strconv.FormatFloat\<close> of the value with these bytes,
  \<open>re_quote\<close> is \<open>strconv.Quote\<close> of a string that is not ASCII, \<open>re_exported\<close> is
  \<open>token.IsExported\<close> of such a name, \<open>re_name_depth\<close> a bound on the length of a chain of
  unnamed pointer types in the binary.
\<close>

record render_env =
  re_types :: type_table
  re_runtime :: "(u64 \<Rightarrow> dwarf_type option) option"
  re_string :: "dwarf_type \<Rightarrow> string"
  re_float :: "string \<Rightarrow> u8 list \<Rightarrow> string"
  re_quote :: "u8 list \<Rightarrow> string"
  re_exported :: "string \<Rightarrow> bool"
  re_name_depth :: nat
  re_hide_unexported :: bool

definition hex_char :: "nat \<Rightarrow> char" where
  "hex_char d = (if d < 10 then char_of (48 + d) else char_of (87 + d))"

function show_hex :: "nat \<Rightarrow> string" where
  "show_hex n = (if n < 16 then [hex_char n] else show_hex (n div 16) @ [hex_char (n mod 16)])"
  by pat_completeness auto
termination
  by (relation "measure id") auto

declare show_hex.simps [simp del]

definition quote_char :: char where "quote_char = CHR 0x22"
definition backslash :: char where "backslash = CHR 0x5C"

text \<open>\<open>strconv.Quote\<close> of one ASCII byte.\<close>

definition quote_byte :: "u8 \<Rightarrow> string" where
  "quote_byte b =
     (let n = unat b
      in if n = 0x22 then [backslash, quote_char]
         else if n = 0x5C then [backslash, backslash]
         else if n = 7 then [backslash, CHR ''a'']
         else if n = 8 then [backslash, CHR ''b'']
         else if n = 12 then [backslash, CHR ''f'']
         else if n = 10 then [backslash, CHR ''n'']
         else if n = 13 then [backslash, CHR ''r'']
         else if n = 9 then [backslash, CHR ''t'']
         else if n = 11 then [backslash, CHR ''v'']
         else if n < 0x20 \<or> n = 0x7F then backslash # CHR ''x'' # [hex_char (n div 16), hex_char (n mod 16)]
         else [char_of n])"

definition quote :: "render_env \<Rightarrow> u8 list \<Rightarrow> string" where
  "quote re bs =
     (if list_all (\<lambda>b. unat b < 128) bs then quote_char # concat (map quote_byte bs) @ [quote_char]
      else re_quote re bs)"

definition is_exported :: "render_env \<Rightarrow> string \<Rightarrow> bool" where
  "is_exported re name =
     (case name of
        [] \<Rightarrow> False
      | c # cs \<Rightarrow>
          (let n = (of_char c :: nat) in if n < 128 then 65 \<le> n \<and> n \<le> 90 else re_exported re name))"

definition show_word :: "u64 \<Rightarrow> string" where
  "show_word w = show_int (int (unat w))"

definition name_of :: "render_env \<Rightarrow> dwarf_type \<Rightarrow> string" where
  "name_of re t = type_name (re_string re) (re_types re) (re_name_depth re) t"

definition missing :: string where "missing = ''<unavailable>''"

section \<open>Scalars\<close>

definition render_leaf :: "render_env \<Rightarrow> value_kind \<Rightarrow> string \<Rightarrow> u8 list \<Rightarrow> string" where
  "render_leaf re kind typ data =
     (if kind = KindBool then (if data \<noteq> [] \<and> data ! 0 \<noteq> 0 then ''true'' else ''false'')
      else if kind = KindFloat \<and> (typ = ''f32'' \<or> typ = ''f64'') then re_float re typ data
      else if kind = KindPointer then
        (let addr = read_uint data in if addr = 0 then ''nil'' else ''0x'' @ show_hex (unat addr))
      else if typ = ''s8'' then show_int (sint (data ! 0))
      else if typ = ''s16'' then show_int (sint (ucast (le64 (take 2 data)) :: 16 word))
      else if typ = ''s32'' then show_int (sint (ucast (le64 (take 4 data)) :: u32))
      else if typ = ''s64'' then show_int (sint (le64 (take 8 data)))
      else if typ = ''u8'' then show_int (int (unat (data ! 0)))
      else if typ = ''u16'' then show_word (le64 (take 2 data))
      else if typ = ''u32'' then show_word (le64 (take 4 data))
      else if typ = ''u64'' then show_word (le64 (take 8 data))
      else show_word (read_uint data))"

section \<open>Values\<close>

type_synonym reader = "u64 \<Rightarrow> nat \<Rightarrow> u8 list option"

definition max_read_size :: int where "max_read_size = 4096"
definition max_dynamic_depth :: nat where "max_dynamic_depth = 8"

text \<open>
  The text of at most 64 bytes of a string or byte slice of \<open>len\<close> bytes.
\<close>

definition quoted_prefix :: "render_env \<Rightarrow> reader \<Rightarrow> u64 \<Rightarrow> int \<Rightarrow> string option" where
  "quoted_prefix re read addr len =
     (let n = min len auto_string_size; truncated = (len > auto_string_size)
      in map_option (\<lambda>bs. let q = quote re bs
                          in if truncated then butlast q @ ''...'' @ [quote_char] else q)
           (read addr (nat n)))"

definition render_slice_payload ::
  "render_env \<Rightarrow> reader \<Rightarrow> string \<Rightarrow> dwarf_field list \<Rightarrow> u64 \<Rightarrow> int \<Rightarrow> string" where
  "render_slice_payload re read sn fs addr len =
     (if len \<le> 0 \<or> addr = 0 \<or> \<not> is_byte_elem_slice (re_types re) sn fs then ''''
      else case quoted_prefix re read addr len of None \<Rightarrow> '''' | Some q \<Rightarrow> q)"

definition object_bytes :: "dwarf_type \<Rightarrow> u8 list \<Rightarrow> u64 \<Rightarrow> reader \<Rightarrow> u8 list" where
  "object_bytes t data addr read =
     (if type_size t \<le> 0 then data
      else case (if addr \<noteq> 0 \<and> type_size t \<le> max_read_size then read addr (nat (type_size t)) else None) of
        Some buf \<Rightarrow> buf
      | None \<Rightarrow> if int (length data) \<ge> type_size t then take (nat (type_size t)) data else data)"

definition render_string :: "render_env \<Rightarrow> reader \<Rightarrow> u8 list \<Rightarrow> string" where
  "render_string re read data =
     (if length data < 16 then [quote_char] @ missing @ [quote_char]
      else let addr = read_uint data; len = sint (le64 (take 8 (drop 8 data)))
           in if len = 0 then [quote_char, quote_char]
              else if len < 0 then [quote_char] @ missing @ [quote_char]
              else case quoted_prefix re read addr len of
                None \<Rightarrow> [quote_char] @ missing @ [quote_char]
              | Some q \<Rightarrow> q)"

definition show_slice :: "string \<Rightarrow> int \<Rightarrow> int \<Rightarrow> string \<Rightarrow> string" where
  "show_slice sn len cap payload =
     sn @ ''(len='' @ show_int len @ '', cap='' @ show_int cap @
       (if payload = [] then '')'' else '', '' @ payload @ '')'')"

definition render_slice :: "render_env \<Rightarrow> reader \<Rightarrow> string \<Rightarrow> dwarf_field list \<Rightarrow> u8 list \<Rightarrow> string" where
  "render_slice re read sn fs data =
     (if length data < 24 then sn @ ''('' @ missing @ '')''
      else let addr = read_uint data; len = sint (le64 (take 8 (drop 8 data))); cap = sint (le64 (take 8 (drop 16 data)))
           in show_slice sn len cap (render_slice_payload re read sn fs addr len))"

definition unknown_interface :: string where
  "unknown_interface = ''interface{type=<unknown>, value='' @ missing @ ''}''"

text \<open>The type of an interface value: of the word itself, or of the second word of the itab.\<close>

definition dynamic_type :: "render_env \<Rightarrow> reader \<Rightarrow> bool \<Rightarrow> u64 \<Rightarrow> dwarf_type option" where
  "dynamic_type re read non_empty type_addr =
     (case re_runtime re of
        None \<Rightarrow> None
      | Some resolve \<Rightarrow>
          (case resolve type_addr of
             Some t \<Rightarrow> Some t
           | None \<Rightarrow>
               if non_empty
               then (case read (type_addr + 8) 8 of None \<Rightarrow> None | Some w \<Rightarrow> resolve (read_uint w))
               else None))"

text \<open>
  \<open>renderStructField\<close> and the struct cases of \<open>renderDynamicValue\<close>, over the rendering \<open>rec\<close> one
  level deeper.
\<close>

definition render_struct_field ::
  "(dwarf_type \<Rightarrow> u8 list \<Rightarrow> u64 \<Rightarrow> string) \<Rightarrow> reader \<Rightarrow> dwarf_field \<Rightarrow> u8 list \<Rightarrow> u64 \<Rightarrow> string" where
  "render_struct_field rec read f data addr =
     (let start = byte_offset f; n = type_size (field_type f)
      in if start < 0 then missing
         else let field_data = drop (nat start) data;
                  field_data =
                    (if n > 0 \<and> int (length field_data) < n \<and> addr \<noteq> 0
                     then case read (addr + word_of_int start) (nat n) of None \<Rightarrow> field_data | Some buf \<Rightarrow> buf
                     else field_data)
              in if field_data = [] then missing
                 else rec (field_type f) field_data (addr + word_of_int start))"

definition render_interface ::
  "(dwarf_type \<Rightarrow> u8 list \<Rightarrow> u64 \<Rightarrow> string) \<Rightarrow> render_env \<Rightarrow> reader \<Rightarrow> bool \<Rightarrow> u8 list \<Rightarrow> string" where
  "render_interface rec re read non_empty data =
     (if length data < 16 then unknown_interface
      else let type_addr = read_uint data; data_addr = read_uint (drop 8 data)
           in if type_addr = 0 then ''nil''
              else case dynamic_type re read non_empty type_addr of
                None \<Rightarrow> unknown_interface
              | Some t \<Rightarrow>
                  if type_is_direct t then
                    (if data_addr = 0 \<and> (case underlying t of PtrType cn n p \<Rightarrow> True | _ \<Rightarrow> False)
                     then ''('' @ name_of re t @ '')(nil)''
                     else rec t (bytes64 data_addr) data_addr)
                  else let val = object_bytes t [] data_addr read
                       in if val = [] then name_of re t @ ''('' @ missing @ '')''
                          else rec t val data_addr)"

definition render_fields ::
  "(dwarf_type \<Rightarrow> u8 list \<Rightarrow> u64 \<Rightarrow> string) \<Rightarrow> render_env \<Rightarrow> reader \<Rightarrow> string \<Rightarrow> dwarf_field list \<Rightarrow> u8 list \<Rightarrow>
     u64 \<Rightarrow> string" where
  "render_fields rec re read sn fs data addr =
     sn @ ''{'' @
     join '', ''
       (map (\<lambda>f. field_name f @ '':'' @ render_struct_field rec read f data addr)
         (filter (\<lambda>f. \<not> (re_hide_unexported re \<and> \<not> is_exported re (field_name f))) fs)) @ ''}''"

definition render_pointer ::
  "(dwarf_type \<Rightarrow> u8 list \<Rightarrow> u64 \<Rightarrow> string) \<Rightarrow> render_env \<Rightarrow> reader \<Rightarrow> dwarf_type \<Rightarrow> nat \<Rightarrow> u8 list \<Rightarrow> string" where
  "render_pointer rec re read t p data =
     (let ptr = read_uint data; n = type_size (re_types re p)
      in if ptr = 0 then ''nil''
         else if n \<le> 0 \<or> n > max_read_size then name_of re t @ ''('' @ missing @ '')''
         else case read ptr (nat n) of
           None \<Rightarrow> name_of re t @ ''('' @ missing @ '')''
         | Some buf \<Rightarrow> CHR ''&'' # rec (re_types re p) buf ptr)"

text \<open>
  \<open>renderDynamicValue\<close> with \<open>d\<close> levels left, that is, at depth \<open>8 - d\<close>. Its memory reader is never
  nil: every caller passes the snapshot's.
\<close>

fun render_dynamic_value :: "nat \<Rightarrow> render_env \<Rightarrow> reader \<Rightarrow> dwarf_type \<Rightarrow> u8 list \<Rightarrow> u64 \<Rightarrow> string" where
  "render_dynamic_value 0 re read t data addr = ''<max-depth>''"
| "render_dynamic_value (Suc d) re read t data addr =
     (let rec = render_dynamic_value d re read
      in case underlying t of
           PtrType cn n p \<Rightarrow> render_pointer rec re read (underlying t) p data
         | StructType cn n sn fs \<Rightarrow>
             (case struct_kind sn fs of
                Go_string \<Rightarrow> render_string re read data
              | Go_slice \<Rightarrow> render_slice re read sn fs data
              | Go_interface \<Rightarrow> render_interface rec re read (interface_is_non_empty sn fs) data
              | Plain_struct \<Rightarrow>
                  render_fields rec re read sn fs (object_bytes (underlying t) data addr read) addr)
         | u \<Rightarrow>
             (case scalar_value u of
                None \<Rightarrow> missing
              | Some (kind, typ, n) \<Rightarrow>
                  if n > int (length data) then missing
                  else render_leaf re kind typ (take (nat n) data)))"

section \<open>Top-level values\<close>

text \<open>
  \<open>renderAuto\<close>: the value's leaves from \<open>cur\<close> on; \<open>extra\<close> is the next leaf of the recipes. The
  result is the text and both positions.
\<close>

definition render_auto ::
  "render_env \<Rightarrow> recipes \<Rightarrow> leaf_data list \<Rightarrow> auto_value \<Rightarrow> nat \<times> nat \<Rightarrow> string \<times> nat \<times> nat" where
  "render_auto re recipes data v pos =
     (case pos of (cur, extra) \<Rightarrow>
      let n = leaf_count v
      in if n = 0 \<or> cur + n > length data then (missing, (if n > 0 then min (cur + n) (length data) else cur), extra)
         else
           let words = take (av_word_count v) (drop cur data);
               captures = take (av_captures v) (drop (cur + av_word_count v) data);
               cur = cur + n;
               t = underlying (av_type v);
               header = concat_leaves words
           in if (case t of StructType cn m sn fs \<Rightarrow>
                      is_interface sn fs \<and> words \<noteq> [] \<and>
                      (ld_is_nil (words ! 0) \<or> read_uint (ld_data (words ! 0)) = 0)
                    | _ \<Rightarrow> False)
              then (''nil'', cur, extra)
              else if list_ex ld_unavailable words then (missing, cur, extra)
              else if captures \<noteq> [] \<and> ld_is_nil (captures ! 0) \<and> (case t of PtrType _ _ _ \<Rightarrow> True | _ \<Rightarrow> False)
              then (''nil'', cur, extra)
              else if header = [] then (missing, cur, extra)
              else case t of
                PtrType cn m p \<Rightarrow>
                  (let ptr = read_uint header
                   in if ptr = 0 then (''nil'', cur, extra)
                      else if captured_target (re_types re) p then
                        (if captures = [] \<or> ld_unavailable (captures ! 0)
                         then (name_of re t @ ''('' @ missing @ '')'', cur, extra)
                         else let obj = ld_data (captures ! 0);
                                  snap = snap_put ptr (captures ! 0) [];
                                  snap = snd (consume_mem_captures (re_types re p) obj (tl captures, snap));
                                  (extra, snap) = apply_nested_recipes (re_types re p) obj recipes data (extra, snap)
                              in (CHR ''&'' # render_dynamic_value max_dynamic_depth re (snap_read snap)
                                    (re_types re p) obj ptr, cur, extra))
                      else (''0x'' @ show_hex (unat ptr), cur, extra))
              | StructType cn m sn fs \<Rightarrow>
                  (case struct_kind sn fs of
                     Plain_struct \<Rightarrow>
                       (let img = scatter_words (av_type v) header;
                            snap = snd (consume_reg_captures (av_type v) img (captures, []))
                        in (render_dynamic_value max_dynamic_depth re (snap_read snap) (av_type v) img 0, cur, extra))
                   | Go_interface \<Rightarrow>
                       (let snap = bind_iface_captures header captures [];
                            (extra, snap) =
                              (if length header \<ge> 16
                               then apply_recipe_extras (read_uint header) (read_uint (drop 8 header)) data recipes (extra, snap)
                               else (extra, snap))
                        in (render_dynamic_value max_dynamic_depth re (snap_read snap) (av_type v) header 0, cur, extra))
                   | _ \<Rightarrow>
                       (let snap = (if captures \<noteq> [] then snap_put (read_uint header) (captures ! 0) [] else [])
                        in (render_dynamic_value max_dynamic_depth re (snap_read snap) (av_type v) header 0, cur, extra)))
              | _ \<Rightarrow> (render_dynamic_value max_dynamic_depth re (snap_read []) (av_type v) header 0, cur, extra))"

fun render_parts ::
  "render_env \<Rightarrow> recipes \<Rightarrow> leaf_data list \<Rightarrow> auto_value list \<Rightarrow> nat \<times> nat \<Rightarrow> string list" where
  "render_parts re recipes data [] pos = []"
| "render_parts re recipes data (v # vs) pos =
     (let (text, pos) = render_auto re recipes data v pos
      in (av_name v @ ''='' @ text) # render_parts re recipes data vs pos)"

definition render_values :: "render_env \<Rightarrow> recipes \<Rightarrow> leaf_data list \<Rightarrow> auto_value list \<Rightarrow> string" where
  "render_values re recipes data values =
     join '', '' (render_parts re recipes data values (0, sum_list (map leaf_count values)))"

end
