(* ===== verification/Ftrace_Exact.thy ===== *)
theory Ftrace_Exact
  imports Ftrace_Render
begin

text \<open>
  What the renderer of \<open>Ftrace_Render\<close> makes of incomplete memory: with a reader that only knows
  part of the traced program's memory, but nothing false, the text is the one over all of
  memory, or it says where something is missing.
\<close>

section \<open>Bytes of memory\<close>

definition true_at :: "(u64 \<rightharpoonup> u8) \<Rightarrow> u64 \<Rightarrow> u8 list \<Rightarrow> bool" where
  "true_at mem a bs \<longleftrightarrow> load_bytes mem a (length bs) = Some bs"

lemma those_Some_iff: "those xs = Some ys \<longleftrightarrow> xs = map Some ys"
proof
  show "those xs = Some ys \<Longrightarrow> xs = map Some ys"
    by (induction xs arbitrary: ys) (auto split: option.splits)
next
  have "those (map Some zs) = Some zs" for zs :: "'a list" by (induction zs) simp_all
  then show "xs = map Some ys \<Longrightarrow> those xs = Some ys" by simp
qed

lemma true_at_nth: "true_at mem a bs \<longleftrightarrow> (\<forall>i < length bs. mem (a + of_nat i) = Some (bs ! i))"
proof -
  have "map Some bs = map (\<lambda>i. Some (bs ! i)) [0..<length bs]"
    using arg_cong [OF map_nth [of bs], of "map Some"] by (simp add: comp_def)
  then show ?thesis
    unfolding true_at_def load_bytes_def those_Some_iff 
    by (simp only: map_eq_conv set_upt atLeastLessThan_iff Ball_def le0 simp_thms)
qed

lemma load_true: "load_bytes mem a n = Some bs \<longleftrightarrow> length bs = n \<and> true_at mem a bs"
  unfolding true_at_def using length_load_bytes by blast

lemma true_at_Nil [simp]: "true_at mem a []"
  by (simp add: true_at_nth)

lemma true_at_take: "true_at mem a bs \<Longrightarrow> true_at mem a (take n bs)"
  by (simp add: true_at_nth)

lemma true_at_drop: "true_at mem a bs \<Longrightarrow> true_at mem (a + of_nat n) (drop n bs)"
  by (auto simp: true_at_nth add.assoc simp flip: of_nat_add)

lemma true_at_agree:
  assumes "true_at mem a bs" "true_at mem a cs" "n \<le> length bs" "n \<le> length cs"
  shows "take n bs = take n cs"
proof (rule nth_equalityI)
  fix i
  assume "i < length (take n bs)"
  then have i: "i < length bs" "i < length cs" "i < n" using assms(3,4) by simp_all
  show "take n bs ! i = take n cs ! i"
    using assms(1) [unfolded true_at_nth, rule_format, OF i(1)] assms(2) [unfolded true_at_nth, rule_format, OF i(2)] i(3)
    by simp
qed (use assms in simp)

lemma word_int_nat: "0 \<le> i \<Longrightarrow> (word_of_int i :: u64) = of_nat (nat i)"
  by (metis int_nat_eq of_int_of_nat_eq word_of_int_eq_iff of_int_of_nat)

section \<open>Readers\<close>

definition reads_of :: "reader \<Rightarrow> (u64 \<rightharpoonup> u8) \<Rightarrow> bool" where
  "reads_of read mem \<longleftrightarrow> (\<forall>a n bs. read a n = Some bs \<longrightarrow> load_bytes mem a n = Some bs)"

definition snap_true :: "(u64 \<rightharpoonup> u8) \<Rightarrow> snapshot \<Rightarrow> bool" where
  "snap_true mem snap \<longleftrightarrow> list_all (\<lambda>(a, data). true_at mem a data) snap"

lemma snap_true_Nil [simp]: "snap_true mem []"
  by (simp add: snap_true_def)

lemma snap_true_append [simp]: "snap_true mem (s @ s') \<longleftrightarrow> snap_true mem s \<and> snap_true mem s'"
  by (simp add: snap_true_def)

lemma snap_true_put:
  "snap_true mem s \<Longrightarrow> (a \<noteq> 0 \<Longrightarrow> \<not> ld_unavailable l \<Longrightarrow> \<not> ld_is_nil l \<Longrightarrow> true_at mem a (ld_data l)) \<Longrightarrow>
     snap_true mem (snap_put a l s)"
  by (auto simp: snap_put_def snap_true_def)

lemma snap_reads: "snap_true mem snap \<Longrightarrow> reads_of (snap_read snap) mem"
  unfolding reads_of_def
proof (intro allI impI)
  fix a n bs
  show "snap_true mem snap \<Longrightarrow> snap_read snap a n = Some bs \<Longrightarrow> load_bytes mem a n = Some bs"
  proof (induction snap)
    case (Cons c snap)
    obtain b data where c: "c = (b, data)" by (cases c)
    show ?case
    proof (cases "a \<ge> b \<and> a < b + of_nat (length data)")
      case False
      then show ?thesis using Cons by (auto simp: c snap_true_def)
    next
      case True
      then have bs: "bs = take n (drop (unat (a - b)) data)" "length bs = n"
        using Cons.prems(2) by (auto simp: c Let_def split: if_splits)
      have "true_at mem (b + of_nat (unat (a - b))) (drop (unat (a - b)) data)"
        using Cons.prems(1) by (intro true_at_drop) (simp add: c snap_true_def)
      then have "true_at mem a bs" using bs(1) by (simp add: true_at_take)
      then show ?thesis using bs(2) by (simp add: load_true)
    qed
  qed simp
qed

section \<open>Gaps\<close>

definition has_gap :: "string \<Rightarrow> bool" where
  "has_gap s \<longleftrightarrow> (\<exists>pre post. s = pre @ missing @ post)"

lemma has_gap_intros [simp, intro]:
  "has_gap missing" "has_gap s \<Longrightarrow> has_gap (p @ s)" "has_gap s \<Longrightarrow> has_gap (s @ q)" "has_gap s \<Longrightarrow> has_gap (c # s)"
proof -
  show "has_gap missing" unfolding has_gap_def by (rule exI [of _ "[]"], rule exI [of _ "[]"]) simp
  show "has_gap (p @ s)" if "has_gap s"
    using that unfolding has_gap_def by (metis append.assoc)
  show "has_gap (s @ q)" if "has_gap s"
    using that unfolding has_gap_def by (metis append.assoc)
  show "has_gap (c # s)" if "has_gap s"
    using that unfolding has_gap_def by (metis append_Cons)
qed

text \<open>A text with a gap, or the text itself.\<close>

definition exact :: "string \<Rightarrow> string \<Rightarrow> bool" where
  "exact s s' \<longleftrightarrow> s = s' \<or> has_gap s"

lemma exact_refl [simp]: "exact s s"
  by (simp add: exact_def)

lemma exact_gap: "has_gap s \<Longrightarrow> exact s s'"
  by (simp add: exact_def)

lemma exact_append: "exact s s' \<Longrightarrow> exact t t' \<Longrightarrow> exact (s @ t) (s' @ t')"
  by (auto simp: exact_def)

lemma exact_Cons: "exact s s' \<Longrightarrow> exact (c # s) (c # s')"
  by (auto simp: exact_def)

lemma exact_join:
  "list_all2 exact ss ss' \<Longrightarrow> exact (join sep ss) (join sep ss')"
proof (induction rule: list_all2_induct)
  case (Cons s ss s' ss')
  then show ?case by (cases ss; cases ss') (auto intro!: exact_append)
qed simp

section \<open>The types\<close>

text \<open>A pointer held by value, outside strings, slices and interfaces.\<close>

fun has_pointer :: "dwarf_type \<Rightarrow> bool" and field_pointer :: "dwarf_field list \<Rightarrow> bool" where
  "has_pointer (TypedefType cn t) = has_pointer t"
| "has_pointer (QualType cn t) = has_pointer t"
| "has_pointer (PtrType cn n p) = True"
| "has_pointer (StructType cn n sn fs) = (struct_kind sn fs = Plain_struct \<and> field_pointer fs)"
| "has_pointer t = False"
| "field_pointer [] = False"
| "field_pointer (Field fname off t # fs) = (has_pointer t \<or> field_pointer fs)"

lemma has_pointer_underlying [simp]: "has_pointer (underlying t) = has_pointer t"
  by (induction t rule: underlying.induct) simp_all

lemma field_pointer_set: "field_pointer fs \<longleftrightarrow> (\<exists>f \<in> set fs. has_pointer (field_type f))"
  by (induction fs) (auto elim: has_pointer.elims, (case_tac a, auto)+)

definition plain_struct :: "dwarf_type \<Rightarrow> bool" where
  "plain_struct t =
     (case underlying t of StructType cn n sn fs \<Rightarrow> struct_kind sn fs = Plain_struct | _ \<Rightarrow> False)"

text \<open>
  The sizes of Go's types, fields that are not empty inside their struct and pointers at multiples of eight. A slice
  of bytes is excluded: its payload is left out of the text without a mark when it is not in the
  snapshot.
\<close>

definition field_ok :: "int \<Rightarrow> dwarf_field \<Rightarrow> bool" where
  "field_ok n f \<longleftrightarrow>
     0 \<le> byte_offset f \<and> 0 < type_size (field_type f) \<and> byte_offset f + type_size (field_type f) \<le> n \<and>
     (has_pointer (field_type f) \<longrightarrow> 8 dvd byte_offset f)"

definition shape_ok :: "type_table \<Rightarrow> dwarf_type \<Rightarrow> bool" where
  "shape_ok ty t =
     (case underlying t of
        PtrType cn n p \<Rightarrow> n = 8
      | StructType cn n sn fs \<Rightarrow>
          (case struct_kind sn fs of
             Go_string \<Rightarrow> n = 16
           | Go_slice \<Rightarrow> n = 24 \<and> \<not> is_byte_elem_slice ty sn fs
           | Go_interface \<Rightarrow> n = 16
           | Plain_struct \<Rightarrow> 0 \<le> n \<and> list_all (field_ok n) fs)
      | _ \<Rightarrow> True)"

text \<open>
  A set of types that holds what its members lead to. A type whose interface data word is taken
  for the value must not be a struct.
\<close>

definition closed_types :: "render_env \<Rightarrow> dwarf_type set \<Rightarrow> bool" where
  "closed_types re S \<longleftrightarrow>
     (\<forall>t \<in> S. shape_ok (re_types re) t \<and>
        (case underlying t of
           PtrType cn n p \<Rightarrow> re_types re p \<in> S
         | StructType cn n sn fs \<Rightarrow>
             (case struct_kind sn fs of
                Plain_struct \<Rightarrow> field_type ` set fs \<subseteq> S
              | Go_interface \<Rightarrow>
                  (\<forall>resolve a u. re_runtime re = Some resolve \<longrightarrow> resolve a = Some u \<longrightarrow>
                     u \<in> S \<and> \<not> (type_is_direct u \<and> plain_struct u))
              | _ \<Rightarrow> True)
         | _ \<Rightarrow> True))"

lemma closed_shape: "closed_types re S \<Longrightarrow> t \<in> S \<Longrightarrow> shape_ok (re_types re) t"
  by (simp add: closed_types_def)

lemma closed_pointer: "closed_types re S \<Longrightarrow> t \<in> S \<Longrightarrow> underlying t = PtrType cn n p \<Longrightarrow> re_types re p \<in> S"
  unfolding closed_types_def by fastforce

lemma closed_field:
  "closed_types re S \<Longrightarrow> t \<in> S \<Longrightarrow> underlying t = StructType cn n sn fs \<Longrightarrow> struct_kind sn fs = Plain_struct \<Longrightarrow>
     f \<in> set fs \<Longrightarrow> field_type f \<in> S"
  unfolding closed_types_def by fastforce

lemma closed_dynamic:
  "closed_types re S \<Longrightarrow> t \<in> S \<Longrightarrow> underlying t = StructType cn n sn fs \<Longrightarrow> struct_kind sn fs = Go_interface \<Longrightarrow>
     re_runtime re = Some resolve \<Longrightarrow> resolve a = Some u \<Longrightarrow> u \<in> S \<and> \<not> (type_is_direct u \<and> plain_struct u)"
  unfolding closed_types_def by fastforce

section \<open>The bytes of a value seen through two readers\<close>

definition low :: "u64 \<Rightarrow> int \<Rightarrow> bool" where
  "low addr n \<longleftrightarrow> unat addr + nat n \<le> 4096"

text \<open>
  How the bytes of a value over the snapshot and over all of memory may differ: not at all, for
  a value without an address of its own; otherwise both are what lies at the address, and the
  first may be cut off, at a multiple of eight when pointers matter.
\<close>

definition view_ok :: "(u64 \<rightharpoonup> u8) \<Rightarrow> dwarf_type \<Rightarrow> u8 list \<Rightarrow> u8 list \<Rightarrow> u64 \<Rightarrow> bool" where
  "view_ok mem t d1 d2 addr \<longleftrightarrow>
     (d1 = d2 \<and> (low addr (type_size t) \<or> \<not> plain_struct t)) \<or>
     (true_at mem addr d1 \<and> true_at mem addr d2 \<and>
      (if type_size t \<le> int (length d1) then type_size t \<le> int (length d2)
       else d1 \<noteq> [] \<and> length d1 \<le> length d2 \<and> (has_pointer t \<longrightarrow> 8 dvd length d1)))"

lemma view_cases:
  assumes "view_ok mem t d1 d2 addr"
  obtains (same) "d1 = d2"
  | (whole) "type_size t \<le> int (length d1)" "type_size t \<le> int (length d2)"
      "take (nat (type_size t)) d1 = take (nat (type_size t)) d2"
  | (cut) "int (length d1) < type_size t" "d1 \<noteq> []" "has_pointer t \<Longrightarrow> 8 dvd length d1"
proof -
  have "take (nat (type_size t)) d1 = take (nat (type_size t)) d2"
    if "true_at mem addr d1" "true_at mem addr d2" "type_size t \<le> int (length d1)" "type_size t \<le> int (length d2)"
    using that by (intro true_at_agree [OF that(1,2)]) simp_all
  then show thesis using assms that by (auto simp: view_ok_def split: if_splits)
qed

lemma read_uint_take: "8 \<le> n \<Longrightarrow> take n d1 = take n d2 \<Longrightarrow> read_uint d1 = read_uint d2"
  by (metis read_uint_def take_take min.absorb1)

lemma word_take:
  "k + 8 \<le> n \<Longrightarrow> take n d1 = take n d2 \<Longrightarrow> take 8 (drop k d1) = take 8 (drop k d2)"
proof -
  assume k: "k + 8 \<le> n" and e: "take n d1 = take n d2"
  have "take 8 (drop k d) = take 8 (drop k (take n d))" for d :: "'a list"
    using k by (simp add: drop_take)
  with e show ?thesis by metis
qed

section \<open>Rendering through a partial reader\<close>

definition exact_on ::
  "dwarf_type set \<Rightarrow> (u64 \<rightharpoonup> u8) \<Rightarrow> (dwarf_type \<Rightarrow> u8 list \<Rightarrow> u64 \<Rightarrow> string) \<Rightarrow>
     (dwarf_type \<Rightarrow> u8 list \<Rightarrow> u64 \<Rightarrow> string) \<Rightarrow> bool" where
  "exact_on S mem rec1 rec2 \<longleftrightarrow>
     (\<forall>t \<in> S. \<forall>d1 d2 addr. view_ok mem t d1 d2 addr \<longrightarrow> exact (rec1 t d1 addr) (rec2 t d2 addr))"

lemma reads_ofD: "reads_of r mem \<Longrightarrow> r a n = Some bs \<Longrightarrow> load_bytes mem a n = Some bs"
  by (simp add: reads_of_def)

lemma gap_texts [simp]:
  "has_gap ([quote_char] @ missing @ [quote_char])" "has_gap unknown_interface" "has_gap (n @ ''('' @ missing @ '')'')"
  "has_gap (quote_char # missing @ [quote_char])"
  by (simp_all add: unknown_interface_def)

lemma render_string_exact:
  assumes "reads_of r mem" "type_size t = 16" "view_ok mem t d1 d2 addr"
  shows "exact (render_string re r d1) (render_string re (load_bytes mem) d2)"
proof -
  have same: "exact (render_string re r d) (render_string re (load_bytes mem) d)" for d
  proof (cases "r (read_uint d) (nat (min (sint (le64 (take 8 (drop 8 d)))) auto_string_size))")
    case None
    then have "render_string re r d = render_string re (load_bytes mem) d \<or>
        render_string re r d = [quote_char] @ missing @ [quote_char]"
      by (auto simp: render_string_def quoted_prefix_def Let_def)
    then show ?thesis by (metis exact_def exact_refl gap_texts(1))
  next
    case (Some bs)
    from reads_ofD [OF assms(1) this] Some show ?thesis
      by (simp add: render_string_def quoted_prefix_def Let_def)
  qed
  show ?thesis
    using assms(3)
  proof (cases rule: view_cases)
    case whole
    then have l: "16 \<le> length d1" "16 \<le> length d2" "take 16 d1 = take 16 d2" using assms(2) by simp_all
    have "read_uint d1 = read_uint d2" "take 8 (drop 8 d1) = take 8 (drop 8 d2)"
      using read_uint_take [OF _ l(3)] word_take [OF _ l(3), of 8] by simp_all
    then have "render_string re (load_bytes mem) d1 = render_string re (load_bytes mem) d2"
      using l by (simp add: render_string_def Let_def)
    then show ?thesis using same [of d1] by simp
  next
    case cut
    then have "length d1 < 16" using assms(2) by simp
    then show ?thesis by (simp add: render_string_def exact_gap)
  qed (use same in simp)
qed

lemma render_slice_exact:
  assumes "type_size t = 24" "\<not> is_byte_elem_slice (re_types re) sn fs" "view_ok mem t d1 d2 addr"
  shows "exact (render_slice re r sn fs d1) (render_slice re (load_bytes mem) sn fs d2)"
proof -
  have p: "render_slice_payload re rd sn fs a l = []" for rd a l
    using assms(2) by (simp add: render_slice_payload_def)
  show ?thesis
    using assms(3)
  proof (cases rule: view_cases)
    case whole
    then have l: "24 \<le> length d1" "24 \<le> length d2" "take 24 d1 = take 24 d2" using assms(1) by simp_all
    have "take 8 (drop 8 d1) = take 8 (drop 8 d2)" "take 8 (drop 16 d1) = take 8 (drop 16 d2)"
      using word_take [OF _ l(3), of 8] word_take [OF _ l(3), of 16] by simp_all
    then show ?thesis using l by (simp add: render_slice_def Let_def p)
  next
    case cut
    then have "length d1 < 24" using assms(1) by simp
    then show ?thesis by (simp add: render_slice_def exact_gap)
  qed (simp add: render_slice_def p)
qed

lemma dynamic_type_exact:
  assumes "reads_of r mem"
  shows "dynamic_type re r ne a = None \<or> dynamic_type re r ne a = dynamic_type re (load_bytes mem) ne a"
proof (cases "r (a + 8) 8")
  case None
  then show ?thesis by (auto simp: dynamic_type_def split: option.split)
next
  case (Some w)
  from reads_ofD [OF assms this] Some show ?thesis by (auto simp: dynamic_type_def split: option.split)
qed

lemma render_pointer_exact:
  assumes "reads_of r mem" "exact_on S mem rec1 rec2" "re_types re p \<in> S"
    and "type_size t = 8" "has_pointer t" "view_ok mem t d1 d2 addr"
  shows "exact (render_pointer rec1 re r u p d1) (render_pointer rec2 re (load_bytes mem) u p d2)"
proof -
  have same: "exact (render_pointer rec1 re r u p d) (render_pointer rec2 re (load_bytes mem) u p d)" for d
  proof (cases "r (read_uint d) (nat (type_size (re_types re p)))")
    case None
    then show ?thesis
      by (auto simp: render_pointer_def Let_def intro: exact_gap)
  next
    case (Some bs)
    let ?n = "type_size (re_types re p)"
    have m: "load_bytes mem (read_uint d) (nat ?n) = Some bs" by (rule reads_ofD [OF assms(1) Some])
    have "view_ok mem (re_types re p) bs bs (read_uint d)" if "0 < ?n"
      using m that by (simp add: view_ok_def load_true)
    then show ?thesis
      using Some m assms(2,3) by (auto simp: render_pointer_def Let_def exact_on_def intro!: exact_Cons)
  qed
  have "8 \<le> length d1 \<and> 8 \<le> length d2 \<and> take 8 d1 = take 8 d2 \<or> d1 = d2"
    using assms(6)
  proof (cases rule: view_cases)
    case whole
    then show ?thesis using assms(4) by simp
  next
    case cut
    then have "8 dvd length d1" "length d1 < 8" "0 < length d1" using assms(4,5) by simp_all
    then show ?thesis using dvd_imp_le by fastforce
  qed simp
  then have "read_uint d1 = read_uint d2" using read_uint_take [of 8 d1 d2] by auto
  then have "render_pointer rec2 re (load_bytes mem) u p d1 = render_pointer rec2 re (load_bytes mem) u p d2"
    by (simp add: render_pointer_def)
  then show ?thesis using same [of d1] by simp
qed

lemma object_bytes_read:
  assumes "object_bytes t [] a r \<noteq> []"
  shows "0 < type_size t" "a \<noteq> 0" "type_size t \<le> max_read_size" "r a (nat (type_size t)) = Some (object_bytes t [] a r)"
proof -
  have c: "0 < type_size t \<and> a \<noteq> 0 \<and> type_size t \<le> max_read_size \<and> r a (nat (type_size t)) \<noteq> None"
    using assms by (rule contrapos_np) (auto simp: object_bytes_def)
  then show "0 < type_size t" "a \<noteq> 0" "type_size t \<le> max_read_size" by simp_all
  show "r a (nat (type_size t)) = Some (object_bytes t [] a r)"
    using c by (cases "r a (nat (type_size t))") (simp_all add: object_bytes_def)
qed

lemma render_interface_exact:
  assumes "reads_of r mem" "exact_on S mem rec1 rec2"
    and "\<And>resolve a u. re_runtime re = Some resolve \<Longrightarrow> resolve a = Some u \<Longrightarrow>
           u \<in> S \<and> \<not> (type_is_direct u \<and> plain_struct u)"
    and "type_size t = 16" "view_ok mem t d1 d2 addr"
  shows "exact (render_interface rec1 re r ne d1) (render_interface rec2 re (load_bytes mem) ne d2)"
proof -
  have resolved: "u \<in> S \<and> \<not> (type_is_direct u \<and> plain_struct u)" if "dynamic_type re rd ne a = Some u" for rd a u
    using that assms(3) by (auto simp: dynamic_type_def split: option.splits if_splits)
  have same: "exact (render_interface rec1 re r ne d) (render_interface rec2 re (load_bytes mem) ne d)" for d
  proof (cases "length d < 16 \<or> read_uint d = 0 \<or> dynamic_type re r ne (read_uint d) = None")
    case True
    then show ?thesis by (auto simp: render_interface_def Let_def intro: exact_gap)
  next
    case False
    then obtain u where u: "dynamic_type re r ne (read_uint d) = Some u"
      "dynamic_type re (load_bytes mem) ne (read_uint d) = Some u"
      using dynamic_type_exact [OF assms(1), of re ne "read_uint d"] by auto
    let ?a = "read_uint (drop 8 d)"
    have rec: "exact (rec1 u x ?a) (rec2 u y ?a)" if "view_ok mem u x y ?a" for x y
      using assms(2) resolved [OF u(1)] that by (simp add: exact_on_def)
    show ?thesis
    proof (cases "type_is_direct u")
      case True
      then have "view_ok mem u (bytes64 ?a) (bytes64 ?a) ?a"
        using resolved [OF u(1)] by (simp add: view_ok_def)
      then show ?thesis using False u True rec by (simp add: render_interface_def Let_def)
    next
      case ind: False
      let ?x = "object_bytes u [] ?a r"
      show ?thesis
      proof (cases "?x = []")
        case True
        then show ?thesis using False u ind by (simp add: render_interface_def Let_def exact_gap)
      next
        case xs: False
        note c = object_bytes_read [OF xs]
        note m = reads_ofD [OF assms(1) c(4)]
        then have y: "object_bytes u [] ?a (load_bytes mem) = ?x" 
          using c(1-3) by (simp add: object_bytes_def [of u "[]" _ "load_bytes mem"])
        have "view_ok mem u ?x ?x ?a"
          using m [unfolded load_true] c(1) by (simp only: view_ok_def) simp
        from rec [OF this] have e: "exact (rec1 u ?x ?a) (rec2 u ?x ?a)" .
        have d: "\<not> length d < 16" "read_uint d \<noteq> 0" using False by simp_all
        have "render_interface rec1 re r ne d = rec1 u ?x ?a"
          by (simp only: render_interface_def Let_def d if_False u option.case ind xs)
        moreover have "render_interface rec2 re (load_bytes mem) ne d = rec2 u ?x ?a"
          by (simp only: render_interface_def Let_def d if_False u option.case ind y xs)
        ultimately show ?thesis using e by simp
      qed
    qed
  qed
  show ?thesis
    using assms(5)
  proof (cases rule: view_cases)
    case whole
    then have l: "16 \<le> length d1" "16 \<le> length d2" "take 16 d1 = take 16 d2" using assms(4) by simp_all
    have "read_uint d1 = read_uint d2" "read_uint (drop 8 d1) = read_uint (drop 8 d2)"
      using read_uint_take [OF _ l(3)] word_take [OF _ l(3), of 8] by (simp_all add: read_uint_def)
    then have "render_interface rec2 re (load_bytes mem) ne d1 = render_interface rec2 re (load_bytes mem) ne d2"
      using l by (simp add: render_interface_def)
    then show ?thesis using same [of d1] by simp
  next
    case cut
    then have "length d1 < 16" using assms(4) by simp
    then show ?thesis by (simp add: render_interface_def exact_gap)
  qed (use same in simp)
qed

text \<open>No process has memory mapped in the first page.\<close>

definition low_unmapped :: "(u64 \<rightharpoonup> u8) \<Rightarrow> bool" where
  "low_unmapped mem \<longleftrightarrow> (\<forall>a. unat a < 4096 \<longrightarrow> mem a = None)"

lemma low_load:
  assumes "low_unmapped mem" "unat a < 4096" "0 < n"
  shows "load_bytes mem a n = None"
proof (rule ccontr)
  assume "load_bytes mem a n \<noteq> None"
  then obtain bs where "length bs = n" "true_at mem a bs" by (auto simp: load_true)
  then have "mem a = Some (bs ! 0)" using assms(3) by (auto simp: true_at_nth)
  then show False using assms(1,2) by (simp add: low_unmapped_def)
qed

lemma low_read: "reads_of r mem \<Longrightarrow> load_bytes mem a n = None \<Longrightarrow> r a n = None"
  by (cases "r a n") (auto dest: reads_ofD)

text \<open>The bytes of a struct once its object was looked up.\<close>

definition fields_ok :: "(u64 \<rightharpoonup> u8) \<Rightarrow> dwarf_type \<Rightarrow> u8 list \<Rightarrow> u8 list \<Rightarrow> u64 \<Rightarrow> bool" where
  "fields_ok mem t d1 d2 addr \<longleftrightarrow>
     (d1 = d2 \<and> low addr (type_size t)) \<or>
     (true_at mem addr d1 \<and> true_at mem addr d2 \<and>
      (if type_size t \<le> int (length d1) then type_size t \<le> int (length d2)
       else length d1 \<le> length d2 \<and> (has_pointer t \<longrightarrow> 8 dvd length d1)))"

lemma object_bytes_cases:
  assumes "0 \<le> type_size t"
  obtains (read) bs where "r addr (nat (type_size t)) = Some bs" "object_bytes t d addr r = bs" "addr \<noteq> 0" "type_size t \<noteq> 0"
      "type_size t \<le> max_read_size"
  | (cut) "object_bytes t d addr r = (if type_size t = 0 then d else take (nat (type_size t)) d)"
      "addr = 0 \<or> type_size t = 0 \<or> max_read_size < type_size t \<or> r addr (nat (type_size t)) = None"
proof (cases "addr \<noteq> 0 \<and> type_size t \<noteq> 0 \<and> type_size t \<le> max_read_size \<and> r addr (nat (type_size t)) \<noteq> None")
  case True
  then obtain bs where "r addr (nat (type_size t)) = Some bs" by auto
  then show ?thesis using True assms that(1) by (simp add: object_bytes_def)
next
  case False
  have "object_bytes t d addr r = (if type_size t = 0 then d else take (nat (type_size t)) d)"
    using False assms by (auto simp: object_bytes_def)
  then show ?thesis using False that(2) by auto
qed

lemma object_bytes_view:
  assumes "reads_of r mem" "low_unmapped mem" "plain_struct t" "0 \<le> type_size t" "view_ok mem t d1 d2 addr"
  shows "fields_ok mem t (object_bytes t d1 addr r) (object_bytes t d2 addr (load_bytes mem)) addr"
proof -
  let ?n = "nat (type_size t)"
  consider (low) "d1 = d2" "low addr (type_size t)"
    | (real) "true_at mem addr d1" "true_at mem addr d2"
        "if type_size t \<le> int (length d1) then type_size t \<le> int (length d2)
         else d1 \<noteq> [] \<and> length d1 \<le> length d2 \<and> (has_pointer t \<longrightarrow> 8 dvd length d1)"
    using assms(3,5) by (auto simp: view_ok_def)
  then show ?thesis
  proof cases
    case low
    have none: "load_bytes mem addr ?n = None" if "0 < type_size t"
    proof (rule low_load [OF assms(2)])
      show "unat addr < 4096" using low(2) that by (simp add: low_def)
      show "0 < ?n" using that by simp
    qed
    have rd: "object_bytes t d addr rr = (if type_size t = 0 then d else take ?n d)"
      if "0 < type_size t \<longrightarrow> rr addr ?n = None" for rr d
      using that assms(4) by (auto simp: object_bytes_def)
    have "object_bytes t d1 addr r = object_bytes t d2 addr (load_bytes mem)"
      using rd [of r d1] rd [of "load_bytes mem" d2] none low_read [OF assms(1) none] low(1) by simp
    then show ?thesis using low(2) by (simp add: fields_ok_def)
  next
    case real
    have t2: "true_at mem addr (object_bytes t d2 addr (load_bytes mem)) \<and>
        (type_size t \<le> int (length (object_bytes t d2 addr (load_bytes mem))) \<or>
         object_bytes t d2 addr (load_bytes mem) = d2 \<and> int (length d2) < type_size t)"
      using assms(4)
    proof (cases rule: object_bytes_cases [of t "load_bytes mem" addr d2])
      case (read bs)
      then show ?thesis by (simp add: load_true)
    next
      case cut
      then show ?thesis using real(2) assms(4) by (auto simp: true_at_take)
    qed
    show ?thesis
      using assms(4)
    proof (cases rule: object_bytes_cases [of t r addr d1])
      case (read bs)
      note m = reads_ofD [OF assms(1) read(1)]
      then have "object_bytes t d2 addr (load_bytes mem) = bs"
        using read assms(4) by (simp add: object_bytes_def)
      then show ?thesis using m read(2) by (simp add: fields_ok_def load_true)
    next
      case cut
      have "true_at mem addr (object_bytes t d1 addr r)" using cut(1) real(1) by (simp add: true_at_take)
      moreover have "type_size t \<le> int (length (object_bytes t d1 addr r)) \<and> type_size t \<le> int (length d1) \<or>
          object_bytes t d1 addr r = d1 \<and> int (length d1) < type_size t"
        using cut(1) assms(4) by auto
      ultimately show ?thesis using t2 real(3) by (auto simp: fields_ok_def)
    qed
  qed
qed


text \<open>One field: the bytes at its offset, read again when they are cut off.\<close>

definition field_bytes :: "reader \<Rightarrow> dwarf_field \<Rightarrow> u8 list \<Rightarrow> u64 \<Rightarrow> u8 list" where
  "field_bytes read f data addr =
     (let n = type_size (field_type f); fd = drop (nat (byte_offset f)) data
      in if n > 0 \<and> int (length fd) < n \<and> addr \<noteq> 0
         then case read (addr + word_of_int (byte_offset f)) (nat n) of None \<Rightarrow> fd | Some buf \<Rightarrow> buf
         else fd)"

lemma render_struct_field_eq:
  "0 \<le> byte_offset f \<Longrightarrow> render_struct_field rec read f data addr =
     (if field_bytes read f data addr = [] then missing
      else rec (field_type f) (field_bytes read f data addr) (addr + word_of_int (byte_offset f)))"
  by (simp add: render_struct_field_def field_bytes_def Let_def)

lemma low_offset:
  assumes "low addr n" "0 \<le> off" "0 \<le> m" "off + m \<le> n"
  shows "low (addr + word_of_int off) m" "0 < m \<Longrightarrow> unat (addr + word_of_int off) < 4096"
proof -
  have o: "unat (word_of_int off :: u64) \<le> nat off" using assms(2)
    by (metis word_int_nat unat_of_nat mod_less_eq_dividend)
  have "unat (addr + word_of_int off) \<le> unat addr + unat (word_of_int off :: u64)"
    by (simp add: unat_word_ariths)
  then have u: "unat (addr + word_of_int off) + nat m \<le> 4096" using o assms by (simp add: low_def)
  then show "low (addr + word_of_int off) m" by (simp add: low_def)
  show "unat (addr + word_of_int off) < 4096" if "0 < m" using u that by simp
qed

lemma nat_dvd8: "(8 :: int) dvd x \<Longrightarrow> 8 dvd nat x"
  by (auto elim!: dvdE simp: nat_mult_distrib)

lemma field_bytes_view:
  assumes "reads_of r mem" "low_unmapped mem" "field_ok (type_size t) f" "fields_ok mem t d1 d2 addr"
    and "has_pointer (field_type f) \<Longrightarrow> has_pointer t" "field_bytes r f d1 addr \<noteq> []"
  shows "view_ok mem (field_type f) (field_bytes r f d1 addr) (field_bytes (load_bytes mem) f d2 addr)
           (addr + word_of_int (byte_offset f))"
proof -
  let ?off = "byte_offset f" and ?n = "type_size (field_type f)" and ?a = "addr + word_of_int (byte_offset f)"
  let ?f1 = "drop (nat ?off) d1" and ?f2 = "drop (nat ?off) d2"
  have f: "0 \<le> ?off" "0 \<le> ?n" "?off + ?n \<le> type_size t" "has_pointer (field_type f) \<Longrightarrow> 8 dvd nat ?off"
    using assms(3) by (auto simp: field_ok_def intro: nat_dvd8)
  consider (low) "d1 = d2" "low addr (type_size t)"
    | (real) "true_at mem addr d1" "true_at mem addr d2"
        "if type_size t \<le> int (length d1) then type_size t \<le> int (length d2)
         else length d1 \<le> length d2 \<and> (has_pointer t \<longrightarrow> 8 dvd length d1)"
    using assms(4) by (auto simp: fields_ok_def)
  then show ?thesis
  proof cases
    case low
    have none: "load_bytes mem ?a (nat ?n) = None" if "0 < ?n"
      using low_load [OF assms(2) low_offset(2) [OF low(2) f(1-3) that]] that by simp
    have "field_bytes rr f d addr = drop (nat ?off) d" if "0 < ?n \<Longrightarrow> rr ?a (nat ?n) = None" for rr d
      using that by (auto simp: field_bytes_def Let_def)
    then have "field_bytes r f d1 addr = ?f1" "field_bytes (load_bytes mem) f d2 addr = ?f1"
      using none low_read [OF assms(1) none] low(1) by simp_all
    then show ?thesis using low_offset(1) [OF low(2) f(1-3)] by (simp add: view_ok_def)
  next
    case real
    have tr: "true_at mem ?a ?f1" "true_at mem ?a ?f2"
      using true_at_drop real(1,2) word_int_nat [OF f(1)] by simp_all
    show ?thesis
    proof (cases "?n > 0 \<and> int (length ?f1) < ?n \<and> addr \<noteq> 0 \<and> r ?a (nat ?n) \<noteq> None")
      case True
      then obtain bs where bs: "r ?a (nat ?n) = Some bs" by auto
      note m = reads_ofD [OF assms(1) bs]
      have b1: "field_bytes r f d1 addr = bs" using True bs by (simp add: field_bytes_def Let_def)
      have "field_bytes (load_bytes mem) f d2 addr = (if int (length ?f2) < ?n then bs else ?f2)"
        using True m by (simp add: field_bytes_def Let_def)
      then show ?thesis using b1 m tr by (auto simp: view_ok_def load_true)
    next
      case False
      then have b1: "field_bytes r f d1 addr = ?f1" by (auto simp: field_bytes_def Let_def)
      have b2: "true_at mem ?a (field_bytes (load_bytes mem) f d2 addr) \<and>
          (field_bytes (load_bytes mem) f d2 addr = ?f2 \<or> ?n \<le> int (length (field_bytes (load_bytes mem) f d2 addr)))"
      proof (cases "?n > 0 \<and> int (length ?f2) < ?n \<and> addr \<noteq> 0 \<and> load_bytes mem ?a (nat ?n) \<noteq> None")
        case True
        then obtain bs where bs: "load_bytes mem ?a (nat ?n) = Some bs" by auto
        then have "field_bytes (load_bytes mem) f d2 addr = bs" using True by (simp add: field_bytes_def Let_def)
        then show ?thesis using bs by (simp add: load_true)
      next
        case False
        then have "field_bytes (load_bytes mem) f d2 addr = ?f2" by (auto simp: field_bytes_def Let_def)
        then show ?thesis using tr by simp
      qed
      have ne: "?f1 \<noteq> []" using assms(6) b1 by simp
      have cut: "8 dvd length ?f1" if "has_pointer (field_type f)" "\<not> type_size t \<le> int (length d1)"
        using real(3) that assms(5) f(4) by (simp add: dvd_diff_nat)
      have le: "length ?f1 \<le> length ?f2" if "\<not> type_size t \<le> int (length d1)"
        using real(3) that by (simp add: diff_le_mono)
      have full: "?n \<le> int (length ?f2)" "?n \<le> int (length ?f1)" if "type_size t \<le> int (length d1)"
        using real(3) that f by auto
      let ?g = "field_bytes (load_bytes mem) f d2 addr"
      have "if ?n \<le> int (length ?f1) then ?n \<le> int (length ?g)
          else ?f1 \<noteq> [] \<and> length ?f1 \<le> length ?g \<and> (has_pointer (field_type f) \<longrightarrow> 8 dvd length ?f1)"
      proof (cases "type_size t \<le> int (length d1)")
        case True
        have "?n \<le> int (length ?g)" using b2 full(1) [OF True] by (elim conjE disjE) (simp_all only:)
        then show ?thesis using full(2) [OF True] by (simp only: if_True)
      next
        case False
        have g: "?g = ?f2 \<or> ?n \<le> int (length ?g)" using b2 by (rule conjunct2)
        have l: "length ?f1 \<le> length ?g" if "\<not> ?n \<le> int (length ?f1)"
          using g
        proof
          show "?g = ?f2 \<Longrightarrow> length ?f1 \<le> length ?g" using le [OF False] by (simp only:)
          show "?n \<le> int (length ?g) \<Longrightarrow> length ?f1 \<le> length ?g" using that by linarith
        qed
        have w: "?n \<le> int (length ?g)" if "?n \<le> int (length ?f1)"
          using g
        proof
          show "?g = ?f2 \<Longrightarrow> ?n \<le> int (length ?g)" using le [OF False] that by (simp only:)
        qed
        show ?thesis
        proof (cases "?n \<le> int (length ?f1)")
          case True
          then show ?thesis using w by (simp only: if_True)
        next
          case cut_off: False
          then show ?thesis using l cut [OF _ False] ne by (simp only: if_False) blast
        qed
      qed
      then show ?thesis unfolding view_ok_def b1 using conjunct1 [OF b2] tr(1) by (intro disjI2 conjI)
    qed
  qed
qed

lemma render_fields_exact:
  assumes "reads_of r mem" "low_unmapped mem" "exact_on S mem rec1 rec2"
    and "underlying t = StructType cn n sn fs" "struct_kind sn fs = Plain_struct"
    and "list_all (field_ok n) fs" "field_type ` set fs \<subseteq> S" "fields_ok mem t d1 d2 addr"
  shows "exact (render_fields rec1 re r sn fs d1 addr) (render_fields rec2 re (load_bytes mem) sn fs d2 addr)"
proof -
  let ?gs = "filter (\<lambda>f. \<not> (re_hide_unexported re \<and> \<not> is_exported re (field_name f))) fs"
  have n: "type_size t = n" using type_size_underlying [of t] assms(4) by simp
  have field: "exact (render_struct_field rec1 r f d1 addr) (render_struct_field rec2 (load_bytes mem) f d2 addr)"
    if f: "f \<in> set fs" for f
  proof -
    have ok: "field_ok (type_size t) f" "field_type f \<in> S" using f assms(6,7) n by (auto simp: list_all_iff)
    then have off: "0 \<le> byte_offset f" by (simp add: field_ok_def)
    have hp: "has_pointer (field_type f) \<Longrightarrow> has_pointer t"
      using f has_pointer_underlying [of t] assms(4,5) field_pointer_set [of fs] by auto
    show ?thesis
    proof (cases "field_bytes r f d1 addr = []")
      case True
      then show ?thesis by (simp add: render_struct_field_eq [OF off] exact_gap)
    next
      case False
      note v = field_bytes_view [OF assms(1,2) ok(1) assms(8) hp False]
      have "field_bytes (load_bytes mem) f d2 addr \<noteq> []"
        using v False ok(1) by (auto simp: view_ok_def field_ok_def split: if_splits)
      then show ?thesis
        using v False ok(2) assms(3) by (simp add: render_struct_field_eq [OF off] exact_on_def)
    qed
  qed
  have "list_all2 exact (map (\<lambda>f. field_name f @ '':'' @ render_struct_field rec1 r f d1 addr) ?gs)
      (map (\<lambda>f. field_name f @ '':'' @ render_struct_field rec2 (load_bytes mem) f d2 addr) ?gs)"
    using field by (auto simp: list_all2_map1 list_all2_map2 list_all2_same intro!: exact_append exact_Cons)
  then show ?thesis
    unfolding render_fields_def by (intro exact_append exact_join) simp_all
qed

text \<open>
  Rendering over a reader that knows part of memory gives the text over all of memory, or a text
  with a gap.
\<close>

lemma render_exact:
  assumes "reads_of r mem" "low_unmapped mem" "closed_types re S"
  shows "exact_on S mem (render_dynamic_value d re r) (render_dynamic_value d re (load_bytes mem))"
proof (induction d)
  case 0
  show ?case by (simp add: exact_on_def)
next
  case (Suc d)
  show ?case
    unfolding exact_on_def
  proof (intro ballI allI impI)
    fix t d1 d2 addr
    assume t: "t \<in> S" and v: "view_ok mem t d1 d2 addr"
    note shape = closed_shape [OF assms(3) t]
    let ?goal = "exact (render_dynamic_value (Suc d) re r t d1 addr)
      (render_dynamic_value (Suc d) re (load_bytes mem) t d2 addr)"
    show ?goal
    proof (cases t rule: underlying_cases)
      case (Ptr cn n p)
      have sz: "type_size t = 8" using shape type_size_underlying [of t] Ptr by (simp add: shape_ok_def)
      have hp: "has_pointer t" using has_pointer_underlying [of t] Ptr by simp
      show ?thesis
        using render_pointer_exact [OF assms(1) Suc closed_pointer [OF assms(3) t Ptr] sz hp v]
        by (simp add: Ptr)
    next
      case (Struct cn n sn fs)
      note size = type_size_underlying [of t, unfolded Struct, symmetric]
      show ?thesis
      proof (cases "struct_kind sn fs")
        case Go_string
        have "type_size t = 16" using shape Struct Go_string size by (simp add: shape_ok_def)
        from render_string_exact [OF assms(1) this v, of re] show ?thesis by (simp add: Struct Go_string)
      next
        case Go_slice
        have "type_size t = 24" "\<not> is_byte_elem_slice (re_types re) sn fs"
          using shape Struct Go_slice size by (simp_all add: shape_ok_def)
        from render_slice_exact [OF this v, of r] show ?thesis by (simp add: Struct Go_slice)
      next
        case Go_interface
        have "type_size t = 16" using shape Struct Go_interface size by (simp add: shape_ok_def)
        from render_interface_exact [OF assms(1) Suc closed_dynamic [OF assms(3) t Struct Go_interface] this v]
        show ?thesis by (simp add: Struct Go_interface)
      next
        case Plain_struct
        have ok: "0 \<le> type_size t" "list_all (field_ok n) fs"
          using shape Struct Plain_struct size by (simp_all add: shape_ok_def)
        have pl: "plain_struct t" using Struct Plain_struct by (simp add: plain_struct_def)
        have fs: "field_type ` set fs \<subseteq> S"
          using closed_field [OF assms(3) t Struct Plain_struct] by blast
        have ob: "object_bytes (underlying t) dd a rd = object_bytes t dd a rd" for dd a rd
          unfolding object_bytes_def type_size_underlying by (rule refl)
        from render_fields_exact [OF assms(1,2) Suc Struct Plain_struct ok(2) fs
            object_bytes_view [OF assms(1,2) pl ok(1) v], of re]
        have "exact (render_fields (render_dynamic_value d re r) re r sn fs (object_bytes t d1 addr r) addr)
          (render_fields (render_dynamic_value d re (load_bytes mem)) re (load_bytes mem) sn fs
            (object_bytes t d2 addr (load_bytes mem)) addr)" .
        then show ?thesis by (simp add: Struct Plain_struct flip: ob)
      qed
    next
      case Other
      show ?thesis
      proof (cases "scalar_value (underlying t)")
        case None
        then have "render_dynamic_value (Suc d) re rd t dd a = missing" for rd dd a
          using Other by (cases "underlying t") auto
        then show ?thesis by simp
      next
        case (Some x)
        obtain k tn n where x: "x = (k, tn, n)" by (cases x)
        have r: "render_dynamic_value (Suc d) re rd t dd a =
            (if n > int (length dd) then missing else render_leaf re k tn (take (nat n) dd))" for rd dd a
          using Other Some x by (cases "underlying t") auto
        have n: "type_size t = n"
          using Some x type_size_underlying [of t] by (cases "underlying t") auto
        show ?thesis
          using v
        proof (cases rule: view_cases)
          case same
          then show ?thesis by (simp only: r) simp
        next
          case whole
          then show ?thesis by (simp only: r n) simp
        next
          case cut
          then show ?thesis by (simp only: r n) (simp add: exact_gap)
        qed
      qed
    qed
  qed
qed

end
