(* ===== verification/Ftrace_Binding.thy ===== *)
theory Ftrace_Binding
  imports Ftrace_Exact Ftrace_Statements
begin

text \<open>
  From the leaves of an event to a snapshot of memory: what a leaf of a planned fetch argument holds
  at a hit, that binding the captures of a value or an object puts nothing false into the
  snapshot, that the words of a struct are put where its fields are, and that a value without
  interfaces is shown as all of memory would show it, or with a gap.
\<close>

section \<open>What a leaf holds\<close>

text \<open>Where the steps of a fetch argument lead.\<close>

fun walk :: "(u64 \<rightharpoonup> u8) \<Rightarrow> fetch_rule list \<Rightarrow> u64 \<Rightarrow> u64 option" where
  "walk mem [] a = Some a"
| "walk mem (s # ss) a =
     (if ru_dereference s then Option.bind (load64 mem (a + word_of_int (ru_offset s))) (walk mem ss)
      else walk mem ss (a + word_of_int (ru_offset s)))"

definition word_leaf :: "u64 \<Rightarrow> leaf_data" where
  "word_leaf w = \<lparr>ld_data = bytes64 w @ replicate 56 0, ld_is_nil = False, ld_unavailable = False\<rparr>"

text \<open>
  The leaf of a fetch argument at a hit: the register itself, or the bytes where its steps lead,
  or a mark for nil or unmapped memory.
\<close>

definition leaf_holds :: "(u64 \<rightharpoonup> u8) \<Rightarrow> (string \<Rightarrow> u64) \<Rightarrow> fetch_arg \<Rightarrow> leaf_data \<Rightarrow> bool" where
  "leaf_holds mem regs a l \<longleftrightarrow>
     (let base = regs (ru_register (hd (fa_rules a))); steps = tl (fa_rules a)
      in if steps = [] then l = word_leaf base
         else if fa_nil_check a \<and> base = 0 then ld_is_nil l
         else \<not> ld_is_nil l \<and>
           (case Option.bind (walk mem steps base) (\<lambda>p. load_bytes mem p (nat (fa_size a))) of
              None \<Rightarrow> ld_unavailable l
            | Some bs \<Rightarrow> \<not> ld_unavailable l \<and> ld_data l = bs @ replicate (64 - nat (fa_size a)) 0))"

lemma walk_append: "walk mem (xs @ ys) a = Option.bind (walk mem xs a) (walk mem ys)"
  by (induction mem xs a rule: walk.induct) (auto split: bind_splits)

lemma walk_loc:
  "walk mem (ml_steps (loc_add off loc)) a = map_option (\<lambda>p. p + word_of_int off) (walk mem (ml_steps loc) a)"
  "walk mem (ml_steps (loc_deref off loc)) a =
     Option.bind (walk mem (ml_steps loc) a) (\<lambda>p. load64 mem (p + word_of_int off))"
  by (cases "walk mem (ml_steps loc) a";
      auto simp: loc_add_def loc_deref_def walk_append stack_rule_def option.map_id0 split: bind_splits)+

lemma spec_loc_simps [simp]:
  "fa_rules (spec_fetch_arg (loc_spec name loc n tn)) =
     reg_rule (ml_reg loc) # (if ml_steps loc = [] then [stack_rule 0 False] else ml_steps loc)"
  "fa_nil_check (spec_fetch_arg (loc_spec name loc n tn)) = ml_nil_check loc"
  "fa_size (spec_fetch_arg (loc_spec name loc n tn)) = n"
  "fa_rules (spec_fetch_arg (scalar_reg_spec name n tn r)) = [reg_rule r]"
  "fa_rules (spec_fetch_arg (itab_spec name r)) = [reg_rule r, stack_rule 8 False]"
  "fa_nil_check (spec_fetch_arg (itab_spec name r))" "fa_size (spec_fetch_arg (itab_spec name r)) = 8"
  by (simp_all add: spec_fetch_arg_def loc_spec_def scalar_reg_spec_def itab_spec_def Let_def)

lemma reg_rule_register [simp]: "ru_register (reg_rule r) = r"
  by (simp add: reg_rule_def)

lemma word_holds: "leaf_holds mem regs (spec_fetch_arg (scalar_reg_spec name n tn r)) l \<longleftrightarrow> l = word_leaf (regs r)"
  by (simp add: leaf_holds_def)

lemma blob_holds:
  assumes "leaf_holds mem regs (spec_fetch_arg (blob_at name loc)) l"
    and "\<not> (ml_nil_check loc \<and> regs (ml_reg loc) = 0)"
  shows "\<not> ld_is_nil l \<and>
    (case Option.bind (walk mem (ml_steps loc) (regs (ml_reg loc))) (\<lambda>p. load_bytes mem p 64) of
       None \<Rightarrow> ld_unavailable l
     | Some bs \<Rightarrow> \<not> ld_unavailable l \<and> ld_data l = bs)"
proof -
  have "walk mem (if ml_steps loc = [] then [stack_rule 0 False] else ml_steps loc) a = walk mem (ml_steps loc) a" for a
    by (simp add: stack_rule_def)
  moreover have "(if ml_steps loc = [] then [stack_rule 0 False] else ml_steps loc) \<noteq> []" by simp
  ultimately show ?thesis
    using assms by (simp add: blob_at_def leaf_holds_def auto_string_size_def Let_def cong: option.case_cong if_cong)
qed

text \<open>A bound leaf is the memory where its location leads.\<close>

lemma blob_true:
  assumes "leaf_holds mem regs (spec_fetch_arg (blob_at name loc)) l"
    and "walk mem (ml_steps loc) (regs (ml_reg loc)) = Some p" "\<not> ld_unavailable l" "\<not> ld_is_nil l"
  shows "true_at mem p (ld_data l) \<and> length (ld_data l) = 64"
proof -
  have "\<not> (ml_nil_check loc \<and> regs (ml_reg loc) = 0)"
    using assms(1,4) by (auto simp: blob_at_def leaf_holds_def Let_def split: if_splits)
  from blob_holds [OF assms(1) this] show ?thesis
    using assms(2,3) by (auto simp: load_true split: option.splits)
qed

section \<open>Binding the captures of an object\<close>

fun no_interface :: "dwarf_type \<Rightarrow> bool" and no_field_interface :: "dwarf_field list \<Rightarrow> bool" where
  "no_interface (TypedefType cn t) = no_interface t"
| "no_interface (QualType cn t) = no_interface t"
| "no_interface (StructType cn n sn fs) =
     (struct_kind sn fs \<noteq> Go_interface \<and> (if struct_kind sn fs = Plain_struct then no_field_interface fs else True))"
| "no_interface t = True"
| "no_field_interface [] = True"
| "no_field_interface (Field fname off t # fs) = (no_interface t \<and> no_field_interface fs)"

lemma true_word: "true_at mem a bs \<Longrightarrow> 8 \<le> length bs \<Longrightarrow> load64 mem a = Some (read_uint bs)"
  using true_at_take [of mem a bs 8] by (simp add: load64_def read_uint_def true_at_def min_absorb2)

lemma field_mem_true:
  assumes "true_at mem a bs"
  shows "true_at mem (a + word_of_int off) (field_mem off bs)"
proof (cases "0 \<le> off")
  case True
  show ?thesis
    unfolding word_int_nat [OF True] field_mem_def if_P [OF True] by (rule true_at_drop [OF assms])
next
  case False
  then show ?thesis by (simp add: field_mem_def)
qed

lemma object_binding:
  assumes "walk mem (ml_steps loc) (regs (ml_reg loc)) = Some a" "true_at mem a bs" "snap_true mem snap"
  shows "no_interface t \<Longrightarrow> list_all2 (leaf_holds mem regs) (map spec_fetch_arg (mem_specs t name loc)) ls \<Longrightarrow>
      \<exists>snap'. consume_mem_captures t bs (ls @ rest, snap) = (rest, snap') \<and> snap_true mem snap'"
    and "no_field_interface fs \<Longrightarrow>
      list_all2 (leaf_holds mem regs) (map spec_fetch_arg (mem_field_specs fs name loc)) ls \<Longrightarrow>
      \<exists>snap'. consume_mem_fields fs bs (ls @ rest, snap) = (rest, snap') \<and> snap_true mem snap'"
  using assms
proof (induction t name loc and fs name loc arbitrary: a bs snap ls rest and a bs snap ls rest
    rule: mem_specs_mem_field_specs.induct)
  case (3 cn n sn fs name loc)
  have blob: "\<exists>l. ls = [l] \<and> (8 \<le> length bs \<longrightarrow> snap_true mem (snap_put (read_uint bs) l snap))"
    if b: "list_all2 (leaf_holds mem regs) (map spec_fetch_arg [blob_at nm (loc_deref 0 loc)]) ls" for nm
  proof -
    obtain l where l: "ls = [l]" "leaf_holds mem regs (spec_fetch_arg (blob_at nm (loc_deref 0 loc))) l"
      using b by (auto simp: list_all2_Cons1)
    have "true_at mem (read_uint bs) (ld_data l)" if "8 \<le> length bs" "\<not> ld_unavailable l" "\<not> ld_is_nil l"
      using blob_true [OF l(2) _ that(2,3)] true_word [OF "3.prems"(4) that(1)] "3.prems"(3)
      by (simp add: walk_loc)
    then show ?thesis using l(1) "3.prems"(5) by (auto intro!: snap_true_put)
  qed
  show ?case
  proof (cases "struct_kind sn fs")
    case Go_string
    then show ?thesis using blob [of "name @ ''.str''"] "3.prems" by auto
  next
    case Go_slice
    then show ?thesis using blob [of "name @ ''.arr''"] "3.prems" by auto
  next
    case Go_interface
    then show ?thesis using "3.prems"(1) by simp
  next
    case Plain_struct
    then show ?thesis using "3.IH" "3.prems" by simp
  qed
next
  case (6 fname off t fs name loc)
  let ?ss = "mem_specs t (name @ ''.'' @ fname) (loc_add off loc)"
  obtain us vs where ls: "ls = us @ vs"
    "list_all2 (leaf_holds mem regs) (map spec_fetch_arg ?ss) us"
    "list_all2 (leaf_holds mem regs) (map spec_fetch_arg (mem_field_specs fs name loc)) vs"
    using "6.prems"(2) by (auto simp: list_all2_append1)
  have w: "walk mem (ml_steps (loc_add off loc)) (regs (ml_reg (loc_add off loc))) = Some (a + word_of_int off)"
    using "6.prems"(3) by (simp add: walk_loc)
  obtain s1 where s1: "consume_mem_captures t (field_mem off bs) (us @ vs @ rest, snap) = (vs @ rest, s1)" "snap_true mem s1"
    using "6.IH"(1) [OF _ ls(2) w field_mem_true [OF "6.prems"(4)] "6.prems"(5), of "vs @ rest"] "6.prems"(1) by auto
  from "6.IH"(2) [OF _ ls(3) "6.prems"(3,4) s1(2), of rest] show ?case
    using "6.prems"(1) s1(1) by (simp add: ls(1))
qed auto

section \<open>Values in registers and their memory image\<close>

text \<open>Go's layout of a struct: sizes of the parts, fields in order without overlap.\<close>

fun laid_out :: "dwarf_type \<Rightarrow> bool" and laid_fields :: "nat \<Rightarrow> nat \<Rightarrow> dwarf_field list \<Rightarrow> bool" where
  "laid_out (TypedefType cn t) = laid_out t"
| "laid_out (QualType cn t) = laid_out t"
| "laid_out (StructType cn n sn fs) =
     (case struct_kind sn fs of
        Go_string \<Rightarrow> n = 16 | Go_slice \<Rightarrow> n = 24 | Go_interface \<Rightarrow> n = 16
      | Plain_struct \<Rightarrow> 0 < n \<and> laid_fields 0 (nat n) fs)"
| "laid_out t = (0 < type_size t)"
| "laid_fields lo hi [] = True"
| "laid_fields lo hi (Field fname off t # fs) =
     (int lo \<le> off \<and> laid_out t \<and> nat off + nat (type_size t) \<le> hi \<and>
      laid_fields (nat off + nat (type_size t)) hi fs)"

definition cell_size :: "dwarf_type \<Rightarrow> nat" where
  "cell_size t = nat (min 8 (type_size t))"

text \<open>
  The image \<open>img\<close> holds the words \<open>ws\<close> of a value at \<open>base\<close>: a word fills its place, a smaller
  scalar takes the low bytes of its register.
\<close>

fun placed :: "dwarf_type \<Rightarrow> nat \<Rightarrow> u64 list \<Rightarrow> u8 list \<Rightarrow> bool" and
    placed_fields :: "dwarf_field list \<Rightarrow> nat \<Rightarrow> u64 list \<Rightarrow> u8 list \<Rightarrow> bool" where
  "placed (TypedefType cn t) base ws img = placed t base ws img"
| "placed (QualType cn t) base ws img = placed t base ws img"
| "placed (StructType cn n sn fs) base ws img =
     (if struct_kind sn fs = Plain_struct then placed_fields fs base ws img
      else take (nat n) (drop base img) = take (nat n) (concat (map bytes64 ws)))"
| "placed t base ws img = (take (cell_size t) (drop base img) = take (cell_size t) (concat (map bytes64 ws)))"
| "placed_fields [] base ws img = True"
| "placed_fields (Field fname off t # fs) base ws img =
     (placed t (base + nat off) ws img \<and> placed_fields fs base (drop (reg_words t) ws) img)"

definition same_span :: "nat \<Rightarrow> nat \<Rightarrow> u8 list \<Rightarrow> u8 list \<Rightarrow> bool" where
  "same_span lo hi img img' \<longleftrightarrow> take (hi - lo) (drop lo img) = take (hi - lo) (drop lo img')"

lemma same_span_sub:
  assumes "same_span lo hi img img'" "lo \<le> a" "a + n \<le> hi"
  shows "take n (drop a img) = take n (drop a img')"
proof -
  have "take n (drop a xs) = take n (drop (a - lo) (take (hi - lo) (drop lo xs)))" for xs :: "'x list"
    using assms(2,3) by (simp add: drop_take)
  then show ?thesis using assms(1) by (metis same_span_def)
qed

lemma same_span_mono: "same_span lo hi img img' \<Longrightarrow> lo \<le> lo' \<Longrightarrow> hi' \<le> hi \<Longrightarrow> same_span lo' hi' img img'"
  using same_span_sub [of lo hi img img' lo' "hi' - lo'"]
  by (cases "lo' \<le> hi'") (simp_all add: same_span_def)

lemma laid_size: "laid_out t \<Longrightarrow> 0 < type_size t"
  by (induction t) (auto split: struct_kind.splits)

lemma placed_cong:
  "laid_out t \<Longrightarrow> same_span base (base + nat (type_size t)) img img' \<Longrightarrow> placed t base ws img = placed t base ws img'"
  "laid_fields lo hi fs \<Longrightarrow> same_span (base + lo) (base + hi) img img' \<Longrightarrow>
     placed_fields fs base ws img = placed_fields fs base ws img'"
proof (induction t base ws img and fs base ws img arbitrary: and lo hi rule: placed_placed_fields.induct)
  case (3 cn n sn fs base ws img)
  show ?case
  proof (cases "struct_kind sn fs = Plain_struct")
    case True
    then show ?thesis using "3.IH" [OF True, of 0 "nat n"] "3.prems" by simp
  next
    case False
    then show ?thesis using "3.prems"(2) same_span_sub [of base "base + nat n" img img' base "nat n"] by simp
  qed
next
  case (6 fname off t fs base ws img)
  then have l: "lo \<le> nat off" "nat off + nat (type_size t) \<le> hi" "laid_out t"
    "laid_fields (nat off + nat (type_size t)) hi fs" by auto
  have "same_span (base + nat off) (base + nat off + nat (type_size t)) img img'"
    by (rule same_span_mono [OF "6.prems"(2)]) (use l in simp_all)
  moreover have "same_span (base + (nat off + nat (type_size t))) (base + hi) img img'"
    by (rule same_span_mono [OF "6.prems"(2)]) (use l in simp_all)
  ultimately show ?case using "6.IH" l by simp
qed (auto simp: cell_size_def intro!: arg_cong2 [of _ _ _ _ "(=)"] same_span_sub)

lemma drop_words: "drop (8 * k) (concat (map bytes64 ws)) = concat (map bytes64 (drop k ws))"
proof (induction k arbitrary: ws)
  case (Suc k)
  then show ?case by (cases ws) simp_all
qed simp

lemma length_words [simp]: "length (concat (map bytes64 ws)) = 8 * length ws"
  by (induction ws) simp_all

lemma write_at_laws:
  assumes "base + length bs \<le> length img"
  shows "length (write_at (int base) bs img) = length img"
    "take (length bs) (drop base (write_at (int base) bs img)) = bs"
    "hi \<le> base \<or> base + length bs \<le> lo \<Longrightarrow> same_span lo hi img (write_at (int base) bs img)"
proof -
  let ?w = "write_at (int base) bs img"
  have w: "?w = take base img @ bs @ drop (base + length bs) img" by (simp add: write_at_def)
  show "length ?w = length img" using assms by (simp add: w)
  show "take (length bs) (drop base ?w) = bs" using assms by (simp add: w)
  show "same_span lo hi img ?w" if "hi \<le> base \<or> base + length bs \<le> lo"
    using that
  proof
    assume "hi \<le> base"
    then show ?thesis unfolding same_span_def w
      by (cases "lo \<le> base") (use assms in \<open>simp_all add: drop_take\<close>)
  next
    assume l: "base + length bs \<le> lo"
    then have "drop lo ?w = drop (lo - (base + length bs)) (drop (base + length bs) ?w)" by simp
    also have "drop (base + length bs) ?w = drop (base + length bs) img" using assms by (simp add: w)
    also have "drop (lo - (base + length bs)) (drop (base + length bs) img) = drop lo img" using l by simp
    finally show ?thesis by (simp add: same_span_def)
  qed
qed

text \<open>One step of the walk leaves the image with the value's words placed and the rest as it was.\<close>

definition scattered :: "nat \<Rightarrow> nat \<Rightarrow> u8 list \<Rightarrow> u8 list \<Rightarrow> bool" where
  "scattered lo hi img img' \<longleftrightarrow>
     length img' = length img \<and> (\<forall>a b. b \<le> lo \<or> hi \<le> a \<longrightarrow> same_span a b img img')"

lemma scatter_cell:
  fixes ws :: "u64 list"
  assumes "base + m \<le> length img" "8 * k + m \<le> 8 * length ws" "base + m \<le> hi"
  shows "scattered base hi img (write_at (int base) (take m (drop (8 * k) (concat (map bytes64 ws)))) img) \<and>
    take m (drop base (write_at (int base) (take m (drop (8 * k) (concat (map bytes64 ws)))) img)) =
      take m (concat (map bytes64 (drop k ws)))"
proof -
  let ?bs = "take m (drop (8 * k) (concat (map bytes64 ws)))"
  have l: "length ?bs = m" using assms(2) by simp
  have b: "base + length ?bs \<le> length img" using assms(1) l by simp
  note w = write_at_laws [OF b, unfolded l]
  show ?thesis
    using w(1,2) w(3) assms(3) by (auto simp: scattered_def drop_words)
qed

lemma scatter_scalar:
  fixes ws :: "u64 list"
  assumes "\<And>i c. scatter_walk t (int base) (concat (map bytes64 ws)) (i, c) =
      (let sz = type_size t; sz = nat (if sz \<le> 0 then 8 else if sz > 8 then 8 else sz)
       in (if c + sz \<le> length (concat (map bytes64 ws)) \<and> int base + int sz \<le> int (length i)
           then write_at (int base) (take sz (drop c (concat (map bytes64 ws)))) i else i,
           c + 8))"
    and "\<And>i. placed t base (drop k ws) i \<longleftrightarrow>
      take (cell_size t) (drop base i) = take (cell_size t) (concat (map bytes64 (drop k ws)))"
    and "0 < type_size t" "base + nat (type_size t) \<le> length img" "k + 1 \<le> length ws"
  shows "\<exists>img'. scatter_walk t (int base) (concat (map bytes64 ws)) (img, 8 * k) = (img', 8 * (k + 1)) \<and>
       scattered base (base + nat (type_size t)) img img' \<and> placed t base (drop k ws) img'"
proof -
  let ?m = "cell_size t"
  have sz: "nat (if type_size t \<le> 0 then 8 else if type_size t > 8 then 8 else type_size t) = ?m"
    using assms(3) by (simp add: cell_size_def)
  have b: "base + ?m \<le> length img" "8 * k + ?m \<le> 8 * length ws" "base + ?m \<le> base + nat (type_size t)"
    using assms(3-5) by (simp_all add: cell_size_def)
  have "8 * k + ?m \<le> length (concat (map bytes64 ws))" "int base + int ?m \<le> int (length img)"
    using b(1,2) by (simp_all only: length_words)
  then have "scatter_walk t (int base) (concat (map bytes64 ws)) (img, 8 * k) =
      (write_at (int base) (take ?m (drop (8 * k) (concat (map bytes64 ws)))) img, 8 * (k + 1))"
    by (simp only: assms(1) Let_def sz if_True simp_thms) simp
  then show ?thesis using scatter_cell [OF b] assms(2) by auto
qed

lemma scatter_placed:
  "laid_out t \<Longrightarrow> sane_type t \<Longrightarrow> base + nat (type_size t) \<le> length img \<Longrightarrow> k + reg_words t \<le> length ws \<Longrightarrow>
     \<exists>img'. scatter_walk t (int base) (concat (map bytes64 ws)) (img, 8 * k) = (img', 8 * (k + reg_words t)) \<and>
       scattered base (base + nat (type_size t)) img img' \<and> placed t base (drop k ws) img'"
  "laid_fields lo hi fs \<Longrightarrow> sane_fields fs \<Longrightarrow> base + hi \<le> length img \<Longrightarrow> k + reg_field_words fs \<le> length ws \<Longrightarrow>
     \<exists>img'. scatter_fields fs (int base) (concat (map bytes64 ws)) (img, 8 * k) = (img', 8 * (k + reg_field_words fs)) \<and>
       scattered (base + lo) (base + hi) img img' \<and> placed_fields fs base (drop k ws) img'"
proof (induction t and fs arbitrary: base img k and lo hi base img k rule: reg_words_reg_field_words.induct)
  case (3 cn n sn fs)
  show ?case
  proof (cases "struct_kind sn fs = Plain_struct")
    case True
    then have c: "\<not> (is_string sn \<or> is_slice sn fs \<or> is_interface sn fs)"
      by (auto simp: struct_kind_def split: if_splits)
    obtain img' where "scatter_fields fs (int base) (concat (map bytes64 ws)) (img, 8 * k) = (img', 8 * (k + reg_field_words fs))"
      "scattered (base + 0) (base + nat n) img img'" "placed_fields fs base (drop k ws) img'"
      using "3.IH" [OF True, of 0 "nat n" base img k] "3.prems" True by auto
    then show ?thesis using c True by simp
  next
    case False
    let ?m = "abi_word_count (StructType cn n sn fs) * 8"
    have c: "is_string sn \<or> is_slice sn fs \<or> is_interface sn fs"
      using False by (auto simp: struct_kind_def split: if_splits)
    have m: "?m = nat n" "?m = 8 * reg_words (StructType cn n sn fs)"
      using "3.prems"(1,2) False by (auto simp: struct_kind_def split: if_splits)
    have b: "base + ?m \<le> length img" "8 * k + ?m \<le> 8 * length ws" "base + ?m \<le> base + nat n"
      using "3.prems"(3,4) m by simp_all
    note w = scatter_cell [OF b]
    have e: "scatter_walk (StructType cn n sn fs) (int base) (concat (map bytes64 ws)) (img, 8 * k) =
        (write_at (int base) (take ?m (drop (8 * k) (concat (map bytes64 ws)))) img, 8 * k + ?m)"
      using c b(1,2) by (simp only: scatter_walk.simps if_True Let_def length_words) simp
    show ?thesis
      using w m(2) False
      by (intro exI [of _ "write_at (int base) (take ?m (drop (8 * k) (concat (map bytes64 ws)))) img"])
        (simp only: e placed.simps type_size.simps m(1) [symmetric] distrib_left if_False)
  qed
next
  case (6 fname off t fs)
  have l: "lo \<le> nat off" "0 \<le> off" "laid_out t" "nat off + nat (type_size t) \<le> hi"
    "laid_fields (nat off + nat (type_size t)) hi fs"
    using "6.prems"(1) by auto
  have s: "sane_type t" "sane_fields fs" "k + reg_words t \<le> length ws" "k + reg_words t + reg_field_words fs \<le> length ws"
    "base + nat off + nat (type_size t) \<le> length img"
    using "6.prems" l by simp_all
  obtain i1 where i1: "scatter_walk t (int (base + nat off)) (concat (map bytes64 ws)) (img, 8 * k) = (i1, 8 * (k + reg_words t))"
    "scattered (base + nat off) (base + nat off + nat (type_size t)) img i1" "placed t (base + nat off) (drop k ws) i1"
    using "6.IH"(1) [OF l(3) s(1,5,3)] by auto
  have len: "base + hi \<le> length i1" using i1(2) "6.prems"(3) by (simp add: scattered_def)
  obtain i2 where i2: "scatter_fields fs (int base) (concat (map bytes64 ws)) (i1, 8 * (k + reg_words t)) =
      (i2, 8 * (k + reg_words t + reg_field_words fs))"
    "scattered (base + (nat off + nat (type_size t))) (base + hi) i1 i2" "placed_fields fs base (drop (k + reg_words t) ws) i2"
    using "6.IH"(2) [OF l(5) s(2) len s(4)] by auto
  have "same_span (base + nat off) (base + nat off + nat (type_size t)) i1 i2"
    using i2(2) by (simp add: scattered_def)
  then have "placed t (base + nat off) (drop k ws) i2"
    using i1(3) placed_cong(1) [OF l(3)] by blast
  moreover have "scattered (base + lo) (base + hi) img i2"
  proof -
    have "same_span a b img i2" if "b \<le> base + lo \<or> base + hi \<le> a" for a b
    proof -
      have "same_span a b img i1" "same_span a b i1 i2"
        using i1(2) i2(2) that l by (auto simp: scattered_def)
      then show ?thesis by (simp add: same_span_def)
    qed
    then show ?thesis using i1(2) i2(2) by (simp add: scattered_def)
  qed
  ultimately show ?case
    using i1(1) i2(1,3) l(2) by (simp add: add.assoc add.commute)
next
  case (1 cn t)
  then show ?case by simp
next
  case (2 cn t)
  then show ?case by simp
next
  case (5 lo hi base img k)
  then show ?case by (simp add: scattered_def same_span_def)
qed (simp only: reg_words.simps, rule scatter_scalar;
     simp only: scatter_walk.simps placed.simps laid_out.simps type_size.simps)+

lemma scatter_words_placed:
  assumes "laid_out t" "sane_type t" "length ws = reg_words t"
  shows "placed t 0 ws (scatter_words t (concat (map bytes64 ws))) \<and>
    length (scatter_words t (concat (map bytes64 ws))) = nat (type_size t)"
  using scatter_placed(1) [OF assms(1,2), of 0 "replicate (nat (type_size t)) 0" 0 ws] assms(3) laid_size [OF assms(1)]
  by (auto simp: scatter_words_def scattered_def)

lemma first_word:
  assumes "take n bs = take n (concat (map bytes64 ws))" "8 \<le> n" "ws \<noteq> []"
  shows "read_uint bs = ws ! 0"
proof -
  have "take 8 bs = take 8 (take n bs)" using assms(2) by simp
  also have "\<dots> = bytes64 (ws ! 0)" using assms(2,3) unfolding assms(1) by (cases ws) (simp_all add: take_Cons')
  finally show ?thesis by (simp add: read_uint_def)
qed

lemma register_binding:
  "laid_out t \<Longrightarrow> no_interface t \<Longrightarrow> placed t base (map regs rs) img \<Longrightarrow> reg_words t \<le> length rs \<Longrightarrow>
     list_all2 (leaf_holds mem regs) (map spec_fetch_arg (reg_specs t name rs)) ls \<Longrightarrow> snap_true mem snap \<Longrightarrow>
     \<exists>snap'. consume_reg_captures t (drop base img) (ls @ rest, snap) = (rest, snap') \<and> snap_true mem snap'"
  "laid_fields lo hi fs \<Longrightarrow> no_field_interface fs \<Longrightarrow> placed_fields fs base (map regs rs) img \<Longrightarrow>
     reg_field_words fs \<le> length rs \<Longrightarrow>
     list_all2 (leaf_holds mem regs) (map spec_fetch_arg (reg_field_specs fs name rs)) ls \<Longrightarrow> snap_true mem snap \<Longrightarrow>
     \<exists>snap'. consume_reg_fields fs (drop base img) (ls @ rest, snap) = (rest, snap') \<and> snap_true mem snap'"
proof (induction t name rs and fs name rs arbitrary: base ls rest snap and lo hi base ls rest snap
    rule: reg_specs_reg_field_specs.induct)
  case (3 cn n sn fs name rs)
  have blob: "\<exists>l. ls = [l] \<and> snap_true mem (snap_put (read_uint (drop base img)) l snap)"
    if b: "list_all2 (leaf_holds mem regs) (map spec_fetch_arg [blob_at nm (loc_at (rs ! 0) nc)]) ls"
      and k: "struct_kind sn fs = Go_string \<or> struct_kind sn fs = Go_slice" for nm nc
  proof -
    obtain l where l: "ls = [l]" "leaf_holds mem regs (spec_fetch_arg (blob_at nm (loc_at (rs ! 0) nc))) l"
      using b by (auto simp: list_all2_Cons1)
    have ne: "rs \<noteq> []" and e: "take (nat n) (drop base img) = take (nat n) (concat (map bytes64 (map regs rs)))" "8 \<le> nat n"
      using "3.prems" k by auto
    have "read_uint (drop base img) = regs (rs ! 0)" using first_word [OF e] ne by simp
    then have "true_at mem (read_uint (drop base img)) (ld_data l)" if "\<not> ld_unavailable l" "\<not> ld_is_nil l"
      using blob_true [OF l(2) _ that] by simp
    then show ?thesis using l(1) "3.prems"(6) by (auto intro!: snap_true_put)
  qed
  show ?case
  proof (cases "struct_kind sn fs")
    case Go_string
    then show ?thesis using blob [of "name @ ''.str''" False] "3.prems" by auto
  next
    case Go_slice
    then show ?thesis using blob [of "name @ ''.arr''" True] "3.prems" by auto
  next
    case Go_interface
    then show ?thesis using "3.prems"(2) by simp
  next
    case Plain_struct
    then show ?thesis using "3.IH" [OF Plain_struct, of 0 "nat n"] "3.prems" by simp
  qed
next
  case (6 fname off t fs name rs)
  let ?nm = "name @ ''.'' @ fname" and ?rs = "drop (reg_words t) rs"
  obtain us vs where ls: "ls = us @ vs"
    "list_all2 (leaf_holds mem regs) (map spec_fetch_arg (reg_specs t ?nm rs)) us"
    "list_all2 (leaf_holds mem regs) (map spec_fetch_arg (reg_field_specs fs name ?rs)) vs"
    using "6.prems"(5) by (auto simp: list_all2_append1)
  have l: "0 \<le> off" "laid_out t" "laid_fields (nat off + nat (type_size t)) hi fs"
    using "6.prems"(1) by auto
  have p: "placed t (base + nat off) (map regs rs) img" "placed_fields fs base (map regs ?rs) img"
    "reg_words t \<le> length rs" "reg_field_words fs \<le> length ?rs" "no_interface t" "no_field_interface fs"
    using "6.prems"(2-4) by (auto simp: drop_map)
  have fm: "field_mem off (drop base img) = drop (base + nat off) img" using l(1) by (simp add: field_mem_def add.commute)
  obtain s1 where s1: "consume_reg_captures t (field_mem off (drop base img)) (us @ vs @ rest, snap) = (vs @ rest, s1)"
    "snap_true mem s1"
    using "6.IH"(1) [OF l(2) p(5,1,3) ls(2) "6.prems"(6), of "vs @ rest"] by (auto simp: fm)
  from "6.IH"(2) [unfolded length_abi_specs, OF l(3) p(6,2,4) ls(3) s1(2), of rest] show ?case
    using s1(1) by (simp add: ls(1))
qed auto

section \<open>The text of a value over all of memory\<close>

text \<open>The type word of an interface value: of a non-empty interface, the second word of its itab.\<close>

definition iface_value :: "dwarf_type \<Rightarrow> bool" where
  "iface_value t = (case underlying t of StructType cn n sn fs \<Rightarrow> struct_kind sn fs = Go_interface | _ \<Rightarrow> False)"

definition type_word :: "(u64 \<rightharpoonup> u8) \<Rightarrow> dwarf_type \<Rightarrow> u64 list \<Rightarrow> u64 option" where
  "type_word mem t ws =
     (case underlying t of
        StructType cn n sn fs \<Rightarrow>
          (if struct_kind sn fs \<noteq> Go_interface then None
           else if interface_is_non_empty sn fs \<and> ws ! 0 \<noteq> 0 then load64 mem (ws ! 0 + 8)
           else Some (ws ! 0))
      | _ \<Rightarrow> None)"

text \<open>
  What a value with the words \<open>ws\<close> is when all memory can be read: an object is shown from the
  64 bytes at its address on, with memory behind them.
\<close>

definition live_plain :: "render_env \<Rightarrow> (u64 \<rightharpoonup> u8) \<Rightarrow> dwarf_type \<Rightarrow> u64 list \<Rightarrow> string" where
  "live_plain re mem t ws =
     (case underlying t of
        PtrType cn n p \<Rightarrow>
          (if ws ! 0 = 0 then ''nil''
           else if captured_target (re_types re) p then
             (case load_bytes mem (ws ! 0) 64 of
                None \<Rightarrow> name_of re (underlying t) @ ''('' @ missing @ '')''
              | Some obj \<Rightarrow>
                  CHR ''&'' # render_dynamic_value max_dynamic_depth re (load_bytes mem) (re_types re p) obj (ws ! 0))
           else ''0x'' @ show_hex (unat (ws ! 0)))
      | _ \<Rightarrow>
          render_dynamic_value max_dynamic_depth re (load_bytes mem) t
            (if plain_struct t then scatter_words t (concat (map bytes64 ws)) else concat (map bytes64 ws)) 0)"

definition live_text :: "render_env \<Rightarrow> (u64 \<rightharpoonup> u8) \<Rightarrow> dwarf_type \<Rightarrow> u64 list \<Rightarrow> string" where
  "live_text re mem t ws =
     (if iface_value t
      then case type_word mem t ws of
             None \<Rightarrow> missing
           | Some w \<Rightarrow> render_dynamic_value max_dynamic_depth re (load_bytes mem) t (bytes64 w @ bytes64 (ws ! 1)) 0
      else live_plain re mem t ws)"

text \<open>
  The types this is proved for: no interface in the value or the object a pointer leads to, and
  a struct by value laid out as Go does.
\<close>

definition plain_value :: "type_table \<Rightarrow> dwarf_type \<Rightarrow> bool" where
  "plain_value ty t \<longleftrightarrow>
     no_interface t \<and>
     (case underlying t of PtrType cn n p \<Rightarrow> no_interface (ty p) | _ \<Rightarrow> True) \<and>
     (if plain_struct t then laid_out t \<and> type_size t \<le> 4096 else True)"

lemma no_interface_underlying: "no_interface (underlying t) = no_interface t"
  by (induction t rule: underlying.induct) simp_all

lemma live_text_plain: "no_interface t \<Longrightarrow> live_text re mem t ws = live_plain re mem t ws"
  using no_interface_underlying [of t]
  by (auto simp: live_text_def iface_value_def split: dwarf_type.splits)

lemma laid_out_underlying: "laid_out (underlying t) = laid_out t"
  by (induction t rule: underlying.induct) simp_all

lemma abi_specs_scalar:
  "no_interface t \<Longrightarrow> s \<in> set (abi_specs t name rs) \<Longrightarrow> \<exists>nm n tn. s = scalar_reg_spec nm n tn (spec_base s)"
  "no_field_interface fs \<Longrightarrow> s \<in> set (abi_field_specs fs name rs) \<Longrightarrow> \<exists>nm n tn. s = scalar_reg_spec nm n tn (spec_base s)"
proof (induction t name rs and fs name rs rule: abi_specs_abi_field_specs.induct)
  case (3 cn n sn fs name rs)
  then show ?case by (cases "struct_kind sn fs") (auto, blast+)
next
  case (7 fname off t fs name rs)
  then show ?case by (auto simp: Let_def)
qed (auto simp: Let_def split: option.splits prod.splits)

lemma words_hold:
  assumes "no_interface t" "reg_words t \<le> length rs"
    and "list_all2 (leaf_holds mem regs) (map spec_fetch_arg (abi_specs t name rs)) ls"
  shows "ls = map word_leaf (map regs (take (reg_words t) rs))"
proof -
  have "leaf_holds mem regs (spec_fetch_arg s) l \<longleftrightarrow> l = word_leaf (regs (spec_base s))"
    if "s \<in> set (abi_specs t name rs)" for s l
    using abi_specs_scalar(1) [OF assms(1) that] word_holds by metis
  then have "list_all2 (\<lambda>s l. l = word_leaf (regs (spec_base s))) (abi_specs t name rs) ls"
    using assms(3) by (auto simp: list_all2_map1 elim!: list.rel_mono_strong)
  then have "ls = map (\<lambda>s. word_leaf (regs (spec_base s))) (abi_specs t name rs)"
    by (simp add: list_all2_conv_all_nth list_eq_iff_nth_eq)
  then have "ls = map (\<lambda>r. word_leaf (regs r)) (map spec_base (abi_specs t name rs))"
    by (simp add: comp_def)
  then show ?thesis by (simp add: abi_specs_base(1) [OF assms(2)])
qed

lemma word_leaf_simps [simp]:
  "ld_is_nil (word_leaf w) = False" "ld_unavailable (word_leaf w) = False" "word_bytes (word_leaf w) = bytes64 w"
  "read_uint (ld_data (word_leaf w)) = w"
  by (simp_all add: word_leaf_def word_bytes_def read_uint_def)

lemma concat_word_leaves: "concat_leaves (map word_leaf ws) = concat (map bytes64 ws)"
  by (induction ws) (simp_all add: concat_leaves_def)

lemma words_first: "ws \<noteq> [] \<Longrightarrow> read_uint (concat (map bytes64 ws)) = ws ! 0"
  by (rule first_word [of 8]) simp_all

lemma no_unavailable: "list_ex ld_unavailable (map word_leaf ws) = False"
  by (induction ws) simp_all

lemma words_empty: "concat (map bytes64 ws) = [] \<longleftrightarrow> ws = []"
  using length_words [of ws] by (metis length_0_conv mult_eq_0_iff zero_neq_numeral)

lemma interface_kind:
  "no_interface (StructType cn n sn fs) \<Longrightarrow> sane_type (StructType cn n sn fs) \<Longrightarrow> struct_kind sn fs \<noteq> Plain_struct \<Longrightarrow>
     struct_kind sn fs = Go_string \<or> struct_kind sn fs = Go_slice"
  by (auto simp: struct_kind_def split: if_splits)

text \<open>
  \<open>renderAuto\<close> for a value without interfaces whose leaves are at hand: \<open>ws\<close> are its words, \<open>cs\<close> its
  captures.
\<close>

lemma render_auto_parts:
  assumes "drop cur data = map word_leaf ws @ cs @ rest" "length ws = reg_words t" "ws \<noteq> []"
    and "length cs = k" "cur \<le> length data"
  shows "render_auto re recipes data (value_of name t (reg_words t) k) (cur, extra) =
    (let t' = underlying t; header = concat (map bytes64 ws); pos = (cur + (reg_words t + k), extra)
     in if (case t' of StructType cn m sn fs \<Rightarrow> is_interface sn fs \<and> ws ! 0 = 0 | _ \<Rightarrow> False) then (''nil'', pos)
        else if cs \<noteq> [] \<and> ld_is_nil (cs ! 0) \<and> (case t' of PtrType _ _ _ \<Rightarrow> True | _ \<Rightarrow> False) then (''nil'', pos)
        else case t' of
          PtrType cn m p \<Rightarrow>
            (if ws ! 0 = 0 then (''nil'', pos)
             else if captured_target (re_types re) p then
               (if cs = [] \<or> ld_unavailable (cs ! 0) then (name_of re t' @ ''('' @ missing @ '')'', pos)
                else let obj = ld_data (cs ! 0);
                         snap = snd (consume_mem_captures (re_types re p) obj (tl cs, snap_put (ws ! 0) (cs ! 0) []));
                         (extra, snap) = apply_nested_recipes (re_types re p) obj recipes data (extra, snap)
                     in (CHR ''&'' # render_dynamic_value max_dynamic_depth re (snap_read snap) (re_types re p) obj (ws ! 0),
                         cur + (reg_words t + k), extra))
             else (''0x'' @ show_hex (unat (ws ! 0)), pos))
        | StructType cn m sn fs \<Rightarrow>
            (case struct_kind sn fs of
               Plain_struct \<Rightarrow>
                 (let img = scatter_words t header; snap = snd (consume_reg_captures t img (cs, []))
                  in (render_dynamic_value max_dynamic_depth re (snap_read snap) t img 0, pos))
             | Go_interface \<Rightarrow>
                 (let snap = bind_iface_captures header cs [];
                      (extra, snap) = (if length header \<ge> 16
                                       then apply_recipe_extras (read_uint header) (read_uint (drop 8 header)) data recipes (extra, snap)
                                       else (extra, snap))
                  in (render_dynamic_value max_dynamic_depth re (snap_read snap) t header 0, cur + (reg_words t + k), extra))
             | _ \<Rightarrow>
                 (let snap = (if cs \<noteq> [] then snap_put (read_uint header) (cs ! 0) [] else [])
                  in (render_dynamic_value max_dynamic_depth re (snap_read snap) t header 0, pos)))
        | _ \<Rightarrow> (render_dynamic_value max_dynamic_depth re (snap_read []) t header 0, pos))"
proof -
  have len: "length data = cur + reg_words t + k + length rest"
    using arg_cong [OF assms(1), of length] assms(2,4,5) by simp
  have w: "take (reg_words t) (drop cur data) = map word_leaf ws"
    using assms(1,2) by simp
  have "drop (cur + reg_words t) data = drop (reg_words t) (drop cur data)" by (simp add: add.commute)
  then have c: "take k (drop (cur + reg_words t) data) = cs"
    using assms(1,2,4) by simp
  have z: "reg_words t \<noteq> 0" using assms(2,3) by (metis length_0_conv)
  have h: "concat_leaves (map word_leaf ws) = concat (map bytes64 ws)" by (rule concat_word_leaves)
  have ne: "(concat (map bytes64 ws) = []) = False" using assms(3) words_empty by blast
  have f: "(map word_leaf ws) ! 0 = word_leaf (ws ! 0)" using assms(3) by simp
  have v: "leaf_count (value_of name t (reg_words t) k) = reg_words t + k"
    "av_word_count (value_of name t (reg_words t) k) = reg_words t" "av_captures (value_of name t (reg_words t) k) = k"
    "av_type (value_of name t (reg_words t) k) = t"
    by (simp_all add: value_of_def leaf_count_def)
  have g: "(reg_words t + k = 0 \<or> cur + (reg_words t + k) > length data) = False" using len z by simp
  show ?thesis
    unfolding render_auto_def prod.case v Let_def g if_False w c h f word_leaf_simps words_first [OF assms(3)] no_unavailable ne
    using assms(3) by (simp cong: if_cong dwarf_type.case_cong struct_kind.case_cong)
qed


lemma no_nested:
  "no_interface t \<Longrightarrow> sane_type t \<Longrightarrow> apply_nested_recipes t bs recipes data s = s"
  "no_field_interface fs \<Longrightarrow> sane_fields fs \<Longrightarrow> apply_field_recipes fs bs recipes data s = s"
proof (induction t bs recipes data s and fs bs recipes data s rule: apply_nested_recipes_apply_field_recipes.induct)
  case (3 cn n sn fs mem recipes all s)
  have i: "\<not> is_interface sn fs"
    using "3.prems" by (auto simp: struct_kind_def split: if_splits)
  show ?case
    using 3 i by (auto simp: struct_kind_def split: if_splits)
qed simp_all

lemma reg_specs_underlying: "reg_specs (underlying t) name rs = reg_specs t name rs"
  by (induction t rule: underlying.induct) simp_all

lemma reg_specs_take:
  "reg_words t \<le> n \<Longrightarrow> reg_specs t name rs = reg_specs t name (take n rs)"
  "reg_field_words fs \<le> n \<Longrightarrow> reg_field_specs fs name rs = reg_field_specs fs name (take n rs)"
proof (induction t name rs and fs name rs arbitrary: n and n rule: reg_specs_reg_field_specs.induct)
  case (3 cn m sn fs name rs)
  then show ?case by (cases "struct_kind sn fs") auto
next
  case (6 fname off t fs name rs)
  show ?case
    using "6.IH"(1) [of n] "6.IH"(2) [of "n - reg_words t"] "6.prems" by (simp add: drop_take)
qed auto

lemma other_case:
  assumes "\<And>cn n p. t \<noteq> PtrType cn n p" "\<And>cn n sn fs. t \<noteq> StructType cn n sn fs"
  shows "(case t of PtrType cn n p \<Rightarrow> f cn n p | StructType cn n sn fs \<Rightarrow> g cn n sn fs | _ \<Rightarrow> h) = h"
    "(case t of PtrType cn n p \<Rightarrow> f cn n p | _ \<Rightarrow> h) = h"
    "(case t of StructType cn n sn fs \<Rightarrow> g cn n sn fs | _ \<Rightarrow> h) = h"
  using assms by (cases t; auto)+

text \<open>A value whose leaves are what the plan says is shown as it is, or with a gap.\<close>

lemma render_auto_exact:
  assumes "closed_types re S" "t \<in> S" "low_unmapped mem" "sane_type t" "plannable t" "plain_value (re_types re) t"
    and "case underlying t of PtrType cn n p \<Rightarrow> sane_type (re_types re p) | _ \<Rightarrow> True"
    and "reg_words t \<le> length rs" "cur \<le> length data"
    and "list_all2 (leaf_holds mem regs) (map spec_fetch_arg (value_specs (re_types re) t name rs)) ls"
    and "drop cur data = ls @ rest"
  shows "\<exists>text. render_auto re recipes data (value_of nm t (reg_words t) (value_captures (re_types re) t)) (cur, extra) =
      (text, cur + length ls, extra) \<and> exact text (live_text re mem t (map regs (take (reg_words t) rs)))"
proof -
  let ?k = "value_captures (re_types re) t" and ?t = "underlying t" and ?rs = "take (reg_words t) rs"
  define ws where "ws = map regs ?rs"
  have ni: "no_interface t" using assms(6) by (simp add: plain_value_def)
  obtain us cs where ls: "ls = us @ cs"
    "list_all2 (leaf_holds mem regs) (map spec_fetch_arg (abi_specs ?t name rs)) us"
    "list_all2 (leaf_holds mem regs) (map spec_fetch_arg (capture_specs (re_types re) t name rs)) cs"
    using assms(10) by (auto simp: value_specs_def list_all2_append1)
  have us: "us = map word_leaf ws"
    using words_hold [OF _ _ ls(2)] ni assms(8) by (simp add: no_interface_underlying reg_words_underlying ws_def)
  have lc: "length cs = ?k" using list_all2_lengthD [OF ls(3)] by simp
  have lw: "length ws = reg_words t" using assms(8) by (simp add: ws_def)
  have ne: "ws \<noteq> []"
    using lw assms(5) abi_words_emitted(1) [OF assms(4)] by (metis length_0_conv plannable_def)
  have rs0: "ws ! 0 = regs (rs ! 0)" "rs \<noteq> []" using ne by (auto simp: ws_def nth_append hd_conv_nth)
  have tot: "length ls = reg_words t + ?k" using ls(1) us lc lw by simp
  have dr: "drop cur data = map word_leaf ws @ cs @ rest" using assms(11) ls(1) us by simp
  note parts = render_auto_parts [OF dr lw ne lc assms(9), of re recipes nm extra]
  note live = live_text_plain [OF ni, of re mem]
  note re = render_exact [OF _ assms(3,1), unfolded exact_on_def, rule_format]
  let ?d = max_dynamic_depth
  show ?thesis
    unfolding ws_def [symmetric] tot live
  proof (cases t rule: underlying_cases)
    case (Ptr cn n p)
    show "\<exists>text. render_auto re recipes data (value_of nm t (reg_words t) ?k) (cur, extra) =
        (text, cur + (reg_words t + ?k), extra) \<and> exact text (live_plain re mem t ws)"
    proof (cases "captured_target (re_types re) p")
      case False
      then have "cs = []" using lc Ptr by (simp add: value_captures_def)
      then show ?thesis using False parts by (simp add: Ptr live_plain_def)
    next
      case True
      let ?obj = "re_types re p" and ?b = "ws ! 0"
      obtain l cs' where cs: "cs = l # cs'"
        "leaf_holds mem regs (spec_fetch_arg (blob_at (name @ ''.obj'') (loc_at (rs ! 0) True))) l"
        "list_all2 (leaf_holds mem regs) (map spec_fetch_arg (mem_specs ?obj name (loc_at (rs ! 0) True))) cs'"
        using ls(3) True by (auto simp: capture_specs_def Ptr object_specs_def list_all2_Cons1)
      show ?thesis
      proof (cases "?b = 0")
        case True
        then show ?thesis using parts \<open>captured_target (re_types re) p\<close>
          by (cases "ld_is_nil l") (simp_all add: Ptr live_plain_def cs(1) Let_def)
      next
        case nz: False
        have b: "\<not> ld_is_nil l" "case load_bytes mem ?b 64 of None \<Rightarrow> ld_unavailable l
          | Some bs \<Rightarrow> \<not> ld_unavailable l \<and> ld_data l = bs"
          using blob_holds [OF cs(2)] nz rs0(1) by auto
        show ?thesis
        proof (cases "load_bytes mem ?b 64")
          case None
          then show ?thesis using parts b nz True by (simp add: Ptr live_plain_def cs(1) Let_def)
        next
          case (Some bs)
          then have d: "ld_data l = bs" "\<not> ld_unavailable l" "true_at mem ?b bs" "length bs = 64"
            using b(2) [unfolded Some] Some by (auto simp: load_true)
          have sp: "snap_true mem (snap_put ?b l [])" by (rule snap_true_put) (use d in simp_all)
          have no: "no_interface ?obj" using assms(6) by (simp add: plain_value_def Ptr)
          obtain snap where snap: "consume_mem_captures ?obj bs (cs', snap_put ?b l []) = ([], snap)" "snap_true mem snap"
            using object_binding(1) [where rest = "[]", OF _ d(3) sp no cs(3)] rs0(1) by auto
          have an: "apply_nested_recipes ?obj bs recipes data s = s" for s
            using no_nested(1) [OF no] assms(7) by (simp add: Ptr)
          have "view_ok mem ?obj bs bs ?b"
            using d(3,4) by (auto simp: view_ok_def)
          then have "exact (render_dynamic_value ?d re (snap_read snap) ?obj bs ?b)
              (render_dynamic_value ?d re (load_bytes mem) ?obj bs ?b)"
            using re [OF snap_reads [OF snap(2)]] closed_pointer [OF assms(1,2) Ptr] by blast
          then show ?thesis
            using parts b(1) nz True d(1,2) Some
            by (simp add: Ptr live_plain_def cs(1) Let_def snap(1) an exact_Cons)
        qed
      qed
    qed
  next
    case (Struct cn n sn fs)
    have st: "no_interface (StructType cn n sn fs)" "sane_type (StructType cn n sn fs)"
      using no_interface_underlying [of t] sane_underlying [of t] ni assms(4) Struct by simp_all
    then have not_iface: "\<not> is_interface sn fs" by (auto simp: struct_kind_def split: if_splits)
    show "\<exists>text. render_auto re recipes data (value_of nm t (reg_words t) ?k) (cur, extra) =
        (text, cur + (reg_words t + ?k), extra) \<and> exact text (live_plain re mem t ws)"
    proof (cases "struct_kind sn fs = Plain_struct")
      case True
      then have ps: "plain_struct t" using Struct by (simp add: plain_struct_def)
      then have lo: "laid_out t" "type_size t \<le> 4096" using assms(6) by (simp_all add: plain_value_def)
      let ?img = "scatter_words t (concat (map bytes64 ws))"
      have pl: "placed t 0 (map regs ?rs) ?img"
        using scatter_words_placed [OF lo(1) assms(4) lw] by (simp add: ws_def)
      have rsw: "reg_specs ?t name rs = reg_specs ?t name ?rs" by (rule reg_specs_take) (simp add: reg_words_underlying)
      have "list_all2 (leaf_holds mem regs) (map spec_fetch_arg (reg_specs ?t name ?rs)) cs"
        using ls(3) Struct rsw by (simp add: capture_specs_def)
      then have hold: "list_all2 (leaf_holds mem regs) (map spec_fetch_arg (reg_specs t name ?rs)) cs"
        by (simp add: reg_specs_underlying)
      have rw: "reg_words t \<le> length ?rs" using assms(8) by simp
      obtain snap where snap: "consume_reg_captures t ?img (cs, []) = ([], snap)" "snap_true mem snap"
        using register_binding(1) [OF lo(1) ni pl rw hold snap_true_Nil, of "[]"] by auto
      have "view_ok mem t ?img ?img 0" using lo(2) by (simp add: view_ok_def low_def nat_le_iff)
      then have "exact (render_dynamic_value ?d re (snap_read snap) t ?img 0) (render_dynamic_value ?d re (load_bytes mem) t ?img 0)"
        using re [OF snap_reads [OF snap(2)]] assms(2) by blast
      then show ?thesis
        using parts not_iface ps by (simp add: Struct live_plain_def True Let_def snap(1))
    next
      case False
      then have ps: "\<not> plain_struct t" and kind: "struct_kind sn fs = Go_string \<or> struct_kind sn fs = Go_slice"
        using Struct interface_kind [OF st] by (auto simp: plain_struct_def)
      obtain l nm' nc where cs: "cs = [l]" "leaf_holds mem regs (spec_fetch_arg (blob_at nm' (loc_at (rs ! 0) nc))) l"
        using ls(3) kind by (auto simp: capture_specs_def Struct list_all2_Cons1)
      let ?h = "concat (map bytes64 ws)" and ?snap = "snap_put (ws ! 0) l []"
      have "snap_true mem ?snap"
        by (rule snap_true_put) (use blob_true [OF cs(2)] rs0(1) in simp_all)
      moreover have "view_ok mem t ?h ?h 0" using ps by (simp add: view_ok_def)
      ultimately have "exact (render_dynamic_value ?d re (snap_read ?snap) t ?h 0) (render_dynamic_value ?d re (load_bytes mem) t ?h 0)"
        using re [OF snap_reads] assms(2) by blast
      then show ?thesis
        using parts not_iface ps kind by (auto simp: Struct live_plain_def Let_def cs(1) words_first [OF ne])
    qed
  next
    case Other
    have ps: "\<not> plain_struct t" using Other by (cases ?t) (auto simp: plain_struct_def)
    let ?h = "concat (map bytes64 ws)"
    have e: "exact (render_dynamic_value ?d re (snap_read []) t ?h 0) (render_dynamic_value ?d re (load_bytes mem) t ?h 0)"
      using re [OF snap_reads [OF snap_true_Nil]] assms(2) ps by (simp add: view_ok_def)
    show "\<exists>text. render_auto re recipes data (value_of nm t (reg_words t) ?k) (cur, extra) =
        (text, cur + (reg_words t + ?k), extra) \<and> exact text (live_plain re mem t ws)"
      using parts e ps by (simp add: live_plain_def Let_def other_case [OF Other(1,2)])
  qed
qed

end
