(* ===== verification/Ftrace_Recipes.thy ===== *)
theory Ftrace_Recipes
  imports Ftrace_Binding
begin

text \<open>
  The program's side of the leaves: a fetch argument and its encoded rule, a recipe and its
  encoded form, and the leaves read for both. The leaves of a recipe are bound like the captures,
  and an interface value is shown with the help of the recipe of its dynamic type.
\<close>

section \<open>From fetch arguments to the leaves of an event\<close>

text \<open>
  A fetch argument the encoding keeps as it is: one register, at most seven steps with 16-bit
  offsets, at most 64 bytes. Its encoded form, and its leaf as userspace sees it.
\<close>

definition arg_fits :: "fetch_arg \<Rightarrow> bool" where
  "arg_fits a \<longleftrightarrow>
     fa_rules a \<noteq> [] \<and> ru_from (hd (fa_rules a)) = Register \<and> ru_register (hd (fa_rules a)) \<in> set register_names \<and>
     list_all (\<lambda>r. ru_from r = Stack \<and> int16 (ru_offset r)) (tl (fa_rules a)) \<and> length (tl (fa_rules a)) \<le> 7 \<and>
     0 < fa_size a \<and> fa_size a \<le> 64 \<and>
     (if fa_iface_data a then 0 \<le> fa_type_index a \<and> fa_type_index a < 8 else True)"

definition rule_of :: "fetch_arg \<Rightarrow> arg_rule" where
  "rule_of a =
     (let steps = tl (fa_rules a); pad = 8 - length steps
      in \<lparr>ar_type = (if steps = [] then ARG_RULE_REG else ARG_RULE_MEMORY),
          ar_reg = register_constant (ru_register (hd (fa_rules a))), ar_size = word_of_int (fa_size a),
          ar_length = of_nat (length steps), ar_offsets = map (fst \<circ> step_of) steps @ replicate pad 0,
          ar_dereference = map (snd \<circ> step_of) steps @ replicate pad 0,
          ar_nil_check = (if fa_nil_check a then 1 else 0),
          ar_iface_data = (if fa_iface_data a then 1 else 0),
          ar_type_idx = (if fa_iface_data a then word_of_int (fa_type_index a) else 0)\<rparr>)"

definition to_leaf :: "arg_data \<Rightarrow> leaf_data" where
  "to_leaf d = \<lparr>ld_data = ad_data d, ld_is_nil = (ad_is_nil d \<noteq> 0), ld_unavailable = (ad_read_error d \<noteq> 0)\<rparr>"

lemma arg_encoded:
  assumes "arg_fits a"
  shows "encode_rule a = Inr (rule_of a)"
proof -
  obtain r steps where r: "fa_rules a = r # steps" using assms by (cases "fa_rules a") (auto simp: arg_fits_def)
  have st: "ru_from r = Register" "list_all (\<lambda>r. ru_from r = Stack) steps" "length steps \<le> 7"
    using assms by (auto simp: arg_fits_def r list_all_iff)
  have "length steps + (8 - length steps) = 8" using st(3) by simp
  then have e: "encode_steps (r # steps) 0 (replicate 8 0) (replicate 8 0) =
      (map (fst \<circ> step_of) steps @ replicate (8 - length steps) 0,
       map (snd \<circ> step_of) steps @ replicate (8 - length steps) 0)"
    using encode_steps_stack [OF st(2), of "[]" "[]" "8 - length steps"] st(1) by simp
  have l: "location_code (ru_from (last (r # steps))) = (if steps = [] then ARG_RULE_REG else ARG_RULE_MEMORY)"
    using st(1,2) by (cases steps rule: rev_cases) (simp_all add: location_code_def rule_type_defs)
  show ?thesis
    using st(3) unfolding encode_rule_def rule_of_def r Let_def e l by simp
qed

lemma args_encoded: "list_all arg_fits args \<Longrightarrow> encode_rules args = Inr (map rule_of args)"
  by (induction args) (simp_all add: arg_encoded)

lemma rule_of_steps: "arg_fits a \<Longrightarrow> arg_steps (rule_of a) = map step_of (tl (fa_rules a))"
  by (simp add: arg_steps_def rule_of_def Let_def arg_fits_def unat_of_nat_small zip_append zip_map_map comp_def
      zip_same_conv_map)

lemma rule_of_shape: "arg_fits a \<Longrightarrow> arg_rule_shape (rule_of a)"
  by (simp add: arg_rule_shape_def rule_of_def Let_def arg_fits_def)

lemma chase_walk:
  "list_all (\<lambda>r. int16 (ru_offset r)) steps \<Longrightarrow> chase mem (map step_of steps) a = walk mem steps a"
proof (induction steps arbitrary: a)
  case (Cons s steps)
  then have ih: "chase mem (map step_of steps) = walk mem steps" by auto
  show ?case using Cons.prems by (simp add: step_of_def [of s] scast_int16 ih)
qed simp

lemma leaf_fetched:
  fixes ctx
  assumes "answers (k_read_user env) mem" "reads_objects env" "arg_fits a"
  shows "leaf_holds mem (register_value ctx) a (to_leaf (fetch_leaf env ctx (rule_of a)))"
proof -
  let ?r = "rule_of a" and ?reg = "ru_register (hd (fa_rules a))" and ?steps = "tl (fa_rules a)"
  let ?base = "register_value ctx ?reg" and ?n = "nat (fa_size a)"
  have reg: "?reg \<in> set register_names" using assms(3) by (simp add: arg_fits_def)
  note num = register_number [OF reg, of ctx]
  have ar: "ar_reg ?r = register_constant ?reg" by (simp add: rule_of_def Let_def)
  show ?thesis
  proof (cases "?steps = []")
    case True
    then have ty: "ar_type ?r = ARG_RULE_REG" by (simp add: rule_of_def Let_def)
    have "fetch_leaf env ctx ?r = zero_arg_data\<lparr>ad_data := bytes64 ?base @ replicate 56 0\<rparr>"
      using assms(2) num
      by (simp add: fetch_leaf_def ty fetch_args_from_reg_def ar read_reg_def reg_field_dwarf
          reads_objects_bytes64 overlay_def zero_arg_data_def rule_type_defs)
    then show ?thesis using True by (simp add: leaf_holds_def Let_def to_leaf_def word_leaf_def zero_arg_data_def)
  next
    case False
    then have ty: "ar_type ?r = ARG_RULE_MEMORY" by (simp add: rule_of_def Let_def)
    have nc: "(ar_nil_check ?r \<noteq> 0) = fa_nil_check a" by (simp add: rule_of_def Let_def)
    have sz: "min 64 (unat (ar_size ?r)) = ?n" "0 < ?n"
      using assms(3) size_byte [of "fa_size a"] by (auto simp: rule_of_def Let_def arg_fits_def)
    have base: "le64 (read_reg env ctx (ar_reg ?r) (bytes64 0)) = ?base"
      using assms(2) num by (simp add: ar read_reg_def reg_field_dwarf reads_objects_bytes64)
    have fo: "follow env (arg_steps ?r) ?base = walk mem ?steps ?base"
      using chase_walk [of ?steps mem ?base] assms(3)
      by (simp add: follow_chase [OF assms(1)] rule_of_steps [OF assms(3)] arg_fits_def list_all_iff)
    have leaf: "fetch_leaf env ctx ?r = address_leaf env (fa_nil_check a) (arg_steps ?r) (ar_size ?r) ?base"
      unfolding fetch_leaf_memory [OF assms(1) rule_of_shape [OF assms(3)] ty] base nc by (rule refl)
    show ?thesis
    proof (cases "fa_nil_check a \<and> ?base = 0")
      case True
      then show ?thesis using False by (simp add: leaf address_leaf_def leaf_holds_def Let_def to_leaf_def)
    next
      case nn: False
      show ?thesis
      proof (cases "walk mem ?steps ?base")
        case None
        then show ?thesis using False nn
          by (auto simp: leaf address_leaf_def fo leaf_holds_def Let_def to_leaf_def zero_arg_data_def)
      next
        case (Some p)
        have "to_leaf (fetch_leaf env ctx ?r) =
            \<lparr>ld_data = left_bytes ?n (k_read_user env p ?n) @ replicate (64 - ?n) 0, ld_is_nil = False,
             ld_unavailable = (fst (k_read_user env p ?n) \<noteq> 0)\<rparr>"
          using nn Some sz(2)
          by (auto simp: leaf address_leaf_def fo Let_def sz(1) to_leaf_def zero_arg_data_def)
        then show ?thesis
          using False nn Some answers_load [OF assms(1), of p ?n] answers_fault [OF assms(1), of p ?n]
          by (cases "load_bytes mem p ?n") (auto simp: leaf_holds_def Let_def)
      qed
    qed
  qed
qed

section \<open>Bytes of a word read from memory\<close>

lemma bit_le64: "bit (le64 bs) k \<longleftrightarrow> k < 64 \<and> k div 8 < length bs \<and> bit (bs ! (k div 8)) (k mod 8)"
proof (induction bs arbitrary: k)
  case (Cons b bs)
  show ?case
  proof (cases "k < 8")
    case True
    then show ?thesis by (auto simp: le64_Cons bit_simps)
  next
    case False
    then obtain m where m: "k = m + 8" by (metis add.commute le_Suc_ex not_less)
    have "(m + 8) div 8 = Suc (m div 8)" "(m + 8) mod 8 = m mod 8" by simp_all
    then show ?thesis
      using Cons.IH [of m] by (auto simp: m le64_Cons bit_simps dest: bit_imp_le_length)
  qed
qed simp

lemma bytes64_le64: "length bs = 8 \<Longrightarrow> bytes64 (le64 bs) = bs"
proof (rule nth_equalityI)
  fix i
  assume l: "length bs = 8" and "i < length (bytes64 (le64 bs))"
  then have i: "i < 8" by simp
  show "bytes64 (le64 bs) ! i = bs ! i"
  proof (rule bit_word_eqI)
    fix n
    assume n: "n < LENGTH(8)"
    have "(8 * i + n) div 8 = i" "(8 * i + n) mod 8 = n" "8 * i + n < 64" using n i by simp_all
    then show "bit (bytes64 (le64 bs) ! i) n = bit (bs ! i) n"
      using n i l by (simp add: bytes64_def bit_simps bit_le64)
  qed
qed simp

section \<open>Recipes\<close>

text \<open>A copy relative to a data pointer that the encoding keeps as it is, and its leaf.\<close>

definition copy_fits :: "rel_copy \<Rightarrow> bool" where
  "copy_fits r \<longleftrightarrow>
     rc_size r = 64 \<and> length (rc_steps r) \<le> 8 \<and> list_all (\<lambda>s. int16 (ru_offset s)) (rc_steps r)"

definition copy_holds :: "(u64 \<rightharpoonup> u8) \<Rightarrow> u64 \<Rightarrow> rel_copy \<Rightarrow> leaf_data \<Rightarrow> bool" where
  "copy_holds mem data_ptr r l \<longleftrightarrow>
     (if data_ptr = 0 then ld_is_nil l
      else case Option.bind (walk mem (rc_steps r) data_ptr) (\<lambda>p. load_bytes mem p 64) of
             None \<Rightarrow> ld_unavailable l
           | Some bs \<Rightarrow> ld_data l = bs)"

lemma encode_copy_steps: "copy_fits r \<Longrightarrow> rel_steps (encode_copy r) = map step_of (rc_steps r)"
  by (simp add: rel_steps_def encode_copy_def Let_def copy_fits_def unat_of_nat_small zip_append zip_map_map
      comp_def zip_same_conv_map step_of_def)

lemma encode_copy_shape: "rel_rule_shape (encode_copy r)"
  by (simp add: rel_rule_shape_def encode_copy_def Let_def)

lemma copy_fetched:
  assumes "answers (k_read_user env) mem" "copy_fits r"
  shows "copy_holds mem p r (to_leaf (fetch_from_base env p (encode_copy r)))"
proof -
  have leaf: "fetch_from_base env p (encode_copy r) = address_leaf env True (rel_steps (encode_copy r)) 64 p"
    using fetch_from_base_leaf [OF encode_copy_shape [of r], of env p] assms(2)
    by (simp add: encode_copy_def Let_def copy_fits_def)
  have fo: "follow env (rel_steps (encode_copy r)) p = walk mem (rc_steps r) p"
    using chase_walk [of "rc_steps r" mem p] assms(2)
    by (simp add: follow_chase [OF assms(1)] encode_copy_steps [OF assms(2)] copy_fits_def)
  show ?thesis
  proof (cases "p = 0")
    case True
    show ?thesis using leaf unfolding True by (simp add: address_leaf_def copy_holds_def to_leaf_def)
  next
    case nz: False
    show ?thesis
    proof (cases "walk mem (rc_steps r) p")
      case None
      then show ?thesis using nz by (simp add: leaf address_leaf_def fo copy_holds_def to_leaf_def)
    next
      case (Some a)
      then show ?thesis
        using nz answers_load [OF assms(1), of a 64] answers_fault [OF assms(1), of a 64]
        by (cases "load_bytes mem a 64") (simp_all add: leaf address_leaf_def fo copy_holds_def to_leaf_def Let_def)
    qed
  qed
qed

lemma recipe_fetched:
  assumes "answers (k_read_user env) mem" "list_all copy_fits rec" "length rec \<le> 4"
  shows "list_all2 (copy_holds mem p) rec (map to_leaf (recipe_leaves env (encode_recipe rec) p))"
proof -
  have "unat (of_nat (length rec) :: u8) = length rec" using assms(3) by (intro unat_of_nat_small) simp
  then have "recipe_leaves env (encode_recipe rec) p = map (fetch_from_base env p) (map encode_copy rec)"
    using assms(3) by (simp add: recipe_leaves_def encode_recipe_def Let_def)
  then show ?thesis
    using assms(2) by (simp add: list_all2_conv_all_nth list_all_length copy_fetched [OF assms(1)])
qed

lemma encode_recipe_shape: "type_recipe_shape (encode_recipe rec)"
proof -
  have "rel_rule_shape zero_rel_rule" by (simp add: rel_rule_shape_def zero_rel_rule_def)
  then show ?thesis
    by (auto simp: type_recipe_shape_def encode_recipe_def Let_def list_all_iff encode_copy_shape)
qed

section \<open>Binding the copies of a recipe\<close>

lemma eval_rel_walk:
  "snap_true mem snap \<Longrightarrow> eval_rel snap a steps = 0 \<or> walk mem steps a = Some (eval_rel snap a steps)"
proof (induction steps arbitrary: a)
  case (Cons s steps)
  show ?case
  proof (cases "ru_dereference s")
    case False
    then show ?thesis using Cons by simp
  next
    case True
    let ?b = "a + word_of_int (ru_offset s)"
    show ?thesis
    proof (cases "snap_read snap ?b 8")
      case None
      then show ?thesis using True by simp
    next
      case (Some q)
      then have "load_bytes mem ?b 8 = Some q" by (rule reads_ofD [OF snap_reads [OF Cons.prems]])
      then have "load64 mem ?b = Some (read_uint q)"
        using length_load_bytes [of mem ?b 8 q] by (simp add: load64_def read_uint_def)
      then show ?thesis using True Some Cons by simp
    qed
  qed
qed simp

lemma copy_bound:
  assumes "copy_holds mem p r l" "snap_true mem snap"
  shows "snap_true mem (snap_put (eval_rel snap p (rc_steps r)) l snap)"
proof (rule snap_true_put [OF assms(2)])
  let ?a = "eval_rel snap p (rc_steps r)"
  assume nz: "?a \<noteq> 0" and l: "\<not> ld_unavailable l" "\<not> ld_is_nil l"
  then have "walk mem (rc_steps r) p = Some ?a" using eval_rel_walk [OF assms(2)] by blast
  then have "load_bytes mem ?a 64 = Some (ld_data l)"
    using assms(1) l by (auto simp: copy_holds_def split: if_splits option.splits)
  then show "true_at mem ?a (ld_data l)" by (simp add: load_true)
qed

text \<open>
  The leaves of a recipe are consumed in order, as far as the event has room for them; \<open>later\<close> are
  those of later values.
\<close>

definition extras_at :: "leaf_data list \<Rightarrow> nat \<Rightarrow> leaf_data list \<Rightarrow> bool" where
  "extras_at data extra es \<longleftrightarrow> extra \<le> length data \<and> length data \<le> 8 \<and> drop extra data = take (8 - extra) es"

lemma extras_step:
  assumes "extras_at data extra (l # es)" "extra < length data"
  shows "data ! extra = l \<and> extras_at data (Suc extra) es"
proof -
  have d: "drop extra data = data ! extra # drop (Suc extra) data" using assms(2) by (simp add: Cons_nth_drop_Suc)
  have "8 - extra = Suc (8 - Suc extra)" using assms by (auto simp: extras_at_def)
  then have "data ! extra # drop (Suc extra) data = l # take (8 - Suc extra) es"
    using assms(1) d by (simp add: extras_at_def)
  then show ?thesis using assms by (simp add: extras_at_def)
qed

lemma extras_end:
  assumes "extras_at data extra (es @ later)" "extra = length data" "es \<noteq> []"
  shows "extras_at data extra later"
proof -
  have "take (8 - extra) (es @ later) = []" using assms(1,2) by (simp add: extras_at_def)
  then have "8 - extra = 0" using assms(3) by simp
  then show ?thesis using assms by (simp add: extras_at_def)
qed

lemma copies_bound:
  assumes "list_all2 (copy_holds mem p) rec es" "extras_at data extra (es @ later)" "snap_true mem snap"
  shows "\<exists>extra' snap'. apply_copies rec p data (extra, snap) = (extra', snap') \<and>
    extras_at data extra' later \<and> snap_true mem snap'"
  using assms
proof (induction rec arbitrary: es extra snap)
  case Nil
  then show ?case by simp
next
  case (Cons r rec)
  obtain l es' where es: "es = l # es'" "copy_holds mem p r l" "list_all2 (copy_holds mem p) rec es'"
    using Cons.prems(1) by (auto simp: list_all2_Cons1)
  show ?case
  proof (cases "extra < length data")
    case False
    then have "extra = length data" using Cons.prems(2) by (simp add: extras_at_def)
    then have "extras_at data extra later" using extras_end [OF Cons.prems(2)] es(1) by simp
    then show ?thesis using False Cons.prems(3) by simp
  next
    case True
    have st: "data ! extra = l" "extras_at data (Suc extra) (es' @ later)"
      using extras_step [of data extra l "es' @ later"] True Cons.prems(2) es(1) by auto
    have "snap_true mem (snap_put (eval_rel snap p (rc_steps r)) (data ! extra) snap)"
      using copy_bound [OF es(2) Cons.prems(3)] st(1) by simp
    from Cons.IH [OF es(3) st(2) this] show ?thesis using True by simp
  qed
qed

section \<open>Interface values\<close>

text \<open>The leaves the recipe of a value's dynamic type adds to an event.\<close>

definition value_extras ::
  "(u64 \<rightharpoonup> u8) \<Rightarrow> recipes \<Rightarrow> dwarf_type \<Rightarrow> u64 list \<Rightarrow> leaf_data list \<Rightarrow> bool" where
  "value_extras mem recipes t ws es \<longleftrightarrow>
     (case type_word mem t ws of
        None \<Rightarrow> es = []
      | Some w \<Rightarrow>
          if w = 0 then es = []
          else case recipes w of None \<Rightarrow> es = [] | Some rec \<Rightarrow> list_all2 (copy_holds mem (ws ! 1)) rec es)"

definition nil_blank :: "leaf_data \<Rightarrow> bool" where
  "nil_blank l \<longleftrightarrow> (if ld_is_nil l then ld_data l = replicate 64 0 else True)"

lemma iface_words:
  assumes "underlying t = StructType cn n sn fs" "struct_kind sn fs = Go_interface"
    and "list_all2 (leaf_holds mem regs) (map spec_fetch_arg (abi_specs (underlying t) name rs)) us"
    and "list_all nil_blank us" "type_word mem t [regs (rs ! 0), regs (rs ! 1)] = Some tw"
  shows "\<exists>lt. us = [lt, word_leaf (regs (rs ! 1))] \<and> take 8 (ld_data lt) = bytes64 tw \<and>
    (ld_is_nil lt \<and> tw = 0 \<or> \<not> ld_is_nil lt \<and> \<not> ld_unavailable lt)"
proof (cases "interface_is_non_empty sn fs")
  case False
  then show ?thesis
    using assms by (auto simp: list_all2_Cons1 word_holds type_word_def word_leaf_def)
next
  case True
  obtain lt where us: "us = [lt, word_leaf (regs (rs ! 1))]"
    "leaf_holds mem regs (spec_fetch_arg (itab_spec (name @ ''.type'') (rs ! 0))) lt"
    using assms(1-3) True by (auto simp: list_all2_Cons1 word_holds)
  show ?thesis
  proof (cases "regs (rs ! 0) = 0")
    case z: True
    then have "ld_is_nil lt" using us(2) by (simp add: leaf_holds_def Let_def)
    moreover have "tw = 0" using assms(1,2,5) True z by (simp add: type_word_def)
    ultimately show ?thesis
      using us(1) assms(4) by (simp add: nil_blank_def bytes64_zero)
  next
    case False
    then have "load64 mem (regs (rs ! 0) + 8) = Some tw"
      using assms(1,2,5) True by (simp add: type_word_def)
    then obtain bs where bs: "load_bytes mem (regs (rs ! 0) + 8) 8 = Some bs" "tw = le64 bs"
      by (auto simp: load64_def)
    then have l: "length bs = 8" using length_load_bytes by blast
    have "\<not> ld_is_nil lt \<and> \<not> ld_unavailable lt \<and> ld_data lt = bs @ replicate 56 0"
      using us(2) False bs(1) by (auto simp: leaf_holds_def Let_def stack_rule_def)
    then show ?thesis using us(1) l by (simp add: bs(2) bytes64_le64)
  qed
qed

lemma render_auto_iface:
  assumes "drop cur data = lt # word_leaf w # l # rest" "cur \<le> length data" "take 8 (ld_data lt) = bytes64 tw"
    and "underlying t = StructType cn n sn fs" "struct_kind sn fs = Go_interface" "is_interface sn fs"
    and "ld_is_nil lt \<and> tw = 0 \<or> \<not> ld_is_nil lt \<and> \<not> ld_unavailable lt"
  shows "render_auto re recipes data (value_of name t 2 1) (cur, extra) =
    (if tw = 0 then (''nil'', cur + 3, extra)
     else let (extra, snap) = apply_recipe_extras tw w data recipes (extra, snap_put w l [])
          in (render_dynamic_value max_dynamic_depth re (snap_read snap) t (bytes64 tw @ bytes64 w) 0, cur + 3, extra))"
proof -
  have len: "length data = cur + 3 + length rest"
    using arg_cong [OF assms(1), of length] assms(2) by simp
  have w: "take 2 (drop cur data) = [lt, word_leaf w]" using assms(1) by simp
  have "drop (cur + 2) data = drop 2 (drop cur data)" by (simp add: add.commute)
  then have c: "take 1 (drop (cur + 2) data) = [l]" using assms(1) by simp
  have ru: "read_uint (ld_data lt) = tw" using assms(3) by (simp add: read_uint_def)
  have h: "concat_leaves [lt, word_leaf w] = bytes64 tw @ bytes64 w"
    using assms(3) by (simp add: concat_leaves_def word_bytes_def [of lt])
  have rh: "read_uint (bytes64 tw @ bytes64 w) = tw" "read_uint (drop 8 (bytes64 tw @ bytes64 w)) = w"
    by (simp_all add: read_uint_def)
  have v: "leaf_count (value_of name t 2 1) = 3"
    "av_word_count (value_of name t 2 1) = 2" "av_captures (value_of name t 2 1) = 1" "av_type (value_of name t 2 1) = t"
    by (simp_all add: value_of_def leaf_count_def)
  have g: "((3 :: nat) = 0 \<or> cur + 3 > length data) = False" using len by simp
  have b: "bind_iface_captures (bytes64 tw @ bytes64 w) [l] [] = snap_put w l []"
    by (simp add: bind_iface_captures_def rh(2) [simplified])
  have hn: "(bytes64 tw @ bytes64 w = []) = False" "16 \<le> length (bytes64 tw @ bytes64 w)"
    by (simp_all flip: length_0_conv)
  show ?thesis
    unfolding render_auto_def prod.case v Let_def g if_False w c h b rh assms(4) dwarf_type.case if_P [OF hn(2)] hn(1)
    using assms(5-7) by (auto simp: ru cong: if_cong)
qed

lemma render_iface_exact:
  assumes "closed_types re S" "t \<in> S" "low_unmapped mem"
    and "underlying t = StructType cn n sn fs" "struct_kind sn fs = Go_interface" "is_interface sn fs"
    and "cur \<le> length data"
    and "list_all2 (leaf_holds mem regs) (map spec_fetch_arg (value_specs (re_types re) t name rs)) ls"
    and "list_all nil_blank ls" "drop cur data = ls @ rest"
    and "type_word mem t [regs (rs ! 0), regs (rs ! 1)] = Some tw"
    and "value_extras mem recipes t [regs (rs ! 0), regs (rs ! 1)] es" "extras_at data extra (es @ later)"
  shows "\<exists>text extra'. render_auto re recipes data (value_of nm t 2 1) (cur, extra) = (text, cur + length ls, extra') \<and>
    extras_at data extra' later \<and> exact text (live_text re mem t [regs (rs ! 0), regs (rs ! 1)])"
proof -
  let ?w = "regs (rs ! 1)" and ?d = max_dynamic_depth
  obtain us cs where ls: "ls = us @ cs"
    "list_all2 (leaf_holds mem regs) (map spec_fetch_arg (abi_specs (underlying t) name rs)) us"
    "list_all2 (leaf_holds mem regs) (map spec_fetch_arg (capture_specs (re_types re) t name rs)) cs"
    using assms(8) by (auto simp: value_specs_def list_all2_append1)
  have "list_all nil_blank us" using assms(9) ls(1) by simp
  then obtain lt where us: "us = [lt, word_leaf ?w]" "take 8 (ld_data lt) = bytes64 tw"
    "ld_is_nil lt \<and> tw = 0 \<or> \<not> ld_is_nil lt \<and> \<not> ld_unavailable lt"
    using iface_words [OF assms(4,5) ls(2) _ assms(11)] by blast
  obtain l nm' where cs: "cs = [l]" "leaf_holds mem regs (spec_fetch_arg (blob_at nm' (loc_at (rs ! 1) True))) l"
    using ls(3) assms(4,5) by (auto simp: capture_specs_def list_all2_Cons1)
  have dr: "drop cur data = lt # word_leaf ?w # l # rest" using assms(10) ls(1) us(1) cs(1) by simp
  note r = render_auto_iface [OF dr assms(7) us(2) assms(4-6) us(3), of re recipes nm extra]
  have live: "live_text re mem t [regs (rs ! 0), ?w] =
      render_dynamic_value ?d re (load_bytes mem) t (bytes64 tw @ bytes64 ?w) 0"
    using assms(4,5,11) by (simp add: live_text_def iface_value_def)
  have ps: "\<not> plain_struct t" using assms(4,5) by (simp add: plain_struct_def)
  have len: "length ls = 3" by (simp add: ls(1) us(1) cs(1))
  show ?thesis
  proof (cases "tw = 0")
    case True
    have "render_dynamic_value (Suc d) re rd t (bytes64 0 @ bytes64 ?w) 0 = ''nil''" for d rd
      using assms(4,5) by (simp add: render_interface_def read_uint_def)
    then have "live_text re mem t [regs (rs ! 0), ?w] = ''nil''"
      unfolding live True max_dynamic_depth_def by (metis numeral_eq_Suc)
    moreover have "es = []" using assms(11,12) True by (simp add: value_extras_def)
    ultimately show ?thesis using r True assms(13) len by simp
  next
    case False
    have s0: "snap_true mem (snap_put ?w l [])"
      by (rule snap_true_put) (use blob_true [OF cs(2)] in simp_all)
    have "\<exists>extra' snap'. apply_recipe_extras tw ?w data recipes (extra, snap_put ?w l []) = (extra', snap') \<and>
        extras_at data extra' later \<and> snap_true mem snap'"
    proof (cases "recipes tw")
      case None
      then show ?thesis
        using assms(11-13) False s0 by (simp add: value_extras_def apply_recipe_extras_def)
    next
      case (Some rec)
      then have "list_all2 (copy_holds mem ?w) rec es" using assms(11,12) False by (simp add: value_extras_def)
      from copies_bound [OF this assms(13) s0] show ?thesis using Some False by (simp add: apply_recipe_extras_def)
    qed
    then obtain extra' snap' where x: "apply_recipe_extras tw ?w data recipes (extra, snap_put ?w l []) = (extra', snap')"
      "extras_at data extra' later" "snap_true mem snap'"
      by blast
    let ?h = "bytes64 tw @ bytes64 ?w"
    have "view_ok mem t ?h ?h 0" using ps by (simp add: view_ok_def)
    then have "exact (render_dynamic_value ?d re (snap_read snap') t ?h 0) (render_dynamic_value ?d re (load_bytes mem) t ?h 0)"
      using render_exact [OF snap_reads [OF x(3)] assms(3,1), unfolded exact_on_def] assms(2) by blast
    then show ?thesis using r False x(1,2) len live by simp
  qed
qed

section \<open>What a recipe copies\<close>

text \<open>
  The offsets of the strings and slices of an object, nested structs included, are what the
  recipe of its type follows.
\<close>

fun blob_offsets :: "int \<Rightarrow> dwarf_type \<Rightarrow> int list" and blob_field_offsets :: "int \<Rightarrow> dwarf_field list \<Rightarrow> int list" where
  "blob_offsets k (TypedefType cn t) = blob_offsets k t"
| "blob_offsets k (QualType cn t) = blob_offsets k t"
| "blob_offsets k (StructType cn n sn fs) =
     (case struct_kind sn fs of
        Go_string \<Rightarrow> [k] | Go_slice \<Rightarrow> [k] | Go_interface \<Rightarrow> [] | Plain_struct \<Rightarrow> blob_field_offsets k fs)"
| "blob_offsets k t = []"
| "blob_field_offsets k [] = []"
| "blob_field_offsets k (Field fname off t # fs) = blob_offsets (k + off) t @ blob_field_offsets k fs"

text \<open>The object whose bytes the data word leads to: for a pointer type, what it points to.\<close>

definition pointed_type :: "type_table \<Rightarrow> dwarf_type \<Rightarrow> dwarf_type option" where
  "pointed_type ty t =
     (if type_is_direct (underlying t)
      then case underlying t of PtrType cn n p \<Rightarrow> Some (ty p) | _ \<Rightarrow> None
      else Some t)"

lemma walk_step: "walk mem (append_step steps off False) p = map_option (\<lambda>a. a + word_of_int off) (walk mem steps p)"
  by (cases "walk mem steps p") (auto simp: append_step_def walk_append stack_rule_def)

lemma walk_deref: "walk mem (append_step steps 0 True) p = Option.bind (walk mem steps p) (load64 mem)"
  by (cases "walk mem steps p") (auto simp: append_step_def walk_append stack_rule_def split: bind_splits)

lemma rel_captures_offsets:
  assumes "walk mem steps p = Some (p + word_of_int k)"
  shows "map (\<lambda>c. (rc_size c, walk mem (rc_steps c) p)) (rel_mem_captures t steps) =
      map (\<lambda>off. (64, load64 mem (p + word_of_int off))) (blob_offsets k t)"
    and "map (\<lambda>c. (rc_size c, walk mem (rc_steps c) p)) (rel_field_captures fs steps) =
      map (\<lambda>off. (64, load64 mem (p + word_of_int off))) (blob_field_offsets k fs)"
  using assms
proof (induction t steps and fs steps arbitrary: k and k rule: rel_mem_captures_rel_field_captures.induct)
  case (3 cn n sn fs steps)
  then show ?case by (cases "struct_kind sn fs") (simp_all add: walk_deref auto_string_size_def)
next
  case (6 fname off t fs steps)
  have "walk mem (append_step steps off False) p = Some (p + word_of_int (k + off))"
    using "6.prems" by (simp add: walk_step add.assoc)
  then show ?case using "6.IH" "6.prems" by simp
qed simp_all

text \<open>C35: The recipe of a concrete type copies 64 bytes from where each string and slice of the
  object points, nested structs included, in the order of the fields, and of no more than the
  first four.\<close>

theorem recipe_follows_fields:
  "map (\<lambda>c. (rc_size c, walk mem (rc_steps c) p)) (compile_type_recipe ty t) =
     (case pointed_type ty t of
        None \<Rightarrow> []
      | Some u \<Rightarrow> take 4 (map (\<lambda>off. (64, load64 mem (p + word_of_int off))) (blob_offsets 0 u)))"
proof -
  have r: "map (\<lambda>c. (rc_size c, walk mem (rc_steps c) p)) (take 4 (rel_mem_captures u [])) =
      take 4 (map (\<lambda>off. (64, load64 mem (p + word_of_int off))) (blob_offsets 0 u))" for u
    unfolding take_map [symmetric] by (subst rel_captures_offsets(1) [where k = 0]) simp_all
  have u: "rel_mem_captures (underlying t) [] = rel_mem_captures t []"
    by (induction t rule: underlying.induct) simp_all
  show ?thesis
    using r [of t] u by (auto simp: compile_type_recipe_def pointed_type_def Let_def max_type_recipe_rules_def r split: dwarf_type.split)
qed

end
