(* ===== verification/Ftrace_Arguments.thy ===== *)
theory Ftrace_Arguments
  imports Ftrace_Recipes
begin

text \<open>
  The automatic arguments of a call end to end: types to rules, rules to leaves, leaves to the
  text of an event, with an example call.
\<close>

section \<open>A function's arguments\<close>

text \<open>The texts of the values over all of memory; \<open>ws\<close> are the values of the ABI registers left.\<close>

fun live_parts :: "render_env \<Rightarrow> (u64 \<rightharpoonup> u8) \<Rightarrow> auto_value list \<Rightarrow> u64 list \<Rightarrow> string list" where
  "live_parts re mem [] ws = []"
| "live_parts re mem (v # vs) ws =
     (av_name v @ ''='' @ live_text re mem (av_type v) (take (av_word_count v) ws)) #
       live_parts re mem vs (drop (av_word_count v) ws)"

text \<open>The interface types are read at the hit when the itabs they start with are.\<close>

fun itabs_readable :: "(u64 \<rightharpoonup> u8) \<Rightarrow> auto_value list \<Rightarrow> u64 list \<Rightarrow> bool" where
  "itabs_readable mem [] ws = True"
| "itabs_readable mem (v # vs) ws =
     ((if iface_value (av_type v) then type_word mem (av_type v) (take (av_word_count v) ws) \<noteq> None else True) \<and>
      itabs_readable mem vs (drop (av_word_count v) ws))"

text \<open>The leaves of the recipes of the interface values, in order, as \<open>g\<close> reads them.\<close>

fun extras_of :: "(u64 \<Rightarrow> u64 \<Rightarrow> leaf_data list) \<Rightarrow> auto_value list \<Rightarrow> leaf_data list \<Rightarrow> leaf_data list" where
  "extras_of g [] ls = []"
| "extras_of g (v # vs) ls =
     (if iface_value (av_type v) then g (read_uint (ld_data (ls ! 0))) (read_uint (ld_data (ls ! 1))) else []) @
       extras_of g vs (drop (leaf_count v) ls)"

definition recipe_reader :: "(u64 \<rightharpoonup> u8) \<Rightarrow> recipes \<Rightarrow> (u64 \<Rightarrow> u64 \<Rightarrow> leaf_data list) \<Rightarrow> bool" where
  "recipe_reader mem recipes g \<longleftrightarrow>
     (\<forall>a p. if a = 0 then g a p = []
            else case recipes a of None \<Rightarrow> g a p = [] | Some rec \<Rightarrow> list_all2 (copy_holds mem p) rec (g a p))"

definition shown_var :: "render_env \<Rightarrow> dwarf_type set \<Rightarrow> variable \<Rightarrow> bool" where
  "shown_var re S v \<longleftrightarrow>
     va_type v \<in> S \<and> sane_type (va_type v) \<and> (plain_value (re_types re) (va_type v) \<or> iface_value (va_type v)) \<and>
     (case underlying (va_type v) of PtrType cn n p \<Rightarrow> sane_type (re_types re p) | _ \<Rightarrow> True)"

lemma plain_no_iface: "plain_value ty t \<Longrightarrow> \<not> iface_value t"
  using no_interface_underlying [of t]
  by (auto simp: plain_value_def iface_value_def split: dwarf_type.splits)

lemma iface_valueE:
  assumes "iface_value t"
  obtains cn n sn fs where "underlying t = StructType cn n sn fs" "struct_kind sn fs = Go_interface" "is_interface sn fs"
  using assms that by (auto simp: iface_value_def struct_kind_def split: dwarf_type.splits if_splits)

lemma iface_counts: "iface_value t \<Longrightarrow> reg_words t = 2 \<and> value_captures ty t = 1"
  by (erule iface_valueE)
    (simp add: value_captures_def flip: reg_words_underlying [of t])

lemma plan_parts_exact:
  assumes "closed_types re S" "low_unmapped mem" "recipe_reader mem recipes g" "list_all (shown_var re S) vs"
    and "9 \<le> length rs + k" "k \<le> 8"
    and "list_all2 (leaf_holds mem regs)
           (map spec_fetch_arg (concat (map snd (plan_spec (re_types re) rename vs rs k)))) ls"
    and "list_all nil_blank ls" "itabs_readable mem (map fst (plan_spec (re_types re) rename vs rs k)) (map regs rs)"
    and "drop cur data = ls @ rest" "cur \<le> length data"
    and "extras_at data extra (extras_of g (map fst (plan_spec (re_types re) rename vs rs k)) ls)"
  shows "list_all2 exact
    (render_parts re recipes data (map fst (plan_spec (re_types re) rename vs rs k)) (cur, extra))
    (live_parts re mem (map fst (plan_spec (re_types re) rename vs rs k)) (map regs rs))"
  using assms(4-)
proof (induction vs arbitrary: rs k ls cur extra)
  case (Cons v vs)
  let ?t = "va_type v" and ?ty = "re_types re" and ?nm = "rename (va_name v)"
  have v: "?t \<in> S" "sane_type ?t" "case underlying ?t of PtrType cn n p \<Rightarrow> sane_type (?ty p) | _ \<Rightarrow> True"
    using Cons.prems(1) by (auto simp: shown_var_def)
  have vs: "list_all (shown_var re S) vs" using Cons.prems(1) by simp
  show ?case
  proof (cases "k < 8 \<and> plannable ?t \<and> k + value_leaves ?ty ?t \<le> 8")
    case False
    show ?thesis
    proof (cases "k < 8")
      case True
      then have "plan_spec ?ty rename (v # vs) rs k = plan_spec ?ty rename vs rs k"
        using False by (auto simp: Let_def)
      then show ?thesis using Cons.IH [OF vs Cons.prems(2,3)] Cons.prems(4-9) by simp
    qed simp
  next
    case True
    let ?w = "reg_words ?t" and ?k = "k + value_leaves ?ty ?t" and ?c = "value_captures ?ty ?t"
    let ?ss = "value_specs ?ty ?t ?nm rs" and ?p = "plan_spec ?ty rename vs (drop (reg_words ?t) rs) (k + value_leaves ?ty ?t)"
    let ?v = "value_of ?nm ?t ?w ?c"
    have p: "plan_spec ?ty rename (v # vs) rs k = (?v, ?ss) # ?p"
      using True by (simp add: Let_def)
    obtain us vs' where ls: "ls = us @ vs'" "list_all2 (leaf_holds mem regs) (map spec_fetch_arg ?ss) us"
      "list_all2 (leaf_holds mem regs) (map spec_fetch_arg (concat (map snd ?p))) vs'"
      using Cons.prems(4) unfolding p by (auto simp: list_all2_append1)
    have nb: "list_all nil_blank us" "list_all nil_blank vs'" using Cons.prems(5) ls(1) by simp_all
    have w: "?w \<le> length rs" using True Cons.prems(2) reg_words_le [of ?t ?ty] by arith
    have q: "9 \<le> length (drop ?w rs) + ?k" "?k \<le> 8"
      using True Cons.prems(2) reg_words_le [of ?t ?ty] by simp_all
    have dr: "drop cur data = us @ vs' @ rest" using Cons.prems(7) ls(1) by simp
    have av: "av_name ?v = ?nm" "av_word_count ?v = ?w" "av_type ?v = ?t" "leaf_count ?v = ?w + ?c"
      by (simp_all add: value_of_def leaf_count_def)
    have lu: "length us = ?w + ?c" using list_all2_lengthD [OF ls(2)] by (simp add: value_leaves_def)
    have "drop (cur + length us) data = drop (length us) (drop cur data)" by (simp add: add.commute)
    moreover have "length data - cur = length us + length vs' + length rest" using arg_cong [OF dr, of length] by simp
    ultimately have d2: "drop (cur + length us) data = vs' @ rest" "cur + length us \<le> length data"
      using dr Cons.prems(8) by simp_all
    have rd: "itabs_readable mem (map fst ?p) (map regs (drop ?w rs))"
      using Cons.prems(6) unfolding p by (simp add: av drop_map)
    define later where "later = extras_of g (map fst ?p) vs'"
    define es where "es = (if iface_value ?t then g (read_uint (ld_data (ls ! 0))) (read_uint (ld_data (ls ! 1))) else [])"
    have "extras_of g (map fst ((?v, ?ss) # ?p)) ls = es @ later"
      unfolding es_def later_def by (simp add: av ls(1) lu)
    then have ex: "extras_at data extra (es @ later)"
      using Cons.prems(9) unfolding p by (simp only:)
    have "\<exists>tx extra'. render_auto re recipes data ?v (cur, extra) = (tx, cur + length us, extra') \<and>
        extras_at data extra' later \<and> exact tx (live_text re mem ?t (map regs (take ?w rs)))"
    proof (cases "iface_value ?t")
      case False
      then have pv: "plain_value ?ty ?t" using Cons.prems(1) by (simp add: shown_var_def)
      have "es = []" using False by (simp add: es_def)
      then show ?thesis
        using render_auto_exact [OF assms(1) v(1) assms(2) v(2) conjunct1 [OF conjunct2 [OF True]] pv v(3) w Cons.prems(8) ls(2) dr,
          where recipes = recipes and nm = ?nm and extra = extra] ex by auto
    next
      case iface: True
      obtain cn n sn fs where st: "underlying ?t = StructType cn n sn fs" "struct_kind sn fs = Go_interface" "is_interface sn fs"
        using iface by (rule iface_valueE)
      note c = iface_counts [OF iface, of ?ty]
      have "2 \<le> length rs" using w c by simp
      then have tk: "map regs (take ?w rs) = [regs (rs ! 0), regs (rs ! 1)]"
        using c by (cases rs rule: remdups_adj.cases) (simp_all add: numeral_2_eq_2)
      obtain tw where tw: "type_word mem ?t [regs (rs ! 0), regs (rs ! 1)] = Some tw"
        using Cons.prems(6) unfolding p by (auto simp: av iface take_map tk)
      obtain xs ys where us: "us = xs @ ys" "list_all2 (leaf_holds mem regs) (map spec_fetch_arg (abi_specs (underlying ?t) ?nm rs)) xs"
        using ls(2) by (auto simp: value_specs_def list_all2_append1)
      have "list_all nil_blank xs" using nb(1) us(1) by simp
      then obtain lt where lt: "xs = [lt, word_leaf (regs (rs ! 1))]" "take 8 (ld_data lt) = bytes64 tw"
        using iface_words [OF st(1,2) us(2) _ tw] by blast
      have es: "es = g tw (regs (rs ! 1))"
        using lt by (simp add: es_def iface ls(1) us(1)) (simp add: read_uint_def)
      have "value_extras mem recipes ?t [regs (rs ! 0), regs (rs ! 1)] es"
        using assms(3) [unfolded recipe_reader_def, rule_format, of tw "regs (rs ! 1)"]
        unfolding value_extras_def tw es by (simp cong: option.case_cong if_cong)
      from render_iface_exact [OF assms(1) v(1) assms(2) st Cons.prems(8) ls(2) nb(1) dr tw this ex, of ?nm]
      show ?thesis unfolding tk by (simp add: c)
    qed
    then obtain tx extra' where t: "render_auto re recipes data ?v (cur, extra) = (tx, cur + length us, extra')"
      "extras_at data extra' later" "exact tx (live_text re mem ?t (map regs (take ?w rs)))"
      by blast
    show ?thesis
      unfolding p
      using Cons.IH [OF vs q ls(3) nb(2) rd d2 t(2) [unfolded later_def]] t(1,3)
      by (simp add: av take_map drop_map exact_append exact_Cons)
  qed
qed simp

section \<open>The event\<close>

definition event_leaves :: "event \<Rightarrow> leaf_data list" where
  "event_leaves e = map to_leaf (take (unat (ev_arg_count e)) (ev_args e))"

text \<open>
  \<open>renderEventArgsRecipes\<close> with both of its branches; without planned values it is the printing of
  hand-written rules.
\<close>

definition render_event ::
  "(u8 list \<Rightarrow> string) \<Rightarrow> render_env \<Rightarrow> recipes \<Rightarrow> fetch_arg list \<Rightarrow> auto_value list \<Rightarrow> event \<Rightarrow> string" where
  "render_event sprint_float re recipes fas values e =
     (if unat (ev_arg_count e) < length fas \<or> unat (ev_arg_count e) > length (ev_args e) then unavailable
      else if values \<noteq> [] then render_values re recipes (event_leaves e) values
      else render_event_args sprint_float fas e)"

lemma render_event_explicit: "render_event sf re recipes fas [] e = render_event_args sf fas e"
  by (simp add: render_event_def render_event_args_def)

section \<open>Marked slots\<close>

text \<open>
  Which fetch argument is the data word of an interface value, with the index of its type word:
  the second of the value's three leaves, and the first.
\<close>

definition slot_mark :: "fetch_arg \<Rightarrow> int option" where
  "slot_mark a = (if fa_iface_data a then Some (fa_type_index a) else None)"

fun value_marks :: "nat \<Rightarrow> auto_value list \<Rightarrow> int option list" where
  "value_marks k0 [] = []"
| "value_marks k0 (v # vs) =
     (if iface_value (av_type v) then [None, Some (int k0), None] else replicate (leaf_count v) None) @
       value_marks (k0 + leaf_count v) vs"

lemma marked_leaves:
  "list_all2 (leaf_holds mem regs) (mark_iface_slots args) ls = list_all2 (leaf_holds mem regs) args ls"
proof -
  have mark: "leaf_holds mem regs (a\<lparr>fa_iface_data := True, fa_type_index := k\<rparr>) = leaf_holds mem regs a" for a k
    by (simp add: leaf_holds_def fun_eq_iff Let_def cong: option.case_cong if_cong)
  have h: "leaf_holds mem regs
      (if c then a else case m of None \<Rightarrow> a | Some ti \<Rightarrow> a\<lparr>fa_iface_data := True, fa_type_index := f ti\<rparr>) =
      leaf_holds mem regs a" for a c m f
    by (cases m) (simp_all add: mark)
  show ?thesis by (simp add: mark_iface_slots_def list_all2_map1 h)
qed

text \<open>Reading the extra leaves slot by slot, as the program does, is reading them value by value.\<close>

lemma extras_by_slot:
  assumes "list_all (\<lambda>v. if iface_value (av_type v) then leaf_count v = 3 else True) vs"
    and "\<And>i. i < length (value_marks k0 vs) \<Longrightarrow>
      F (k0 + i) = (case value_marks k0 vs ! i of None \<Rightarrow> []
                   | Some k \<Rightarrow> g (read_uint (ld_data (all ! nat k))) (read_uint (ld_data (all ! (k0 + i)))))"
    and "k0 + length (value_marks k0 vs) \<le> length all"
  shows "concat (map F [k0..<k0 + length (value_marks k0 vs)]) = extras_of g vs (drop k0 all)"
  using assms
proof (induction vs arbitrary: k0)
  case (Cons v vs)
  let ?n = "leaf_count v"
  define ms where "ms = (if iface_value (av_type v) then [None, Some (int k0), None] else replicate ?n None)"
  have vm: "value_marks k0 (v # vs) = ms @ value_marks (k0 + ?n) vs" by (simp add: ms_def)
  have n: "length ms = ?n" using Cons.prems(1) by (simp add: ms_def)
  let ?r = "length (value_marks (k0 + ?n) vs)"
  have long: "k0 + ?n + ?r \<le> length all" using Cons.prems(3) by (simp only: vm n length_append add.assoc)
  have rest: "concat (map F [k0 + ?n..<k0 + ?n + ?r]) = extras_of g vs (drop (k0 + ?n) all)"
  proof (rule Cons.IH)
    fix i
    assume "i < ?r"
    then show "F (k0 + ?n + i) = (case value_marks (k0 + ?n) vs ! i of None \<Rightarrow> []
        | Some k \<Rightarrow> g (read_uint (ld_data (all ! nat k))) (read_uint (ld_data (all ! (k0 + ?n + i)))))"
      using Cons.prems(2) [of "?n + i"] by (simp del: value_marks.simps add: vm nth_append n add.assoc cong: option.case_cong)
  qed (use Cons.prems(1) long in simp_all)
  have own: "F (k0 + i) = (case ms ! i of None \<Rightarrow> []
      | Some k \<Rightarrow> g (read_uint (ld_data (all ! nat k))) (read_uint (ld_data (all ! (k0 + i)))))" if "i < ?n" for i
    using Cons.prems(2) [of i] that by (simp del: value_marks.simps add: vm nth_append n)
  have "[k0..<k0 + length (value_marks k0 (v # vs))] = [k0..<k0 + ?n] @ [k0 + ?n..<k0 + ?n + ?r]"
    using upt_add_eq_append [of k0 "k0 + ?n" ?r] by (simp only: vm n length_append add.assoc le_add1)
  moreover have "concat (map F [k0..<k0 + ?n]) =
      (if iface_value (av_type v) then g (read_uint (ld_data (drop k0 all ! 0))) (read_uint (ld_data (drop k0 all ! 1))) else [])"
  proof (cases "iface_value (av_type v)")
    case True
    then have "?n = 3" using Cons.prems(1) by simp
    then have "[k0..<k0 + ?n] = [k0, Suc k0, Suc (Suc k0)]" by (simp add: upt_rec)
    then show ?thesis
      using own [of 0] own [of 1] own [of 2] \<open>?n = 3\<close> True Cons.prems(3) by (simp del: value_marks.simps add: ms_def vm)
  next
    case False
    have "F j = []" if "k0 \<le> j" "j < k0 + ?n" for j
      using own [of "j - k0"] that False by (simp add: ms_def)
    then show ?thesis using False by simp
  qed
  ultimately show ?case using rest by (simp add: add.commute)
qed simp

lemma mark_before:
  assumes "list_all (\<lambda>v. if iface_value (av_type v) then leaf_count v = 3 else True) vs"
    and "i < length (value_marks k0 vs)" "value_marks k0 vs ! i = Some k"
  shows "0 \<le> k \<and> nat k \<le> k0 + i"
  using assms
proof (induction vs arbitrary: k0 i)
  case (Cons v vs)
  define ms where "ms = (if iface_value (av_type v) then [None, Some (int k0), None] else replicate (leaf_count v) None)"
  have vm: "value_marks k0 (v # vs) = ms @ value_marks (k0 + leaf_count v) vs" by (simp add: ms_def)
  have n: "length ms = leaf_count v" using Cons.prems(1) by (simp add: ms_def)
  show ?case
  proof (cases "i < leaf_count v")
    case True
    then have "ms ! i = Some k" using Cons.prems(3) n unfolding vm by (simp add: nth_append)
    moreover have "ms ! i = Some k \<Longrightarrow> k = int k0"
      using True n by (auto simp: ms_def nth_Cons less_Suc_eq split: if_splits nat.splits)
    ultimately show ?thesis by simp
  next
    case False
    then have "i - leaf_count v < length (value_marks (k0 + leaf_count v) vs)"
      "value_marks (k0 + leaf_count v) vs ! (i - leaf_count v) = Some k"
      using Cons.prems(2,3) n unfolding vm by (auto simp: nth_append)
    from Cons.IH [OF _ this] show ?thesis using Cons.prems(1) False by simp
  qed
qed simp

section \<open>The leaves of an event\<close>

text \<open>The recipes userspace has handed to the program, as both sides hold them.\<close>

definition recipes_installed :: "recipes \<Rightarrow> bpf_state \<Rightarrow> bool" where
  "recipes_installed recipes st \<longleftrightarrow>
     (\<forall>a. type_recipes_map st a = map_option encode_recipe (recipes a) \<and>
        (case recipes a of None \<Rightarrow> True | Some rec \<Rightarrow> list_all copy_fits rec \<and> length rec \<le> 4))"

lemma recipes_installed_set:
  "recipes_installed recipes st \<Longrightarrow> list_all copy_fits rec \<Longrightarrow> length rec \<le> 4 \<Longrightarrow>
     recipes_installed (recipes(a \<mapsto> rec)) (set_type_recipe a rec st)"
  by (simp add: recipes_installed_def set_type_recipe_def)

lemma installed_recipes_shape: "recipes_installed recipes st \<Longrightarrow> recipes_shape st"
  by (auto simp: recipes_installed_def recipes_shape_def encode_recipe_shape)

definition program_extras :: "kenv \<Rightarrow> bpf_state \<Rightarrow> u64 \<Rightarrow> u64 \<Rightarrow> leaf_data list" where
  "program_extras env st a p =
     (if a = 0 then []
      else case type_recipes_map st a of None \<Rightarrow> [] | Some rec \<Rightarrow> map to_leaf (recipe_leaves env rec p))"

lemma program_extras_read:
  assumes "answers (k_read_user env) mem" "recipes_installed recipes st"
  shows "recipe_reader mem recipes (program_extras env st)"
  unfolding recipe_reader_def
proof (intro allI)
  fix a p
  have r: "type_recipes_map st a = map_option encode_recipe (recipes a)"
    "case recipes a of None \<Rightarrow> True | Some rec \<Rightarrow> list_all copy_fits rec \<and> length rec \<le> 4"
    using assms(2) by (simp_all add: recipes_installed_def)
  show "if a = 0 then program_extras env st a p = []
    else case recipes a of None \<Rightarrow> program_extras env st a p = []
      | Some rec \<Rightarrow> list_all2 (copy_holds mem p) rec (program_extras env st a p)"
    using r recipe_fetched [OF assms(1)] by (cases "recipes a") (simp_all add: program_extras_def)
qed

lemma nil_leaf:
  assumes "answers (k_read_user env) mem" "reads_objects env" "arg_fits a"
  shows "nil_blank (to_leaf (fetch_leaf env ctx (rule_of a)))"
proof (cases "tl (fa_rules a) = []")
  case True
  then have ty: "ar_type (rule_of a) = ARG_RULE_REG" by (simp add: rule_of_def Let_def)
  have reg: "ru_register (hd (fa_rules a)) \<in> set register_names" using assms(3) by (simp add: arg_fits_def)
  have ar: "ar_reg (rule_of a) = register_constant (ru_register (hd (fa_rules a)))" by (simp add: rule_of_def Let_def)
  have "fetch_leaf env ctx (rule_of a) =
      zero_arg_data\<lparr>ad_data := bytes64 (register_value ctx (ru_register (hd (fa_rules a)))) @ replicate 56 0\<rparr>"
    using assms(2) register_number [OF reg, of ctx]
    by (simp add: fetch_leaf_def ty fetch_args_from_reg_def ar read_reg_def reg_field_dwarf
        reads_objects_bytes64 overlay_def zero_arg_data_def rule_type_defs)
  then show ?thesis by (simp add: nil_blank_def to_leaf_def zero_arg_data_def)
next
  case False
  then have ty: "ar_type (rule_of a) = ARG_RULE_MEMORY" by (simp add: rule_of_def Let_def)
  show ?thesis
    unfolding fetch_leaf_memory [OF assms(1) rule_of_shape [OF assms(3)] ty]
    by (auto simp: address_leaf_def nil_blank_def to_leaf_def zero_arg_data_def Let_def split: option.split)
qed

definition derived_rules :: "fetch_arg list \<Rightarrow> arg_rules" where
  "derived_rules args =
     \<lparr>ars_length = of_nat (length args), ars_rules = map rule_of args @ replicate (8 - length args) zero_arg_rule\<rparr>"

definition base_of :: "kenv \<Rightarrow> pt_regs \<Rightarrow> fetch_arg list \<Rightarrow> arg_data list" where
  "base_of env ctx args = map (\<lambda>a. fetch_leaf env ctx (rule_of a)) args"

lemma derived_accepted:
  assumes "list_all arg_fits args" "length args \<le> 8" "arg_rules_map st pc = None" "card (dom (arg_rules_map st)) < 100"
  shows "set_arg_rules pc args st = Inr (st\<lparr>arg_rules_map := (arg_rules_map st)(pc \<mapsto> derived_rules args)\<rparr>)"
  using assms by (simp add: set_arg_rules_def args_encoded update_no_exist_def derived_rules_def
      def_arg_rules_map_def map_def_def)

lemma derived_shape:
  assumes "list_all arg_fits args" "length args \<le> 8"
  shows "arg_rules_shape (derived_rules args)"
proof -
  have "arg_rule_shape zero_arg_rule" by (simp add: arg_rule_shape_def zero_arg_rule_def)
  then show ?thesis using assms by (auto simp: arg_rules_shape_def derived_rules_def list_all_iff rule_of_shape)
qed

lemma unat_word_of_int_small: "0 \<le> k \<Longrightarrow> k < 8 \<Longrightarrow> unat (word_of_int k :: u8) = nat k"
  using unat_of_nat_small [of "nat k"] by (simp add: of_nat_nat)

lemma installed_slot:
  assumes "list_all arg_fits args" "length args \<le> 8" "i < length args"
  shows "ar_iface_data (ars_rules (derived_rules args) ! i) = (if slot_mark (args ! i) = None then 0 else 1)"
    and "slot_mark (args ! i) = Some k \<Longrightarrow> unat (ar_type_idx (ars_rules (derived_rules args) ! i)) = nat k"
proof -
  have r: "ars_rules (derived_rules args) ! i = rule_of (args ! i)"
    using assms(3) by (simp add: derived_rules_def nth_append)
  show "ar_iface_data (ars_rules (derived_rules args) ! i) = (if slot_mark (args ! i) = None then 0 else 1)"
    unfolding r by (simp add: rule_of_def Let_def slot_mark_def)
  have f: "arg_fits (args ! i)" using assms(1,3) by (simp add: list_all_length)
  assume "slot_mark (args ! i) = Some k"
  then have m: "fa_iface_data (args ! i)" "fa_type_index (args ! i) = k" by (simp_all add: slot_mark_def split: if_splits)
  then have k: "0 \<le> k" "k < 8" using f by (simp_all add: arg_fits_def)
  then have "unat (word_of_int k :: u8) = nat k" by (simp add: unat_word_of_int_small)
  then show "unat (ar_type_idx (ars_rules (derived_rules args) ! i)) = nat k"
    unfolding r using m by (simp add: rule_of_def Let_def)
qed

lemma base_word: "i < length args \<Longrightarrow> leaf_word (base_of env ctx args) i = read_uint (ld_data (map to_leaf (base_of env ctx args) ! i))"
  by (simp add: leaf_word_def base_of_def to_leaf_def read_uint_def)

lemma installed_extras:
  assumes "list_all arg_fits args" "length args \<le> 8"
    and "list_all (\<lambda>v. if iface_value (av_type v) then leaf_count v = 3 else True) values"
    and "map slot_mark args = value_marks 0 values"
  shows "concat (map (\<lambda>i. map to_leaf (extra_leaves env st (derived_rules args) (base_of env ctx args) i)) [0..<length args]) =
      extras_of (program_extras env st) values (map to_leaf (base_of env ctx args))"
    and "type_slots_ok (derived_rules args)"
proof -
  let ?b = "base_of env ctx args"
  have len: "length (value_marks 0 values) = length args" using arg_cong [OF assms(4), of length] by simp
  have mark: "slot_mark (args ! i) = value_marks 0 values ! i" if "i < length args" for i
    using arg_cong [OF assms(4), of "\<lambda>ms. ms ! i"] that by simp
  have before: "0 \<le> k" "nat k \<le> i" if "i < length args" "slot_mark (args ! i) = Some k" for i k
    using mark_before [OF assms(3), of i 0 k] that len mark by simp_all
  have x: "map to_leaf (extra_leaves env st (derived_rules args) ?b (0 + i)) =
      (case value_marks 0 values ! i of None \<Rightarrow> []
       | Some k \<Rightarrow> program_extras env st (read_uint (ld_data (map to_leaf ?b ! nat k)))
                    (read_uint (ld_data (map to_leaf ?b ! (0 + i)))))"
    if "i < length (value_marks 0 values)" for i
  proof -
    have i: "i < length args" using that len by simp
    show ?thesis
    proof (cases "slot_mark (args ! i)")
      case None
      then show ?thesis using installed_slot(1) [OF assms(1,2) i] mark [OF i] by (simp add: extra_leaves_def Let_def)
    next
      case (Some k)
      have k: "nat k < length args" using before(2) [OF i Some] i by simp
      show ?thesis
        using Some mark [OF i] installed_slot [OF assms(1,2) i] base_word [OF i, of env ctx] base_word [OF k, of env ctx]
        by (auto simp: extra_leaves_def Let_def program_extras_def split: option.splits)
    qed
  qed
  show "concat (map (\<lambda>i. map to_leaf (extra_leaves env st (derived_rules args) ?b i)) [0..<length args]) =
      extras_of (program_extras env st) values (map to_leaf ?b)"
    using extras_by_slot [OF assms(3) x] len by (simp add: base_of_def)
  have n: "unat (ars_length (derived_rules args)) = length args"
    using assms(2) by (simp add: derived_rules_def unat_of_nat_small)
  show "type_slots_ok (derived_rules args)"
    unfolding type_slots_ok_def n
  proof (intro allI impI)
    fix i
    assume "i < min 8 (length args)" and d: "ar_iface_data (ars_rules (derived_rules args) ! i) \<noteq> 0"
    then have i: "i < length args" by simp
    obtain k where k: "slot_mark (args ! i) = Some k"
      using d installed_slot(1) [OF assms(1,2) i] by (auto split: if_splits)
    show "unat (ar_type_idx (ars_rules (derived_rules args) ! i)) < min 8 (length args)"
      using installed_slot(2) [OF assms(1,2) i k] before(2) [OF i k] i assms(2) by simp
  qed
qed

lemma installed_fetched:
  assumes "reads_objects env" "recipes_shape st" "arg_rules_map st (ev_ip e) = Some (derived_rules args)"
    "list_all arg_fits args" "length args \<le> 8"
    "list_all (\<lambda>v. if iface_value (av_type v) then leaf_count v = 3 else True) values"
    "map slot_mark args = value_marks 0 values" "ev_args e = replicate 8 zero_arg_data"
  shows "event_leaves (fetch_args env ctx st e) =
      take 8 (map to_leaf (base_of env ctx args) @ extras_of (program_extras env st) values (map to_leaf (base_of env ctx args)))"
    and "length args \<le> unat (ev_arg_count (fetch_args env ctx st e))"
    and "unat (ev_arg_count (fetch_args env ctx st e)) \<le> length (ev_args (fetch_args env ctx st e))"
proof -
  note ex = installed_extras [OF assms(4-7)]
  have n: "unat (ars_length (derived_rules args)) = length args"
    using assms(5) by (simp add: derived_rules_def unat_of_nat_small)
  have b: "base_leaves env ctx (derived_rules args) = base_of env ctx args"
    using assms(5) by (simp add: base_leaves_def n base_of_def) (simp add: derived_rules_def)
  define ds where "ds = expected_leaves env ctx st (derived_rules args)"
  have f: "fetch_args env ctx st e = filled e ds"
    unfolding ds_def by (rule fetch_args_filled [OF assms(1-3) derived_shape [OF assms(4,5)] ex(2) assms(8)])
  have d: "map to_leaf ds =
      take 8 (map to_leaf (base_of env ctx args) @ extras_of (program_extras env st) values (map to_leaf (base_of env ctx args)))"
    unfolding ds_def expected_leaves_def b Let_def ex(1) [symmetric]
    by (simp add: map_concat comp_def base_of_def flip: take_map)
  have l: "length ds \<le> 8" "length args \<le> length ds"
    using arg_cong [OF d, of length] assms(5) by (simp_all add: base_of_def)
  show "event_leaves (fetch_args env ctx st e) =
      take 8 (map to_leaf (base_of env ctx args) @ extras_of (program_extras env st) values (map to_leaf (base_of env ctx args)))"
    unfolding f d [symmetric] using l(1) by (simp add: event_leaves_def unat_of_nat_small)
  show "length args \<le> unat (ev_arg_count (fetch_args env ctx st e))"
    "unat (ev_arg_count (fetch_args env ctx st e)) \<le> length (ev_args (fetch_args env ctx st e))"
    unfolding f using l by (simp_all add: unat_of_nat_small)
qed

lemma plan_counts:
  "list_all (\<lambda>v. if iface_value (av_type v) then leaf_count v = 3 else True) (map fst (plan_spec ty rename vs rs k))"
proof (induction vs arbitrary: rs k)
  case (Cons v vs)
  then show ?case
    using iface_counts [of "va_type v" ty] by (simp add: Let_def value_of_def leaf_count_def)
qed simp

text \<open>The text of an event whose rules are installed.\<close>

lemma installed_text_exact:
  fixes ctx
  assumes "answers (k_read_user env) mem" "reads_objects env" "low_unmapped mem"
    and "closed_types re S" "list_all (shown_var re S) vars"
    and "derive_args (re_types re) vars = (args, values)"
    and "list_all arg_fits args" "map slot_mark args = value_marks 0 values"
    and "recipes_installed recipes st" "itabs_readable mem values (map (register_value ctx) abi_regs)"
    and "arg_rules_map st (ev_ip e) = None" "card (dom (arg_rules_map st)) < 100"
    and "ev_args e = replicate 8 zero_arg_data"
  shows "\<exists>st' texts. set_arg_rules (ev_ip e) args st = Inr st' \<and>
    (if values = [] then True
     else render_event sf re recipes args values (fetch_args env ctx st' e) = join '', '' texts) \<and>
    list_all2 exact texts (live_parts re mem values (map (register_value ctx) abi_regs))"
proof -
  let ?ty = "re_types re" and ?regs = "register_value ctx"
  let ?p = "fn_plan ?ty id vars" and ?st = "st\<lparr>arg_rules_map := (arg_rules_map st)(ev_ip e \<mapsto> derived_rules args)\<rparr>"
  have sane: "list_all (\<lambda>v. sane_type (va_type v)) vars"
    using assms(5) by (rule list.pred_mono_strong) (simp add: shown_var_def)
  have pv: "args = plan_args ?p" "values = map fst ?p"
    using derive_plan(1) [OF sane, of ?ty] assms(6) by simp_all
  have fol: "length args \<le> 8" "sum_list (map leaf_count values) = length args"
    using plan_follows_abi [OF sane, of ?ty id] by (simp_all add: follows_abi_def pv)
  have counts: "list_all (\<lambda>v. if iface_value (av_type v) then leaf_count v = 3 else True) values"
    unfolding pv(2) fn_plan_def by (rule plan_counts)
  have inst: "recipes_installed recipes ?st" using assms(9) by (simp add: recipes_installed_def)
  define e' where "e' = fetch_args env ctx ?st e"
  define L where "L = map to_leaf (base_of env ctx args)"
  define g where "g = program_extras env ?st"
  have fe: "event_leaves e' = take 8 (L @ extras_of g values L)"
    "length args \<le> unat (ev_arg_count e')" "unat (ev_arg_count e') \<le> length (ev_args e')"
    unfolding e'_def L_def g_def
    by (rule installed_fetched [OF assms(2) installed_recipes_shape [OF inst] _ assms(7) fol(1) counts assms(8,13)];
        simp)+
  have "list_all2 (leaf_holds mem ?regs) args L" "list_all nil_blank L"
    using assms(7) leaf_fetched [OF assms(1,2)] nil_leaf [OF assms(1,2)]
    by (auto simp: L_def base_of_def list_all2_conv_all_nth list_all_length)
  then have hold: "list_all2 (leaf_holds mem ?regs) (map spec_fetch_arg (concat (map snd ?p))) L" "list_all nil_blank L"
    by (simp_all add: pv(1) plan_args_def marked_leaves)
  have ln: "length L = length args" by (simp add: L_def base_of_def)
  have start: "9 \<le> length abi_regs + 0" "(0 :: nat) \<le> 8" by (simp_all add: abi_regs_def)
  have split: "drop 0 (event_leaves e') = L @ take (8 - length L) (extras_of g values L)"
    using fol(1) ln by (simp add: fe(1))
  have extras: "extras_at (event_leaves e') (length args) (extras_of g values L)"
    using fol(1) ln by (simp add: extras_at_def fe(1))
  have ex: "list_all2 exact (render_parts re recipes (event_leaves e') values (0, length args))
      (live_parts re mem values (map ?regs abi_regs))"
    using plan_parts_exact [OF assms(4,3) program_extras_read [OF assms(1) inst, folded g_def] assms(5) start
        hold(1) [unfolded fn_plan_def] hold(2) _ split le0] assms(10) extras
    by (simp add: pv(2) fn_plan_def)
  have "render_event sf re recipes args values e' =
      join '', '' (render_parts re recipes (event_leaves e') values (0, length args))" if "values \<noteq> []"
    using that fol fe(2,3) by (simp add: render_event_def render_values_def)
  then show ?thesis
    using derived_accepted [OF assms(7) fol(1) assms(11,12)] ex
    by (intro exI [of _ ?st] exI [of _ "render_parts re recipes (event_leaves e') values (0, length args)"])
      (simp add: e'_def)
qed


section \<open>An example\<close>

text \<open>A helper that answers from a given memory.\<close>

definition memory_env :: "(u64 \<rightharpoonup> u8) \<Rightarrow> kenv" where
  "memory_env mem = low_env\<lparr>k_read_user := (\<lambda>a n. case load_bytes mem a n of
     None \<Rightarrow> (-14, \<lambda>i. 0) | Some bs \<Rightarrow> (0, \<lambda>i. bs ! i))\<rparr>"

lemma memory_answers: "answers (k_read_user (memory_env mem)) mem"
  unfolding answers_def
proof (intro allI)
  fix a n
  show "case load_bytes mem a n of None \<Rightarrow> fst (k_read_user (memory_env mem) a n) \<noteq> 0
    | Some bs \<Rightarrow> fst (k_read_user (memory_env mem) a n) = 0 \<and> left_bytes n (k_read_user (memory_env mem) a n) = bs"
    using length_load_bytes [of mem a n]
    by (auto simp: memory_env_def left_bytes_def map_nth split: option.split)
qed

lemma memory_objects: "reads_objects (memory_env mem)"
  using low_objects by (simp add: reads_objects_def memory_env_def)

text \<open>
  The call \<open>f("abc", 7, errors.New("hi"))\<close>: beyond the first page every byte is the low byte of its
  address, but for the second word of the itab at 0x7000 and the \<open>errorString\<close> at 0x8000.
\<close>

definition call_objects :: "(u64 \<times> u8) list" where
  "call_objects =
     [(0x7008, 0), (0x7009, 144), (0x700a, 0), (0x700b, 0), (0x700c, 0), (0x700d, 0),
      (0x700e, 0), (0x700f, 0), (0x8000, 104), (0x8001, 65), (0x8002, 0), (0x8003, 0),
      (0x8004, 0), (0x8005, 0), (0x8006, 0), (0x8007, 0), (0x8008, 2), (0x8009, 0),
      (0x800a, 0), (0x800b, 0), (0x800c, 0), (0x800d, 0), (0x800e, 0), (0x800f, 0)]"

definition call_memory :: "u64 \<rightharpoonup> u8" where
  "call_memory a =
     (if a < 4096 then None
      else case map_of call_objects a of None \<Rightarrow> Some (ucast a) | Some b \<Rightarrow> Some b)"

lemma call_unmapped: "low_unmapped call_memory"
  by (simp add: low_unmapped_def call_memory_def word_less_nat_alt)

definition error_string :: dwarf_type where
  "error_string = StructType [] 16 ''errors.errorString'' [Field ''s'' 0 string_type]"

definition error_pointer :: dwarf_type where
  "error_pointer = PtrType [] 8 3"

definition call_types :: type_table where
  "call_types p = (if p = 3 then error_string else demo_types p)"

definition call_env :: render_env where
  "call_env =
     \<lparr>re_types = call_types, re_runtime = Some (\<lambda>a. if a = 0x9000 then Some error_pointer else None),
      re_string = (\<lambda>t. ''?''), re_float = (\<lambda>t d. ''''), re_quote = (\<lambda>d. ''''),
      re_exported = (\<lambda>n. False), re_name_depth = 0, re_hide_unexported = False\<rparr>"

definition call_ctx :: pt_regs where
  "call_ctx = (demo_ctx 100 1008 2000)\<lparr>ctx_ax := 0x4161, ctx_bx := 3, ctx_cx := 7, ctx_di := 0x7000, ctx_si := 0x8000\<rparr>"

definition call_recipe :: "rel_copy list" where
  "call_recipe = compile_type_recipe call_types error_pointer"

definition call_state :: bpf_state where
  "call_state = set_type_recipe 0x9000 call_recipe demo_state"

definition call_set :: "dwarf_type set" where
  "call_set = {string_type, int_type, error_type, error_pointer, error_string}"

abbreviation "call_args \<equiv> fst (derive_args call_types auto_vars)"
abbreviation "call_values \<equiv> snd (derive_args call_types auto_vars)"

lemma call_args_fit: "list_all arg_fits call_args"
  by code_simp

lemma call_values_eq: "call_values = [value_of ''s'' string_type 2 1, value_of ''n'' int_type 1 0, value_of ''err'' error_type 2 1]"
  by code_simp

lemma call_marks: "map slot_mark call_args = value_marks 0 call_values"
  by code_simp

lemma call_recipe_fits: "list_all copy_fits call_recipe" "length call_recipe \<le> 4"
  by code_simp+

lemma call_live:
  "live_parts call_env call_memory [value_of ''s'' string_type 2 1, value_of ''n'' int_type 1 0, value_of ''err'' error_type 2 1]
     [0x4161, 3, 7, 0x7000, 0x8000] =
   [''s='' @ [quote_char] @ ''abc'' @ [quote_char], ''n=7'',
    ''err=&errors.errorString{s:'' @ [quote_char] @ ''hi'' @ [quote_char] @ ''}'']"
  by code_simp

lemma call_readable:
  "itabs_readable call_memory [value_of ''s'' string_type 2 1, value_of ''n'' int_type 1 0, value_of ''err'' error_type 2 1]
     [0x4161, 3, 7, 0x7000, 0x8000]"
  by code_simp

lemma call_registers: "map (register_value call_ctx) (take 5 abi_regs) = [0x4161, 3, 7, 0x7000, 0x8000]"
  by (simp add: abi_regs_def register_value_def call_ctx_def)

lemma call_types_simps:
  "underlying string_type = string_type" "underlying error_pointer = error_pointer" "underlying error_string = error_string"
  by (simp_all add: string_type_def error_pointer_def error_string_def)

lemma call_shown: "list_all (shown_var call_env call_set) auto_vars"
  by (simp add: shown_var_def auto_vars_def call_set_def plain_value_def string_type_def int_type_def error_type_def iface_value_def
      struct_kind_def is_string_def is_slice_def is_interface_def has_prefix_def has_fields_def plain_struct_def)

lemma call_closed: "closed_types call_env call_set"
  by (simp add: closed_types_def call_set_def call_env_def shape_ok_def string_type_def int_type_def error_type_def
      error_pointer_def error_string_def struct_kind_def is_string_def is_slice_def is_interface_def has_prefix_def has_fields_def
      call_types_def field_ok_def plain_struct_def)

lemma call_recipes: "recipes_installed (Map.empty(0x9000 \<mapsto> call_recipe)) call_state"
  unfolding call_state_def
  by (rule recipes_installed_set [OF _ call_recipe_fits]) (simp add: recipes_installed_def demo_state_def)

lemma live_parts_append:
  "sum_list (map av_word_count vs) \<le> length ws \<Longrightarrow> live_parts re mem vs (ws @ ws') = live_parts re mem vs ws"
  "sum_list (map av_word_count vs) \<le> length ws \<Longrightarrow> itabs_readable mem vs (ws @ ws') = itabs_readable mem vs ws"
  by (induction vs arbitrary: ws) (simp_all add: le_diff_conv2 add.commute)


end
