(* ===== verification/Ftrace_Misprints.thy ===== *)
theory Ftrace_Misprints
  imports Ftrace_Arguments
begin

text \<open>
  Inputs on which the automatic printing shows something that is not in the traced program.
\<close>

section \<open>What is printed wrongly\<close>

text \<open>
  An interface that holds an integer: the runtime keeps a pointer to the integer in the data
  word, but every type of at most eight bytes is taken to be in the data word itself. The value
  at 0x8008 is 2; its address is printed.
\<close>

definition any_type :: dwarf_type where
  "any_type = StructType [] 16 ''runtime.eface'' [Field ''_type'' 0 (PtrType [] 8 0), Field ''data'' 8 (PtrType [] 8 0)]"

definition code_env :: render_env where
  "code_env = call_env\<lparr>re_runtime := Some (\<lambda>a. if a = 0x1234 then Some (IntType ''main.Code'' 8)
     else if a = 0x9000 then Some error_pointer else None)\<rparr>"

lemma boxed_integer_shown_as_address:
  "live_text code_env call_memory any_type [0x1234, 0x8008] = show_int 0x8008" "load64 call_memory 0x8008 = Some 2"
proof -
  show "load64 call_memory 0x8008 = Some 2" by code_simp
  have bits: "bits_name CHR ''s'' 8 = ''s64''" by code_simp
  have any: "iface_value any_type" "type_word call_memory any_type [0x1234, 0x8008] = Some 0x1234" by code_simp+
  have "render_dynamic_value (Suc (Suc d)) code_env (load_bytes call_memory) any_type (bytes64 0x1234 @ bytes64 0x8008) 0 =
      show_int 0x8008" for d
    by (simp add: any_type_def struct_kind_def is_string_def is_slice_def is_interface_def has_prefix_def has_fields_def
        render_interface_def dynamic_type_def code_env_def interface_is_non_empty_def read_uint_def render_leaf_def
        Let_def type_is_direct_def bits cong: if_cong)
  from this [of 6] show "live_text code_env call_memory any_type [0x1234, 0x8008] = show_int 0x8008"
    by (simp add: live_text_def any max_dynamic_depth_def numeral_eq_Suc)
qed

text \<open>
  An interface whose itab cannot be read at the probe: its type word is zero and marked as
  unavailable, but the test for nil comes first. The value, with the words 0x7000 and 0x8000,
  is printed as nil.
\<close>

definition swapped_memory :: "u64 \<rightharpoonup> u8" where
  "swapped_memory a = (if 0x7000 \<le> a \<and> a < 0x8000 then None else call_memory a)"

definition err_vars :: "variable list" where
  "err_vars = [\<lparr>va_name = ''err'', va_type = error_type\<rparr>]"

definition err_ctx :: pt_regs where
  "err_ctx = (demo_ctx 100 1008 2000)\<lparr>ctx_ax := 0x7000, ctx_bx := 0x8000\<rparr>"

lemma unreadable_itab_shown_as_nil:
  "render_parts call_env Map.empty
     (map to_leaf (base_of (memory_env swapped_memory) err_ctx (fst (derive_args call_types err_vars))))
     (snd (derive_args call_types err_vars)) (0, 3) = [''err=nil'']"
  by code_simp

text \<open>
  Two interface fields behind a pointer whose itabs are less than 64 bytes apart: the leaf of the
  first itab's second word has eight bytes, but all 64 bytes of its slot are put at that address,
  and the zeros behind the word stand for the second itab.
\<close>

definition pair_types :: type_table where
  "pair_types p =
     (if p = 4 then StructType [] 32 ''main.Pair'' [Field ''A'' 0 error_type, Field ''B'' 16 error_type] else call_types p)"

definition pair_env :: render_env where
  "pair_env = code_env\<lparr>re_types := pair_types\<rparr>"

definition slot_of :: "u64 list \<Rightarrow> leaf_data" where
  "slot_of ws = \<lparr>ld_data = concat (map bytes64 ws) @ replicate (64 - 8 * length ws) 0, ld_is_nil = False, ld_unavailable = False\<rparr>"

definition pair_value :: auto_value where
  "pair_value = value_of ''p'' (PtrType [] 8 4) 1 7"

definition pair_leaves :: "u64 \<Rightarrow> leaf_data list" where
  "pair_leaves itab =
     [slot_of [0xC000], slot_of [0x7000, 0xA000, itab, 7], slot_of [0x9000], slot_of [0xA000], slot_of [0xB000],
      slot_of [0x1234], slot_of [7], slot_of [9]]"

lemma pair_planned: "snd (derive_args pair_types [\<lparr>va_name = ''p'', va_type = PtrType [] 8 4\<rparr>]) = [pair_value]"
  by code_simp

lemma neighbour_itab_shadowed:
  "render_values pair_env Map.empty (pair_leaves 0x7050) [pair_value] = ''p=&main.Pair{A:&errors.errorString{s:'' @ [quote_char, quote_char] @ ''}, B:7}'' \<and>
   render_values pair_env Map.empty (pair_leaves 0x7020) [pair_value] = ''p=&main.Pair{A:&errors.errorString{s:'' @ [quote_char, quote_char] @ ''}, B:'' @ unknown_interface @ ''}''"
  by code_simp

end
