(* ===== verification/Ftrace_Learning.thy ===== *)
theory Ftrace_Learning
  imports Ftrace_Misprints Ftrace_Budget
begin

text \<open>
  Learning the types seen in interfaces (\<open>learnInterfaceTypes\<close> of
  \<open>internal/eventmanager/handler.go\<close>, with the learner of \<open>cmd/tracer.go\<close>): the recipe of a
  type goes into the map of the BPF program and into the map of the renderer. The tracer as a
  whole, programs and consumer over one state, keeps both sides equal; an event fetched before a
  recipe was installed is still printed with it.
\<close>

section \<open>Learning interface types\<close>

text \<open>
  What the event manager has learned: \<open>typeRecipes\<close>, \<open>learned\<close> and the maps of the program, into
  which the learner of \<open>cmd/tracer.go\<close> writes. \<open>accepts\<close> says whether the kernel takes a new entry
  of \<open>type_recipes_map\<close>.
\<close>

record learning =
  lr_recipes :: recipes
  lr_learned :: "u64 \<Rightarrow> bool"
  lr_maps :: bpf_state

definition learn_arg ::
  "render_env \<Rightarrow> (u64 \<Rightarrow> bpf_state \<Rightarrow> bool) \<Rightarrow> nat \<Rightarrow> event \<Rightarrow> fetch_arg \<Rightarrow> learning \<Rightarrow> learning" where
  "learn_arg re accepts n e a l =
     (if \<not> fa_iface_data a \<or> fa_type_index a < 0 \<or> fa_type_index a \<ge> int n then l
      else let type_addr = le64 (take 8 (ad_data (ev_args e ! nat (fa_type_index a))))
           in if type_addr = 0 \<or> lr_learned l type_addr then l
              else case Option.bind (re_runtime re) (\<lambda>resolve. resolve type_addr) of
                None \<Rightarrow> l
              | Some t \<Rightarrow>
                  (let rec = compile_type_recipe (re_types re) t
                   in if \<not> accepts type_addr (lr_maps l) then l
                      else l\<lparr>lr_recipes := (lr_recipes l)(type_addr \<mapsto> rec),
                             lr_learned := (lr_learned l)(type_addr := True),
                             lr_maps := set_type_recipe type_addr rec (lr_maps l)\<rparr>))"

definition learn_interface_types ::
  "render_env \<Rightarrow> (u64 \<Rightarrow> bpf_state \<Rightarrow> bool) \<Rightarrow> uprobe \<Rightarrow> event \<Rightarrow> learning \<Rightarrow> learning" where
  "learn_interface_types re accepts u e l =
     (if re_runtime re = None then l
      else let n = min (min (unat (ev_arg_count e)) (length (ev_args e))) (length (up_fetch_args u))
           in fold (learn_arg re accepts n e) (up_fetch_args u) l)"

text \<open>The services of the event manager for automatic and hand-written rules.\<close>

definition auto_services ::
  "(u8 list \<Rightarrow> string) \<Rightarrow> render_env \<Rightarrow> (u64 \<Rightarrow> bpf_state \<Rightarrow> bool) \<Rightarrow> learning services" where
  "auto_services sf re accepts =
     \<lparr>sv_render = (\<lambda>l u e. render_event sf re (lr_recipes l) (up_fetch_args u) (up_values u) e),
      sv_learn = learn_interface_types re accepts\<rparr>"

section \<open>Both sides agree\<close>

definition recipes_agree :: "render_env \<Rightarrow> learning \<Rightarrow> bool" where
  "recipes_agree re l \<longleftrightarrow>
     (\<forall>a. type_recipes_map (lr_maps l) a = map_option encode_recipe (lr_recipes l a) \<and>
        lr_learned l a = (lr_recipes l a \<noteq> None) \<and>
        (case lr_recipes l a of
           None \<Rightarrow> True
         | Some rec \<Rightarrow>
             (case Option.bind (re_runtime re) (\<lambda>resolve. resolve a) of
                None \<Rightarrow> False | Some t \<Rightarrow> rec = compile_type_recipe (re_types re) t)))"

lemma learn_arg_agree: "recipes_agree re l \<Longrightarrow> recipes_agree re (learn_arg re accepts n e a l)"
  by (simp add: recipes_agree_def learn_arg_def Let_def set_type_recipe_def split: option.split)

lemma learn_agree: "recipes_agree re l \<Longrightarrow> recipes_agree re (learn_interface_types re accepts u e l)"
proof -
  have "recipes_agree re l \<Longrightarrow> recipes_agree re (fold (learn_arg re accepts n e) as l)" for n as
    by (induction as arbitrary: l) (simp_all add: learn_arg_agree)
  then show "recipes_agree re l \<Longrightarrow> recipes_agree re (learn_interface_types re accepts u e l)"
    by (simp add: learn_interface_types_def Let_def)
qed

lemma agree_maps: "type_recipes_map st = type_recipes_map (lr_maps l) \<Longrightarrow> recipes_agree re (l\<lparr>lr_maps := st\<rparr>) = recipes_agree re l"
  by (simp add: recipes_agree_def)

text \<open>The recipes of every type of the binary keep to the limits of the encoding.\<close>

definition types_fit :: "render_env \<Rightarrow> bool" where
  "types_fit re \<longleftrightarrow>
     (\<forall>resolve a t. re_runtime re = Some resolve \<longrightarrow> resolve a = Some t \<longrightarrow>
        list_all copy_fits (compile_type_recipe (re_types re) t))"

lemma recipe_length: "length (compile_type_recipe ty t) \<le> 4"
  by (simp add: compile_type_recipe_def Let_def max_type_recipe_rules_def)

lemma agree_installed:
  assumes "types_fit re" "recipes_agree re l"
  shows "recipes_installed (lr_recipes l) (lr_maps l)"
  unfolding recipes_installed_def
proof (intro allI conjI)
  fix a
  note ag = assms(2) [unfolded recipes_agree_def, rule_format, of a]
  show "type_recipes_map (lr_maps l) a = map_option encode_recipe (lr_recipes l a)" using ag by simp
  show "case lr_recipes l a of None \<Rightarrow> True | Some rec \<Rightarrow> list_all copy_fits rec \<and> length rec \<le> 4"
  proof (cases "lr_recipes l a")
    case (Some rec)
    then obtain resolve t where r: "re_runtime re = Some resolve" "resolve a = Some t" "rec = compile_type_recipe (re_types re) t"
      using ag by (auto split: bind_splits option.splits)
    then show ?thesis using assms(1) Some by (auto simp: types_fit_def recipe_length)
  qed simp
qed

section \<open>What handling an event learns\<close>

lemma release_learned [simp]: "mg_learned (release n m) = mg_learned m"
  by (simp add: release_def Let_def)

lemma drop_stack_learned [simp]: "mg_learned (drop_stack pid goid m) = mg_learned m"
  by (simp add: drop_stack_def Let_def put_pid_state_def split: option.split)

lemma admit_learned: "admit_event e m = (ok, m') \<Longrightarrow> mg_learned m' = mg_learned m"
  by (auto simp: admit_event_def reset_stale_sample_def Let_def split: if_splits option.splits)

lemma touch_learned [simp]: "mg_learned (touch_pid pid m) = mg_learned m"
  by (auto simp: touch_pid_def evict_oldest_def put_pid_state_def Let_def split: option.splits)

lemma add_learned:
  "add_event sv e m = (ok, m') \<Longrightarrow> mg_learned m' = mg_learned m \<or> (\<exists>u. mg_learned m' = sv_learn sv u e (mg_learned m))"
  by (cases "admit_event e m")
    (auto simp: add_event_def store_event_def put_pid_state_def Let_def dest!: admit_learned split: if_splits option.splits)

lemma finish_learned [simp]: "mg_learned (snd (finish_stack e m)) = mg_learned m"
  by (simp add: finish_stack_def Let_def aggregate_stack_def print_stack_def put_pid_state_def split: sum.split)

lemma handle_learned:
  "mg_learned (snd (handle sv e m)) = mg_learned m \<or> (\<exists>u. mg_learned (snd (handle sv e m)) = sv_learn sv u e (mg_learned m))"
proof -
  obtain added m1 where ad: "add_event sv e m = (added, m1)" by (cases "add_event sv e m")
  obtain fin m2 where cl: "close_stack e m1 = (fin, m2)" by (cases "close_stack e m1")
  obtain err m3 where fi: "finish_stack e m2 = (err, m3)" by (cases "finish_stack e m2")
  have "mg_learned m2 = mg_learned m1" "mg_learned m3 = mg_learned m2"
    using cl finish_learned [of e m2] fi by (auto simp: close_stack_def Let_def split: if_splits)
  then show ?thesis
    using add_learned [OF ad] by (simp add: handle_def ad cl fi Let_def)
qed

section \<open>The tracer as a whole\<close>

text \<open>
  The programs and the consumer of their events over one state: a probe fires, the sampling rate
  is set, or the tracer takes the oldest event from the queue and handles it.
\<close>

datatype system_act = Fires hit | Resampled u32 | Consumed

definition with_maps :: "(bpf_state \<Rightarrow> bpf_state) \<Rightarrow> learning manager \<Rightarrow> learning manager" where
  "with_maps f m = m\<lparr>mg_learned := (mg_learned m)\<lparr>lr_maps := f (lr_maps (mg_learned m))\<rparr>\<rparr>"

fun system_step :: "config \<Rightarrow> learning services \<Rightarrow> system_act \<Rightarrow> learning manager \<Rightarrow> learning manager" where
  "system_step cfg sv (Fires h) m = with_maps (hit_step cfg h) m"
| "system_step cfg sv (Resampled d) m = with_maps (set_sample_denominator d) m"
| "system_step cfg sv Consumed m =
     (case fst (poll_event (lr_maps (mg_learned m))) of
        None \<Rightarrow> m
      | Some e \<Rightarrow> snd (handle sv e (with_maps (\<lambda>st. snd (poll_event st)) m)))"

lemma with_maps_agree:
  "(\<And>st. type_recipes_map (f st) = type_recipes_map st) \<Longrightarrow> recipes_agree re (mg_learned (with_maps f m)) = recipes_agree re (mg_learned m)"
  by (simp add: with_maps_def agree_maps)

lemma system_step_agree:
  "recipes_agree re (mg_learned m) \<Longrightarrow> recipes_agree re (mg_learned (system_step cfg (auto_services sf re accepts) act m))"
proof (cases act)
  case (Fires h)
  then show "recipes_agree re (mg_learned m) \<Longrightarrow> ?thesis" by (simp add: with_maps_agree hit_maps)
next
  case (Resampled d)
  then show "recipes_agree re (mg_learned m) \<Longrightarrow> ?thesis" by (simp add: with_maps_agree)
next
  case Consumed
  let ?m = "with_maps (\<lambda>st. snd (poll_event st)) m" and ?sv = "auto_services sf re accepts"
  assume a: "recipes_agree re (mg_learned m)"
  then have m: "recipes_agree re (mg_learned ?m)" by (simp add: with_maps_agree)
  have "recipes_agree re (mg_learned (snd (handle ?sv e ?m)))" for e
    using handle_learned [of ?sv e ?m] m by (auto simp: auto_services_def learn_agree)
  then show ?thesis using Consumed a by (simp split: option.split)
qed

interpretation system: invariant_machine "system_step cfg (auto_services sf re accepts)" "\<lambda>a. True"
    "\<lambda>m. recipes_agree re (mg_learned m)" for cfg sf re accepts
  by unfold_locales (rule system_step_agree)

text \<open>C7: Whatever probes fire and whatever events the tracer handles, in any interleaving, the recipes
  with which it prints interface values are exactly those the program fetches with: an entry of
  type_recipes_map exists for an address just when the manager has learned it, it is the encoding
  of the manager's recipe, and that is the recipe of the type at this address. It holds from the
  start, when both are empty, and it is what the exactness of the printed values rests on.\<close>

theorem learned_recipes_agree:
  assumes "type_recipes_map st = Map.empty"
    and "m = new_manager ups symbols drilldown aggregate adaptive limit
           \<lparr>lr_recipes = Map.empty, lr_learned = (\<lambda>a. False), lr_maps = st\<rparr>"
    and "l = mg_learned (fold (system_step cfg (auto_services sf re accepts)) as m)"
    and "types_fit re"
  shows "recipes_agree re l \<and> recipes_installed (lr_recipes l) (lr_maps l)"
proof -
  have "recipes_agree re (mg_learned m)"
    using assms(1) by (simp add: assms(2) new_manager_def recipes_agree_def Let_def)
  then have "recipes_agree re l"
    unfolding assms(3) by (rule system.inv_run [rotated]) (simp add: list_all_iff)
  then show ?thesis using agree_installed assms(4) by blast
qed

lemma call_types_fit: "types_fit call_env"
  using call_recipe_fits by (auto simp: types_fit_def call_env_def call_recipe_def split: if_splits)

text \<open>An event whose type word is the address of \<open>*errors.errorString\<close> teaches its recipe.\<close>

definition error_event :: event where
  "error_event = zero_event\<lparr>ev_arg_count := 3,
     ev_args := (ev_args zero_event)[0 := zero_arg_data\<lparr>ad_data := bytes64 0x9000 @ replicate 56 0\<rparr>]\<rparr>"

definition error_probe :: uprobe where
  "error_probe = \<lparr>up_funcname = ''main.f'', up_address = 100, up_abs_offset = 100, up_rel_offset = 0,
     up_location = AtEntry, up_fetch_args = fst (derive_args call_types err_vars),
     up_values = snd (derive_args call_types err_vars), up_wanted = True\<rparr>"

definition nothing_learned :: "bpf_state \<Rightarrow> learning" where
  "nothing_learned st = \<lparr>lr_recipes = Map.empty, lr_learned = (\<lambda>a. False), lr_maps = st\<rparr>"

lemma error_learned:
  "lr_recipes (learn_interface_types call_env (\<lambda>a st. True) error_probe error_event (nothing_learned demo_state)) 0x9000 =
     Some call_recipe"
  by code_simp

definition learning_run :: "learning manager" where
  "learning_run = fold (system_step demo_cfg (auto_services (\<lambda>d. []) call_env (\<lambda>a st. True))) [Resampled 1, Consumed]
     (new_manager [] [] [] False True 1024 (nothing_learned demo_state))"

theorem learned_recipes_agree_witness:
  "recipes_agree call_env (mg_learned learning_run) \<and>
   recipes_installed (lr_recipes (mg_learned learning_run)) (lr_maps (mg_learned learning_run))"
  by (rule learned_recipes_agree [OF demo_state_simps(7) refl _ call_types_fit])
    (unfold learning_run_def nothing_learned_def, rule refl)

section \<open>Events older than a recipe\<close>

text \<open>
  The call \<open>f(a, b)\<close> of two errors. When it was fetched the program knew the recipe of \<open>b\<close>'s type
  only; when it is printed the manager has learned \<open>a\<close>'s too. The one leaf of \<open>b\<close>'s recipe is
  taken for \<open>a\<close>'s: \<open>a\<close>, which holds "hi", is printed with \<open>b\<close>'s bytes, and \<open>b\<close> without any.
\<close>

definition pair_vars :: "variable list" where
  "pair_vars = [\<lparr>va_name = ''a'', va_type = error_type\<rparr>, \<lparr>va_name = ''b'', va_type = error_type\<rparr>]"

definition other_types :: type_table where
  "other_types p =
     (if p = 5 then StructType [] 16 ''main.Other'' [Field ''t'' 0 string_type] else call_types p)"

definition other_env :: render_env where
  "other_env = call_env\<lparr>re_types := other_types,
     re_runtime := Some (\<lambda>a. if a = 0x9000 then Some error_pointer else if a = 0x9100 then Some (PtrType [] 8 5) else None)\<rparr>"

definition other_objects :: "(u64 \<times> u8) list" where
  "other_objects =
     [(0x7108, 0), (0x7109, 0x91), (0x710A, 0), (0x710B, 0), (0x710C, 0), (0x710D, 0), (0x710E, 0), (0x710F, 0),
      (0x8100, 0x65), (0x8101, 0x41), (0x8102, 0), (0x8103, 0), (0x8104, 0), (0x8105, 0), (0x8106, 0), (0x8107, 0),
      (0x8108, 2), (0x8109, 0), (0x810A, 0), (0x810B, 0), (0x810C, 0), (0x810D, 0), (0x810E, 0), (0x810F, 0)]"

definition other_memory :: "u64 \<rightharpoonup> u8" where
  "other_memory a = (case map_of other_objects a of None \<Rightarrow> call_memory a | Some b \<Rightarrow> Some b)"

definition other_recipe :: "rel_copy list" where
  "other_recipe = compile_type_recipe other_types (PtrType [] 8 5)"

definition old_leaves :: "leaf_data list" where
  "old_leaves =
     [slot_of [0x9000], slot_of [0x8000], slot_of [0x4168, 2], slot_of [0x9100], slot_of [0x8100], slot_of [0x4165, 2],
      slot_of [0x6665]]"

definition other_values :: "auto_value list" where
  "other_values = snd (derive_args other_types pair_vars)"

lemma other_live:
  "live_parts other_env other_memory other_values [0x7000, 0x8000, 0x7100, 0x8100] =
     [''a=&errors.errorString{s:'' @ [quote_char] @ ''hi'' @ [quote_char] @ ''}'',
      ''b=&main.Other{t:'' @ [quote_char] @ ''ef'' @ [quote_char] @ ''}'']"
  by code_simp

lemma old_event_misprinted:
  "render_parts other_env [0x9000 \<mapsto> call_recipe, 0x9100 \<mapsto> other_recipe] old_leaves other_values (0, 6) =
     [''a=&errors.errorString{s:'' @ [quote_char] @ ''ef'' @ [quote_char] @ ''}'',
      ''b=&main.Other{t:'' @ [quote_char] @ missing @ [quote_char] @ ''}'']"
  by code_simp

end
