(* ===== verification/Ftrace_Debuginfo.thy ===== *)
theory Ftrace_Debuginfo
  imports Ftrace_Uprobes "HOL-Library.Sublist" "HOL-Library.Multiset"
begin

text \<open>
  The debug information of the traced binary as \<open>src/elf/dwarf.go\<close>, \<open>dwarf_args.go\<close> and
  \<open>tls.go\<close> read it: functions and their code ranges, the variables of a function, the types of
  the runtime, the offsets of the g pointer and of goid, line tables. The readers of
  \<open>debug/dwarf\<close> are a parameter (record \<open>debug_info\<close>). The last part puts them together with
  the planner of \<open>auto.go\<close>: which rules the probes get.
\<close>

unbundle bit_operations_syntax

section \<open>Entries\<close>

text \<open>
  A debugging information entry (\<open>dwarf.Entry\<close>). The value of an attribute has a class; the code
  asserts the class it expects, and the wrong one panics unless the assertion is checked. Signed
  and unsigned constants are kept at their 64 bits.
\<close>

datatype die_tag =
  TagNull | TagCompileUnit | TagSubprogram | TagFormalParameter | TagStructType | TagMember | OtherTag nat

datatype die_attr =
  AttrName | AttrLowpc | AttrHighpc | AttrVarParam | AttrType | AttrDataMemberLoc | AttrGoRuntimeType

datatype attr_value = Str string | Unsigned u64 | Signed u64 | Flag bool | Reference nat | Block "u8 list"

record die =
  de_offset :: nat
  de_tag :: die_tag
  de_children :: bool
  de_val :: "die_attr \<Rightarrow> attr_value option"

record line_entry =
  li_address :: u64
  li_file :: string
  li_line :: int

text \<open>What \<open>LineReader\<close> answers for a unit: an error, no reader, or rows up to the end or to an error.\<close>

datatype line_table = Line_table_error | No_line_table | Rows "line_entry list" | Broken_rows "line_entry list"

text \<open>
  What \<open>debug/dwarf\<close> gives: the entries its reader hands out, in the order of the section and
  with the null entries that end lists of siblings; whether the reader fails after them or
  ends; the type at an offset; the line table of a unit.
\<close>

record debug_info =
  di_entries :: "die list"
  di_broken :: bool
  di_type_at :: "nat \<Rightarrow> dwarf_type option"
  di_lines :: "die \<Rightarrow> line_table"

datatype dwarf_error =
    Wrong_class | DIE_not_found | Entry_unreadable | Symbol_unresolved | Runtime_type_not_found
  | Goid_not_found | End_of_lines | Lines_unreadable | No_line_below

section \<open>Functions\<close>

text \<open>
  \<open>NonInlinedSubprogramDIEs\<close>: the name under which an entry is kept, if it is; the symbol of
  this name must start where the entry does.
\<close>

definition subprogram_name :: "elf_symbol list \<Rightarrow> die \<Rightarrow> dwarf_error + string option" where
  "subprogram_name symbols d =
     (if de_tag d \<noteq> TagSubprogram then Inr None
      else case de_val d AttrName of
        None \<Rightarrow> Inr None
      | Some (Str name) \<Rightarrow>
          (case de_val d AttrLowpc of
             None \<Rightarrow> Inr None
           | Some (Unsigned lowpc) \<Rightarrow>
               (case de_val d AttrHighpc of
                  None \<Rightarrow> Inr None
                | Some _ \<Rightarrow>
                    (case sym_names symbols name of
                       None \<Rightarrow> Inr None
                     | Some s \<Rightarrow> if sy_value s \<noteq> lowpc then Inr None else Inr (Some name)))
           | Some _ \<Rightarrow> Inl Wrong_class)
      | Some _ \<Rightarrow> Inl Wrong_class)"

fun subprogram_loop :: "elf_symbol list \<Rightarrow> die list \<Rightarrow> (string \<rightharpoonup> die) \<Rightarrow> dwarf_error + (string \<rightharpoonup> die)" where
  "subprogram_loop symbols [] dies = Inr dies"
| "subprogram_loop symbols (d # ds) dies =
     (case subprogram_name symbols d of
        Inl err \<Rightarrow> Inl err
      | Inr None \<Rightarrow> subprogram_loop symbols ds dies
      | Inr (Some name) \<Rightarrow> subprogram_loop symbols ds (dies(name \<mapsto> d)))"

definition subprogram_dies :: "debug_info \<Rightarrow> elf_symbol list \<Rightarrow> dwarf_error + (string \<rightharpoonup> die)" where
  "subprogram_dies di symbols = subprogram_loop symbols (di_entries di) Map.empty"

text \<open>\<open>FuncPcRangeInDwarf\<close>: the end is absolute or, since DWARF 5, relative; another class leaves it 0.\<close>

definition func_pc_range_in_dwarf :: "debug_info \<Rightarrow> elf_symbol list \<Rightarrow> string \<Rightarrow> dwarf_error + u64 \<times> u64" where
  "func_pc_range_in_dwarf di symbols name =
     (case subprogram_dies di symbols of
        Inl err \<Rightarrow> Inl err
      | Inr dies \<Rightarrow>
          (case dies name of
             None \<Rightarrow> Inl DIE_not_found
           | Some d \<Rightarrow>
               (case de_val d AttrLowpc of
                  Some (Unsigned lowpc) \<Rightarrow>
                    Inr (lowpc,
                         case de_val d AttrHighpc of
                           Some (Unsigned v) \<Rightarrow> v
                         | Some (Signed v) \<Rightarrow> lowpc + v
                         | _ \<Rightarrow> 0)
                | _ \<Rightarrow> Inl Wrong_class)))"

text \<open>The range as the reader of a function's text uses it.\<close>

definition dwarf_ranges :: "debug_info \<Rightarrow> elf_symbol list \<Rightarrow> string \<rightharpoonup> u64 \<times> u64" where
  "dwarf_ranges di symbols name =
     (case func_pc_range_in_dwarf di symbols name of Inl err \<Rightarrow> None | Inr r \<Rightarrow> Some r)"

section \<open>Children and variables\<close>

fun children_loop :: "nat \<Rightarrow> die list \<Rightarrow> die list" where
  "children_loop depth [] = []"
| "children_loop depth (c # ds) =
     (if de_tag c = TagNull then (if depth = 0 then [] else children_loop (depth - 1) ds)
      else (if depth = 0 then [c] else []) @ children_loop (if de_children c then depth + 1 else depth) ds)"

text \<open>\<open>Seek\<close> goes to the entry with the offset; the reader reads it again and goes on behind it.\<close>

definition die_children :: "debug_info \<Rightarrow> die \<Rightarrow> die list" where
  "die_children di d =
     (if \<not> de_children d then []
      else case dropWhile (\<lambda>c. de_offset c \<noteq> de_offset d) (di_entries di) of
        [] \<Rightarrow> []
      | _ # ds \<Rightarrow> children_loop 0 ds)"

text \<open>A parameter with the flag that makes it a return value; without a type it is skipped.\<close>

definition parameter_of :: "debug_info \<Rightarrow> die \<Rightarrow> (bool \<times> variable) option" where
  "parameter_of di c =
     (if de_tag c \<noteq> TagFormalParameter then None
      else let name = (case de_val c AttrName of Some (Str s) \<Rightarrow> s | _ \<Rightarrow> []);
               varp = (case de_val c AttrVarParam of Some (Flag b) \<Rightarrow> b | _ \<Rightarrow> False)
           in case de_val c AttrType of
                Some (Reference toff) \<Rightarrow>
                  (case di_type_at di toff of
                     None \<Rightarrow> None
                   | Some t \<Rightarrow> Some (varp \<or> take 2 name = ''~r'', \<lparr>va_name = name, va_type = t\<rparr>))
              | _ \<Rightarrow> None)"

fun variables_loop :: "debug_info \<Rightarrow> string list \<Rightarrow> die list \<Rightarrow> variable list \<times> variable list" where
  "variables_loop di seen [] = ([], [])"
| "variables_loop di seen (c # cs) =
     (case parameter_of di c of
        None \<Rightarrow> variables_loop di seen cs
      | Some (is_ret, v) \<Rightarrow>
          if \<not> is_ret then (case variables_loop di seen cs of (args, rets) \<Rightarrow> (v # args, rets))
          else if va_name v \<in> set seen then variables_loop di seen cs
          else (case variables_loop di (va_name v # seen) cs of (args, rets) \<Rightarrow> (args, v # rets)))"

definition function_variables ::
  "debug_info \<Rightarrow> elf_symbol list \<Rightarrow> string \<Rightarrow> dwarf_error + variable list \<times> variable list" where
  "function_variables di symbols name =
     (case subprogram_dies di symbols of
        Inl err \<Rightarrow> Inl err
      | Inr dies \<Rightarrow>
          (case dies name of
             None \<Rightarrow> Inl DIE_not_found
           | Some d \<Rightarrow> Inr (variables_loop di [] (die_children di d))))"

text \<open>The lookup as the automatic planner uses it.\<close>

definition dwarf_variables ::
  "debug_info \<Rightarrow> elf_symbol list \<Rightarrow> string \<Rightarrow> (variable list \<times> variable list) option" where
  "dwarf_variables di symbols name =
     (case function_variables di symbols name of Inl err \<Rightarrow> None | Inr vs \<Rightarrow> Some vs)"

section \<open>Runtime types\<close>

fun runtime_types_loop :: "debug_info \<Rightarrow> u64 \<Rightarrow> die list \<Rightarrow> (u64 \<rightharpoonup> dwarf_type) \<Rightarrow> (u64 \<rightharpoonup> dwarf_type)" where
  "runtime_types_loop di base [] types = types"
| "runtime_types_loop di base (d # ds) types =
     (case de_val d AttrGoRuntimeType of
        Some (Unsigned off) \<Rightarrow>
          (case di_type_at di (de_offset d) of
             None \<Rightarrow> runtime_types_loop di base ds types
           | Some t \<Rightarrow> runtime_types_loop di base ds (types(base + off \<mapsto> t)))
      | _ \<Rightarrow> runtime_types_loop di base ds types)"

definition runtime_types :: "debug_info \<Rightarrow> elf_symbol list \<Rightarrow> dwarf_error + (u64 \<rightharpoonup> dwarf_type)" where
  "runtime_types di symbols =
     (case resolve_symbol symbols ''runtime.types'' of
        Inl err \<Rightarrow> Inl Symbol_unresolved
      | Inr s \<Rightarrow>
          if di_broken di then Inl Entry_unreadable
          else Inr (runtime_types_loop di (sy_value s) (di_entries di) Map.empty))"

definition runtime_type :: "debug_info \<Rightarrow> elf_symbol list \<Rightarrow> u64 \<Rightarrow> dwarf_error + dwarf_type" where
  "runtime_type di symbols addr =
     (case runtime_types di symbols of
        Inl err \<Rightarrow> Inl err
      | Inr types \<Rightarrow> (case types addr of None \<Rightarrow> Inl Runtime_type_not_found | Some t \<Rightarrow> Inr t))"

section \<open>Offsets\<close>

text \<open>\<open>FindGoidOffset\<close>; \<open>found\<close> says that \<open>runtime.g\<close> was passed.\<close>

fun goid_loop :: "bool \<Rightarrow> die list \<Rightarrow> dwarf_error + u64" where
  "goid_loop found [] = Inl Goid_not_found"
| "goid_loop found (d # ds) =
     (case de_tag d of
        TagStructType \<Rightarrow>
          (case de_val d AttrName of
             None \<Rightarrow> goid_loop found ds
           | Some (Str name) \<Rightarrow> goid_loop (found \<or> name = ''runtime.g'') ds
           | Some _ \<Rightarrow> Inl Wrong_class)
      | TagMember \<Rightarrow>
          if \<not> found then goid_loop found ds
          else (case de_val d AttrName of
                  None \<Rightarrow> goid_loop found ds
                | Some (Str name) \<Rightarrow>
                    if name \<noteq> ''goid'' then goid_loop found ds
                    else (case de_val d AttrDataMemberLoc of
                            None \<Rightarrow> goid_loop found ds
                          | Some (Signed off) \<Rightarrow> Inr off
                          | Some _ \<Rightarrow> Inl Wrong_class)
                | Some _ \<Rightarrow> Inl Wrong_class)
      | _ \<Rightarrow> goid_loop found ds)"

definition find_goid_offset :: "debug_info \<Rightarrow> dwarf_error + u64" where
  "find_goid_offset di = goid_loop False (di_entries di)"

text \<open>The segment of thread-local storage.\<close>

record tls_segment =
  tl_vaddr :: u64
  tl_memsz :: u64
  tl_align :: u64

definition find_g_offset :: "elf_symbol list \<Rightarrow> tls_segment option \<Rightarrow> u64" where
  "find_g_offset symbols seg =
     (case (sym_names symbols ''runtime.tlsg'', seg) of
        (Some tlsg, Some t) \<Rightarrow>
          (let memsz = tl_memsz t + ((- tl_vaddr t - tl_memsz t) AND (tl_align t - 1))
           in NOT memsz + 1 + sy_value tlsg)
      | _ \<Rightarrow> - 8)"

section \<open>Line tables\<close>

text \<open>
  The loop of \<open>LineEntries\<close> over the entries: the rows so far and the named result \<open>err\<close>, which
  each unit sets again. A row that cannot be read ends it at once.
\<close>

fun lines_loop ::
  "debug_info \<Rightarrow> die list \<Rightarrow> line_entry list \<Rightarrow> dwarf_error option \<Rightarrow>
     (line_entry list \<times> dwarf_error) + (line_entry list \<times> dwarf_error option)" where
  "lines_loop di [] acc err = Inr (acc, err)"
| "lines_loop di (d # ds) acc err =
     (if de_tag d \<noteq> TagCompileUnit then lines_loop di ds acc err
      else case di_lines di d of
        Line_table_error \<Rightarrow> lines_loop di ds acc (Some Lines_unreadable)
      | No_line_table \<Rightarrow> lines_loop di ds acc None
      | Rows rows \<Rightarrow> lines_loop di ds (acc @ rows) (Some End_of_lines)
      | Broken_rows rows \<Rightarrow> Inl (acc @ rows, Lines_unreadable))"

text \<open>\<open>order\<close> is \<open>sort.Slice\<close> by address; the cache holds the sorted rows of an earlier call.\<close>

type_synonym line_cache = "line_entry list option"

definition line_entries ::
  "(line_entry list \<Rightarrow> line_entry list) \<Rightarrow> debug_info \<Rightarrow> line_cache \<Rightarrow>
     (line_entry list \<times> dwarf_error option) \<times> line_cache" where
  "line_entries order di cache =
     (case cache of
        Some rows \<Rightarrow> ((rows, None), cache)
      | None \<Rightarrow>
          (case lines_loop di (di_entries di) [] None of
             Inl (rows, err) \<Rightarrow> ((rows, Some err), None)
           | Inr (rows, err) \<Rightarrow> ((order rows, err), Some (order rows))))"

definition line_info_for_pc ::
  "(line_entry list \<Rightarrow> line_entry list) \<Rightarrow> debug_info \<Rightarrow> u64 \<Rightarrow> line_cache \<Rightarrow>
     (dwarf_error + string \<times> int) \<times> line_cache" where
  "line_info_for_pc order di pc cache =
     (case line_entries order di cache of
        ((rows, Some err), cache) \<Rightarrow> (Inl err, cache)
      | ((rows, None), cache) \<Rightarrow>
          (let idx = sort_search (length rows) (\<lambda>i. li_address (rows ! i) \<ge> pc)
           in (if idx = 0 then Inl No_line_below
               else Inr (li_file (rows ! (idx - 1)), li_line (rows ! (idx - 1))), cache)))"

section \<open>Children of an entry\<close>

text \<open>
  The tree an entry is written for. An entry that says it has children is followed by them and
  by a null entry.
\<close>

datatype die_tree = DieTree (tree_root: die) (subtrees: "die_tree list") (tree_end: nat)

definition null_die :: "nat \<Rightarrow> die" where
  "null_die off = \<lparr>de_offset = off, de_tag = TagNull, de_children = False, de_val = (\<lambda>a. None)\<rparr>"

fun flatten :: "die_tree \<Rightarrow> die list" where
  "flatten (DieTree d ts off) = d # (if de_children d then concat (map flatten ts) @ [null_die off] else [])"

fun well_formed :: "die_tree \<Rightarrow> bool" where
  "well_formed (DieTree d ts off) \<longleftrightarrow>
     de_tag d \<noteq> TagNull \<and> (de_children d \<or> ts = []) \<and> list_all well_formed ts"

lemma children_skip:
  "well_formed t \<Longrightarrow> children_loop (Suc k) (flatten t @ rest) = children_loop (Suc k) rest"
proof (induction t arbitrary: k rest)
  case (DieTree d ts off)
  have "children_loop (Suc k) (concat (map flatten us) @ rest) = children_loop (Suc k) rest"
    if "set us \<subseteq> set ts" for us k rest
    using that
  proof (induction us arbitrary: rest)
    case (Cons u us)
    then show ?case using DieTree.IH [of u] DieTree.prems by (auto simp: list_all_iff)
  qed simp
  then show ?case using DieTree.prems by (simp add: null_die_def)
qed

lemma children_direct:
  "list_all well_formed ts \<Longrightarrow> children_loop 0 (concat (map flatten ts) @ null_die off # rest) = map tree_root ts"
proof (induction ts)
  case (Cons t ts)
  show ?case
  proof (cases t)
    case (DieTree d us e)
    have "children_loop (Suc 0) (concat (map flatten us) @ tail) = children_loop (Suc 0) tail"
      if "list_all well_formed us" for tail
      using that by (induction us) (simp_all add: children_skip)
    then show ?thesis using Cons DieTree by (simp add: null_die_def)
  qed
qed (simp add: null_die_def)

text \<open>An entry keeps its place: no other entry before it has its offset.\<close>

definition holds_tree :: "debug_info \<Rightarrow> die_tree \<Rightarrow> bool" where
  "holds_tree di t \<longleftrightarrow>
     (\<exists>before after. di_entries di = before @ flatten t @ after \<and>
        de_offset (tree_root t) \<notin> de_offset ` set before)"

lemma die_children_tree:
  assumes "holds_tree di t" "well_formed t"
  shows "die_children di (tree_root t) = map tree_root (subtrees t)"
proof (cases t)
  case (DieTree d ts off)
  obtain before after where e: "di_entries di = before @ flatten t @ after"
      "de_offset d \<notin> de_offset ` set before"
    using assms(1) DieTree by (auto simp: holds_tree_def)
  have "\<forall>x \<in> set before. de_offset x \<noteq> de_offset d" using e(2) by (auto simp: image_iff)
  then have "dropWhile (\<lambda>c. de_offset c \<noteq> de_offset d) (before @ flatten t @ after) = flatten t @ after"
    using DieTree by (simp add: dropWhile_append2)
  then show ?thesis
    using assms(2) DieTree e(1) children_direct [of ts off after]
    by (auto simp: die_children_def)
qed

section \<open>Parameters and results\<close>

definition parameters_of :: "debug_info \<Rightarrow> die_tree \<Rightarrow> (bool \<times> variable) list" where
  "parameters_of di t = List.map_filter (parameter_of di) (map tree_root (subtrees t))"

lemma variables_args:
  "fst (variables_loop di seen cs) = map snd (filter (\<lambda>p. \<not> fst p) (List.map_filter (parameter_of di) cs))"
  by (induction di seen cs rule: variables_loop.induct)
    (auto simp: map_filter_simps split: option.split prod.split)

text \<open>The variables whose name was not seen yet, each name once.\<close>

fun first_named :: "string list \<Rightarrow> variable list \<Rightarrow> variable list" where
  "first_named seen [] = []"
| "first_named seen (v # vs) =
     (if va_name v \<in> set seen then first_named seen vs else v # first_named (va_name v # seen) vs)"

lemma variables_rets:
  "snd (variables_loop di seen cs) =
     first_named seen (map snd (filter fst (List.map_filter (parameter_of di) cs)))"
  by (induction di seen cs rule: variables_loop.induct)
    (auto simp: map_filter_simps split: option.split prod.split)

lemma first_named_sub: "subseq (first_named seen vs) vs"
  by (induction seen vs rule: first_named.induct) auto

lemma first_named_new: "v \<in> set (first_named seen vs) \<Longrightarrow> va_name v \<notin> set seen"
  by (induction seen vs rule: first_named.induct) (auto split: if_splits)

lemma first_named_distinct: "distinct (map va_name (first_named seen vs))"
  by (induction seen vs rule: first_named.induct) (auto dest: first_named_new)

lemma first_named_find:
  "n \<notin> set seen \<Longrightarrow> find (\<lambda>v. va_name v = n) (first_named seen vs) = find (\<lambda>v. va_name v = n) vs"
  by (induction seen vs rule: first_named.induct) auto

text \<open>C9: The variables of a function are those of its own entry: when the entry found for a name is the root
  of a tree laid out in the debug information, the arguments are exactly its direct children that
  are parameters with a known type and no results, in order of declaration, and the results are
  the remaining ones with a name occurring once and the first entry of a name kept. Parameters
  of lexical blocks or inlined calls below it, and whatever comes before or behind it, are never
  taken.\<close>

theorem function_variables_exact:
  assumes "subprogram_dies di symbols = Inr dies" "dies fn = Some (tree_root t)"
    and "holds_tree di t" "well_formed t"
    and "results = map snd (filter fst (parameters_of di t))"
  shows "\<exists>rets. function_variables di symbols fn = Inr (map snd (filter (Not \<circ> fst) (parameters_of di t)), rets) \<and>
     subseq rets results \<and> distinct (map va_name rets) \<and>
     (\<lambda>n. find (\<lambda>v. va_name v = n) rets) = (\<lambda>n. find (\<lambda>v. va_name v = n) results)"
proof (intro exI conjI)
  let ?cs = "map tree_root (subtrees t)"
  let ?rets = "first_named [] results"
  have "variables_loop di [] ?cs = (map snd (filter (Not \<circ> fst) (parameters_of di t)), ?rets)"
    by (rule prod_eqI) (simp_all add: variables_args variables_rets assms(5) parameters_of_def comp_def)
  then show "function_variables di symbols fn = Inr (map snd (filter (Not \<circ> fst) (parameters_of di t)), ?rets)"
    using assms by (simp add: function_variables_def die_children_tree)
  show "subseq ?rets results" "distinct (map va_name ?rets)"
    by (rule first_named_sub, rule first_named_distinct)
  show "(\<lambda>n. find (\<lambda>v. va_name v = n) ?rets) = (\<lambda>n. find (\<lambda>v. va_name v = n) results)"
    by (rule ext) (simp add: first_named_find)
qed

text \<open>
  \<open>main.f(n int) (~r0 int)\<close> with a result the compiler wrote twice and an inlined call that has a
  parameter of its own.
\<close>

definition plain_die :: "nat \<Rightarrow> die_tag \<Rightarrow> bool \<Rightarrow> (die_attr \<times> attr_value) list \<Rightarrow> die" where
  "plain_die off tag children attrs =
     \<lparr>de_offset = off, de_tag = tag, de_children = children, de_val = map_of attrs\<rparr>"

definition f_tree :: die_tree where
  "f_tree = DieTree (plain_die 20 TagSubprogram True
       [(AttrName, Str ''main.f''), (AttrLowpc, Unsigned 0x401000), (AttrHighpc, Signed 3)])
     [DieTree (plain_die 21 TagFormalParameter False [(AttrName, Str ''n''), (AttrVarParam, Flag False), (AttrType, Reference 5)]) [] 0,
      DieTree (plain_die 22 (OtherTag 29) True [])
        [DieTree (plain_die 23 TagFormalParameter False [(AttrName, Str ''x''), (AttrType, Reference 5)]) [] 0] 24,
      DieTree (plain_die 25 TagFormalParameter False [(AttrName, Str ''~r0''), (AttrVarParam, Flag True), (AttrType, Reference 5)]) [] 0,
      DieTree (plain_die 26 TagFormalParameter False [(AttrName, Str ''~r0''), (AttrVarParam, Flag True), (AttrType, Reference 5)]) [] 0] 27"

definition unit_die :: die where
  "unit_die = plain_die 10 TagCompileUnit True [(AttrName, Str ''main'')]"

definition f_info :: debug_info where
  "f_info = \<lparr>di_entries = [unit_die] @ flatten f_tree @
       [plain_die 30 TagFormalParameter False [(AttrName, Str ''y''), (AttrType, Reference 5)], null_die 31],
     di_broken = False, di_type_at = (\<lambda>off. if off = 5 then Some (IntType ''int'' 8) else None),
     di_lines = (\<lambda>d. Rows [\<lparr>li_address = 0x401000, li_file = ''main.go'', li_line = 7\<rparr>,
                          \<lparr>li_address = 0x401002, li_file = ''main.go'', li_line = 8\<rparr>])\<rparr>"

definition f_symbols :: "elf_symbol list" where
  "f_symbols = [\<lparr>sy_name = ''main.f'', sy_value = 0x401000, sy_func = True\<rparr>]"

lemma f_facts:
  "subprogram_dies f_info f_symbols = Inr [''main.f'' \<mapsto> tree_root f_tree]"
  "holds_tree f_info f_tree" "well_formed f_tree"
proof -
  show "subprogram_dies f_info f_symbols = Inr [''main.f'' \<mapsto> tree_root f_tree]"
    by (simp add: subprogram_dies_def f_info_def f_tree_def unit_die_def plain_die_def null_die_def
        subprogram_name_def f_symbols_def sym_names_def)
  show "well_formed f_tree"
    by (simp add: f_tree_def plain_die_def)
  show "holds_tree f_info f_tree"
    unfolding holds_tree_def
    by (intro exI [of _ "[unit_die]"] exI [of _ "drop 9 (di_entries f_info)"])
      (simp add: f_info_def f_tree_def unit_die_def plain_die_def null_die_def)
qed

theorem function_variables_exact_witness:
  "\<exists>rets. function_variables f_info f_symbols ''main.f'' = Inr ([\<lparr>va_name = ''n'', va_type = IntType ''int'' 8\<rparr>], rets) \<and>
     subseq rets (replicate 2 \<lparr>va_name = ''~r0'', va_type = IntType ''int'' 8\<rparr>) \<and> distinct (map va_name rets) \<and>
     (\<lambda>n. find (\<lambda>v. va_name v = n) rets) =
       (\<lambda>n. find (\<lambda>v. va_name v = n) (replicate 2 \<lparr>va_name = ''~r0'', va_type = IntType ''int'' 8\<rparr>))"
proof -
  have ps: "map snd (filter (Not \<circ> fst) (parameters_of f_info f_tree)) = [\<lparr>va_name = ''n'', va_type = IntType ''int'' 8\<rparr>]"
      "replicate 2 \<lparr>va_name = ''~r0'', va_type = IntType ''int'' 8\<rparr> = map snd (filter fst (parameters_of f_info f_tree))"
    by (simp_all add: parameters_of_def parameter_of_def f_info_def f_tree_def plain_die_def map_filter_simps numeral_2_eq_2)
  have d: "[''main.f'' \<mapsto> tree_root f_tree] ''main.f'' = Some (tree_root f_tree)" by simp
  show ?thesis
    using function_variables_exact [OF f_facts(1) d f_facts(2,3) ps(2)] unfolding ps(1) .
qed

section \<open>Code and symbols\<close>

lemma subprogram_name_symbol:
  assumes "subprogram_name symbols d = Inr (Some name)"
  shows "\<exists>s v. sym_names symbols name = Some s \<and> de_val d AttrLowpc = Some (Unsigned (sy_value s)) \<and>
     de_val d AttrHighpc = Some v"
  using assms by (auto simp: subprogram_name_def split: if_splits option.splits attr_value.splits)

lemma subprogram_loop_kept:
  "subprogram_loop symbols ds dies = Inr dies' \<Longrightarrow> dies' name = Some d \<Longrightarrow>
     dies name = Some d \<or> subprogram_name symbols d = Inr (Some name)"
  by (induction symbols ds dies rule: subprogram_loop.induct)
    (auto split: sum.splits option.splits if_splits)

lemma dwarf_range_symbol:
  assumes "dwarf_ranges di symbols name = Some (lo, hi)"
  shows "\<exists>s. sym_names symbols name = Some s \<and> lo = sy_value s"
proof -
  obtain dies d where d: "subprogram_dies di symbols = Inr dies" "dies name = Some d"
      "de_val d AttrLowpc = Some (Unsigned lo)"
    using assms by (auto simp: dwarf_ranges_def func_pc_range_in_dwarf_def split: sum.splits option.splits attr_value.splits)
  then show ?thesis
    using subprogram_loop_kept [of symbols "di_entries di" Map.empty dies name d] subprogram_name_symbol
    by (fastforce simp: subprogram_dies_def)
qed

lemma symtab_range_symbol:
  "pc_range_in_symtab symbols name = Inr (lo, hi) \<Longrightarrow> \<exists>s. sym_names symbols name = Some s \<and> lo = sy_value s"
  by (auto simp: pc_range_in_symtab_def Let_def split: option.splits if_splits)

text \<open>The code that is searched for RET instructions is the code the entry probe is attached to: whichever
  of the two tables gives the range of a function, it starts at the address of its symbol and
  at the file offset of the entry probe, and with a range in the debug information the bytes are
  exactly those of the text section between its bounds.\<close>

lemma code_starts_at_symbol:
  assumes "func_raw_instructions symbols sec (dwarf_ranges di symbols) fn = Inr (raw, addr, off)"
  shows "\<exists>s. resolve_symbol symbols fn = Inr s \<and> addr = sy_value s \<and> func_offset symbols sec fn = Inr off \<and>
     raw = take (length raw) (drop (unat (addr - te_addr sec)) (te_bytes sec)) \<and>
     (case dwarf_ranges di symbols fn of None \<Rightarrow> True | Some (lo, hi) \<Rightarrow> length raw = unat (hi - lo))"
proof -
  obtain lo hi where r: "(case dwarf_ranges di symbols fn of Some r \<Rightarrow> Inr r | None \<Rightarrow> pc_range_in_symtab symbols fn) = Inr (lo, hi)"
    using assms by (auto simp: func_raw_instructions_def split: sum.splits)
  let ?lo = "unat (lo - te_addr sec)" and ?hi = "unat (hi - te_addr sec)"
  have raw: "raw = take (?hi - ?lo) (drop ?lo (te_bytes sec))" "?lo \<le> ?hi" "?hi \<le> length (te_bytes sec)"
      "addr = lo" "off = lo - te_addr sec + te_offset sec"
    using assms by (auto simp: func_raw_instructions_def r Let_def split: if_splits)
  obtain s where s: "sym_names symbols fn = Some s" "lo = sy_value s"
    using r by (auto split: option.splits dest: dwarf_range_symbol symtab_range_symbol)
  have "unat (hi - lo) = ?hi - ?lo"
    using unat_sub [of "lo - te_addr sec" "hi - te_addr sec"] raw(2) by (simp add: word_le_nat_alt)
  then have "length raw = unat (hi - lo)" using raw by simp
  moreover have "dwarf_ranges di symbols fn = Some (lo', hi') \<Longrightarrow> (lo', hi') = (lo, hi)" for lo' hi'
    using r by simp
  ultimately show ?thesis
    using s raw by (auto simp: resolve_symbol_def func_offset_def split: option.split)
qed

lemma code_starts_at_symbol_witness:
  "\<exists>s. resolve_symbol f_symbols ''main.f'' = Inr s \<and> 0x401000 = sy_value s \<and>
     func_offset f_symbols \<lparr>te_addr = 0x400FFF, te_offset = 0x1000, te_bytes = [0, 1, 2, 0xC3, 9]\<rparr> ''main.f'' = Inr 0x1001 \<and>
     [1, 2, 0xC3] = take 3 (drop 1 [0, 1, 2, 0xC3, 9 :: u8])"
proof -
  let ?sec = "\<lparr>te_addr = 0x400FFF, te_offset = 0x1000, te_bytes = [0, 1, 2, 0xC3, 9]\<rparr>"
  have "dwarf_ranges f_info f_symbols ''main.f'' = Some (0x401000, 0x401003)"
    by (simp add: dwarf_ranges_def func_pc_range_in_dwarf_def f_facts f_tree_def plain_die_def)
  then have "func_raw_instructions f_symbols ?sec (dwarf_ranges f_info f_symbols) ''main.f'' = Inr ([1, 2, 0xC3], 0x401000, 0x1001)"
    by (simp add: func_raw_instructions_def)
  from code_starts_at_symbol [OF this] show ?thesis by auto
qed

section \<open>The offsets of the configuration\<close>

text \<open>An entry the search passes over: its name is readable, and it is not the one looked for.\<close>

definition named :: "string \<Rightarrow> die \<Rightarrow> bool" where
  "named name d \<longleftrightarrow> de_val d AttrName = Some (Str name)"

definition readable :: "die \<Rightarrow> bool" where
  "readable d \<longleftrightarrow> (case de_val d AttrName of None \<Rightarrow> True | Some (Str s) \<Rightarrow> True | _ \<Rightarrow> False)"

lemma goid_skip_structs:
  "list_all (\<lambda>d. readable d \<and> \<not> (de_tag d = TagStructType \<and> named ''runtime.g'' d)) ds \<Longrightarrow>
     goid_loop False (ds @ rest) = goid_loop False rest"
  by (induction ds) (auto simp: readable_def named_def split: die_tag.split option.splits attr_value.splits)

lemma goid_skip_members:
  "list_all (\<lambda>d. readable d \<and> \<not> (de_tag d = TagMember \<and> named ''goid'' d)) ds \<Longrightarrow>
     goid_loop True (ds @ rest) = goid_loop True rest"
  by (induction ds) (auto simp: readable_def named_def split: die_tag.split option.splits attr_value.splits)

text \<open>The offset found is that of the first member \<open>goid\<close> behind the entry of \<open>runtime.g\<close>.\<close>

lemma goid_first_member:
  assumes "di_entries di = before @ g # between @ m # after"
    and "list_all (\<lambda>d. readable d \<and> \<not> (de_tag d = TagStructType \<and> named ''runtime.g'' d)) before"
    and "de_tag g = TagStructType" "named ''runtime.g'' g"
    and "list_all (\<lambda>d. readable d \<and> \<not> (de_tag d = TagMember \<and> named ''goid'' d)) between"
    and "de_tag m = TagMember" "named ''goid'' m" "de_val m AttrDataMemberLoc = Some (Signed off)"
  shows "find_goid_offset di = Inr off"
  using assms by (simp add: find_goid_offset_def goid_skip_structs goid_skip_members named_def)

text \<open>
  It need not be a member of \<open>runtime.g\<close>: without one there, the search goes on into the structs
  behind it.
\<close>

lemma goid_of_another_struct:
  "find_goid_offset (f_info\<lparr>di_entries :=
     [plain_die 1 TagStructType True [(AttrName, Str ''runtime.g'')],
      plain_die 2 TagMember False [(AttrName, Str ''m''), (AttrDataMemberLoc, Signed 48)], null_die 3,
      plain_die 4 TagStructType True [(AttrName, Str ''main.event'')],
      plain_die 5 TagMember False [(AttrName, Str ''goid''), (AttrDataMemberLoc, Signed 16)], null_die 6]\<rparr>) = Inr 16"
  by (simp add: find_goid_offset_def plain_die_def null_die_def)

lemma and_mask: "(x :: u64) AND (2 ^ k - 1) = take_bit k x"
  by (simp add: take_bit_eq_mask mask_eq_decr_exp)

lemma unat_take_bit: "unat (take_bit k (x :: u64)) = unat x mod 2 ^ k"
  unfolding unsigned_take_bit_eq by (rule take_bit_eq_mod)

lemma unat_add: "unat (x + y :: u64) = (unat x + unat y) mod 2 ^ 64"
  by (simp add: unat_word_ariths)

lemma unat_take_bit_plus:
  "k < 64 \<Longrightarrow> unat (take_bit k (x + y :: u64)) = (unat x + unat y) mod 2 ^ k"
  unfolding unat_take_bit unat_add by (rule mod_mod_cancel [OF le_imp_power_dvd]) simp

lemma take_bit_plus: "k < 64 \<Longrightarrow> take_bit k (x + take_bit k y :: u64) = take_bit k (x + y)"
  by (rule word_unat_eq_iff [THEN iffD2])
    (use unat_take_bit_plus [of k x "take_bit k y"] unat_take_bit_plus [of k x y] in \<open>simp add: unat_take_bit mod_add_right_eq\<close>)

text \<open>The size of the block, rounded up.\<close>

lemma rounded_aligned:
  fixes v m :: u64
  assumes "k < 64" "unat m + 2 ^ k \<le> 2 ^ 64"
  defines "r \<equiv> take_bit k (- v - m)"
  shows "unat (m + r) = unat m + unat r" "unat r < 2 ^ k" "take_bit k (v + (m + r)) = 0"
proof -
  show lt: "unat r < 2 ^ k" by (simp add: r_def unat_take_bit)
  then show "unat (m + r) = unat m + unat r" using assms(2) by (subst unat_add_lem [THEN iffD1]) auto
  have "take_bit k (v + (m + r)) = take_bit k (v + m + (- v - m))"
    unfolding r_def add.assoc [symmetric] by (rule take_bit_plus [OF assms(1)])
  then show "take_bit k (v + (m + r)) = 0" by simp
qed

text \<open>C33: The offset of the g pointer that the BPF program adds to the thread's FS base: with an external
  linker it is the position of runtime.tlsg counted from the end of the thread-local block, whose
  size is the least one not below the segment's that ends the block at a multiple of the
  alignment, in wrapping 64-bit arithmetic; without the symbol or without the segment it is the
  fixed slot below FS.\<close>

theorem g_offset_from_block_end:
  assumes "tl_align t = 2 ^ k" "k < 64" "unat (tl_memsz t) + 2 ^ k \<le> 2 ^ 64"
  shows "find_g_offset symbols None = - 8 \<and>
     (case sym_names symbols ''runtime.tlsg'' of
        None \<Rightarrow> find_g_offset symbols (Some t) = - 8
      | Some s \<Rightarrow>
          \<exists>size. find_g_offset symbols (Some t) = sy_value s - size \<and>
            (unat (tl_vaddr t) + unat size) mod 2 ^ k = 0 \<and>
            unat (tl_memsz t) \<le> unat size \<and> unat size < unat (tl_memsz t) + 2 ^ k)"
proof -
  let ?size = "tl_memsz t + take_bit k (- tl_vaddr t - tl_memsz t)"
  note a = rounded_aligned [OF assms(2,3), of "tl_vaddr t"]
  have "unat (take_bit k (tl_vaddr t + ?size)) = (unat (tl_vaddr t) + unat ?size) mod 2 ^ k"
    by (rule unat_take_bit_plus [OF assms(2)])
  then have "(unat (tl_vaddr t) + unat ?size) mod 2 ^ k = 0" using a(3) by simp
  moreover have "NOT ?size + 1 + v = v - ?size" for v by (simp add: not_eq_complement)
  ultimately show ?thesis
    using a assms(1) by (auto simp: find_g_offset_def Let_def and_mask split: option.split intro!: exI [of _ ?size])
qed

text \<open>A block of 100 bytes aligned to 64 ends 128 bytes above its start.\<close>

theorem g_offset_from_block_end_witness:
  "\<exists>size. find_g_offset [\<lparr>sy_name = ''runtime.tlsg'', sy_value = 16, sy_func = False\<rparr>]
       (Some \<lparr>tl_vaddr = 0x1000, tl_memsz = 100, tl_align = 64\<rparr>) = 16 - size \<and>
     (0x1000 + unat size) mod 64 = 0 \<and> 100 \<le> unat size \<and> unat size < 164"
  using g_offset_from_block_end [of "\<lparr>tl_vaddr = 0x1000, tl_memsz = 100, tl_align = 64\<rparr>" 6
      "[\<lparr>sy_name = ''runtime.tlsg'', sy_value = 16, sy_func = False\<rparr>]"]
  by (simp add: sym_names_def)

lemma block_of_100: "find_g_offset [\<lparr>sy_name = ''runtime.tlsg'', sy_value = 16, sy_func = False\<rparr>]
       (Some \<lparr>tl_vaddr = 0x1000, tl_memsz = 100, tl_align = 64\<rparr>) = - 112"
  by (simp add: find_g_offset_def sym_names_def)

section \<open>Lines\<close>

definition sorts_lines :: "(line_entry list \<Rightarrow> line_entry list) \<Rightarrow> bool" where
  "sorts_lines order \<longleftrightarrow> (\<forall>rows. mset (order rows) = mset rows \<and> sorted (map li_address (order rows)))"

text \<open>The rows of every unit, where all of them can be read.\<close>

fun unit_rows :: "debug_info \<Rightarrow> die list \<Rightarrow> line_entry list" where
  "unit_rows di [] = []"
| "unit_rows di (d # ds) =
     (case di_lines di d of Rows rows \<Rightarrow> if de_tag d = TagCompileUnit then rows else [] | _ \<Rightarrow> []) @ unit_rows di ds"

definition lines_complete :: "debug_info \<Rightarrow> bool" where
  "lines_complete di \<longleftrightarrow>
     list_all (\<lambda>d. de_tag d = TagCompileUnit \<longrightarrow> (\<exists>rows. di_lines di d = Rows rows)) (di_entries di)"

lemma lines_loop_complete:
  "list_all (\<lambda>d. de_tag d = TagCompileUnit \<longrightarrow> (\<exists>rows. di_lines di d = Rows rows)) ds \<Longrightarrow>
     lines_loop di ds acc err =
       Inr (acc @ unit_rows di ds, if list_ex (\<lambda>d. de_tag d = TagCompileUnit) ds then Some End_of_lines else err)"
  by (induction ds arbitrary: acc err) (auto split: line_table.split)

text \<open>The rows below an address are those in front of the index found.\<close>

lemma search_line:
  fixes rows and pc :: u64
  assumes "sorted (map li_address rows)"
  defines "idx \<equiv> sort_search (length rows) (\<lambda>i. li_address (rows ! i) \<ge> pc)"
  shows "idx \<le> length rows" "k < idx \<Longrightarrow> li_address (rows ! k) < pc"
    "idx \<le> k \<Longrightarrow> k < length rows \<Longrightarrow> pc \<le> li_address (rows ! k)"
proof -
  have mono: "li_address (rows ! k) \<le> li_address (rows ! l)" if "k \<le> l" "l < length rows" for k l
    using assms(1) that sorted_nth_mono [of "map li_address rows" k l] by simp
  have m: "\<forall>k l. k \<le> l \<longrightarrow> l < length rows \<longrightarrow> pc \<le> li_address (rows ! k) \<longrightarrow> pc \<le> li_address (rows ! l)"
    using mono order_trans by blast
  note s = sort_search_least [where f = "\<lambda>i. li_address (rows ! i) \<ge> pc", OF m, folded idx_def]
  show "idx \<le> length rows" by (rule s(1))
  show "k < idx \<Longrightarrow> li_address (rows ! k) < pc" using s(2) by (simp add: not_le)
  show "idx \<le> k \<Longrightarrow> k < length rows \<Longrightarrow> pc \<le> li_address (rows ! k)" using s(3) mono order_trans by fastforce
qed

definition all_rows :: "(line_entry list \<Rightarrow> line_entry list) \<Rightarrow> debug_info \<Rightarrow> line_entry list" where
  "all_rows order di = order (unit_rows di (di_entries di))"

definition lines_readable :: "(line_entry list \<Rightarrow> line_entry list) \<Rightarrow> debug_info \<Rightarrow> bool" where
  "lines_readable order di \<longleftrightarrow>
     sorts_lines order \<and> lines_complete di \<and> list_ex (\<lambda>d. de_tag d = TagCompileUnit) (di_entries di)"

lemma all_rows_set: "sorts_lines order \<Longrightarrow> set (all_rows order di) = set (unit_rows di (di_entries di))"
  unfolding all_rows_def sorts_lines_def by (metis set_mset_mset)

lemma first_lookup:
  assumes "lines_readable order di"
  shows "line_info_for_pc order di pc None = (Inl End_of_lines, Some (all_rows order di))"
proof -
  have "lines_loop di (di_entries di) [] None = Inr (unit_rows di (di_entries di), Some End_of_lines)"
    using assms by (simp add: lines_readable_def lines_complete_def lines_loop_complete)
  then show ?thesis by (simp add: line_info_for_pc_def line_entries_def all_rows_def)
qed

text \<open>The answer for an address: the row of the greatest address below it.\<close>

definition nearest :: "line_entry list \<Rightarrow> u64 \<Rightarrow> dwarf_error + string \<times> int \<Rightarrow> bool" where
  "nearest rows pc res \<longleftrightarrow>
     (case res of
        Inl err \<Rightarrow> err = No_line_below \<and> (\<forall>r \<in> set rows. pc \<le> li_address r)
      | Inr (file, line) \<Rightarrow>
          \<exists>r \<in> set rows. li_address r < pc \<and> li_file r = file \<and> li_line r = line \<and>
            (\<forall>r' \<in> set rows. li_address r' < pc \<longrightarrow> li_address r' \<le> li_address r))"

lemma later_lookup:
  assumes "sorted (map li_address rows)"
  shows "\<exists>res. line_info_for_pc order di pc (Some rows) = (res, Some rows) \<and> nearest rows pc res"
proof -
  let ?idx = "sort_search (length rows) (\<lambda>i. li_address (rows ! i) \<ge> pc)"
  note s = search_line [OF assms, where pc = pc]
  show ?thesis
  proof (cases "?idx = 0")
    case True
    then show ?thesis using s(3) by (auto simp: line_info_for_pc_def line_entries_def Let_def nearest_def in_set_conv_nth)
  next
    case False
    let ?r = "rows ! (?idx - 1)"
    have r: "?r \<in> set rows" "li_address ?r < pc" using s(1,2) False by (auto simp: less_le_trans)
    have "li_address (rows ! k) \<le> li_address ?r" if "k < length rows" "li_address (rows ! k) < pc" for k
    proof -
      have "k < ?idx" using s(3) [of k] that by (force simp: not_le [symmetric])
      then show ?thesis using sorted_nth_mono [OF assms, of k "?idx - 1"] s(1) False that by simp
    qed
    then have "\<forall>r' \<in> set rows. li_address r' < pc \<longrightarrow> li_address r' \<le> li_address ?r"
      by (auto simp: in_set_conv_nth)
    then show ?thesis using False r by (auto simp: line_info_for_pc_def line_entries_def Let_def nearest_def)
  qed
qed

lemma all_rows_sorted: "sorts_lines order \<Longrightarrow> sorted (map li_address (all_rows order di))"
  by (simp add: sorts_lines_def all_rows_def)

text \<open>C31: Looking up a line: with readable line tables the first lookup of a run fails, because the end of the
  last table is left in the result, though the sorted rows are cached; every later lookup gives
  the row of the greatest address strictly below the one asked for, and panics when there is no
  such row, as for address 0.\<close>

theorem line_lookups:
  assumes "lines_readable order di"
  shows "line_info_for_pc order di pc0 None = (Inl End_of_lines, Some (all_rows order di)) \<and>
     (\<exists>res. line_info_for_pc order di pc (Some (all_rows order di)) = (res, Some (all_rows order di)) \<and>
        (case res of
           Inl err \<Rightarrow> err = No_line_below \<and> (\<forall>r \<in> set (all_rows order di). pc \<le> li_address r)
         | Inr (file, line) \<Rightarrow>
             \<exists>r \<in> set (all_rows order di). li_address r < pc \<and> li_file r = file \<and> li_line r = line \<and>
               (\<forall>r' \<in> set (all_rows order di). li_address r' < pc \<longrightarrow> li_address r' \<le> li_address r)))"
proof -
  have "sorted (map li_address (all_rows order di))"
    using assms by (simp add: lines_readable_def all_rows_sorted)
  from later_lookup [OF this, of order di pc] show ?thesis
    using first_lookup [OF assms] unfolding nearest_def by blast
qed

lemma sort_key_sorts: "sorts_lines (sort_key li_address)"
  by (simp add: sorts_lines_def)

lemma f_lines:
  "lines_readable (sort_key li_address) f_info"
  "all_rows (sort_key li_address) f_info =
     [\<lparr>li_address = 0x401000, li_file = ''main.go'', li_line = 7\<rparr>, \<lparr>li_address = 0x401002, li_file = ''main.go'', li_line = 8\<rparr>]"
  by (simp_all add: lines_readable_def sort_key_sorts lines_complete_def all_rows_def
      f_info_def unit_die_def f_tree_def plain_die_def null_die_def)

theorem line_lookups_witness:
  "line_info_for_pc (sort_key li_address) f_info 0x401002 None = (Inl End_of_lines, Some (all_rows (sort_key li_address) f_info)) \<and>
   line_info_for_pc (sort_key li_address) f_info 0x401002 (Some (all_rows (sort_key li_address) f_info)) =
      (Inr (''main.go'', 7), Some (all_rows (sort_key li_address) f_info))"
proof -
  let ?rows = "all_rows (sort_key li_address) f_info"
  note l = line_lookups [OF f_lines(1), where pc = "0x401002" and ?pc0.0 = "0x401002"]
  obtain res where res: "line_info_for_pc (sort_key li_address) f_info 0x401002 (Some ?rows) = (res, Some ?rows)"
      "case res of
         Inl err \<Rightarrow> err = No_line_below \<and> (\<forall>r \<in> set ?rows. 0x401002 \<le> li_address r)
       | Inr (file, line) \<Rightarrow>
           \<exists>r \<in> set ?rows. li_address r < 0x401002 \<and> li_file r = file \<and> li_line r = line \<and>
             (\<forall>r' \<in> set ?rows. li_address r' < 0x401002 \<longrightarrow> li_address r' \<le> li_address r)"
    using l by blast
  have "res = Inr (''main.go'', 7)" using res(2) by (cases res) (auto simp: f_lines(2))
  then show ?thesis using l res(1) by simp
qed

text \<open>
  The call site of an event whose caller could not be read is address 0, for which the printer has
  a case of its own: its line is looked up all the same, and that panics.
\<close>

lemma unknown_caller_panics: "fst (line_info_for_pc order di 0 (Some rows)) = Inl No_line_below"
proof -
  have "sort_search n (\<lambda>i. True) = 0" for n
    using sort_search_least(2) [where n = n and f = "\<lambda>i. True" and k = 0] by auto
  then show ?thesis by (simp add: line_info_for_pc_def line_entries_def)
qed

section \<open>The table of runtime types\<close>

text \<open>The type kept for an address is that of the last entry for it whose type can be read.\<close>

definition runtime_entry :: "debug_info \<Rightarrow> u64 \<Rightarrow> die \<Rightarrow> (u64 \<times> dwarf_type) option" where
  "runtime_entry di base d =
     (case (de_val d AttrGoRuntimeType, di_type_at di (de_offset d)) of
        (Some (Unsigned off), Some t) \<Rightarrow> Some (base + off, t)
      | _ \<Rightarrow> None)"

lemma runtime_types_last:
  "runtime_types_loop di base ds types = types ++ map_of (rev (List.map_filter (runtime_entry di base) ds))"
  by (induction ds arbitrary: types)
    (auto simp: runtime_entry_def map_filter_simps split: option.split attr_value.split)

section \<open>What the probes fetch\<close>

text \<open>Rules given in a flag win; the automatic ones take the place of none, if there are any.\<close>

definition chosen ::
  "fetch_arg list \<times> auto_value list \<Rightarrow> bool \<Rightarrow> fetch_arg list \<times> auto_value list \<Rightarrow> fetch_arg list \<times> auto_value list" where
  "chosen given auto derived = (if auto \<and> fst given = [] \<and> fst derived \<noteq> [] then derived else given)"

definition entry_choice :: "fetch_maps \<Rightarrow> string \<Rightarrow> fetch_arg list \<times> auto_value list" where
  "entry_choice m fn = (fm_args m fn, fm_arg_values m fn)"

definition ret_choice :: "fetch_maps \<Rightarrow> string \<Rightarrow> fetch_arg list \<times> auto_value list" where
  "ret_choice m fn = (fm_rets m fn, fm_ret_values m fn)"

lemmas choice_defs = entry_choice_def ret_choice_def chosen_def

lemma fill_one_choice:
  "entry_choice (fill_one ty fv aa ar fn m) fn' =
     (if fn' = fn then chosen (entry_choice m fn) aa (fst (auto_fetch_args ty fv fn)) else entry_choice m fn')"
  "ret_choice (fill_one ty fv aa ar fn m) fn' =
     (if fn' = fn then chosen (ret_choice m fn) ar (snd (auto_fetch_args ty fv fn)) else ret_choice m fn')"
  by (auto simp: fill_one_def choice_defs Let_def split: prod.split)

lemma chosen_again [simp]: "chosen (chosen given auto derived) auto derived = chosen given auto derived"
  by (auto simp: chosen_def)

lemma fill_fold_choice:
  "entry_choice (fold (fill_one ty fv aa ar) fns m) fn =
     (if fn \<in> set fns then chosen (entry_choice m fn) aa (fst (auto_fetch_args ty fv fn)) else entry_choice m fn)"
  "ret_choice (fold (fill_one ty fv aa ar) fns m) fn =
     (if fn \<in> set fns then chosen (ret_choice m fn) ar (snd (auto_fetch_args ty fv fn)) else ret_choice m fn)"
  by (induction fns arbitrary: m) (auto simp: fill_one_choice)

lemma chosen_off [simp]: "chosen given False derived = given"
  by (simp add: chosen_def)

lemma fill_choice:
  "fn \<in> set fns \<Longrightarrow> entry_choice (fill_auto_fetch ty fv fns aa ar m) fn = chosen (entry_choice m fn) aa (fst (auto_fetch_args ty fv fn))"
  "fn \<in> set fns \<Longrightarrow> ret_choice (fill_auto_fetch ty fv fns aa ar m) fn = chosen (ret_choice m fn) ar (snd (auto_fetch_args ty fv fn))"
  by (auto simp: fill_auto_fetch_def fill_fold_choice)

definition probe_choice :: "fetch_maps \<Rightarrow> uprobe \<Rightarrow> fetch_arg list \<times> auto_value list" where
  "probe_choice m u =
     (case up_location u of
        AtEntry \<Rightarrow> entry_choice m (up_funcname u)
      | AtRet \<Rightarrow> ret_choice m (up_funcname u)
      | AtGoroutineExit \<Rightarrow> ([], []))"

lemma function_probes_choice:
  "function_probes symbols sec rets fm wanted fns = Inr ups \<Longrightarrow> u \<in> set ups \<Longrightarrow>
     up_funcname u \<in> set fns \<and> up_location u \<noteq> AtGoroutineExit \<and> (up_fetch_args u, up_values u) = probe_choice fm u"
proof (induction fns arbitrary: ups)
  case (Cons fn fns)
  then show ?case
    by (auto simp: Let_def probe_choice_def choice_defs split: sum.splits if_splits)
qed simp

lemma parsed_choice:
  assumes "parse_uprobes ty fv symbols sec rets opts = Inr ups" "u \<in> set ups"
    and "parse_fetch_args (po_fetch_args opts) = Inr fargs" "parse_fetch_args (po_ret_fetch_args opts) = Inr frets"
  shows "(up_fetch_args u, up_values u) =
     (case up_location u of
        AtEntry \<Rightarrow> chosen (fargs (up_funcname u), []) (po_auto_args opts) (fst (auto_fetch_args ty fv (up_funcname u)))
      | AtRet \<Rightarrow> chosen (frets (up_funcname u), []) (po_auto_rets opts) (snd (auto_fetch_args ty fv (up_funcname u)))
      | AtGoroutineExit \<Rightarrow> ([], []))"
proof -
  define m where "m = \<lparr>fm_args = fargs, fm_rets = frets, fm_arg_values = (\<lambda>fn. []), fm_ret_values = (\<lambda>fn. [])\<rparr>"
  define fm where "fm = fill_auto_fetch ty fv (attach_funcs opts symbols) (po_auto_args opts) (po_auto_rets opts) m"
  obtain ups' where f: "function_probes symbols sec rets fm (wanted_funcs opts symbols) (attach_funcs opts symbols) = Inr ups'"
      and u: "up_location u = AtGoroutineExit \<and> up_fetch_args u = [] \<and> up_values u = [] \<or> u \<in> set ups'"
    using assms by (auto simp: parse_uprobes_def fm_def m_def Let_def split: sum.splits)
  from u show ?thesis
  proof
    assume "u \<in> set ups'"
    note p = function_probes_choice [OF f this]
    then show ?thesis
      using fill_choice [of "up_funcname u" "attach_funcs opts symbols" ty fv "po_auto_args opts" "po_auto_rets opts" m]
      by (cases "up_location u") (simp_all add: probe_choice_def fm_def, simp_all add: entry_choice_def ret_choice_def m_def)
  qed simp
qed

text \<open>C10: What a probe fetches and how it is rendered: every entry or return probe of the list Parse builds has
  the rules its function was given in a flag, as they were compiled; only where there are none
  and automatic fetching is on, it has those derived from the function's variables, with the
  values they render, if there are any. The probe at the end of goroutines fetches nothing.\<close>

theorem probes_fetch_chosen_rules:
  assumes "parse_uprobes ty fv symbols sec rets opts = Inr ups" "u \<in> set ups"
    and "parse_fetch_args (po_fetch_args opts) = Inr fargs" "parse_fetch_args (po_ret_fetch_args opts) = Inr frets"
  shows "(up_fetch_args u, up_values u) =
     (case up_location u of
        AtEntry \<Rightarrow> chosen (fargs (up_funcname u), []) (po_auto_args opts) (fst (auto_fetch_args ty fv (up_funcname u)))
      | AtRet \<Rightarrow> chosen (frets (up_funcname u), []) (po_auto_rets opts) (snd (auto_fetch_args ty fv (up_funcname u)))
      | AtGoroutineExit \<Rightarrow> ([], []))"
  by (rule parsed_choice [OF assms])

text \<open>The example traced with automatic arguments: \<open>n\<close> is fetched from the first register.\<close>

definition f_text :: text_section where
  "f_text = \<lparr>te_addr = 0x400FFF, te_offset = 0x1000, te_bytes = [0, 1, 2, 0xC3, 0x90, 9]\<rparr>"

definition f_table :: "elf_symbol list" where
  "f_table = f_symbols @ [\<lparr>sy_name = ''runtime.goexit1'', sy_value = 0x401003, sy_func = True\<rparr>]"

definition f_options :: parse_options where
  "f_options = \<lparr>po_exclude_vendor = False, po_wildcards = [], po_func_names = [''main.f''],
     po_fetch_args = [], po_ret_fetch_args = [], po_auto_args = True, po_auto_rets = False\<rparr>"

definition no_types :: type_table where
  "no_types p = OtherType ''void'' 0"

definition f_rets :: "string \<Rightarrow> go_error + u64 list" where
  "f_rets fn = Inr [0x1003]"

definition f_probes :: "uprobe list" where
  "f_probes = (case parse_uprobes no_types (dwarf_variables f_info f_table) f_table f_text f_rets f_options of
     Inl err \<Rightarrow> [] | Inr ups \<Rightarrow> ups)"

lemma f_parsed:
  "parse_uprobes no_types (dwarf_variables f_info f_table) f_table f_text f_rets f_options = Inr f_probes"
  "map up_location f_probes = [AtGoroutineExit, AtEntry, AtRet]"
  "map up_funcname f_probes = [''runtime.goexit1'', ''main.f'', ''main.f'']"
  by code_simp+

lemma f_automatic:
  "dwarf_variables f_info f_table ''main.f'' =
     Some ([\<lparr>va_name = ''n'', va_type = IntType ''int'' 8\<rparr>], [\<lparr>va_name = ''~r0'', va_type = IntType ''int'' 8\<rparr>])"
  "map fa_varname (fst (derive_args no_types [\<lparr>va_name = ''n'', va_type = IntType ''int'' 8\<rparr>])) = [''n'']"
  by code_simp+

theorem probes_fetch_chosen_rules_witness:
  "(up_fetch_args (f_probes ! 1), up_values (f_probes ! 1)) = derive_args no_types [\<lparr>va_name = ''n'', va_type = IntType ''int'' 8\<rparr>] \<and>
   map fa_varname (up_fetch_args (f_probes ! 1)) = [''n''] \<and>
   (up_fetch_args (f_probes ! 2), up_values (f_probes ! 2)) = ([], [])"
proof -
  let ?derived = "derive_args no_types [\<lparr>va_name = ''n'', va_type = IntType ''int'' 8\<rparr>]"
  have len: "length f_probes = 3" using arg_cong [OF f_parsed(2), of length] by simp
  have p: "f_probes ! k \<in> set f_probes" "up_location (f_probes ! k) = [AtGoroutineExit, AtEntry, AtRet] ! k"
      "up_funcname (f_probes ! k) = [''runtime.goexit1'', ''main.f'', ''main.f''] ! k" if "k < 3" for k
    using that len nth_map [of k f_probes up_location] nth_map [of k f_probes up_funcname] f_parsed(2,3) by simp_all
  have given: "parse_fetch_args (po_fetch_args f_options) = Inr (\<lambda>fn. [])"
      "parse_fetch_args (po_ret_fetch_args f_options) = Inr (\<lambda>fn. [])"
      "po_auto_args f_options" "\<not> po_auto_rets f_options"
    by (simp_all add: f_options_def)
  note choice = probes_fetch_chosen_rules [OF f_parsed(1) p(1) given(1,2)]
  have ne: "fst ?derived \<noteq> []" using f_automatic(2) by auto
  have "(up_fetch_args (f_probes ! 1), up_values (f_probes ! 1)) = ?derived"
    using choice [of 1] p(2,3) [of 1] ne by (simp add: given(3) auto_fetch_args_def f_automatic(1) chosen_def)
  moreover have "(up_fetch_args (f_probes ! 2), up_values (f_probes ! 2)) = ([], [])"
    using choice [of 2] p(2,3) [of 2] by (simp add: given(4) chosen_def)
  ultimately show ?thesis using f_automatic(2) by (metis fst_conv)
qed

end
