(* ===== verification/Ftrace_Print.thy ===== *)
theory Ftrace_Print
  imports Ftrace_Debuginfo Ftrace_Aggregate
begin

text \<open>
  What the event manager prints (\<open>src/internal/eventmanager/print.go\<close>): the lines of a stack with
  their indentation, times and positions, and the end of a run. The formatting of a time and the
  colours are left out: a line is the record of what is handed to \<open>Printf\<close>.
\<close>

section \<open>Printing a stack\<close>

text \<open>What the lines and the symbols are looked up in, and the prefix cut from positions.\<close>

record print_env =
  pe_symbols :: "elf_symbol list"
  pe_order :: "line_entry list \<Rightarrow> line_entry list"
  pe_info :: debug_info
  pe_trim :: string

text \<open>
  A line of output: the arguments of \<open>Printf\<close>, with the length of the indentation, and for a
  return the elapsed time and the offset.
\<close>

record printed_line =
  pl_time :: u64
  pl_indent :: nat
  pl_elapsed :: "u64 option"
  pl_name :: string
  pl_offset :: "u64 option"
  pl_args :: string
  pl_chain :: string
  pl_place :: string

datatype print_result = Printed | Print_failed go_error | Print_panicked

definition sprint_call_chain :: "elf_symbol list \<Rightarrow> event \<Rightarrow> go_error + string" where
  "sprint_call_chain symbols e =
     (if ev_caller_ip e = 0 then Inr []
      else case resolve_address symbols (ev_caller_ip e) of
        Inl err \<Rightarrow> Inl err
      | Inr (syms, off) \<Rightarrow> Inr (sy_name (hd syms) @ CHR ''+'' # show_nat (unat off)))"

text \<open>The position of an address; a failing lookup leaves the question marks, an index below 0 panics.\<close>

definition place_of :: "print_env \<Rightarrow> u64 \<Rightarrow> line_cache \<Rightarrow> string option \<times> line_cache" where
  "place_of pe pc cache =
     (case line_info_for_pc (pe_order pe) (pe_info pe) pc cache of
        (Inl err, cache) \<Rightarrow> (if err = No_line_below then None else Some ''?:?'', cache)
      | (Inr (file, line), cache) \<Rightarrow>
          (let s = file @ CHR '':'' # show_int line
           in Some (if take (length (pe_trim pe)) s = pe_trim pe then drop (length (pe_trim pe)) s else s), cache))"

fun print_loop ::
  "print_env \<Rightarrow> mgr_event list \<Rightarrow> nat \<Rightarrow> u64 list \<Rightarrow> line_cache \<Rightarrow> printed_line list \<times> print_result \<times> line_cache" where
  "print_loop pe [] indent since cache = ([], Printed, cache)"
| "print_loop pe (me # mes) indent since cache =
     (let e = me_event me
      in case resolve_address (pe_symbols pe) (ev_ip e) of
        Inl err \<Rightarrow> ([], Print_failed err, cache)
      | Inr (syms, off) \<Rightarrow>
          if ev_location e = ENTPOINT then
            (case sprint_call_chain (pe_symbols pe) e of
               Inl err \<Rightarrow> ([], Print_failed err, cache)
             | Inr chain \<Rightarrow>
                 (case place_of pe (ev_caller_ip e) cache of
                    (None, cache) \<Rightarrow> ([], Print_panicked, cache)
                  | (Some place, cache) \<Rightarrow>
                      (case print_loop pe mes (indent + 2) (since @ [ev_time_ns e]) cache of
                         (ls, res) \<Rightarrow>
                           (\<lparr>pl_time = ev_time_ns e, pl_indent = indent, pl_elapsed = None,
                             pl_name = up_funcname (me_uprobe me), pl_offset = None, pl_args = me_args me,
                             pl_chain = chain, pl_place = place\<rparr> # ls, res))))
          else if ev_location e = RETPOINT then
            (if indent = 0 then print_loop pe mes indent since cache
             else case place_of pe (ev_ip e) cache of
                (None, cache) \<Rightarrow> ([], Print_panicked, cache)
              | (Some place, cache) \<Rightarrow>
                  if since = [] \<or> indent < 2 then ([], Print_panicked, cache)
                  else (case print_loop pe mes (indent - 2) (butlast since) cache of
                          (ls, res) \<Rightarrow>
                            (\<lparr>pl_time = ev_time_ns e, pl_indent = indent - 2,
                              pl_elapsed = Some (ev_time_ns e - last since), pl_name = sy_name (hd syms),
                              pl_offset = Some off, pl_args = me_args me, pl_chain = [], pl_place = place\<rparr> # ls, res)))
          else print_loop pe mes indent since cache)"

section \<open>The reduced printing of the manager\<close>

lemma resolve_error: "resolve_address symbols a = Inl err \<Longrightarrow> err = Symbol_not_found"
  by (auto simp: resolve_address_def Let_def split: if_splits)

text \<open>Unless a position panics, printing fails exactly where the manager of \<open>handle\<close> says it does.\<close>

lemma print_error_Cons:
  "print_error m (me # mes) =
     (if isl (resolve_address (mg_symbols m) (ev_ip (me_event me))) then Some Symbol_not_found
      else if ev_location (me_event me) = ENTPOINT \<and> isl (sprint_call_chain (mg_symbols m) (me_event me))
      then Some Symbol_not_found else print_error m mes)"
  by (auto simp: print_error_def sprint_call_chain_def Let_def split: sum.split)

lemma chain_error: "sprint_call_chain symbols e = Inl err \<Longrightarrow> err = Symbol_not_found"
  by (auto simp: sprint_call_chain_def dest: resolve_error split: if_splits sum.splits)

lemma print_step:
  assumes "resolve_address (pe_symbols pe) (ev_ip (me_event me)) = Inr r"
    and "ev_location (me_event me) \<noteq> ENTPOINT \<or> sprint_call_chain (pe_symbols pe) (me_event me) = Inr chain"
  shows "fst (snd (print_loop pe (me # mes) indent since cache)) = Print_panicked \<or>
     (\<exists>i s c. fst (snd (print_loop pe (me # mes) indent since cache)) = fst (snd (print_loop pe mes i s c)))"
proof -
  obtain syms off where r: "r = (syms, off)" by (cases r)
  consider "ev_location (me_event me) = ENTPOINT" | "ev_location (me_event me) = RETPOINT"
    | "ev_location (me_event me) \<noteq> ENTPOINT" "ev_location (me_event me) \<noteq> RETPOINT" by blast
  then show ?thesis
  proof cases
    case 1
    then show ?thesis
      using assms r by (cases "fst (place_of pe (ev_caller_ip (me_event me)) cache)") (auto simp: case_prod_beta Let_def)
  next
    case 2
    then have "ev_location (me_event me) \<noteq> ENTPOINT" by (simp add: location_defs)
    with 2 show ?thesis
      using assms r by (cases "fst (place_of pe (ev_ip (me_event me)) cache)") (auto simp: case_prod_beta Let_def)
  next
    case 3
    then show ?thesis using assms r by auto
  qed
qed

lemma print_error_exact:
  "mg_symbols m = pe_symbols pe \<Longrightarrow> fst (snd (print_loop pe mes indent since cache)) \<noteq> Print_panicked \<Longrightarrow>
     fst (snd (print_loop pe mes indent since cache)) =
       (case print_error m mes of None \<Rightarrow> Printed | Some err \<Rightarrow> Print_failed err)"
proof (induction mes arbitrary: indent since cache)
  case (Cons me mes)
  let ?e = "me_event me"
  show ?case
  proof (cases "resolve_address (pe_symbols pe) (ev_ip ?e)")
    case (Inl err)
    then show ?thesis using Cons.prems(1) by (auto simp: Let_def print_error_Cons dest: resolve_error)
  next
    case (Inr r)
    show ?thesis
    proof (cases "ev_location ?e = ENTPOINT \<and> isl (sprint_call_chain (pe_symbols pe) ?e)")
      case True
      then obtain err where "sprint_call_chain (pe_symbols pe) ?e = Inl err" by (auto simp: isl_def)
      with True Inr Cons.prems(1) show ?thesis by (auto simp: Let_def print_error_Cons dest: chain_error split: prod.split)
    next
      case False
      then have c: "ev_location ?e \<noteq> ENTPOINT \<or> sprint_call_chain (pe_symbols pe) ?e = Inr (projr (sprint_call_chain (pe_symbols pe) ?e))"
        by (cases "sprint_call_chain (pe_symbols pe) ?e") auto
      have "print_error m (me # mes) = print_error m mes"
        using Cons.prems(1) Inr False by (auto simp: print_error_Cons)
      then show ?thesis
        using print_step [OF Inr c, of mes indent since cache] Cons.prems(2) Cons.IH [OF Cons.prems(1)] by metis
    qed
  qed
qed (simp add: print_error_def)

section \<open>The printed call tree\<close>

text \<open>An event whose line is printed: its addresses have symbols, and a row lies below the one looked up.\<close>

definition printable :: "print_env \<Rightarrow> mgr_event \<Rightarrow> bool" where
  "printable pe me \<longleftrightarrow>
     (let e = me_event me; pc = (if ev_location e = ENTPOINT then ev_caller_ip e else ev_ip e)
      in \<not> isl (resolve_address (pe_symbols pe) (ev_ip e)) \<and>
         (ev_location e = ENTPOINT \<longrightarrow> \<not> isl (sprint_call_chain (pe_symbols pe) e)) \<and>
         list_ex (\<lambda>r. li_address r < pc) (unit_rows (pe_info pe) (di_entries (pe_info pe))))"

definition cached :: "print_env \<Rightarrow> line_cache \<Rightarrow> bool" where
  "cached pe cache \<longleftrightarrow> cache = None \<or> cache = Some (all_rows (pe_order pe) (pe_info pe))"

lemma place_found:
  assumes "lines_readable (pe_order pe) (pe_info pe)" "cached pe cache"
    and "list_ex (\<lambda>r. li_address r < pc) (unit_rows (pe_info pe) (di_entries (pe_info pe)))"
  shows "\<exists>place. place_of pe pc cache = (Some place, Some (all_rows (pe_order pe) (pe_info pe))) \<and>
     (cache = None \<longrightarrow> place = ''?:?'')"
proof (cases cache)
  case None
  then show ?thesis by (simp add: place_of_def first_lookup [OF assms(1)])
next
  case (Some rows)
  have s: "sorts_lines (pe_order pe)" using assms(1) by (simp add: lines_readable_def)
  obtain res where res: "line_info_for_pc (pe_order pe) (pe_info pe) pc cache = (res, cache)"
      "nearest (all_rows (pe_order pe) (pe_info pe)) pc res"
    using later_lookup [OF all_rows_sorted [OF s], of "pe_order pe" "pe_info pe" pc "pe_info pe"] Some assms(2)
    by (auto simp: cached_def)
  have "\<exists>v. res = Inr v"
    using res(2) assms(3) all_rows_set [OF s] by (cases res) (auto simp: nearest_def list_ex_iff not_le [symmetric])
  then show ?thesis using res(1) Some assms(2) by (auto simp: place_of_def cached_def Let_def)
qed

text \<open>What a reader of a line sees of the structure: indentation, elapsed time, function and arguments.\<close>

definition line_view :: "printed_line \<Rightarrow> nat \<times> u64 option \<times> string \<times> string" where
  "line_view l = (pl_indent l, pl_elapsed l, pl_name l, pl_args l)"

definition symbol_name :: "elf_symbol list \<Rightarrow> u64 \<Rightarrow> string" where
  "symbol_name symbols a = (case resolve_address symbols a of Inl err \<Rightarrow> [] | Inr (syms, off) \<Rightarrow> sy_name (hd syms))"

fun outline :: "elf_symbol list \<Rightarrow> (u64 \<Rightarrow> uprobe) \<Rightarrow> (event \<Rightarrow> string) \<Rightarrow> nat \<Rightarrow> traced \<Rightarrow>
    (nat \<times> u64 option \<times> string \<times> string) list" where
  "outline symbols probe text indent (Traced e again subs x) =
     (indent, None, up_funcname (probe (ev_ip e)), text e) #
     concat (map (outline symbols probe text (indent + 2)) subs) @
     [(indent, Some (ev_time_ns x - ev_time_ns (kept e again)), symbol_name symbols (ev_ip x), text x)]"

fun sided :: "traced \<Rightarrow> bool" where
  "sided (Traced e again subs x) \<longleftrightarrow>
     ev_location (kept e again) = ENTPOINT \<and> ev_location x = RETPOINT \<and> list_all sided subs"

text \<open>One line in front of what follows.\<close>

lemma print_entry:
  assumes "lines_readable (pe_order pe) (pe_info pe)" "cached pe cache" "printable pe me"
    and "ev_location (me_event me) = ENTPOINT"
  shows "\<exists>l. line_view l = (indent, None, up_funcname (me_uprobe me), me_args me) \<and> (cache = None \<longrightarrow> pl_place l = ''?:?'') \<and>
     print_loop pe (me # mes) indent since cache =
       apfst ((#) l) (print_loop pe mes (indent + 2) (since @ [ev_time_ns (me_event me)]) (Some (all_rows (pe_order pe) (pe_info pe))))"
proof -
  have ok: "\<not> isl (resolve_address (pe_symbols pe) (ev_ip (me_event me)))"
      "\<not> isl (sprint_call_chain (pe_symbols pe) (me_event me))"
      "list_ex (\<lambda>r. li_address r < ev_caller_ip (me_event me)) (unit_rows (pe_info pe) (di_entries (pe_info pe)))"
    using assms(3,4) by (simp_all add: printable_def Let_def)
  obtain place where place: "place_of pe (ev_caller_ip (me_event me)) cache = (Some place, Some (all_rows (pe_order pe) (pe_info pe)))"
      "cache = None \<longrightarrow> place = ''?:?''"
    using place_found [OF assms(1,2) ok(3)] by blast
  obtain syms off chain where "resolve_address (pe_symbols pe) (ev_ip (me_event me)) = Inr (syms, off)"
      "sprint_call_chain (pe_symbols pe) (me_event me) = Inr chain"
    using ok(1,2) by (cases "resolve_address (pe_symbols pe) (ev_ip (me_event me))";
        cases "sprint_call_chain (pe_symbols pe) (me_event me)") auto
  then show ?thesis
    using assms(4) place
    by (intro exI [of _ "\<lparr>pl_time = ev_time_ns (me_event me), pl_indent = indent, pl_elapsed = None,
          pl_name = up_funcname (me_uprobe me), pl_offset = None, pl_args = me_args me, pl_chain = chain, pl_place = place\<rparr>"])
      (simp add: Let_def line_view_def case_prod_beta apfst_def map_prod_def prod_eq_iff)
qed

lemma print_return:
  assumes "lines_readable (pe_order pe) (pe_info pe)" "cached pe cache" "printable pe me"
    and "ev_location (me_event me) = RETPOINT"
  shows "\<exists>l. line_view l = (indent, Some (ev_time_ns (me_event me) - t), symbol_name (pe_symbols pe) (ev_ip (me_event me)), me_args me) \<and>
     print_loop pe (me # mes) (indent + 2) (since @ [t]) cache =
       apfst ((#) l) (print_loop pe mes indent since (Some (all_rows (pe_order pe) (pe_info pe))))"
proof -
  have ne: "ev_location (me_event me) \<noteq> ENTPOINT" using assms(4) by (simp add: location_defs)
  then have ok: "\<not> isl (resolve_address (pe_symbols pe) (ev_ip (me_event me)))"
      "list_ex (\<lambda>r. li_address r < ev_ip (me_event me)) (unit_rows (pe_info pe) (di_entries (pe_info pe)))"
    using assms(3) by (simp_all add: printable_def Let_def)
  obtain place where place: "place_of pe (ev_ip (me_event me)) cache = (Some place, Some (all_rows (pe_order pe) (pe_info pe)))"
    using place_found [OF assms(1,2) ok(2)] by blast
  obtain syms off where "resolve_address (pe_symbols pe) (ev_ip (me_event me)) = Inr (syms, off)"
    using ok(1) by (cases "resolve_address (pe_symbols pe) (ev_ip (me_event me))") auto
  then show ?thesis
    using assms(4) ne place
    by (intro exI [of _ "\<lparr>pl_time = ev_time_ns (me_event me), pl_indent = indent,
          pl_elapsed = Some (ev_time_ns (me_event me) - t), pl_name = sy_name (hd syms), pl_offset = Some off,
          pl_args = me_args me, pl_chain = [], pl_place = place\<rparr>"])
      (simp add: Let_def line_view_def symbol_name_def case_prod_beta apfst_def map_prod_def prod_eq_iff)
qed

lemma apfst_append [simp]: "apfst ((@) xs) (apfst ((@) ys) z) = apfst ((@) (xs @ ys)) z"
  "apfst ((#) x) (apfst ((@) ys) z) = apfst ((@) (x # ys)) z" "apfst ((@) xs) (apfst ((#) y) z) = apfst ((@) (xs @ [y])) z"
  by (cases z; simp)+

lemma print_tree:
  assumes "lines_readable (pe_order pe) (pe_info pe)" "cached pe cache" "sided t"
    and "list_all (printable pe) (stored_of probe text t)"
  shows "\<exists>ls. map line_view ls = outline (pe_symbols pe) probe text indent t \<and> (cache = None \<longrightarrow> pl_place (hd ls) = ''?:?'') \<and>
     print_loop pe (stored_of probe text t @ rest) indent since cache =
       apfst ((@) ls) (print_loop pe rest indent since (Some (all_rows (pe_order pe) (pe_info pe))))"
  using assms(2-4)
proof (induction t arbitrary: cache indent since rest)
  case (Traced e again subs x)
  let ?rows = "Some (all_rows (pe_order pe) (pe_info pe))"
  let ?s = "stored_of probe text" and ?o = "outline (pe_symbols pe) probe text (indent + 2)"
  let ?in = "\<lparr>me_event = kept e again, me_uprobe = probe (ev_ip e), me_args = text e\<rparr>"
  let ?out = "\<lparr>me_event = x, me_uprobe = probe (ev_ip x), me_args = text x\<rparr>"
  have rows: "cached pe ?rows" by (simp add: cached_def)
  have forest: "\<exists>ls. map line_view ls = concat (map ?o us) \<and>
      print_loop pe (concat (map ?s us) @ tail) (indent + 2) times ?rows = apfst ((@) ls) (print_loop pe tail (indent + 2) times ?rows)"
    if "set us \<subseteq> set subs" for us tail times
    using that
  proof (induction us arbitrary: tail)
    case Nil
    then show ?case by (intro exI [of _ "[]"]) (simp add: apfst_def map_prod_def prod_eq_iff)
  next
    case (Cons u us)
    have u: "sided u" "list_all (printable pe) (?s u)" "u \<in> set subs"
      using Cons.prems Traced.prems by (auto simp: list_all_iff)
    obtain ls1 where l1: "map line_view ls1 = ?o u"
        "print_loop pe (?s u @ concat (map ?s us) @ tail) (indent + 2) times ?rows =
           apfst ((@) ls1) (print_loop pe (concat (map ?s us) @ tail) (indent + 2) times ?rows)"
      using Traced.IH [OF u(3) rows u(1,2)] by blast
    obtain ls2 where l2: "map line_view ls2 = concat (map ?o us)"
        "print_loop pe (concat (map ?s us) @ tail) (indent + 2) times ?rows =
           apfst ((@) ls2) (print_loop pe tail (indent + 2) times ?rows)"
      using Cons by auto
    show ?case
      by (intro exI [of _ "ls1 @ ls2"]) (simp add: l1 l2 del: add_2_eq_Suc')
  qed
  have ok: "printable pe ?in" "printable pe ?out"
    using Traced.prems(3) by simp_all
  have loc: "ev_location (me_event ?in) = ENTPOINT" "ev_location (me_event ?out) = RETPOINT"
    using Traced.prems(2) by simp_all
  obtain l where l: "line_view l = (indent, None, up_funcname (probe (ev_ip e)), text e)" "cache = None \<longrightarrow> pl_place l = ''?:?''"
      "print_loop pe (?in # concat (map ?s subs) @ ?out # rest) indent since cache =
        apfst ((#) l) (print_loop pe (concat (map ?s subs) @ ?out # rest) (indent + 2) (since @ [ev_time_ns (kept e again)]) ?rows)"
    using print_entry [OF assms(1) Traced.prems(1) ok(1) loc(1), of indent "concat (map ?s subs) @ ?out # rest" since] by auto
  obtain ls where ls: "map line_view ls = concat (map ?o subs)"
      "print_loop pe (concat (map ?s subs) @ ?out # rest) (indent + 2) (since @ [ev_time_ns (kept e again)]) ?rows =
        apfst ((@) ls) (print_loop pe (?out # rest) (indent + 2) (since @ [ev_time_ns (kept e again)]) ?rows)"
    using forest [OF order_refl] by blast
  obtain l' where l': "line_view l' = (indent, Some (ev_time_ns x - ev_time_ns (kept e again)), symbol_name (pe_symbols pe) (ev_ip x), text x)"
      "print_loop pe (?out # rest) (indent + 2) (since @ [ev_time_ns (kept e again)]) ?rows =
        apfst ((#) l') (print_loop pe rest indent since ?rows)"
    using print_return [OF assms(1) rows ok(2) loc(2), of indent "ev_time_ns (kept e again)" rest since] by auto
  show ?case
    by (intro exI [of _ "l # ls @ [l']"])
      (use l ls l' in \<open>simp del: print_loop.simps add_2_eq_Suc'\<close>)
qed

text \<open>C8: What is printed of a sample is its call tree: for the stored events of a call and the calls below it,
  whose addresses have symbols and rows, printing neither fails nor panics, and its lines are one
  for each entry and one for each return, nested as the calls are: the two lines of a call have
  the same indentation, those of the calls it makes stand between them two columns deeper, and
  the return line has the time since the entry of the same call. The first line printed in a run
  has no position.\<close>

theorem printed_call_tree:
  assumes "lines_readable (pe_order pe) (pe_info pe)" "cached pe cache" "sided t"
    and "list_all (printable pe) (stored_of probe text t)"
  shows "\<exists>ls. print_loop pe (stored_of probe text t) 0 [] cache = (ls, Printed, Some (all_rows (pe_order pe) (pe_info pe))) \<and>
     map line_view ls = outline (pe_symbols pe) probe text 0 t \<and>
     (cache = None \<longrightarrow> pl_place (hd ls) = ''?:?'')"
  using print_tree [OF assms, of 0 "[]" "[]"] by (auto simp: apfst_def map_prod_def)

text \<open>\<open>main.f\<close> calling itself once: entered at 10 and 15, left at 20 and 40.\<close>

definition f_event :: "u8 \<Rightarrow> u64 \<Rightarrow> u64 \<Rightarrow> u64 \<Rightarrow> event" where
  "f_event loc ip caller t = zero_event\<lparr>ev_location := loc, ev_ip := ip, ev_caller_ip := caller, ev_time_ns := t\<rparr>"

definition f_traced :: traced where
  "f_traced = Traced (f_event ENTPOINT 0x401000 0x401003 10) None
     [Traced (f_event ENTPOINT 0x401000 0x401003 15) None [] (f_event RETPOINT 0x401002 0 20)]
     (f_event RETPOINT 0x401002 0 40)"

definition f_env :: print_env where
  "f_env = \<lparr>pe_symbols = f_symbols, pe_order = sort_key li_address, pe_info = f_info, pe_trim = []\<rparr>"

definition f_probe :: "u64 \<Rightarrow> uprobe" where
  "f_probe a = \<lparr>up_funcname = ''main.f'', up_address = a, up_abs_offset = a, up_rel_offset = 0,
     up_location = AtEntry, up_fetch_args = [], up_values = [], up_wanted = True\<rparr>"

lemma f_printable:
  "list_all (printable f_env) (stored_of f_probe (\<lambda>e. ''x'') f_traced)" "sided f_traced"
  "outline f_symbols f_probe (\<lambda>e. ''x'') 0 f_traced =
     [(0, None, ''main.f'', ''x''), (2, None, ''main.f'', ''x''), (2, Some 5, ''main.f'', ''x''), (0, Some 30, ''main.f'', ''x'')]"
  by code_simp+

theorem printed_call_tree_witness:
  "\<exists>ls. print_loop f_env (stored_of f_probe (\<lambda>e. ''x'') f_traced) 0 [] None =
       (ls, Printed, Some (all_rows (sort_key li_address) f_info)) \<and>
     map line_view ls =
       [(0, None, ''main.f'', ''x''), (2, None, ''main.f'', ''x''), (2, Some 5, ''main.f'', ''x''), (0, Some 30, ''main.f'', ''x'')] \<and>
     pl_place (hd ls) = ''?:?''"
proof -
  have c: "lines_readable (pe_order f_env) (pe_info f_env)" "cached f_env None"
    by (simp_all add: f_env_def f_lines cached_def)
  show ?thesis
    using printed_call_tree [OF c f_printable(2,1)] by (simp add: f_env_def f_printable(3))
qed

section \<open>What is left at the end\<close>

text \<open>
  \<open>PrintRemaining\<close>: the samples still open. In aggregate mode each is discarded and counted; else
  the stacks of a process are printed until one fails, and \<open>err\<close> is what the last print said.
  \<open>pids\<close> is the snapshot of the processes.
\<close>

definition discard :: "u32 \<Rightarrow> u64 \<Rightarrow> 'k manager \<Rightarrow> 'k manager" where
  "discard pid goid m =
     drop_stack pid goid (m\<lparr>mg_dropped_stacks := mg_dropped_stacks m + 1,
                            mg_dropped_incomplete := mg_dropped_incomplete m + 1\<rparr>)"

definition discard_process :: "u32 \<times> pid_state \<Rightarrow> 'k manager \<Rightarrow> 'k manager" where
  "discard_process p m = fold (discard (fst p)) (map fst (ps_events (snd p))) m"

fun print_process :: "u32 \<Rightarrow> u64 list \<Rightarrow> go_error option \<times> 'k manager \<Rightarrow> go_error option \<times> 'k manager" where
  "print_process pid [] (err, m) = (err, m)"
| "print_process pid (goid # goids) (err, m) =
     (case print_stack pid goid m of
        (None, m) \<Rightarrow> print_process pid goids (None, m)
      | (Some err, m) \<Rightarrow> (Some err, m))"

definition print_remaining :: "'k manager \<Rightarrow> go_error option \<times> 'k manager" where
  "print_remaining m =
     (let pids = mg_pids m
      in if mg_aggregate m then (None, fold discard_process pids m)
         else fold (\<lambda>p. print_process (fst p) (map fst (ps_events (snd p)))) pids (None, m))"

lemma discard_ok: "manager_ok m \<Longrightarrow> manager_ok (discard pid goid m)"
  by (simp add: discard_def drop_stack_ok)

lemma fold_ok: "(\<And>x m. manager_ok m \<Longrightarrow> manager_ok (f x m)) \<Longrightarrow> manager_ok m \<Longrightarrow> manager_ok (fold f xs m)"
  by (induction xs arbitrary: m) simp_all

lemma discard_counts:
  "mg_dropped_stacks (discard pid goid m) = mg_dropped_stacks m + 1"
  "mg_dropped_incomplete (discard pid goid m) = mg_dropped_incomplete m + 1"
  by (simp_all add: discard_def drop_stack_def Let_def put_pid_state_def release_def split: option.split)

lemma fold_counts:
  "mg_dropped_stacks (fold (discard pid) goids m) = mg_dropped_stacks m + of_nat (length goids)"
  "mg_dropped_incomplete (fold (discard pid) goids m) = mg_dropped_incomplete m + of_nat (length goids)"
  by (induction goids arbitrary: m) (simp_all add: discard_counts)

text \<open>One process: its stacks go one after the other, and nothing else changes.\<close>

lemma discard_table:
  "map_of (mg_pids (discard pid goid m)) =
     (case map_of (mg_pids m) pid of
        None \<Rightarrow> map_of (mg_pids m)
      | Some s \<Rightarrow> (map_of (mg_pids m))(pid \<mapsto>
          s\<lparr>ps_events := AList.delete goid (ps_events s), ps_stack := (ps_stack s)(goid := None),
            ps_invalid := ps_invalid s - {goid}\<rparr>))"
  by (auto simp: discard_def drop_stack_def put_pid_state_def Let_def release_def split: option.split)

lemma discard_all:
  "map_of (mg_pids m) pid = Some s \<Longrightarrow> distinct (map fst (ps_events s)) \<Longrightarrow> goids = map fst (ps_events s) \<Longrightarrow>
     \<exists>s'. ps_events s' = [] \<and> ps_agg s' = ps_agg s \<and>
       map_of (mg_pids (fold (discard pid) goids m)) = (map_of (mg_pids m))(pid \<mapsto> s')"
proof (induction goids arbitrary: m s)
  case Nil
  then show ?case by (intro exI [of _ s]) (auto simp: fun_upd_idem)
next
  case (Cons goid goids)
  obtain x rest where ev: "ps_events s = (goid, x) # rest" "goids = map fst rest"
    using Cons.prems(3) by (cases "ps_events s") auto
  let ?s = "s\<lparr>ps_events := AList.delete goid (ps_events s), ps_stack := (ps_stack s)(goid := None),
     ps_invalid := ps_invalid s - {goid}\<rparr>"
  have del: "AList.delete goid (ps_events s) = rest"
    using Cons.prems(2) by (simp add: ev(1) delete_absent image_iff)
  have step: "map_of (mg_pids (discard pid goid m)) = (map_of (mg_pids m))(pid \<mapsto> ?s)"
    using Cons.prems(1) by (simp add: discard_table)
  have "map_of (mg_pids (discard pid goid m)) pid = Some ?s" "distinct (map fst (ps_events ?s))" "goids = map fst (ps_events ?s)"
    using step Cons.prems(2) ev by (simp_all add: del)
  from Cons.IH [OF this] obtain s' where "ps_events s' = []" "ps_agg s' = ps_agg ?s"
      "map_of (mg_pids (fold (discard pid) goids (discard pid goid m))) = (map_of (mg_pids (discard pid goid m)))(pid \<mapsto> s')"
    by blast
  then show ?case unfolding step by (intro exI [of _ s']) simp
qed

definition emptied :: "pid_state option \<Rightarrow> pid_state option \<Rightarrow> bool" where
  "emptied before after \<longleftrightarrow>
     (case (before, after) of
        (None, None) \<Rightarrow> True
      | (Some s, Some s') \<Rightarrow> ps_events s' = [] \<and> ps_agg s' = ps_agg s
      | _ \<Rightarrow> False)"

lemma discard_processes:
  "distinct (map fst ps) \<Longrightarrow> list_all (\<lambda>p. pid_ok (snd p)) ps \<Longrightarrow>
     list_all (\<lambda>p. map_of (mg_pids m) (fst p) = Some (snd p)) ps \<Longrightarrow>
     (\<forall>p \<in> set ps. emptied (Some (snd p)) (map_of (mg_pids (fold discard_process ps m)) (fst p))) \<and>
     (\<forall>pid. pid \<notin> fst ` set ps \<longrightarrow> map_of (mg_pids (fold discard_process ps m)) pid = map_of (mg_pids m) pid)"
proof (induction ps arbitrary: m)
  case (Cons p ps)
  let ?m = "discard_process p m"
  obtain s' where s': "ps_events s' = []" "ps_agg s' = ps_agg (snd p)" "map_of (mg_pids ?m) = (map_of (mg_pids m))(fst p \<mapsto> s')"
    using discard_all [of m "fst p" "snd p" "map fst (ps_events (snd p))"] Cons.prems
    by (auto simp: pid_ok_def discard_process_def)
  have new: "fst p \<notin> fst ` set ps" using Cons.prems(1) by simp
  have rest: "list_all (\<lambda>p. map_of (mg_pids ?m) (fst p) = Some (snd p)) ps"
    using Cons.prems(3) new s'(3) by (auto simp: list_all_iff image_iff)
  show ?case
    using Cons.IH [OF _ _ rest] Cons.prems new s' by (auto simp: emptied_def)
qed simp

definition open_stacks :: "'k manager \<Rightarrow> nat" where
  "open_stacks m = sum_list (map (\<lambda>p. length (ps_events (snd p))) (mg_pids m))"

lemma discard_process_counts:
  "mg_dropped_stacks (fold discard_process ps m) =
     mg_dropped_stacks m + of_nat (sum_list (map (\<lambda>p. length (ps_events (snd p))) ps))"
  "mg_dropped_incomplete (fold discard_process ps m) =
     mg_dropped_incomplete m + of_nat (sum_list (map (\<lambda>p. length (ps_events (snd p))) ps))"
  by (induction ps arbitrary: m) (simp_all add: discard_process_def fold_counts)

lemma discard_process_ok: "manager_ok m \<Longrightarrow> manager_ok (fold discard_process ps m)"
  by (intro fold_ok) (auto simp: discard_process_def intro: fold_ok discard_ok)

lemma handle_aggregate: "mg_aggregate (snd (handle sv e m)) = mg_aggregate m"
proof -
  obtain added m1 where ad: "add_event sv e m = (added, m1)" by (cases "add_event sv e m")
  obtain fin m2 where cl: "close_stack e m1 = (fin, m2)" by (cases "close_stack e m1")
  have "mg_aggregate m2 = mg_aggregate m1"
    using cl by (auto simp: close_stack_def Let_def split: if_splits)
  then show ?thesis
    using add_static [OF ad] finish_static [of e m2] by (auto simp: handle_def ad cl Let_def split: prod.split)
qed


end
