(* ===== verification/Ftrace_Start.thy ===== *)
theory Ftrace_Start
  imports Ftrace_Learning Ftrace_Print Ftrace_Traced Ftrace_Sampler
begin

text \<open>
  Starting the tracer (\<open>Start\<close> of \<open>src/cmd/tracer.go\<close>): from the flags and the binary to the
  probes and the loaded maps, and the composition of everything that lies between a flag
  \<open>--auto-args\<close> and the text of an event.
\<close>

section \<open>Starting\<close>

text \<open>The traced binary: its symbols, text, debug information, types and thread-local segment, and the decoder.\<close>

record binary =
  bn_symbols :: "elf_symbol list"
  bn_text :: text_section
  bn_info :: debug_info
  bn_types :: type_table
  bn_tls :: "tls_segment option"
  bn_decode :: "u8 list \<rightharpoonup> bool \<times> nat"

record tracer_config =
  tc_exclude_vendor :: bool
  tc_wildcards :: "string list"
  tc_fargs :: "string list"
  tc_frets :: "string list"
  tc_auto_args :: bool
  tc_auto_rets :: bool
  tc_adaptive :: bool
  tc_memory_limit_mb :: u64

datatype start_error = Go_failed go_error | Debug_failed dwarf_error

definition ret_offsets :: "binary \<Rightarrow> string \<Rightarrow> (go_error + u64 list) option" where
  "ret_offsets bn fn =
     func_ret_offsets (bn_symbols bn) (bn_text bn) (dwarf_ranges (bn_info bn) (bn_symbols bn)) (bn_decode bn) fn"

definition options_of :: "tracer_config \<Rightarrow> string list \<Rightarrow> fetch_exprs \<Rightarrow> fetch_exprs \<Rightarrow> parse_options" where
  "options_of tc fns fargs frets =
     \<lparr>po_exclude_vendor = tc_exclude_vendor tc, po_wildcards = tc_wildcards tc, po_func_names = fns,
      po_fetch_args = fargs, po_ret_fetch_args = frets, po_auto_args = tc_auto_args tc, po_auto_rets = tc_auto_rets tc\<rparr>"

text \<open>
  \<open>Start\<close> up to the attachment of the probes, with the confirmation given: the flags and the
  binary are parsed, the program is loaded and the first sampling rate written. A decoder
  that does not move on leaves no result (\<open>None\<close>). An attribute of the wrong class panics
  as soon as a function is looked up.
\<close>

definition start ::
  "'f floats \<Rightarrow> binary \<Rightarrow> tracer_config \<Rightarrow> u64 \<Rightarrow> u64 \<Rightarrow> u64 \<Rightarrow> bpf_state \<Rightarrow>
     (start_error + uprobe list \<times> config \<times> controller option \<times> bpf_state) option" where
  "start fl bn tc dev ino heap_alloc st =
     (case tracer_parse (tc_fargs tc) (tc_frets tc) of
        Inl err \<Rightarrow> Some (Inl (Go_failed err))
      | Inr (fns, fargs, frets) \<Rightarrow>
          (let opts = options_of tc fns fargs frets; attached = attach_funcs opts (bn_symbols bn)
           in case (if attached = [] then Inr Map.empty else subprogram_dies (bn_info bn) (bn_symbols bn)) of
             Inl err \<Rightarrow> Some (Inl (Debug_failed err))
           | Inr dies \<Rightarrow>
               if list_ex (\<lambda>fn. ret_offsets bn fn = None) attached then None
               else case parse_uprobes (bn_types bn) (dwarf_variables (bn_info bn) (bn_symbols bn)) (bn_symbols bn)
                      (bn_text bn) (\<lambda>fn. the (ret_offsets bn fn)) opts of
                 Inl err \<Rightarrow> Some (Inl (Go_failed err))
               | Inr ups \<Rightarrow>
                   (case find_goid_offset (bn_info bn) of
                      Inl err \<Rightarrow> Some (Inl (Debug_failed err))
                    | Inr goid \<Rightarrow>
                        (case load dev ino ups
                            \<lparr>lo_goid_offset = goid, lo_g_offset = find_g_offset (bn_symbols bn) (bn_tls bn),
                             lo_adaptive_sampling = tc_adaptive tc\<rparr> st of
                           Inl err \<Rightarrow> Some (Inl (Go_failed err))
                         | Inr (cfg, st) \<Rightarrow>
                             Some (Inr
                               (if tc_adaptive tc
                                then case tracer_start fl (push_bit 20 (tc_memory_limit_mb tc)) heap_alloc st of
                                       (ct, st) \<Rightarrow> (ups, cfg, Some ct, st)
                                else (ups, cfg, None, st)))))))"

lemma start_parts:
  assumes "start fl bn tc dev ino heap st0 = Some (Inr (ups, cfg, ct, st))" "fresh st0"
  obtains fns fargs frets goid where
    "tracer_parse (tc_fargs tc) (tc_frets tc) = Inr (fns, fargs, frets)"
    "parse_uprobes (bn_types bn) (dwarf_variables (bn_info bn) (bn_symbols bn)) (bn_symbols bn) (bn_text bn)
       (\<lambda>fn. the (ret_offsets bn fn)) (options_of tc fns fargs frets) = Inr ups"
    "find_goid_offset (bn_info bn) = Inr goid"
    "cfg = load_config dev ino ups \<lparr>lo_goid_offset = goid, lo_g_offset = find_g_offset (bn_symbols bn) (bn_tls bn),
        lo_adaptive_sampling = tc_adaptive tc\<rparr>"
    "loadable ups (tc_adaptive tc)"
    "arg_rules_map st = arg_rules_map (loaded ups (tc_adaptive tc) st0)"
    "type_recipes_map st = type_recipes_map st0"
proof -
  obtain fns fargs frets where p: "tracer_parse (tc_fargs tc) (tc_frets tc) = Inr (fns, fargs, frets)"
    using assms(1) by (auto simp: start_def split: sum.splits)
  obtain ups' goid cfg' st' where r:
      "parse_uprobes (bn_types bn) (dwarf_variables (bn_info bn) (bn_symbols bn)) (bn_symbols bn) (bn_text bn)
       (\<lambda>fn. the (ret_offsets bn fn)) (options_of tc fns fargs frets) = Inr ups'"
      "find_goid_offset (bn_info bn) = Inr goid"
      "load dev ino ups' \<lparr>lo_goid_offset = goid, lo_g_offset = find_g_offset (bn_symbols bn) (bn_tls bn),
        lo_adaptive_sampling = tc_adaptive tc\<rparr> st0 = Inr (cfg', st')"
      "(ups, cfg, ct, st) = (if tc_adaptive tc
         then case tracer_start fl (push_bit 20 (tc_memory_limit_mb tc)) heap st' of (ct, st) \<Rightarrow> (ups', cfg', Some ct, st)
         else (ups', cfg', None, st'))"
    using assms(1) by (auto simp: start_def p Let_def split: sum.splits if_splits)
  have e: "ups = ups'" "cfg = cfg'" "st = st' \<or> (\<exists>d. st = set_sample_denominator d st')"
    using r(4) by (auto simp: tracer_start_def split: if_splits prod.splits)
  have l: "loadable ups' (tc_adaptive tc)"
      "cfg' = load_config dev ino ups' \<lparr>lo_goid_offset = goid, lo_g_offset = find_g_offset (bn_symbols bn) (bn_tls bn),
        lo_adaptive_sampling = tc_adaptive tc\<rparr>" "st' = loaded ups' (tc_adaptive tc) st0"
    using r(3) load_result [OF assms(2)] by (auto simp del: prod.inject)
  show ?thesis
    by (rule that [OF p]) (use r e l in \<open>auto simp: loaded_def set_sample_denominator_def\<close>)
qed

section \<open>Rules stay\<close>

lemma with_maps_rules:
  "(\<And>st. arg_rules_map (f st) = arg_rules_map st) \<Longrightarrow>
     arg_rules_map (lr_maps (mg_learned (with_maps f m))) = arg_rules_map (lr_maps (mg_learned m))"
  by (simp add: with_maps_def)

lemma learn_rules: "arg_rules_map (lr_maps (learn_interface_types re accepts u e l)) = arg_rules_map (lr_maps l)"
proof -
  have one: "arg_rules_map (lr_maps (learn_arg re accepts n e a l)) = arg_rules_map (lr_maps l)" for n a l
    by (simp add: learn_arg_def Let_def set_type_recipe_def install_type_recipe_def split: option.split)
  have "arg_rules_map (lr_maps (fold (learn_arg re accepts n e) as l)) = arg_rules_map (lr_maps l)" for n as
    by (induction as arbitrary: l) (simp_all add: one)
  then show ?thesis by (simp add: learn_interface_types_def Let_def)
qed

lemma system_step_rules:
  "arg_rules_map (lr_maps (mg_learned (system_step cfg (auto_services sf re accepts) act m))) =
     arg_rules_map (lr_maps (mg_learned m))"
proof (cases act)
  case (Fires h)
  then show ?thesis by (simp add: with_maps_rules hit_maps)
next
  case (Resampled d)
  then show ?thesis by (simp add: with_maps_rules set_sample_denominator_def)
next
  case Consumed
  let ?m = "with_maps (\<lambda>st. snd (poll_event st)) m" and ?sv = "auto_services sf re accepts"
  have m: "arg_rules_map (lr_maps (mg_learned ?m)) = arg_rules_map (lr_maps (mg_learned m))"
    by (rule with_maps_rules) (simp add: poll_event_def split: list.split)
  have "arg_rules_map (lr_maps (mg_learned (snd (handle ?sv e ?m)))) = arg_rules_map (lr_maps (mg_learned m))" for e
    using handle_learned [of ?sv e ?m] m by (auto simp: auto_services_def learn_rules)
  then show ?thesis using Consumed by (simp split: option.split)
qed

lemma system_run_rules:
  "arg_rules_map (lr_maps (mg_learned (fold (system_step cfg (auto_services sf re accepts)) acts m))) =
     arg_rules_map (lr_maps (mg_learned m))"
  by (induction acts arbitrary: m) (simp_all add: system_step_rules)

section \<open>From the flags to the text\<close>

lemma absent_no_rules: "parse_fetch_args ps = Inr m \<Longrightarrow> map_of ps fn = None \<Longrightarrow> m fn = []"
  by (induction ps arbitrary: m rule: parse_fetch_args.induct) (auto split: sum.splits if_splits)

lemma variables_of_tree:
  assumes "subprogram_dies di symbols = Inr dies" "dies fn = Some (tree_root t)" "holds_tree di t" "well_formed t"
  shows "\<exists>rets. dwarf_variables di symbols fn = Some (map snd (filter (Not \<circ> fst) (parameters_of di t)), rets)"
  using assms
  by (auto simp: dwarf_variables_def function_variables_def die_children_tree parameters_of_def comp_def
      variables_args intro!: exI prod_eqI)

lemma loaded_rules:
  assumes "loadable ups adaptive" "u \<in> set ups" "up_fetch_args u \<noteq> []"
  shows "arg_rules_map (loaded ups adaptive st) (up_address u) = Some (probe_rules u)" (is ?rules)
    and "card (dom ((arg_rules_map (loaded ups adaptive st))(up_address u := None))) < 100" (is ?card)
    and "encodable u"
proof -
  have l: "distinct (map up_address (fetching ups))" "length (fetching ups) \<le> 100" "list_all encodable (fetching ups)"
    using assms(1) by (simp_all add: loadable_def Let_def)
  have u: "u \<in> set (fetching ups)" using assms(2,3) by (simp add: fetching_def)
  then show "encodable u" using l(3) by (simp add: list_all_iff)
  show r: ?rules using l(1) u by (auto simp: loaded_def comp_def intro: map_of_is_SomeI)
  let ?m = "arg_rules_map (loaded ups adaptive st)"
  have dom: "dom ?m = up_address ` set (fetching ups)"
    by (simp add: loaded_def dom_map_of_conv_image_fst image_image)
  have "card (dom ?m) \<le> 100" unfolding dom using l(2) card_image_le [of "set (fetching ups)" up_address] card_length [of "fetching ups"] by simp
  moreover have "up_address u \<in> dom ?m" "finite (dom ?m)" using r dom by auto
  ultimately show ?card using card_Diff1_less [of "dom ?m" "up_address u"] by simp
qed

lemma reinstalled:
  assumes "encodable u" "arg_rules_map st (up_address u) = Some (probe_rules u)"
    and "card (dom ((arg_rules_map st)(up_address u := None))) < 100"
  shows "set_arg_rules (up_address u) (up_fetch_args u) (st\<lparr>arg_rules_map := (arg_rules_map st)(up_address u := None)\<rparr>) = Inr st"
proof -
  have "(arg_rules_map st)(up_address u \<mapsto> probe_rules u) = arg_rules_map st" using assms(2) by auto
  then show ?thesis using assms(1,3) by (simp add: set_arg_rules_encodable update_no_exist_def)
qed


text \<open>The call \<open>main.f("abc", 7, errors.New("hi"))\<close> of a binary traced with \<open>--auto-args\<close>.\<close>

definition call_tree :: die_tree where
  "call_tree = DieTree (plain_die 20 TagSubprogram True
       [(AttrName, Str ''main.f''), (AttrLowpc, Unsigned 0x401000), (AttrHighpc, Signed 3)])
     [DieTree (plain_die 21 TagFormalParameter False [(AttrName, Str ''s''), (AttrType, Reference 5)]) [] 0,
      DieTree (plain_die 22 TagFormalParameter False [(AttrName, Str ''n''), (AttrType, Reference 6)]) [] 0,
      DieTree (plain_die 23 TagFormalParameter False [(AttrName, Str ''err''), (AttrType, Reference 7)]) [] 0] 24"

definition call_info :: debug_info where
  "call_info = \<lparr>di_entries = [unit_die] @ flatten call_tree @
       [plain_die 30 TagStructType True [(AttrName, Str ''runtime.g'')],
        plain_die 31 TagMember False [(AttrName, Str ''goid''), (AttrDataMemberLoc, Signed 152)], null_die 32, null_die 33],
     di_broken = False,
     di_type_at = (\<lambda>off. if off = 5 then Some string_type else if off = 6 then Some int_type
       else if off = 7 then Some error_type else None),
     di_lines = (\<lambda>d. No_line_table)\<rparr>"

definition one_byte :: "u8 list \<rightharpoonup> bool \<times> nat" where
  "one_byte bs = (if bs = [] then None else Some (hd bs = 0xC3, 1))"

definition call_binary :: binary where
  "call_binary = \<lparr>bn_symbols = f_table, bn_text = f_text, bn_info = call_info, bn_types = call_types,
     bn_tls = None, bn_decode = one_byte\<rparr>"

definition call_config :: tracer_config where
  "call_config = \<lparr>tc_exclude_vendor = False, tc_wildcards = [], tc_fargs = [''main.f''], tc_frets = [],
     tc_auto_args = True, tc_auto_rets = False, tc_adaptive = False, tc_memory_limit_mb = 64\<rparr>"

abbreviation "call_options \<equiv> options_of call_config [''main.f''] [] []"

definition call_rets :: "string \<Rightarrow> go_error + u64 list" where
  "call_rets fn = the (ret_offsets call_binary fn)"

lemma call_parsed_flags: "tracer_parse (tc_fargs call_config) (tc_frets call_config) = Inr ([''main.f''], [], [])"
  by code_simp

lemma call_attached: "attach_funcs call_options f_table = [''main.f'']"
  by code_simp

lemma call_dies: "subprogram_dies call_info f_table = Inr [''main.f'' \<mapsto> tree_root call_tree]"
  by (simp add: subprogram_dies_def call_info_def call_tree_def unit_die_def plain_die_def null_die_def
      subprogram_name_def f_table_def f_symbols_def sym_names_def)

lemma call_well_formed: "well_formed call_tree" "holds_tree call_info call_tree"
proof -
  show "well_formed call_tree" by (simp add: call_tree_def plain_die_def)
  show "holds_tree call_info call_tree"
    unfolding holds_tree_def
    by (intro exI [of _ "[unit_die]"] exI [of _ "drop 6 (di_entries call_info)"])
      (simp add: call_info_def call_tree_def unit_die_def plain_die_def null_die_def)
qed

lemma call_variables: "map snd (filter (Not \<circ> fst) (parameters_of call_info call_tree)) = auto_vars"
  by (simp add: parameters_of_def parameter_of_def call_info_def call_tree_def plain_die_def map_filter_simps auto_vars_def)

lemma call_goid: "find_goid_offset call_info = Inr 152"
  by (simp add: find_goid_offset_def call_info_def call_tree_def unit_die_def plain_die_def null_die_def)

lemma call_range: "dwarf_ranges call_info f_table ''main.f'' = Some (0x401000, 0x401003)"
  by (simp add: dwarf_ranges_def func_pc_range_in_dwarf_def call_dies call_tree_def plain_die_def)

lemma call_instructions: "resolve_instructions one_byte [1, 2, 0xC3] = Some [(False, 1), (False, 1), (True, 1)]"
  by (simp add: resolve_instructions_def) (subst instructions_loop.simps, simp add: decode_one_def one_byte_def)+

lemma call_rets_found: "ret_offsets call_binary ''main.f'' = Some (Inr [0x1003])"
  by (simp add: ret_offsets_def call_binary_def func_ret_offsets_def func_raw_instructions_def call_range f_text_def call_instructions)

definition traced_probes :: "uprobe list" where
  "traced_probes =
     [\<lparr>up_funcname = ''runtime.goexit1'', up_address = 0x401003, up_abs_offset = 0x1004, up_rel_offset = 0,
       up_location = AtGoroutineExit, up_fetch_args = [], up_values = [], up_wanted = False\<rparr>,
      \<lparr>up_funcname = ''main.f'', up_address = 0x401000, up_abs_offset = 0x1001, up_rel_offset = 0,
       up_location = AtEntry, up_fetch_args = call_args, up_values = call_values, up_wanted = True\<rparr>,
      \<lparr>up_funcname = ''main.f'', up_address = 0x401002, up_abs_offset = 0x1003, up_rel_offset = 2,
       up_location = AtRet, up_fetch_args = [], up_values = [], up_wanted = True\<rparr>]"

lemma call_auto: "dwarf_variables call_info f_table ''main.f'' = Some (auto_vars, [])" "call_args \<noteq> []"
  by code_simp+

lemma call_wanted: "wanted_funcs call_options f_table = [''main.f'']"
  by code_simp

lemma call_filled:
  "fill_auto_fetch call_types (dwarf_variables call_info f_table) [''main.f''] True False
     \<lparr>fm_args = (\<lambda>fn. []), fm_rets = (\<lambda>fn. []), fm_arg_values = (\<lambda>fn. []), fm_ret_values = (\<lambda>fn. [])\<rparr> =
   \<lparr>fm_args = (\<lambda>fn. [])(''main.f'' := call_args), fm_rets = (\<lambda>fn. []),
     fm_arg_values = (\<lambda>fn. [])(''main.f'' := call_values), fm_ret_values = (\<lambda>fn. [])\<rparr>"
  using call_auto(2)
  by (cases "derive_args call_types auto_vars") (simp add: fill_auto_fetch_def fill_one_def auto_fetch_args_def call_auto(1) Let_def split: prod.split)

lemma call_parsed:
  "parse_uprobes call_types (dwarf_variables call_info f_table) f_table f_text (\<lambda>fn. the (ret_offsets call_binary fn)) call_options =
     Inr traced_probes"
proof -
  have opts: "po_fetch_args call_options = []" "po_ret_fetch_args call_options = []" "po_auto_args call_options" "\<not> po_auto_rets call_options"
    by (simp_all add: options_of_def call_config_def)
  show ?thesis
    by (simp add: parse_uprobes_def opts call_attached call_wanted call_filled call_rets_found cong: sum.case_cong option.case_cong if_cong)
      (simp add: resolve_symbol_def sym_names_def func_offset_def f_table_def f_symbols_def f_text_def traced_probes_def)
qed

lemma call_loadable: "loadable traced_probes False"
proof -
  have "encodable (traced_probes ! 1)" by code_simp
  then show ?thesis
    using call_auto(2) by (simp add: loadable_def Let_def fetching_def) (simp add: traced_probes_def wanted_entry_def)
qed

definition call_loaded :: bpf_state where
  "call_loaded = loaded traced_probes False demo_fresh"

lemma call_started:
  "start fl call_binary call_config 0 0 0 demo_fresh =
     Some (Inr (traced_probes, load_config 0 0 traced_probes
        \<lparr>lo_goid_offset = 152, lo_g_offset = find_g_offset f_table None, lo_adaptive_sampling = False\<rparr>, None, call_loaded))"
proof -
  have bn: "bn_symbols call_binary = f_table" "bn_text call_binary = f_text" "bn_info call_binary = call_info"
      "bn_types call_binary = call_types" "bn_tls call_binary = None" "\<not> tc_adaptive call_config"
    by (simp_all add: call_binary_def call_config_def)
  have "fresh demo_fresh" by (simp add: fresh_def demo_fresh_def demo_state_def)
  then have load: "load 0 0 traced_probes \<lparr>lo_goid_offset = 152, lo_g_offset = find_g_offset f_table None, lo_adaptive_sampling = False\<rparr> demo_fresh =
      Inr (load_config 0 0 traced_probes \<lparr>lo_goid_offset = 152, lo_g_offset = find_g_offset f_table None, lo_adaptive_sampling = False\<rparr>, call_loaded)"
    by (simp add: load_result call_loadable call_loaded_def)
  show ?thesis
    by (simp add: start_def call_parsed_flags bn call_attached call_dies call_rets_found call_parsed call_goid load Let_def)
qed

definition call_cfg :: config where
  "call_cfg = load_config 0 0 traced_probes
     \<lparr>lo_goid_offset = 152, lo_g_offset = find_g_offset f_table None, lo_adaptive_sampling = False\<rparr>"

definition call_learning :: learning where
  "call_learning = mg_learned (fold (system_step call_cfg (auto_services (\<lambda>d. []) call_env (\<lambda>a st. True))) [Resampled 1, Consumed]
     (new_manager traced_probes (bn_symbols call_binary) [] False True 1024
        \<lparr>lr_recipes = Map.empty, lr_learned = (\<lambda>a. False), lr_maps = call_loaded\<rparr>))"

lemma call_registers_live:
  "live_parts call_env call_memory call_values (map (register_value call_ctx) abi_regs) =
     [''s='' @ [quote_char] @ ''abc'' @ [quote_char], ''n=7'',
      ''err=&errors.errorString{s:'' @ [quote_char] @ ''hi'' @ [quote_char] @ ''}'']"
  "itabs_readable call_memory call_values (map (register_value call_ctx) abi_regs)"
proof -
  have regs: "map (register_value call_ctx) abi_regs =
      [0x4161, 3, 7, 0x7000, 0x8000] @ map (register_value call_ctx) (drop 5 abi_regs)"
    unfolding call_registers [symmetric] map_append [symmetric] by simp
  show "live_parts call_env call_memory call_values (map (register_value call_ctx) abi_regs) =
     [''s='' @ [quote_char] @ ''abc'' @ [quote_char], ''n=7'',
      ''err=&errors.errorString{s:'' @ [quote_char] @ ''hi'' @ [quote_char] @ ''}'']"
    unfolding regs call_values_eq call_live [symmetric] by (rule live_parts_append) (simp add: value_of_def)
  show "itabs_readable call_memory call_values (map (register_value call_ctx) abi_regs)"
    unfolding regs call_values_eq by (subst live_parts_append(2)) (simp add: value_of_def, rule call_readable)
qed


end
