(* ===== verification/Spec2Isabelle.thy ===== *)
theory Spec2Isabelle
  imports Ftrace_Concurrency Ftrace_Helper_Calls Ftrace_Sampler Ftrace_Poller Ftrace_Aggregate Ftrace_Retvals
    Ftrace_Start
begin

text \<open>
  go-ftrace traces the function calls of running Go programs with uprobes. Its core, and the
  subject of this library, is the eBPF program \<open>src/internal/bpf/ftrace.c\<close>: three programs
  attached to function entries (\<open>ent\<close>), RET instructions (\<open>ret\<close>) and
  \<open>runtime.goexit1\<close> (\<open>goroutine_exit\<close>), which share nine maps with userspace. A hit
  identifies the goroutine, decides whether it is being traced (a wanted root call is sampled
  with probability one over the current denominator), fetches the arguments its rules ask for
  and pushes one event into a queue the Go side polls. Around it are the Go parts the second
  half of the library models: the reader of the binary's symbols and debug information, the
  parser that finds the probes, compiles argument expressions to rules or derives rules from
  Go types, the loader that fills the maps, the poller, the sampling controller that closes the
  loop over the denominator, the event manager that turns the events of a goroutine back into
  calls, learns the types seen in interfaces and prints what was fetched.

  \<^bold>\<open>Theories, in the order of the code.\<close>
  \<^item> \<open>Ftrace_Prelude\<close>: word types, little-endian cells, and the interfaces of machines:
    \<open>invariant_machine\<close>, \<open>keyed_machine\<close> and \<open>counting_machine\<close>.
  \<^item> \<open>C_Layout\<close>, \<open>Vmlinux_Layout\<close>: C layout rules; \<open>struct task_struct\<close>,
    \<open>struct pt_regs\<close> and all they contain, from \<open>headers/vmlinux.h\<close>; the offset of the
    TLS base.
  \<^item> \<open>Ftrace_Types\<close>: constants, structs as records, the maps as the record
    \<open>bpf_state\<close>.
  \<^item> \<open>Ftrace_Kernel\<close>: the answers of the kernel's helpers to one hit as the record
    \<open>kenv\<close>; \<open>get_goid\<close>, \<open>get_pid\<close>.
  \<^item> \<open>Ftrace_Fetch\<close>, \<open>Ftrace_Fetch_Laws\<close>: argument fetching, one definition per C
    function and loop; its specification (\<open>follow\<close>, \<open>address_leaf\<close>,
    \<open>expected_leaves\<close>) and the refinement.
  \<^item> \<open>Ftrace_Sampling\<close>: statistics, sampling decision, push.
  \<^item> \<open>Ftrace_Probes\<close>: the three programs, composed of their blocks.
  \<^item> \<open>Ftrace_Machine\<close>: hits and runs. \<open>hit_effect\<close> reduces a hit to two functions of the
    goroutine's own table entry, \<open>hit_cell\<close> and \<open>hit_event\<close>; the interpretation
    \<open>goroutines\<close> of \<open>keyed_machine\<close> makes goroutines independent. Runs interleave hits
    with the accesses of \<open>src/internal/bpf/bpf.go\<close>: \<open>SetSampleDenominator\<close>,
    \<open>SetTypeRecipe\<close>, \<open>PollEvents\<close>.
  \<^item> \<open>Ftrace_Protocol\<close>: the automaton of a goroutine's event stream and its simulation;
    the bound on the counters of a trace state; tracing without adaptive sampling.
  \<^item> \<open>Ftrace_Calls\<close>: samples against trees of calls of the traced program.
  \<^item> \<open>Ftrace_Stats\<close>: accounting of root calls, pushes and admissions per CPU.
  \<^item> \<open>Ftrace_Events\<close>: type invariant of the queue, the poller's view, the properties of
    fetching, the refinement of the programs as a whole.
  \<^item> \<open>Ftrace_Layout\<close>: layout of the shared structs, the map definitions, the Go mirror,
    bytes of keys and queue elements.
  \<^item> \<open>Ftrace_Memory\<close>: argument rules and the search for the goroutine over a memory.
  \<^item> \<open>Ftrace_Concurrency\<close>: programs split at their push, the locale \<open>split_machine\<close> and
    the serializability of overlapping hits.
  \<^item> \<open>Bpf_Helpers\<close>, \<open>Ftrace_Helper_Calls\<close>: the declarations of the 180 kernel helpers,
    the program's calls of them, and the rewriting of \<open>pid_helper_compat.go\<close>.
  \<^item> \<open>Go_Strings\<close>, \<open>Ftrace_Rules\<close>, \<open>Ftrace_Flags\<close>, \<open>Ftrace_Statements\<close>,
    \<open>Ftrace_Misread\<close>: the expressions of \<open>cmd/tracer.go\<close> and \<open>internal/uprobe/fetcharg.go\<close>,
    their encoding by \<open>setArgRules\<close> (\<open>internal/bpf/bpf.go\<close>) and the rendering of what was
    fetched. A grammar of addresses (\<open>At\<close>, \<open>Plus\<close>, \<open>Load\<close>) with a meaning over a
    memory is the specification: what is printed is what the expression denotes; the last
    theory shows where it is not.
  \<^item> \<open>Ftrace_Symbols\<close>, \<open>Ftrace_Code\<close>: symbol table, binary search and return offsets
    (\<open>elf/symtab.go\<close>, \<open>text.go\<close>, \<open>asm.go\<close>).
  \<^item> \<open>Ftrace_Uprobes\<close>, \<open>Ftrace_Load\<close>: wildcards, the choice of probes
    (\<open>internal/uprobe/parser.go\<close>), \<open>Load\<close> and what it leaves in the maps;
    \<open>Ftrace_Traced\<close>: loaded programs trace their calls.
  \<^item> \<open>Ftrace_Sampler\<close>, \<open>Ftrace_Poller\<close>: \<open>cmd/sampler.go\<close> with the sampling tick, and the
    loop of \<open>PollEvents\<close>, each interleaved with the hits of the programs. The locale
    \<open>progress_machine\<close> gives the recovery of full collection.
  \<^item> \<open>Ftrace_Manager\<close>: the event manager (\<open>internal/eventmanager\<close>); \<open>Ftrace_Budget\<close>: its
    memory bounds as an invariant of every operation; \<open>Ftrace_Retvals\<close>: the table of
    frequent return values; \<open>Ftrace_View\<close>, \<open>Ftrace_Aggregate\<close>: what one goroutine's events
    do to it, whatever the others do, up to the statement from the probes to the statistics.
  \<^item> \<open>Ftrace_Dwarf\<close>, \<open>Ftrace_Auto\<close>: the types of \<open>debug/dwarf\<close> as a datatype and the
    planner of \<open>internal/uprobe/auto.go\<close>; \<open>Ftrace_Plan\<close>: its plan against the calling
    convention, registers in order and eight slots.
  \<^item> \<open>Ftrace_Snapshot\<close>: the recipes of \<open>recipe.go\<close> and the snapshot of \<open>value.go\<close>;
    \<open>Ftrace_Render\<close>: its renderer; \<open>Ftrace_Exact\<close>, \<open>Ftrace_Binding\<close>: what is printed from a
    partial snapshot is what all of memory shows, or says that it is unavailable;
    \<open>Ftrace_Recipes\<close>: what a recipe copies; \<open>Ftrace_Arguments\<close>: from the registers of a hit to
    the text; \<open>Ftrace_Misprints\<close>: where the text is wrong.
  \<^item> \<open>Ftrace_Learning\<close>: the learner of \<open>handler.go\<close> with the tracer as one machine
    (\<open>system_step\<close>): probes fire, rates are set, events are handled.
  \<^item> \<open>Ftrace_Debuginfo\<close>: \<open>elf/dwarf.go\<close>, \<open>dwarf_args.go\<close>, \<open>tls.go\<close> over the entries the
    reader of \<open>debug/dwarf\<close> hands out, and the rules the probes get from them.
  \<^item> \<open>Ftrace_Print\<close>: the lines of a stack and the end of a run (\<open>print.go\<close>).
  \<^item> \<open>Ftrace_Start\<close>: \<open>Start\<close> of \<open>cmd/tracer.go\<close> up to the attachment, and the composition
    from the flags and the binary to the text of an event.
  \<^item> \<open>Ftrace_Examples\<close>: concrete inputs at which the properties are evaluated.

  \<^bold>\<open>Modelling decisions.\<close> Integers have their C width and wrap. The kernel is a parameter:
  every return code, every byte a read helper leaves behind, random number and time of a hit
  is a field of \<open>kenv\<close> about which nothing is assumed unless a property names it; a map
  changes only when the helper reports success, so that a full queue or table is a non-zero
  code and the capacities need no counting. The three assumptions that occur are
  \<open>reads_objects\<close> (a read helper copies an object the program owns), deletion of an
  existing entry succeeds, and the push helper's code fits a C \<open>int\<close>. A hit is one step:
  the entry of a goroutine is only touched by hits of that goroutine, the per-CPU entries only
  by hits of that CPU, and \<open>Ftrace_Concurrency\<close> shows that this is enough for overlapping
  hits to have the effect of hits one after the other. Pointers into maps are the entries they point to; the loops carry
  their counters and end by a measure, eight or four rounds, so no fuel is needed.

  On the Go side an error is a value of \<open>go_error\<close> and an index out of range one of them; a
  map whose order or size matters is an association list. The loop over the instructions of a
  function is a \<open>partial_function\<close>, shown to end for every decoder that moves on; everything
  else recurses on its data. Rendering follows pointers into a table of types, which may be
  recursive: it carries the depth of the code, \<open>max_dynamic_depth\<close> = 8, at which the code
  stops too, and the name of a type, which has no bound in the code, takes the depth
  \<open>re_name_depth\<close> as its fuel. Parameters are the results of floating-point expressions
  (\<open>floats\<close>), the instruction decoder, the symbol table, the entries and line rows of the
  debug information (\<open>debug_info\<close>) and the sorting of the rows, and in the renderer
  (\<open>render_env\<close>) the types pointers lead to, the table of runtime types, the names
  \<open>debug/dwarf\<close> gives to types, quoting and the formatting of floats. The manager takes
  rendering and learning as \<open>services\<close>; \<open>auto_services\<close> are those of the code, in which
  \<open>accepts\<close> says whether the kernel takes a recipe.

  The locales of the machines are interpreted on the programs (\<open>goroutines\<close>, \<open>typed\<close>), the
  controller (\<open>tracer\<close>), the event manager (\<open>budget\<close>) and the whole tracer (\<open>system\<close>).

  \<^bold>\<open>Not modelled.\<close> The text of the statistics and of the summaries in \<open>print.go\<close>, which is
  formatting of counters, and colours and the format of times; opening the binary and finding
  its sections (\<open>elf.go\<close>, \<open>header.go\<close>); the declaration of flags, the prompt, timers and
  signals. Attaching and detaching are calls of the eBPF library. Of the kernel's generated
  headers only what the program uses is modelled, and all helper declarations.
\<close>

section \<open>Properties across components\<close>

lemma phase_run_prefix:
  assumes "phase_run rets ph (es @ es') = Some ph'"
  shows "\<exists>ph1. phase_run rets ph es = Some ph1"
  using assms by (simp add: phase_run_append split: option.splits)

lemma polled_own:
  "stream_of cfg k as st = filter (\<lambda>e. event_key e = k) (polled cfg as st)
     @ filter (\<lambda>e. event_key e = k) (event_queue (fold (act_step cfg) as st))"
  if "event_queue st = []"
proof -
  have "stream cfg as st = polled cfg as st @ event_queue (fold (act_step cfg) as st)"
    using polled_stream [of cfg as st] that by simp
  then show ?thesis by (simp add: stream_of_def)
qed

text \<open>C19: End to end, from the probes to the poller: starting with an empty queue and goroutine
  table, under adaptive sampling and without losses, what the poller has received of a
  goroutine at any time follows the trace protocol, its samples opened by TRACE_START and
  closed as the protocol allows.\<close>

theorem consumer_sees_protocol:
  assumes "cfg_adaptive_sampling cfg" "list_all (lossless cfg k) as"
    and "should_trace_goid st k = None" "event_queue st = []"
  shows "\<exists>ph. phase_run (should_trace_ret st) Idle (filter (\<lambda>e. event_key e = k) (polled cfg as st)) = Some ph"
proof -
  have "phase_run (should_trace_ret st) Idle (stream_of cfg k as st)
      = Some (phase_of (should_trace_goid (fold (act_step cfg) as st) k))"
    using run_follows [OF assms(1,2), of st] assms(3) by simp
  then show ?thesis
    unfolding polled_own [OF assms(4)] by (rule phase_run_prefix)
qed

theorem consumer_sees_protocol_witness:
  "\<exists>ph. phase_run (should_trace_ret demo_state) Idle
     (filter (\<lambda>e. event_key e = hit_key demo_cfg (demo_env 0)) (polled demo_cfg demo_run demo_state)) = Some ph"
  by (rule consumer_sees_protocol)
    (use demo_run_ok(1) [of demo_cfg "hit_key demo_cfg (demo_env 0)"] in simp_all)

text \<open>C29: End to end, for the contents: in every state reachable with shaped rules and recipes,
  each event in the queue, written to memory in the C layout with any tail padding, is read
  back by userspace as the event the program pushed.\<close>

theorem consumer_reads_events:
  assumes "well_typed st" "list_all installs_shaped as"
    and "e \<in> set (event_queue (fold (act_step cfg) as st))" "length tail = 4"
  shows "go_read_event (event_bytes e tail) = e"
proof -
  have "well_typed (fold (act_step cfg) as st)" by (rule typed.inv_run [OF assms(2,1)])
  then have "event_shape e"
    using assms(3) by (auto simp: well_typed_def list_all_iff event_wf_def leaves_ok_def)
  then show ?thesis using event_wire [OF _ assms(4)] by blast
qed

definition demo_queued :: bpf_state where
  "demo_queued = demo_state\<lparr>event_queue := [zero_event\<lparr>ev_pid := 23\<rparr>]\<rparr>"

lemma demo_queued_typed: "well_typed demo_queued"
  by (simp add: well_typed_def maps_typed_def rules_shape_def recipes_shape_def demo_queued_def
      event_wf_def zero_event_leaves location_defs flag_defs)
    (simp add: zero_event_def)

theorem consumer_reads_events_witness:
  "go_read_event (event_bytes (zero_event\<lparr>ev_pid := 23\<rparr>) [9, 9, 9, 9]) = zero_event\<lparr>ev_pid := 23\<rparr>"
  by (rule consumer_reads_events [OF demo_queued_typed, of "[Set_denominator 5]" _ demo_cfg])
    (simp_all add: demo_queued_def Let_def)

text \<open>A denominator set from userspace is the one the programs sample with: zero and one both
  mean full collection, any other value is used as it is, and a later setting replaces an
  earlier one.\<close>

lemma denominator_roundtrip:
  "current_sample_denominator (set_sample_denominator d st) = (if d = 0 then 1 else d) \<and>
   (should_sample env (current_sample_denominator (set_sample_denominator d st)) \<longleftrightarrow>
      d = 0 \<or> k_prandom env mod d = 0) \<and>
   set_sample_denominator d (set_sample_denominator d' st) = set_sample_denominator d st"
proof -
  have one: "current_sample_denominator (set_sample_denominator d st) = (if d = 0 then 1 else d)"
  proof (cases "d \<le> 1")
    case True
    then have "d = 0 \<or> d = 1" by unat_arith
    then show ?thesis by (auto simp: current_sample_denominator_def set_sample_denominator_def)
  next
    case False
    then have "d \<noteq> 0" by auto
    then show ?thesis using False
      by (simp add: current_sample_denominator_def set_sample_denominator_def)
  qed
  have "should_sample env (if d = 0 then 1 else d) \<longleftrightarrow> d = 0 \<or> k_prandom env mod d = 0"
  proof (cases "d \<le> 1")
    case True
    then have "d = 0 \<or> d = 1" by unat_arith
    then show ?thesis by (auto simp: should_sample_def)
  next
    case False
    then have "d \<noteq> 0" by auto
    then show ?thesis using False unfolding should_sample_def by simp
  qed
  with one show ?thesis by (simp add: set_sample_denominator_def)
qed

end
